(* ===== verification/Prelude.thy ===== *)
theory Prelude
  imports Complex_Main "HOL-Library.Word"
begin

section \<open>Shared vocabulary of the LangStream development\<close>

text \<open>
  Types, constants and generic lemmas that the component theories share.

  \<^item> Bytes and fixed-width integers are words: \<open>byte\<close>, \<open>u16\<close>, \<open>u32\<close>, \<open>i64\<close>; a Go
    \<open>[]byte\<close> is a \<open>bytes\<close> list (a nil slice and an empty slice are both \<open>[]\<close>: no
    modelled code tells them apart).
  \<^item> A \<open>time.Time\<close> and a \<open>time.Duration\<close> are \<open>int\<close> nanosecond counts, except where the
    code's arithmetic can leave 64 bits (theory \<open>Breaker\<close> keeps the width there).
  \<^item> A Go \<open>float64\<close> is a \<open>real\<close>: rounding is not modelled.
  \<^item> Named collections \<open>inv_intros\<close> (introduction rules for component invariants) and
    \<open>op_defs\<close> (definitions of the operations a component's automation unfolds).
\<close>

named_theorems inv_intros \<open>introduction rules for invariants of components\<close>
named_theorems op_defs \<open>definitions of operations unfolded by component automation\<close>

type_synonym byte = "8 word"
type_synonym u16 = "16 word"
type_synonym u32 = "32 word"
type_synonym i64 = "64 word"
type_synonym bytes = "byte list"
type_synonym instant = int
type_synonym duration = int
type_synonym float64 = real
type_synonym language = string

abbreviation millisecond :: duration where "millisecond \<equiv> 1000000"
abbreviation second :: duration where "second \<equiv> 1000000000"

subsection \<open>Go integer division\<close>

text \<open>Go's \<open>/\<close> on signed integers truncates towards zero.\<close>

definition go_div :: "int \<Rightarrow> int \<Rightarrow> int" where
  "go_div a b = sgn a * sgn b * (\<bar>a\<bar> div \<bar>b\<bar>)"

lemma go_div_nonneg: "0 \<le> a \<Longrightarrow> 0 < b \<Longrightarrow> go_div a b = a div b"
  by (cases "a = 0") (auto simp: go_div_def sgn_if)

subsection \<open>Association lists\<close>

text \<open>
  A Go map that the code ranges over is an association list with distinct keys, so that
  \<open>len(m)\<close> and a \<open>range\<close> loop are executable. \<open>al_put\<close> and \<open>al_del\<close> are \<open>m[k] = v\<close> and
  \<open>delete(m, k)\<close>; \<open>map_of\<close> is the lookup.
\<close>

fun al_put :: "'k \<Rightarrow> 'v \<Rightarrow> ('k \<times> 'v) list \<Rightarrow> ('k \<times> 'v) list" where
  "al_put k v [] = [(k, v)]"
| "al_put k v ((a, w) # xs) = (if a = k then (k, v) # xs else (a, w) # al_put k v xs)"

fun al_del :: "'k \<Rightarrow> ('k \<times> 'v) list \<Rightarrow> ('k \<times> 'v) list" where
  "al_del k [] = []"
| "al_del k ((a, w) # xs) = (if a = k then al_del k xs else (a, w) # al_del k xs)"

abbreviation keys :: "('k \<times> 'v) list \<Rightarrow> 'k set" where
  "keys xs \<equiv> fst ` set xs"

abbreviation wf_al :: "('k \<times> 'v) list \<Rightarrow> bool" where
  "wf_al xs \<equiv> distinct (map fst xs)"

lemma al_del_filter: "al_del k xs = filter (\<lambda>e. fst e \<noteq> k) xs"
  by (induction k xs rule: al_del.induct) simp_all

lemma map_of_al_put_at: "map_of (al_put k v xs) x = (if x = k then Some v else map_of xs x)"
  by (induction k v xs rule: al_put.induct) auto

lemma map_of_al_del_at: "map_of (al_del k xs) x = (if x = k then None else map_of xs x)"
  by (induction k xs rule: al_del.induct) auto

lemma map_of_al_put [simp]: "map_of (al_put k v xs) = (map_of xs)(k \<mapsto> v)"
  by (rule ext) (simp add: map_of_al_put_at)

lemma map_of_al_del [simp]: "map_of (al_del k xs) = (map_of xs)(k := None)"
  by (rule ext) (simp add: map_of_al_del_at)

lemma keys_al_put [simp]: "keys (al_put k v xs) = insert k (keys xs)"
  by (induction k v xs rule: al_put.induct) auto

lemma keys_al_del [simp]: "keys (al_del k xs) = keys xs - {k}"
  by (auto simp: al_del_filter)

lemma set_al_del: "set (al_del k xs) = {e \<in> set xs. fst e \<noteq> k}"
  by (simp add: al_del_filter)

lemma set_al_put_new: "k \<notin> keys xs \<Longrightarrow> set (al_put k v xs) = insert (k, v) (set xs)"
  by (induction k v xs rule: al_put.induct) auto

lemma al_put_new: "k \<notin> keys xs \<Longrightarrow> al_put k v xs = xs @ [(k, v)]"
  by (induction k v xs rule: al_put.induct) auto

lemma al_del_new: "k \<notin> keys xs \<Longrightarrow> al_del k xs = xs"
  by (induction k xs rule: al_del.induct) auto

lemma wf_al_put [simp, intro]: "wf_al xs \<Longrightarrow> wf_al (al_put k v xs)"
  by (induction k v xs rule: al_put.induct) (simp_all, blast)

lemma wf_al_del [simp, intro]: "wf_al xs \<Longrightarrow> wf_al (al_del k xs)"
  by (simp add: al_del_filter distinct_map_filter)

lemma map_of_None_keys: "map_of xs k = None \<longleftrightarrow> k \<notin> keys xs"
  by (rule map_of_eq_None_iff)

lemma map_of_Some_keys: "map_of xs k = Some v \<Longrightarrow> k \<in> keys xs"
  by (metis map_of_None_keys option.distinct(1))

lemma length_al_put_new: "k \<notin> keys xs \<Longrightarrow> length (al_put k v xs) = Suc (length xs)"
  by (simp add: al_put_new)

lemma length_al_del_in: "wf_al xs \<Longrightarrow> k \<in> keys xs \<Longrightarrow> Suc (length (al_del k xs)) = length xs"
proof (induction k xs rule: al_del.induct)
  case (2 k a w xs)
  show ?case
  proof (cases "a = k")
    case True
    with 2(3) have "k \<notin> keys xs" by auto
    then show ?thesis using True by (simp add: al_del_new)
  next
    case False
    with 2 show ?thesis by auto
  qed
qed simp

lemma length_al_del_le: "length (al_del k xs) \<le> length xs"
  by (induction k xs rule: al_del.induct) auto

subsection \<open>Little-endian 16-bit samples\<close>

text \<open>The two bytes of a 16-bit word, low byte first, and the word they spell.\<close>

definition lo8 :: "u16 \<Rightarrow> byte" where "lo8 w = ucast w"
definition hi8 :: "u16 \<Rightarrow> byte" where "hi8 w = ucast (drop_bit 8 w)"
definition u16_le :: "byte \<Rightarrow> byte \<Rightarrow> u16" where
  "u16_le lo hi = or (ucast lo) (push_bit 8 (ucast hi))"

lemma u16_le_split [simp]: "u16_le (lo8 w) (hi8 w) = w"
  unfolding u16_le_def lo8_def hi8_def
  by (rule bit_word_eqI) (auto simp: bit_simps)

lemma lo8_u16_le [simp]: "lo8 (u16_le lo hi) = lo"
  unfolding u16_le_def lo8_def
  by (rule bit_word_eqI) (auto simp: bit_simps)

lemma hi8_u16_le [simp]: "hi8 (u16_le lo hi) = hi"
  unfolding u16_le_def hi8_def
  by (rule bit_word_eqI) (auto simp: bit_simps dest: bit_imp_le_length)

subsection \<open>Strings\<close>

text \<open>
  \<open>strings.TrimSpace\<close> (ASCII white space), \<open>strings.HasPrefix\<close>, lower case of ASCII letters, \<open>strings.CutPrefix\<close> and
  \<open>utf8.RuneCountInString\<close> on valid UTF-8 (every byte but the continuation bytes starts a rune).
\<close>

definition trim_char :: "char \<Rightarrow> bool" where
  "trim_char c \<longleftrightarrow> c \<in> {CHR '' '', CHR 0x09, CHR 0x0A, CHR 0x0B, CHR 0x0C, CHR 0x0D}"

definition TrimSpace :: "string \<Rightarrow> string" where
  "TrimSpace s = rev (dropWhile trim_char (rev (dropWhile trim_char s)))"

definition has_prefix :: "string \<Rightarrow> string \<Rightarrow> bool" where
  "has_prefix s p \<longleftrightarrow> take (length p) s = p"

definition lower_char :: "char \<Rightarrow> char" where
  "lower_char c = (let n = (of_char c :: nat) in if 65 \<le> n \<and> n \<le> 90 then char_of (n + 32) else c)"

definition CutPrefix :: "string \<Rightarrow> string \<Rightarrow> string option" where
  "CutPrefix s p = (if has_prefix s p then Some (drop (length p) s) else None)"

definition rune_count :: "string \<Rightarrow> nat" where
  "rune_count s = length (filter (\<lambda>c. (of_char c :: nat) div 64 \<noteq> 2) s)"

lemma CutPrefix_append [simp]: "CutPrefix (p @ s) p = Some s"
  by (simp add: CutPrefix_def has_prefix_def)

lemma TrimSpace_id: "s = [] \<or> \<not> trim_char (hd s) \<and> \<not> trim_char (last s) \<Longrightarrow> TrimSpace s = s"
proof -
  assume "s = [] \<or> \<not> trim_char (hd s) \<and> \<not> trim_char (last s)"
  then have "dropWhile trim_char s = s" "dropWhile trim_char (rev s) = rev s"
    by (simp_all add: dropWhile_eq_self_iff hd_rev, auto)
  then show ?thesis by (simp add: TrimSpace_def)
qed

subsection \<open>Formatting\<close>

text \<open>
  \<open>%d\<close>, \<open>%q\<close> for strings without control characters, and \<open>%v\<close> of a list of strings.
\<close>

fun show_nat :: "nat \<Rightarrow> string" where
  "show_nat n = (if n < 10 then [char_of (48 + n)] else show_nat (n div 10) @ [char_of (48 + n mod 10)])"

declare show_nat.simps [simp del]

definition show_int :: "int \<Rightarrow> string" where
  "show_int i = (if i < 0 then CHR ''-'' # show_nat (nat (- i)) else show_nat (nat i))"

definition quote_char :: "char \<Rightarrow> string" where
  "quote_char c = (if c = CHR 0x22 \<or> c = CHR 0x5C then [CHR 0x5C, c] else [c])"

definition fmt_q :: "string \<Rightarrow> string" where
  "fmt_q s = [CHR 0x22] @ concat (map quote_char s) @ [CHR 0x22]"

definition show_list :: "string list \<Rightarrow> string" where
  "show_list ns = ''['' @ (case ns of [] \<Rightarrow> [] | n # ns' \<Rightarrow> n @ concat (map (Cons CHR '' '') ns')) @ '']''"

end
