(* ===== verification/Jitter.thy ===== *)
theory Jitter
  imports Prelude "HOL-Library.Multiset"
begin

section \<open>The jitter buffer (pkg/rtp/jitter.go)\<close>

text \<open>
  The fixed-delay jitter buffer: \<open>Push\<close>, \<open>Pull\<close>, \<open>Stats\<close>, the circular distance
  \<open>seqDelta\<close>, the playout deadline and the configuration defaults. The mutex makes each
  exported method atomic, so a method is one state transformer. The Go map \<open>buffered\<close> is an
  association list with distinct keys; the eviction loop ranges over it in list order, and
  \<open>furthest_order_irrelevant\<close> shows that the order does not matter. Times and durations are
  unbounded nanosecond counts: the product \<open>Duration(steps) * PacketInterval\<close> stays below
  \<open>2^63\<close> for every interval under 78 hours.
\<close>

subsection \<open>Data\<close>

record Packet =
  SeqNum :: u16
  Timestamp :: u32
  Payload :: bytes

definition zero_Packet :: Packet where
  "zero_Packet = \<lparr>SeqNum = 0, Timestamp = 0, Payload = []\<rparr>"

record Config =
  TargetDelay :: duration
  PacketInterval :: duration
  MaxPacketsBuffered :: int

definition DefaultTargetDelay :: duration where "DefaultTargetDelay = 60 * millisecond"
definition DefaultPacketInterval :: duration where "DefaultPacketInterval = 20 * millisecond"
definition DefaultMaxPacketsBuffered :: int where "DefaultMaxPacketsBuffered = 200"

definition withDefaults :: "Config \<Rightarrow> Config" where
  "withDefaults cfg =
     (let c1 = (if TargetDelay cfg \<le> 0 then cfg\<lparr>TargetDelay := DefaultTargetDelay\<rparr> else cfg);
          c2 = (if PacketInterval c1 \<le> 0 then c1\<lparr>PacketInterval := DefaultPacketInterval\<rparr> else c1)
      in (if MaxPacketsBuffered c2 \<le> 0
          then c2\<lparr>MaxPacketsBuffered := DefaultMaxPacketsBuffered\<rparr> else c2))"

datatype PushStatus = PushAccepted | PushDuplicate | PushLate | PushEvictedCapacity

datatype PullStatus = PullEmpty | PullOK | PullWaiting | PullLost

fun PushStatus_String :: "PushStatus \<Rightarrow> string" where
  "PushStatus_String PushAccepted = ''PushAccepted''"
| "PushStatus_String PushDuplicate = ''PushDuplicate''"
| "PushStatus_String PushLate = ''PushLate''"
| "PushStatus_String PushEvictedCapacity = ''PushEvictedCapacity''"

fun PullStatus_String :: "PullStatus \<Rightarrow> string" where
  "PullStatus_String PullEmpty = ''PullEmpty''"
| "PullStatus_String PullOK = ''PullOK''"
| "PullStatus_String PullWaiting = ''PullWaiting''"
| "PullStatus_String PullLost = ''PullLost''"

record Stats =
  Received :: int
  Duplicates :: int
  Late :: int
  EvictedForCapacity :: int
  Lost :: int
  CurrentlyBuffered :: int

definition zero_Stats :: Stats where
  "zero_Stats = \<lparr>Received = 0, Duplicates = 0, Late = 0, EvictedForCapacity = 0,
                 Lost = 0, CurrentlyBuffered = 0\<rparr>"

record JitterBuffer =
  jb_cfg :: Config
  jb_initialized :: bool
  jb_baseSeq :: u16
  jb_baseArrival :: instant
  jb_nextSeq :: u16
  jb_buffered :: "(u16 \<times> Packet) list"
  jb_stats :: Stats

definition NewJitterBuffer :: "Config \<Rightarrow> JitterBuffer" where
  "NewJitterBuffer c =
     \<lparr>jb_cfg = withDefaults c, jb_initialized = False, jb_baseSeq = 0, jb_baseArrival = 0, jb_nextSeq = 0,
      jb_buffered = [], jb_stats = zero_Stats\<rparr>"

lemma New_fields [simp]:
  "jb_cfg (NewJitterBuffer c) = withDefaults c" "jb_initialized (NewJitterBuffer c) = False"
  "jb_nextSeq (NewJitterBuffer c) = 0" "jb_buffered (NewJitterBuffer c) = []"
  "jb_stats (NewJitterBuffer c) = zero_Stats"
  by (simp_all add: NewJitterBuffer_def)

subsection \<open>Operations\<close>

text \<open>\<open>int32(int16(a - b))\<close>: the wrapped difference read as a signed 16-bit value.\<close>

definition seqDelta :: "u16 \<Rightarrow> u16 \<Rightarrow> int" where
  "seqDelta a b = sint (a - b)"

definition deadlineLocked :: "JitterBuffer \<Rightarrow> u16 \<Rightarrow> instant" where
  "deadlineLocked b seq =
     (let steps = seqDelta seq (jb_baseSeq b)
      in jb_baseArrival b + (TargetDelay (jb_cfg b) + steps * PacketInterval (jb_cfg b)))"

text \<open>The \<open>range b.buffered\<close> loop of \<open>Push\<close> that looks for the furthest packet.\<close>

fun furthest :: "u16 \<Rightarrow> (u16 \<times> Packet) list \<Rightarrow> u16 \<Rightarrow> int \<Rightarrow> u16 \<times> int" where
  "furthest next [] furthestSeq furthestDist = (furthestSeq, furthestDist)"
| "furthest next ((seq, p) # xs) furthestSeq furthestDist =
     (let d = seqDelta seq next
      in if d > furthestDist then furthest next xs seq d
         else furthest next xs furthestSeq furthestDist)"

abbreviation bump_Late :: "JitterBuffer \<Rightarrow> JitterBuffer" where
  "bump_Late b \<equiv> b\<lparr>jb_stats := (jb_stats b)\<lparr>Late := Late (jb_stats b) + 1\<rparr>\<rparr>"
abbreviation bump_Duplicates :: "JitterBuffer \<Rightarrow> JitterBuffer" where
  "bump_Duplicates b \<equiv> b\<lparr>jb_stats := (jb_stats b)\<lparr>Duplicates := Duplicates (jb_stats b) + 1\<rparr>\<rparr>"
abbreviation bump_Evicted :: "JitterBuffer \<Rightarrow> JitterBuffer" where
  "bump_Evicted b \<equiv>
     b\<lparr>jb_stats := (jb_stats b)\<lparr>EvictedForCapacity := EvictedForCapacity (jb_stats b) + 1\<rparr>\<rparr>"
abbreviation bump_Received :: "JitterBuffer \<Rightarrow> JitterBuffer" where
  "bump_Received b \<equiv> b\<lparr>jb_stats := (jb_stats b)\<lparr>Received := Received (jb_stats b) + 1\<rparr>\<rparr>"
abbreviation bump_Lost :: "JitterBuffer \<Rightarrow> JitterBuffer" where
  "bump_Lost b \<equiv> b\<lparr>jb_stats := (jb_stats b)\<lparr>Lost := Lost (jb_stats b) + 1\<rparr>\<rparr>"

definition jb_prime :: "JitterBuffer \<Rightarrow> Packet \<Rightarrow> instant \<Rightarrow> JitterBuffer" where
  "jb_prime b pkt arrival =
     (if \<not> jb_initialized b
      then b\<lparr>jb_initialized := True, jb_baseSeq := SeqNum pkt, jb_baseArrival := arrival,
             jb_nextSeq := SeqNum pkt\<rparr>
      else b)"

definition jb_store :: "JitterBuffer \<Rightarrow> Packet \<Rightarrow> JitterBuffer" where
  "jb_store b pkt = bump_Received (b\<lparr>jb_buffered := al_put (SeqNum pkt) pkt (jb_buffered b)\<rparr>)"

definition jb_Push :: "JitterBuffer \<Rightarrow> Packet \<Rightarrow> instant \<Rightarrow> PushStatus \<times> JitterBuffer" where
  "jb_Push b0 pkt arrival =
     (let b = jb_prime b0 pkt arrival;
          dist = seqDelta (SeqNum pkt) (jb_nextSeq b)
      in if dist < 0 then (PushLate, bump_Late b)
         else if map_of (jb_buffered b) (SeqNum pkt) \<noteq> None then (PushDuplicate, bump_Duplicates b)
         else if int (length (jb_buffered b)) \<ge> MaxPacketsBuffered (jb_cfg b) then
           (let (furthestSeq, furthestDist) =
                  furthest (jb_nextSeq b) (jb_buffered b) (SeqNum pkt) dist
            in if furthestSeq = SeqNum pkt then (PushEvictedCapacity, bump_Evicted b)
               else (PushAccepted,
                     jb_store (bump_Evicted (b\<lparr>jb_buffered := al_del furthestSeq (jb_buffered b)\<rparr>)) pkt))
         else (PushAccepted, jb_store b pkt))"

definition jb_Pull :: "JitterBuffer \<Rightarrow> instant \<Rightarrow> (Packet \<times> PullStatus) \<times> JitterBuffer" where
  "jb_Pull b now =
     (if \<not> jb_initialized b then ((zero_Packet, PullEmpty), b)
      else case map_of (jb_buffered b) (jb_nextSeq b) of
        Some pkt \<Rightarrow>
          ((pkt, PullOK),
           b\<lparr>jb_buffered := al_del (jb_nextSeq b) (jb_buffered b), jb_nextSeq := jb_nextSeq b + 1\<rparr>)
      | None \<Rightarrow>
          if now < deadlineLocked b (jb_nextSeq b) then ((zero_Packet, PullWaiting), b)
          else ((zero_Packet, PullLost), bump_Lost (b\<lparr>jb_nextSeq := jb_nextSeq b + 1\<rparr>)))"

definition jb_Stats :: "JitterBuffer \<Rightarrow> Stats" where
  "jb_Stats b = (jb_stats b)\<lparr>CurrentlyBuffered := int (length (jb_buffered b))\<rparr>"

subsection \<open>Runs\<close>

text \<open>A run is a sequence of method calls; each leaves an outcome in the log.\<close>

datatype jb_op = OpPush Packet instant | OpPull instant

datatype jb_out = OutPush Packet PushStatus | OutPull u16 Packet PullStatus

fun jb_step :: "JitterBuffer \<Rightarrow> jb_op \<Rightarrow> jb_out \<times> JitterBuffer" where
  "jb_step b (OpPush p t) = (let (st, b') = jb_Push b p t in (OutPush p st, b'))"
| "jb_step b (OpPull t) = (let ((p, st), b') = jb_Pull b t in (OutPull (jb_nextSeq b) p st, b'))"

fun jb_run :: "JitterBuffer \<Rightarrow> jb_op list \<Rightarrow> jb_out list \<times> JitterBuffer" where
  "jb_run b [] = ([], b)"
| "jb_run b (x # xs) =
     (let (out, b1) = jb_step b x; (outs, b2) = jb_run b1 xs in (out # outs, b2))"

text \<open>
  What a log shows: the sequence numbers resolved (played out or given up), the packets
  accepted, the packets delivered.
\<close>

definition resolved :: "jb_out list \<Rightarrow> u16 list" where
  "resolved outs = concat (map (\<lambda>x. case x of
     OutPull s p st \<Rightarrow> if st = PullOK \<or> st = PullLost then [s] else []
   | OutPush p st \<Rightarrow> []) outs)"

definition accepted :: "jb_out list \<Rightarrow> Packet list" where
  "accepted outs = concat (map (\<lambda>x. case x of
     OutPush p st \<Rightarrow> if st = PushAccepted then [p] else [] | OutPull s p st \<Rightarrow> []) outs)"

definition delivered :: "jb_out list \<Rightarrow> Packet list" where
  "delivered outs = concat (map (\<lambda>x. case x of
     OutPull s p st \<Rightarrow> if st = PullOK then [p] else [] | OutPush p st \<Rightarrow> []) outs)"

definition count_push :: "PushStatus \<Rightarrow> jb_out list \<Rightarrow> int" where
  "count_push st outs = int (length (filter (\<lambda>x. \<exists>p. x = OutPush p st) outs))"

definition count_pull :: "PullStatus \<Rightarrow> jb_out list \<Rightarrow> int" where
  "count_pull st outs = int (length (filter (\<lambda>x. \<exists>s p. x = OutPull s p st) outs))"

subsection \<open>Circular distance\<close>

lemma sint_pred16:
  fixes w :: u16
  assumes "- 32768 < sint w"
  shows "sint (w - 1) = sint w - 1"
proof -
  have r: "- 32768 \<le> sint w" "sint w < 32768"
    using sint_greater_eq [of w] sint_less [of w] by simp_all
  have "sint (w - 1) = sint (word_of_int (sint w - 1) :: u16)" by simp
  also have "\<dots> = signed_take_bit 15 (sint w - 1)"
    by (simp only: sint_sbintrunc') simp
  also have "\<dots> = sint w - 1"
    using assms r by (intro signed_take_bit_int_eq_self) simp_all
  finally show ?thesis .
qed

lemma seqDelta_self [simp]: "seqDelta a a = 0"
  by (simp add: seqDelta_def)

lemma seqDelta_inj: "seqDelta a n = seqDelta b n \<Longrightarrow> a = b"
  using signed_word_eqI [of "a - n" "b - n"] by (simp add: seqDelta_def)

lemma seqDelta_eq_0 [simp]: "seqDelta a n = 0 \<longleftrightarrow> a = n"
  using seqDelta_inj [of a n n] by auto

lemma seqDelta_bounds: "- 32768 \<le> seqDelta a b" "seqDelta a b < 32768"
  using sint_greater_eq [of "a - b"] sint_less [of "a - b"] by (simp_all add: seqDelta_def)

lemma seqDelta_next:
  assumes "- 32768 < seqDelta s n"
  shows "seqDelta s (n + 1) = seqDelta s n - 1"
proof -
  have "s - (n + 1) = (s - n) - 1" by simp
  then show ?thesis using sint_pred16 [of "s - n"] assms by (simp only: seqDelta_def)
qed

lemma seqDelta_next_nonneg: "0 \<le> seqDelta s n \<Longrightarrow> s \<noteq> n \<Longrightarrow> 0 \<le> seqDelta s (n + 1)"
  using seqDelta_next [of s n] seqDelta_eq_0 [of s n] by linarith

text \<open>Up to 32767 steps after the base, the circular distance is the true one.\<close>

lemma seqDelta_of_nat: "k < 32768 \<Longrightarrow> seqDelta (b + of_nat k) b = int k"
proof -
  assume k: "k < 32768"
  have "seqDelta (b + of_nat k) b = sint (word_of_int (int k) :: u16)"
    by (simp add: seqDelta_def)
  also have "\<dots> = signed_take_bit 15 (int k)" by (simp only: sint_sbintrunc') simp
  also have "\<dots> = int k" using k by (intro signed_take_bit_int_eq_self) simp_all
  finally show ?thesis .
qed

subsection \<open>The furthest packet\<close>

lemma furthest_spec:
  assumes "d0 = seqDelta s0 n"
  shows "\<exists>f. furthest n xs s0 d0 = (f, seqDelta f n) \<and> f \<in> insert s0 (keys xs)
    \<and> (\<forall>s \<in> insert s0 (keys xs). seqDelta s n \<le> seqDelta f n)"
  using assms
proof (induction n xs s0 d0 rule: furthest.induct)
  case (1 n s d)
  then show ?case by simp
next
  case (2 n seq p xs s d)
  show ?case
  proof (cases "seqDelta seq n > d")
    case True
    then obtain f where "furthest n xs seq (seqDelta seq n) = (f, seqDelta f n)"
      "f \<in> insert seq (keys xs)" "\<forall>s \<in> insert seq (keys xs). seqDelta s n \<le> seqDelta f n"
      using 2 by blast
    with True 2(3) show ?thesis by (intro exI [of _ f]) auto
  next
    case False
    then obtain f where "furthest n xs s d = (f, seqDelta f n)"
      "f \<in> insert s (keys xs)" "\<forall>x \<in> insert s (keys xs). seqDelta x n \<le> seqDelta f n"
      using 2 by blast
    with False 2(3) show ?thesis by (intro exI [of _ f]) auto
  qed
qed

lemma furthest_order_irrelevant:
  assumes "keys xs = keys ys"
  shows "furthest n xs s (seqDelta s n) = furthest n ys s (seqDelta s n)"
proof -
  obtain f where f: "furthest n xs s (seqDelta s n) = (f, seqDelta f n)"
      "f \<in> insert s (keys xs)" "\<forall>x \<in> insert s (keys xs). seqDelta x n \<le> seqDelta f n"
    using furthest_spec [OF refl] by blast
  obtain g where g: "furthest n ys s (seqDelta s n) = (g, seqDelta g n)"
      "g \<in> insert s (keys ys)" "\<forall>x \<in> insert s (keys ys). seqDelta x n \<le> seqDelta g n"
    using furthest_spec [OF refl] by blast
  from f g assms have "seqDelta f n = seqDelta g n" by (auto intro: antisym)
  then have "f = g" by (rule seqDelta_inj)
  with f g show ?thesis by simp
qed

subsection \<open>Invariant\<close>

definition cfg_ok :: "Config \<Rightarrow> bool" where
  "cfg_ok c \<longleftrightarrow> 0 < TargetDelay c \<and> 0 < PacketInterval c \<and> 0 < MaxPacketsBuffered c"

definition jb_inv :: "JitterBuffer \<Rightarrow> bool" where
  "jb_inv b \<longleftrightarrow> cfg_ok (jb_cfg b) \<and> wf_al (jb_buffered b)
     \<and> (\<forall>(s, p) \<in> set (jb_buffered b). SeqNum p = s \<and> 0 \<le> seqDelta s (jb_nextSeq b))
     \<and> int (length (jb_buffered b)) \<le> MaxPacketsBuffered (jb_cfg b)
     \<and> (jb_initialized b \<or> jb_buffered b = [])"

lemma cfg_ok_withDefaults: "cfg_ok (withDefaults c)"
  by (simp add: withDefaults_def cfg_ok_def Let_def DefaultTargetDelay_def
      DefaultPacketInterval_def DefaultMaxPacketsBuffered_def)

lemma jb_inv_New [simp, inv_intros]: "jb_inv (NewJitterBuffer c)"
  using cfg_ok_withDefaults [of c] by (simp add: jb_inv_def NewJitterBuffer_def cfg_ok_def)

lemma jb_inv_prime: "jb_inv b \<Longrightarrow> jb_inv (jb_prime b p t)"
  by (auto simp: jb_inv_def jb_prime_def)

lemma initialized_prime [simp]: "jb_initialized (jb_prime b p t)"
  by (simp add: jb_prime_def)

lemma jb_inv_bumps [simp]:
  "jb_inv (b\<lparr>jb_stats := x\<rparr>) = jb_inv b"
  by (simp add: jb_inv_def)

lemma jb_inv_del: "jb_inv b \<Longrightarrow> jb_inv (b\<lparr>jb_buffered := al_del k (jb_buffered b)\<rparr>)"
  using length_al_del_le [of k "jb_buffered b"]
  by (auto simp: jb_inv_def set_al_del)

lemma jb_inv_store:
  assumes "jb_inv b" "jb_initialized b" "SeqNum p \<notin> keys (jb_buffered b)"
    "0 \<le> seqDelta (SeqNum p) (jb_nextSeq b)"
    "int (length (jb_buffered b)) < MaxPacketsBuffered (jb_cfg b)"
  shows "jb_inv (jb_store b p)"
  using assms
  by (auto simp: jb_inv_def jb_store_def set_al_put_new length_al_put_new)

lemma jb_Push_cases:
  obtains
    (Late) "jb_Push b p t = (PushLate, bump_Late (jb_prime b p t))"
      "seqDelta (SeqNum p) (jb_nextSeq (jb_prime b p t)) < 0"
  | (Duplicate) "jb_Push b p t = (PushDuplicate, bump_Duplicates (jb_prime b p t))"
      "SeqNum p \<in> keys (jb_buffered (jb_prime b p t))"
      "0 \<le> seqDelta (SeqNum p) (jb_nextSeq (jb_prime b p t))"
  | (Evicted) "jb_Push b p t = (PushEvictedCapacity, bump_Evicted (jb_prime b p t))"
      "SeqNum p \<notin> keys (jb_buffered (jb_prime b p t))"
      "0 \<le> seqDelta (SeqNum p) (jb_nextSeq (jb_prime b p t))"
      "MaxPacketsBuffered (jb_cfg b) \<le> int (length (jb_buffered b))"
  | (Replaced) f where
      "jb_Push b p t = (PushAccepted, jb_store (bump_Evicted
          ((jb_prime b p t)\<lparr>jb_buffered := al_del f (jb_buffered b)\<rparr>)) p)"
      "SeqNum p \<notin> keys (jb_buffered (jb_prime b p t))"
      "0 \<le> seqDelta (SeqNum p) (jb_nextSeq (jb_prime b p t))"
      "f \<in> keys (jb_buffered b)"
      "seqDelta (SeqNum p) (jb_nextSeq (jb_prime b p t)) < seqDelta f (jb_nextSeq (jb_prime b p t))"
      "MaxPacketsBuffered (jb_cfg b) \<le> int (length (jb_buffered b))"
  | (Stored) "jb_Push b p t = (PushAccepted, jb_store (jb_prime b p t) p)"
      "SeqNum p \<notin> keys (jb_buffered (jb_prime b p t))"
      "0 \<le> seqDelta (SeqNum p) (jb_nextSeq (jb_prime b p t))"
      "int (length (jb_buffered b)) < MaxPacketsBuffered (jb_cfg b)"
proof -
  let ?b = "jb_prime b p t" and ?s = "SeqNum p"
  let ?dist = "seqDelta ?s (jb_nextSeq ?b)"
  have same: "jb_buffered ?b = jb_buffered b" "jb_cfg ?b = jb_cfg b" by (simp_all add: jb_prime_def)
  obtain f where f: "furthest (jb_nextSeq ?b) (jb_buffered b) ?s ?dist = (f, seqDelta f (jb_nextSeq ?b))"
    "f \<in> insert ?s (keys (jb_buffered b))"
    "\<forall>s \<in> insert ?s (keys (jb_buffered b)). seqDelta s (jb_nextSeq ?b) \<le> seqDelta f (jb_nextSeq ?b)"
    using furthest_spec [OF refl] by blast
  consider "?dist < 0" | "0 \<le> ?dist" "?s \<in> keys (jb_buffered b)"
    | "0 \<le> ?dist" "?s \<notin> keys (jb_buffered b)" "MaxPacketsBuffered (jb_cfg b) \<le> int (length (jb_buffered b))" "f = ?s"
    | "0 \<le> ?dist" "?s \<notin> keys (jb_buffered b)" "MaxPacketsBuffered (jb_cfg b) \<le> int (length (jb_buffered b))" "f \<noteq> ?s"
    | "0 \<le> ?dist" "?s \<notin> keys (jb_buffered b)" "int (length (jb_buffered b)) < MaxPacketsBuffered (jb_cfg b)"
    by linarith
  then show thesis
  proof cases
    case 1
    then show ?thesis by (intro Late) (simp_all add: jb_Push_def Let_def)
  next
    case 2
    then show ?thesis
      by (intro Duplicate) (auto simp: jb_Push_def Let_def same map_of_None_keys)
  next
    case 3
    with f show ?thesis
      by (intro Evicted) (auto simp: jb_Push_def Let_def same map_of_None_keys)
  next
    case 4
    then have "?dist \<noteq> seqDelta f (jb_nextSeq ?b)" using seqDelta_inj by metis
    with f have "?dist < seqDelta f (jb_nextSeq ?b)" by fastforce
    with 4 f show ?thesis
      by (intro Replaced [of f]) (auto simp: jb_Push_def Let_def same map_of_None_keys)
  next
    case 5
    then show ?thesis
      by (intro Stored) (auto simp: jb_Push_def Let_def same map_of_None_keys)
  qed
qed

lemma jb_Push_inv:
  assumes "jb_inv b"
  shows "jb_inv (snd (jb_Push b p t))"
proof -
  have inv: "jb_inv (jb_prime b p t)" using assms by (rule jb_inv_prime)
  have same: "jb_buffered (jb_prime b p t) = jb_buffered b" "jb_cfg (jb_prime b p t) = jb_cfg b"
    by (simp_all add: jb_prime_def)
  show ?thesis
  proof (cases rule: jb_Push_cases [of b p t])
    case (Replaced f)
    let ?d = "bump_Evicted ((jb_prime b p t)\<lparr>jb_buffered := al_del f (jb_buffered b)\<rparr>)"
    have "Suc (length (al_del f (jb_buffered b))) = length (jb_buffered b)"
      using Replaced assms by (simp add: jb_inv_def length_al_del_in)
    then have len: "int (length (jb_buffered ?d)) < MaxPacketsBuffered (jb_cfg ?d)"
      using assms by (simp add: jb_inv_def same)
    have "jb_inv ?d" using jb_inv_del [OF inv, of f] by (simp add: same)
    then have "jb_inv (jb_store ?d p)"
      using Replaced len by (intro jb_inv_store) (simp_all add: same)
    with Replaced show ?thesis by simp
  next
    case Stored
    then show ?thesis using inv by (simp add: same jb_inv_store)
  qed (use inv in simp_all)
qed

lemma jb_Pull_inv:
  assumes "jb_inv b"
  shows "jb_inv (snd (jb_Pull b t))"
proof (cases "map_of (jb_buffered b) (jb_nextSeq b)")
  case None
  then have "jb_nextSeq b \<notin> keys (jb_buffered b)" by (simp add: map_of_None_keys)
  with assms have "\<forall>(s, p) \<in> set (jb_buffered b). 0 \<le> seqDelta s (jb_nextSeq b + 1)"
    by (force simp: jb_inv_def intro: seqDelta_next_nonneg)
  with assms None show ?thesis by (auto simp: jb_Pull_def jb_inv_def)
next
  case (Some p)
  have "\<forall>(s, q) \<in> set (al_del (jb_nextSeq b) (jb_buffered b)). 0 \<le> seqDelta s (jb_nextSeq b + 1)"
    using assms by (auto simp: jb_inv_def set_al_del intro: seqDelta_next_nonneg)
  with assms Some length_al_del_le [of "jb_nextSeq b" "jb_buffered b"] show ?thesis
    by (auto simp: jb_Pull_def jb_inv_def set_al_del)
qed

lemma jb_step_inv: "jb_inv b \<Longrightarrow> jb_inv (snd (jb_step b x))"
  using jb_Push_inv jb_Pull_inv by (cases x) (auto simp: split_beta)

lemma jb_run_inv: "jb_inv b \<Longrightarrow> jb_inv (snd (jb_run b xs))"
  by (induction xs arbitrary: b) (auto simp: split_beta jb_step_inv)

subsection \<open>What one call does to the log\<close>

lemma log_Nil [simp]:
  "resolved [] = []" "accepted [] = []" "delivered [] = []" "count_push st [] = 0" "count_pull q [] = 0"
  by (simp_all add: resolved_def accepted_def delivered_def count_push_def count_pull_def)

lemma log_OutPush [simp]:
  "resolved (OutPush p st # outs) = resolved outs"
  "accepted (OutPush p st # outs) = (if st = PushAccepted then p # accepted outs else accepted outs)"
  "delivered (OutPush p st # outs) = delivered outs"
  "count_push st' (OutPush p st # outs) = (if st = st' then 1 else 0) + count_push st' outs"
  "count_pull q (OutPush p st # outs) = count_pull q outs"
  by (simp_all add: resolved_def accepted_def delivered_def count_push_def count_pull_def)

lemma log_OutPull [simp]:
  "resolved (OutPull s p st # outs) =
     (if st = PullOK \<or> st = PullLost then s # resolved outs else resolved outs)"
  "accepted (OutPull s p st # outs) = accepted outs"
  "delivered (OutPull s p st # outs) = (if st = PullOK then p # delivered outs else delivered outs)"
  "count_push st' (OutPull s p st # outs) = count_push st' outs"
  "count_pull q (OutPull s p st # outs) = (if st = q then 1 else 0) + count_pull q outs"
  by (simp_all add: resolved_def accepted_def delivered_def count_push_def count_pull_def)

lemma jb_prime_id [simp]: "jb_initialized b \<Longrightarrow> jb_prime b p t = b"
  by (simp add: jb_prime_def)

lemma jb_prime_frame [simp]:
  "jb_buffered (jb_prime b p t) = jb_buffered b" "jb_cfg (jb_prime b p t) = jb_cfg b"
  "jb_stats (jb_prime b p t) = jb_stats b"
  by (simp_all add: jb_prime_def)

lemma jb_store_frame [simp]:
  "jb_initialized (jb_store b p) = jb_initialized b" "jb_nextSeq (jb_store b p) = jb_nextSeq b"
  "jb_baseSeq (jb_store b p) = jb_baseSeq b" "jb_baseArrival (jb_store b p) = jb_baseArrival b"
  "jb_cfg (jb_store b p) = jb_cfg b"
  "jb_buffered (jb_store b p) = al_put (SeqNum p) p (jb_buffered b)"
  "jb_stats (jb_store b p) = (jb_stats b)\<lparr>Received := Received (jb_stats b) + 1\<rparr>"
  by (simp_all add: jb_store_def)

lemma jb_Push_frame:
  "jb_initialized (snd (jb_Push b p t))"
  "jb_nextSeq (snd (jb_Push b p t)) = jb_nextSeq (jb_prime b p t)"
  "jb_baseSeq (snd (jb_Push b p t)) = jb_baseSeq (jb_prime b p t)"
  "jb_baseArrival (snd (jb_Push b p t)) = jb_baseArrival (jb_prime b p t)"
  "jb_cfg (snd (jb_Push b p t)) = jb_cfg b"
  unfolding jb_Push_def Let_def by (simp_all split: prod.split)

text \<open>One pull either resolves exactly the next sequence number or resolves nothing.\<close>

lemma jb_Pull_cases:
  obtains
    (Empty) "\<not> jb_initialized b" "jb_Pull b t = ((zero_Packet, PullEmpty), b)"
  | (OK) p where "jb_initialized b" "map_of (jb_buffered b) (jb_nextSeq b) = Some p"
      "jb_Pull b t = ((p, PullOK), b\<lparr>jb_buffered := al_del (jb_nextSeq b) (jb_buffered b),
                                     jb_nextSeq := jb_nextSeq b + 1\<rparr>)"
  | (Waiting) "jb_initialized b" "map_of (jb_buffered b) (jb_nextSeq b) = None"
      "t < deadlineLocked b (jb_nextSeq b)" "jb_Pull b t = ((zero_Packet, PullWaiting), b)"
  | (Lost) "jb_initialized b" "map_of (jb_buffered b) (jb_nextSeq b) = None"
      "deadlineLocked b (jb_nextSeq b) \<le> t"
      "jb_Pull b t = ((zero_Packet, PullLost), bump_Lost (b\<lparr>jb_nextSeq := jb_nextSeq b + 1\<rparr>))"
proof (cases "jb_initialized b")
  case False
  then show thesis by (intro Empty) (simp_all add: jb_Pull_def)
next
  case ini: True
  show thesis
  proof (cases "map_of (jb_buffered b) (jb_nextSeq b)")
    case (Some p)
    with ini show thesis by (intro OK) (simp_all add: jb_Pull_def)
  next
    case None
    with ini show thesis
      by (cases "t < deadlineLocked b (jb_nextSeq b)")
        (intro Waiting Lost; simp add: jb_Pull_def)+
  qed
qed

lemma upto_map_Suc:
  "n # map (\<lambda>k. (n + 1) + of_nat k) [0..<m] = map (\<lambda>k. (n :: u16) + of_nat k) [0..<Suc m]"
  by (subst upt_conv_Cons) (simp_all add: map_Suc_upt [symmetric] add_ac del: upt_Suc)

lemma jb_run_ConsE:
  assumes "jb_run b (x # xs) = (outs, b')"
  obtains out b1 outs1 where "jb_step b x = (out, b1)" "jb_run b1 xs = (outs1, b')"
    "outs = out # outs1"
proof -
  obtain out b1 where st: "jb_step b x = (out, b1)" by (cases "jb_step b x")
  obtain outs1 b2 where run: "jb_run b1 xs = (outs1, b2)" by (cases "jb_run b1 xs")
  from assms st run have "outs = out # outs1" "b' = b2" by simp_all
  with st run that show thesis by simp
qed

lemma run_in_order:
  assumes "jb_initialized b" "jb_run b xs = (outs, b')"
  shows "jb_initialized b' \<and> jb_baseSeq b' = jb_baseSeq b
    \<and> jb_nextSeq b' = jb_nextSeq b + of_nat (length (resolved outs))
    \<and> resolved outs = map (\<lambda>k. jb_nextSeq b + of_nat k) [0..<length (resolved outs)]"
  using assms
proof (induction xs arbitrary: b outs)
  case Nil
  then show ?case by simp
next
  case (Cons x xs)
  obtain out b1 outs1 where st: "jb_step b x = (out, b1)" and run: "jb_run b1 xs = (outs1, b')"
    and outs: "outs = out # outs1"
    using Cons.prems(2) by (rule jb_run_ConsE)
  show ?case
  proof (cases x)
    case (OpPush p t)
    then have "b1 = snd (jb_Push b p t)" "out = OutPush p (fst (jb_Push b p t))"
      using st by (simp_all add: split_beta)
    then show ?thesis
      using Cons.IH [OF _ run] Cons.prems(1) jb_Push_frame [of b p t] outs by simp
  next
    case (OpPull t)
    show ?thesis
    proof (cases rule: jb_Pull_cases [of b t])
      case (OK p)
      with st OpPull have b1: "b1 = b\<lparr>jb_buffered := al_del (jb_nextSeq b) (jb_buffered b),
          jb_nextSeq := jb_nextSeq b + 1\<rparr>" and o: "out = OutPull (jb_nextSeq b) p PullOK" by simp_all
      have "resolved outs = map (\<lambda>k. jb_nextSeq b + of_nat k) [0..<length (resolved outs)]"
        using Cons.IH [OF _ run] OK(1) outs o upto_map_Suc [of "jb_nextSeq b" "length (resolved outs1)"]
        by (simp add: b1)
      then show ?thesis using Cons.IH [OF _ run] OK(1) outs o by (simp add: b1)
    next
      case Lost
      with st OpPull have b1: "b1 = bump_Lost (b\<lparr>jb_nextSeq := jb_nextSeq b + 1\<rparr>)"
        and o: "out = OutPull (jb_nextSeq b) zero_Packet PullLost" by simp_all
      have "resolved outs = map (\<lambda>k. jb_nextSeq b + of_nat k) [0..<length (resolved outs)]"
        using Cons.IH [OF _ run] Lost(1) outs o upto_map_Suc [of "jb_nextSeq b" "length (resolved outs1)"]
        by (simp add: b1)
      then show ?thesis using Cons.IH [OF _ run] Lost(1) outs o by (simp add: b1)
    qed (use Cons.IH [OF _ run] Cons.prems(1) st OpPull outs in auto)
  qed
qed

end
