(* ===== verification/JitterRuns.thy ===== *)
theory JitterRuns
  imports Jitter "HOL-Library.Sublist"
begin

section \<open>Runs of the jitter buffer\<close>

text \<open>
  What sequences of \<open>Push\<close> and \<open>Pull\<close> calls on a new buffer guarantee: well-formedness,
  playout in sequence order, conservation of packets and of the counters, progress once the
  deadlines have passed, and the window in which the deadline formula is right.
\<close>

subsection \<open>Conservation\<close>

lemma jb_step_counts:
  assumes "jb_inv b" "jb_step b x = (out, b1)"
  shows "Received (jb_stats b1) = Received (jb_stats b) + count_push PushAccepted [out]"
    "Duplicates (jb_stats b1) = Duplicates (jb_stats b) + count_push PushDuplicate [out]"
    "Late (jb_stats b1) = Late (jb_stats b) + count_push PushLate [out]"
    "Lost (jb_stats b1) = Lost (jb_stats b) + count_pull PullLost [out]"
    "int (length (jb_buffered b1)) + count_pull PullOK [out] + EvictedForCapacity (jb_stats b1)
       = int (length (jb_buffered b)) + EvictedForCapacity (jb_stats b)
         + count_push PushAccepted [out] + count_push PushEvictedCapacity [out]"
proof -
  have wf: "wf_al (jb_buffered b)" using assms(1) by (simp add: jb_inv_def)
  consider (push) p t where "x = OpPush p t" | (pull) t where "x = OpPull t" by (cases x)
  then have "Received (jb_stats b1) = Received (jb_stats b) + count_push PushAccepted [out]
    \<and> Duplicates (jb_stats b1) = Duplicates (jb_stats b) + count_push PushDuplicate [out]
    \<and> Late (jb_stats b1) = Late (jb_stats b) + count_push PushLate [out]
    \<and> Lost (jb_stats b1) = Lost (jb_stats b) + count_pull PullLost [out]
    \<and> int (length (jb_buffered b1)) + count_pull PullOK [out] + EvictedForCapacity (jb_stats b1)
       = int (length (jb_buffered b)) + EvictedForCapacity (jb_stats b)
         + count_push PushAccepted [out] + count_push PushEvictedCapacity [out]"
  proof cases
    case push
    show ?thesis
    proof (cases rule: jb_Push_cases [of b p t])
      case (Replaced f)
      have "SeqNum p \<notin> keys (al_del f (jb_buffered b))" using Replaced by simp
      then have "length (al_put (SeqNum p) p (al_del f (jb_buffered b))) = length (jb_buffered b)"
        using Replaced(4) wf by (simp add: length_al_put_new length_al_del_in)
      with Replaced(1) assms(2) push show ?thesis by (auto simp: length_al_put_new)
    qed (use assms(2) push in \<open>auto simp: length_al_put_new\<close>)
  next
    case pull
    show ?thesis
    proof (cases rule: jb_Pull_cases [of b t])
      case (OK p)
      have "Suc (length (al_del (jb_nextSeq b) (jb_buffered b))) = length (jb_buffered b)"
        using wf map_of_Some_keys [OF OK(2)] by (rule length_al_del_in)
      with OK(3) assms(2) pull show ?thesis by auto
    qed (use assms(2) pull in auto)
  qed
  then show "Received (jb_stats b1) = Received (jb_stats b) + count_push PushAccepted [out]"
    "Duplicates (jb_stats b1) = Duplicates (jb_stats b) + count_push PushDuplicate [out]"
    "Late (jb_stats b1) = Late (jb_stats b) + count_push PushLate [out]"
    "Lost (jb_stats b1) = Lost (jb_stats b) + count_pull PullLost [out]"
    "int (length (jb_buffered b1)) + count_pull PullOK [out] + EvictedForCapacity (jb_stats b1)
       = int (length (jb_buffered b)) + EvictedForCapacity (jb_stats b)
         + count_push PushAccepted [out] + count_push PushEvictedCapacity [out]"
    by blast+
qed

lemma count_Cons:
  "count_push st (out # outs) = count_push st [out] + count_push st outs"
  "count_pull q (out # outs) = count_pull q [out] + count_pull q outs"
  by (simp_all add: count_push_def count_pull_def)

lemma jb_run_counts:
  assumes "jb_inv b" "jb_run b xs = (outs, b')"
  shows "Received (jb_stats b') = Received (jb_stats b) + count_push PushAccepted outs
    \<and> Duplicates (jb_stats b') = Duplicates (jb_stats b) + count_push PushDuplicate outs
    \<and> Late (jb_stats b') = Late (jb_stats b) + count_push PushLate outs
    \<and> Lost (jb_stats b') = Lost (jb_stats b) + count_pull PullLost outs
    \<and> int (length (jb_buffered b')) + count_pull PullOK outs + EvictedForCapacity (jb_stats b')
       = int (length (jb_buffered b)) + EvictedForCapacity (jb_stats b)
         + count_push PushAccepted outs + count_push PushEvictedCapacity outs"
  using assms
proof (induction xs arbitrary: b outs)
  case (Cons x xs)
  obtain out b1 outs1 where st: "jb_step b x = (out, b1)" and run: "jb_run b1 xs = (outs1, b')"
    and outs: "outs = out # outs1"
    using Cons.prems(2) by (rule jb_run_ConsE)
  have "jb_inv b1" using jb_step_inv [OF Cons.prems(1), of x] st by simp
  from Cons.IH [OF this run] jb_step_counts [OF Cons.prems(1) st] show ?case
    unfolding outs count_Cons [of _ out outs1] by linarith
qed simp

lemma mset_al_del: "mset (map snd (al_del k xs)) \<subseteq># mset (map snd xs)"
  by (induction k xs rule: al_del.induct) (auto intro: subset_mset.order_trans)

lemma mset_al_del_in:
  "map_of xs k = Some p \<Longrightarrow> add_mset p (mset (map snd (al_del k xs))) \<subseteq># mset (map snd xs)"
proof (induction k xs rule: al_del.induct)
  case (2 k a w xs)
  then show ?case
    using mset_al_del [of k xs] by (cases "a = k") (auto simp: add_mset_commute [of p w])
qed simp

lemma jb_step_mset:
  assumes "jb_step b x = (out, b1)"
  shows "mset (delivered [out]) + mset (map snd (jb_buffered b1))
    \<subseteq># mset (accepted [out]) + mset (map snd (jb_buffered b))"
proof (cases x)
  case (OpPush p t)
  show ?thesis
  proof (cases rule: jb_Push_cases [of b p t])
    case (Replaced f)
    have "SeqNum p \<notin> keys (al_del f (jb_buffered b))" using Replaced by simp
    then have "al_put (SeqNum p) p (al_del f (jb_buffered b)) = al_del f (jb_buffered b) @ [(SeqNum p, p)]"
      by (rule al_put_new)
    with Replaced(1) assms OpPush mset_al_del [of f "jb_buffered b"] show ?thesis by auto
  qed (use assms OpPush in \<open>auto simp: al_put_new\<close>)
next
  case (OpPull t)
  show ?thesis
  proof (cases rule: jb_Pull_cases [of b t])
    case (OK p)
    with assms OpPull mset_al_del_in [OF OK(2)] show ?thesis by auto
  qed (use assms OpPull in auto)
qed

lemma log_Cons:
  "delivered (out # outs) = delivered [out] @ delivered outs"
  "accepted (out # outs) = accepted [out] @ accepted outs"
  "resolved (out # outs) = resolved [out] @ resolved outs"
  by (simp_all add: delivered_def accepted_def resolved_def)

lemma jb_run_mset:
  assumes "jb_run b xs = (outs, b')"
  shows "mset (delivered outs) + mset (map snd (jb_buffered b'))
    \<subseteq># mset (accepted outs) + mset (map snd (jb_buffered b))"
  using assms
proof (induction xs arbitrary: b outs)
  case (Cons x xs)
  obtain out b1 outs1 where st: "jb_step b x = (out, b1)" and run: "jb_run b1 xs = (outs1, b')"
    and outs: "outs = out # outs1"
    using Cons.prems by (rule jb_run_ConsE)
  have "mset (delivered outs) + mset (map snd (jb_buffered b'))
      \<subseteq># mset (delivered [out]) + (mset (accepted outs1) + mset (map snd (jb_buffered b1)))"
    using Cons.IH [OF run] unfolding outs log_Cons [of out outs1] by (simp add: add.assoc)
  also have "\<dots> = mset (accepted outs1) + (mset (delivered [out]) + mset (map snd (jb_buffered b1)))"
    by (simp add: ac_simps)
  also have "\<dots> \<subseteq># mset (accepted outs1) + (mset (accepted [out]) + mset (map snd (jb_buffered b)))"
    using jb_step_mset [OF st] by simp
  finally show ?case unfolding outs log_Cons [of out outs1] by (simp add: ac_simps)
qed simp

subsection \<open>Order\<close>

lemma jb_step_subseq:
  assumes "jb_inv b" "jb_step b x = (out, b1)"
  shows "subseq (map SeqNum (delivered [out])) (resolved [out])"
proof (cases x)
  case (OpPush p t)
  with assms(2) show ?thesis by (auto simp: split_beta)
next
  case (OpPull t)
  show ?thesis
  proof (cases rule: jb_Pull_cases [of b t])
    case (OK p)
    then have "(jb_nextSeq b, p) \<in> set (jb_buffered b)" by (auto dest: map_of_SomeD)
    with assms(1) have "SeqNum p = jb_nextSeq b" by (auto simp: jb_inv_def)
    with OK assms(2) OpPull show ?thesis by auto
  qed (use assms(2) OpPull in auto)
qed

lemma jb_run_subseq:
  assumes "jb_inv b" "jb_run b xs = (outs, b')"
  shows "subseq (map SeqNum (delivered outs)) (resolved outs)"
  using assms
proof (induction xs arbitrary: b outs)
  case (Cons x xs)
  obtain out b1 outs1 where st: "jb_step b x = (out, b1)" and run: "jb_run b1 xs = (outs1, b')"
    and outs: "outs = out # outs1"
    using Cons.prems(2) by (rule jb_run_ConsE)
  have "jb_inv b1" using jb_step_inv [OF Cons.prems(1), of x] st by simp
  from Cons.IH [OF this run] jb_step_subseq [OF Cons.prems(1) st] show ?case
    unfolding outs log_Cons [of out outs1] map_append by (intro list_emb_append_mono)
qed simp

subsection \<open>Progress\<close>

lemma jb_pull_reaches:
  assumes "jb_inv b" "jb_initialized b" "map_of (jb_buffered b) s = Some p"
    "nat (seqDelta s (jb_nextSeq b)) = d" "length ts = Suc d"
    "\<forall>u \<in> set ts. \<forall>k < d. deadlineLocked b (jb_nextSeq b + of_nat k) \<le> u"
  shows "last (fst (jb_run b (map OpPull ts))) = OutPull s p PullOK"
  using assms
proof (induction d arbitrary: b ts)
  case 0
  then have mem: "(s, p) \<in> set (jb_buffered b)" by (auto dest: map_of_SomeD)
  then have "0 \<le> seqDelta s (jb_nextSeq b)" using 0 by (auto simp: jb_inv_def)
  then have "seqDelta s (jb_nextSeq b) = 0" using 0 by simp
  then have "s = jb_nextSeq b" by simp
  moreover obtain t where "ts = [t]" using 0 by (cases ts) auto
  ultimately show ?case using 0 by (simp add: jb_Pull_def)
next
  case (Suc d)
  obtain t us where ts: "ts = t # us" "length us = Suc d" using Suc.prems by (cases ts) auto
  have dist: "seqDelta s (jb_nextSeq b) = int d + 1" using Suc.prems(4) by simp
  then have ne: "s \<noteq> jb_nextSeq b" by auto
  have next_dist: "nat (seqDelta s (jb_nextSeq b + 1)) = d" using seqDelta_next [of s "jb_nextSeq b"] dist by simp
  obtain out b1 where st: "jb_step b (OpPull t) = (out, b1)" by (cases "jb_step b (OpPull t)")
  have due: "deadlineLocked b (jb_nextSeq b) \<le> t"
    using Suc.prems(6) ts by (auto dest: spec [where x = 0])
  have b1: "jb_initialized b1" "jb_nextSeq b1 = jb_nextSeq b + 1" "map_of (jb_buffered b1) s = Some p"
    "jb_baseSeq b1 = jb_baseSeq b" "jb_baseArrival b1 = jb_baseArrival b" "jb_cfg b1 = jb_cfg b"
    using st Suc.prems(2,3) due ne by (cases rule: jb_Pull_cases [of b t]; auto)+
  have "jb_inv b1" using jb_step_inv [OF Suc.prems(1), of "OpPull t"] st by simp
  moreover have "\<forall>u \<in> set us. \<forall>k < d. deadlineLocked b1 (jb_nextSeq b1 + of_nat k) \<le> u"
  proof (intro ballI allI impI)
    fix u k assume "u \<in> set us" "k < d"
    then have "u \<in> set ts" "Suc k < Suc d" using ts by auto
    then have "deadlineLocked b (jb_nextSeq b + of_nat (Suc k)) \<le> u" using Suc.prems(6) by blast
    then show "deadlineLocked b1 (jb_nextSeq b1 + of_nat k) \<le> u"
      by (simp add: deadlineLocked_def b1 add.assoc)
  qed
  ultimately have ih: "last (fst (jb_run b1 (map OpPull us))) = OutPull s p PullOK"
    using Suc.IH [of b1 us] b1 next_dist ts(2) by simp
  have "fst (jb_run b1 (map OpPull us)) \<noteq> []" using ts(2) by (cases us) (auto simp: split_beta)
  with ih st show ?case unfolding ts by (simp add: split_beta)
qed

subsection \<open>The deadline window\<close>

lemma jb_run_append:
  "jb_run b (xs @ ys) =
     (fst (jb_run b xs) @ fst (jb_run (snd (jb_run b xs)) ys), snd (jb_run (snd (jb_run b xs)) ys))"
  by (induction xs arbitrary: b) (simp_all add: split_beta)

text \<open>
  An ideal talker: packet \<open>k\<close> carries sequence number \<open>s0 + k\<close>, arrives at \<open>k * iv\<close> and is
  pulled as soon as it is there.
\<close>

definition stream_packet :: "u16 \<Rightarrow> (nat \<Rightarrow> bytes) \<Rightarrow> nat \<Rightarrow> Packet" where
  "stream_packet s0 pl k = \<lparr>SeqNum = s0 + of_nat k, Timestamp = of_nat (160 * k), Payload = pl k\<rparr>"

definition stream_ops :: "u16 \<Rightarrow> (nat \<Rightarrow> bytes) \<Rightarrow> duration \<Rightarrow> nat \<Rightarrow> jb_op list" where
  "stream_ops s0 pl iv n =
     concat (map (\<lambda>k. [OpPush (stream_packet s0 pl k) (int k * iv), OpPull (int k * iv)]) [0..<n])"

definition stream_state :: "u16 \<Rightarrow> (nat \<Rightarrow> bytes) \<Rightarrow> Config \<Rightarrow> nat \<Rightarrow> JitterBuffer" where
  "stream_state s0 pl c n =
     snd (jb_run (NewJitterBuffer c) (stream_ops s0 pl (PacketInterval (withDefaults c)) n))"

lemma stream_state_simp:
  "0 < n \<Longrightarrow> jb_initialized (stream_state s0 pl c n) \<and> jb_cfg (stream_state s0 pl c n) = withDefaults c
     \<and> jb_baseSeq (stream_state s0 pl c n) = s0 \<and> jb_baseArrival (stream_state s0 pl c n) = 0
     \<and> jb_nextSeq (stream_state s0 pl c n) = s0 + of_nat n \<and> jb_buffered (stream_state s0 pl c n) = []"
proof (induction n)
  case (Suc n)
  let ?iv = "PacketInterval (withDefaults c)" and ?p = "stream_packet s0 pl n"
  have max: "0 < MaxPacketsBuffered (withDefaults c)" using cfg_ok_withDefaults by (simp add: cfg_ok_def)
  have step: "stream_state s0 pl c (Suc n) =
      snd (jb_Pull (snd (jb_Push (stream_state s0 pl c n) ?p (int n * ?iv))) (int n * ?iv))"
    by (simp add: stream_state_def stream_ops_def jb_run_append split_beta)
  show ?case
  proof (cases "n = 0")
    case True
    have "stream_state s0 pl c n = NewJitterBuffer c" using True by (simp add: stream_state_def stream_ops_def)
    then show ?thesis unfolding step using max True
      by (simp add: NewJitterBuffer_def jb_Push_def jb_prime_def jb_Pull_def stream_packet_def Let_def)
  next
    case False
    with Suc have "jb_initialized (stream_state s0 pl c n) \<and> jb_cfg (stream_state s0 pl c n) = withDefaults c
     \<and> jb_baseSeq (stream_state s0 pl c n) = s0 \<and> jb_baseArrival (stream_state s0 pl c n) = 0
     \<and> jb_nextSeq (stream_state s0 pl c n) = s0 + of_nat n \<and> jb_buffered (stream_state s0 pl c n) = []" by simp
    then show ?thesis unfolding step using max
      by (simp add: jb_Push_def jb_Pull_def stream_packet_def Let_def add_ac)
  qed
qed simp

lemma stream_deadline:
  "0 < n \<Longrightarrow> deadlineLocked (stream_state s0 pl c n) (s0 + of_nat n) =
     TargetDelay (withDefaults c) + seqDelta (s0 + of_nat n) s0 * PacketInterval (withDefaults c)"
  using stream_state_simp [of n s0 pl c] by (simp add: deadlineLocked_def Let_def)

lemma seqDelta_wrap: "seqDelta (s0 + 32768) s0 = - 32768"
proof -
  have "seqDelta (s0 + 32768) s0 = sint (32768 :: u16)" by (simp add: seqDelta_def)
  also have "\<dots> = - 32768" by (simp add: sint_uint signed_take_bit_eq_if_negative)
  finally show ?thesis .
qed

text \<open>The Go zero value \<open>Config{}\<close>, which \<open>withDefaults\<close> fills in.\<close>

definition zero_Config :: Config where
  "zero_Config = \<lparr>TargetDelay = 0, PacketInterval = 0, MaxPacketsBuffered = 0\<rparr>"

lemma zero_Config_defaults:
  "withDefaults zero_Config =
     \<lparr>TargetDelay = 60 * millisecond, PacketInterval = 20 * millisecond, MaxPacketsBuffered = 200\<rparr>"
  by (simp add: zero_Config_def withDefaults_def Let_def DefaultTargetDelay_def
      DefaultPacketInterval_def DefaultMaxPacketsBuffered_def)

text \<open>What a new buffer does up to its first push.\<close>

lemma pulls_before_push:
  "jb_run (NewJitterBuffer c) (map OpPull ts) =
     (map (\<lambda>u. OutPull 0 zero_Packet PullEmpty) ts, NewJitterBuffer c)"
  by (induction ts) (simp_all add: jb_Pull_def NewJitterBuffer_def)

lemma first_push:
  "fst (jb_Push (NewJitterBuffer c) p t) = PushAccepted"
  "jb_initialized (snd (jb_Push (NewJitterBuffer c) p t))"
  "jb_nextSeq (snd (jb_Push (NewJitterBuffer c) p t)) = SeqNum p"
  "jb_inv (snd (jb_Push (NewJitterBuffer c) p t))"
  using cfg_ok_withDefaults [of c] jb_Push_frame [of "NewJitterBuffer c" p t]
    jb_Push_inv [OF jb_inv_New, of c p t]
  by (simp_all add: cfg_ok_def jb_Push_def jb_prime_def NewJitterBuffer_def Let_def)

subsection \<open>Properties\<close>

text \<open>
  Whatever sequence of pushes and pulls a new jitter buffer goes through, its state stays
  well formed: positive configuration, one entry per sequence number, filed under the packet's own
  number, nothing buffered that playout has passed, never more than \<open>MaxPacketsBuffered\<close> packets.
\<close>
theorem jitter_run_invariant: "jb_inv (snd (jb_run (NewJitterBuffer c) xs))"
  using jb_run_inv [OF jb_inv_New] .

text \<open>
  C5: Playout order from the first packet. Pulls before any push come back empty, whenever they
  happen. The first push is accepted, and from then on the sequence numbers the run resolves
  (delivers or declares lost) are exactly the number of that first packet and the ones that follow
  it, modulo \<open>2^16\<close>, with none skipped or repeated; the packets delivered carry a subsequence of
  those numbers in that order. Every sequence of calls is of one of the two forms: pulls only, or
  pulls followed by a first push and anything after it.
\<close>
theorem jitter_plays_in_order:
  "let empty = map (\<lambda>u. OutPull 0 zero_Packet PullEmpty) ts;
       outs = fst (jb_run (NewJitterBuffer c) (map OpPull ts @ OpPush p t # ys));
       rest = drop (length ts + 1) outs
   in fst (jb_run (NewJitterBuffer c) (map OpPull ts)) = empty
      \<and> outs = empty @ OutPush p PushAccepted # rest
      \<and> resolved rest = map (\<lambda>k. SeqNum p + of_nat k) [0..<length (resolved rest)]
      \<and> subseq (map SeqNum (delivered rest)) (resolved rest)"
proof -
  let ?b = "snd (jb_Push (NewJitterBuffer c) p t)"
  have in_order: "resolved outs = map (\<lambda>k. SeqNum p + of_nat k) [0..<length (resolved outs)]
      \<and> subseq (map SeqNum (delivered outs)) (resolved outs)" if "jb_run ?b ys = (outs, b')" for outs b'
    using run_in_order [OF _ that] jb_run_subseq [OF _ that] first_push [of c p t] by simp
  show ?thesis
    using in_order [of "fst (jb_run ?b ys)" "snd (jb_run ?b ys)"] first_push [of c p t]
    by (simp add: pulls_before_push jb_run_append split_beta Let_def)
qed

text \<open>
  Accounting. After any run the statistics count what happened: \<open>Received\<close>, \<open>Duplicates\<close>,
  \<open>Late\<close> and \<open>Lost\<close> equal the number of calls with that outcome, and every accepted packet is
  delivered, still buffered, or counted in \<open>EvictedForCapacity\<close>, which counts rejected
  newcomers as well.
\<close>
theorem jitter_accounting:
  "let (outs, b) = jb_run (NewJitterBuffer c) xs; st = jb_Stats b
   in Received st = count_push PushAccepted outs \<and> Duplicates st = count_push PushDuplicate outs
      \<and> Late st = count_push PushLate outs \<and> Lost st = count_pull PullLost outs
      \<and> Received st = count_pull PullOK outs + CurrentlyBuffered st
                       + (EvictedForCapacity st - count_push PushEvictedCapacity outs)"
proof -
  obtain outs b where run: "jb_run (NewJitterBuffer c) xs = (outs, b)"
    by (cases "jb_run (NewJitterBuffer c) xs")
  from jb_run_counts [OF jb_inv_New run] show ?thesis
    by (simp add: run jb_Stats_def New_fields zero_Stats_def)
qed

text \<open>
  No invention and no duplication. The packets a run delivers, together with those still
  buffered, form a sub-multiset of the packets it accepted.
\<close>
theorem jitter_conserves_packets:
  "let (outs, b) = jb_run (NewJitterBuffer c) xs
   in mset (delivered outs) + mset (map snd (jb_buffered b)) \<subseteq># mset (accepted outs)"
proof -
  obtain outs b where run: "jb_run (NewJitterBuffer c) xs = (outs, b)"
    by (cases "jb_run (NewJitterBuffer c) xs")
  from jb_run_mset [OF run] show ?thesis by (simp add: run New_fields)
qed

text \<open>
  C11: Progress. A packet that is buffered \<open>d\<close> positions ahead of playout comes out of the
  \<open>d + 1\<close>-st pull once the deadlines of the positions before it have passed: a gap in the stream
  never blocks what is behind it.
\<close>
theorem jitter_gap_never_blocks:
  assumes "jb_inv b" "jb_initialized b" "map_of (jb_buffered b) s = Some p"
    "length ts = Suc (nat (seqDelta s (jb_nextSeq b)))"
    "\<forall>u \<in> set ts. \<forall>k < nat (seqDelta s (jb_nextSeq b)).
       deadlineLocked b (jb_nextSeq b + of_nat k) \<le> u"
  shows "last (fst (jb_run b (map OpPull ts))) = OutPull s p PullOK"
  using jb_pull_reaches [OF assms(1-3) refl assms(4,5)] .

definition gap_state :: JitterBuffer where
  "gap_state = snd (jb_run (NewJitterBuffer zero_Config)
     [OpPush (stream_packet 65535 (\<lambda>k. [7]) 0) 0, OpPull 0, OpPush (stream_packet 65535 (\<lambda>k. [7]) 2) 40])"

lemma gap_state_eval:
  "jb_initialized gap_state" "jb_nextSeq gap_state = 0" "jb_baseSeq gap_state = 65535"
  "jb_baseArrival gap_state = 0" "jb_buffered gap_state = [(1, stream_packet 65535 (\<lambda>k. [7]) 2)]"
  "jb_cfg gap_state = \<lparr>TargetDelay = 60 * millisecond, PacketInterval = 20 * millisecond, MaxPacketsBuffered = 200\<rparr>"
  by (simp_all add: gap_state_def NewJitterBuffer_def jb_Push_def jb_prime_def jb_store_def jb_Pull_def
      stream_packet_def Let_def zero_Config_defaults seqDelta_def zero_Stats_def)

theorem jitter_gap_never_blocks_witness:
  "last (fst (jb_run gap_state (map OpPull [100000000, 100000000])))
     = OutPull 1 (stream_packet 65535 (\<lambda>k. [7]) 2) PullOK"
proof (rule jitter_gap_never_blocks)
  show "jb_inv gap_state" unfolding gap_state_def by (intro jb_run_inv jb_inv_New)
qed (simp_all add: gap_state_eval deadlineLocked_def seqDelta_def)

text \<open>
  Deadlines inside the window. After \<open>n\<close> in-order packets, for every \<open>n\<close> from 1 to 32767, a
  pull at the moment the next packet is due to arrive waits for it, and that packet is accepted:
  nothing is given up before its playout deadline.
\<close>
theorem jitter_deadline_window:
  assumes "0 < n" "n < 32768"
  shows "snd (fst (jb_Pull (stream_state s0 pl c n) (int n * PacketInterval (withDefaults c)))) = PullWaiting
    \<and> fst (jb_Push (stream_state s0 pl c n) (stream_packet s0 pl n)
             (int n * PacketInterval (withDefaults c))) = PushAccepted"
proof -
  have pos: "0 < TargetDelay (withDefaults c)" "0 < MaxPacketsBuffered (withDefaults c)"
    using cfg_ok_withDefaults [of c] by (simp_all add: cfg_ok_def)
  note st = stream_state_simp [OF assms(1), of s0 pl c]
  have "deadlineLocked (stream_state s0 pl c n) (s0 + of_nat n) =
      TargetDelay (withDefaults c) + int n * PacketInterval (withDefaults c)"
    using stream_deadline [OF assms(1)] seqDelta_of_nat [OF assms(2)] by simp
  with st pos show ?thesis by (simp add: jb_Pull_def jb_Push_def stream_packet_def Let_def)
qed

theorem jitter_deadline_window_witness:
  "snd (fst (jb_Pull (stream_state 65000 (\<lambda>k. []) zero_Config 1000) (int 1000 * PacketInterval (withDefaults zero_Config)))) = PullWaiting
    \<and> fst (jb_Push (stream_state 65000 (\<lambda>k. []) zero_Config 1000) (stream_packet 65000 (\<lambda>k. []) 1000)
             (int 1000 * PacketInterval (withDefaults zero_Config))) = PushAccepted"
  by (rule jitter_deadline_window [of 1000]) simp_all

text \<open>
  C14: The window is exactly half the sequence space: the base never moves, so after 32768
  in-order packets (about eleven minutes at 20 ms) the distance from the base turns negative. The
  pull at the moment the next packet is due to arrive declares it lost, although its deadline is a
  full \<open>TargetDelay\<close> away, and when that packet arrives on time it is refused as late.
\<close>
theorem jitter_deadline_wraps:
  "let iv = PacketInterval (withDefaults c); b = stream_state s0 pl c 32768; t = 32768 * iv
   in TargetDelay (withDefaults c) \<le> 65536 * iv \<longrightarrow>
      snd (fst (jb_Pull b t)) = PullLost
      \<and> fst (jb_Push (snd (jb_Pull b t)) (stream_packet s0 pl 32768) t) = PushLate"
proof -
  have "deadlineLocked (stream_state s0 pl c 32768) (s0 + 32768) =
      TargetDelay (withDefaults c) - 32768 * PacketInterval (withDefaults c)"
    using stream_deadline [of 32768 s0 pl c] by (simp add: seqDelta_wrap)
  moreover have "seqDelta (s0 + 32768) (s0 + 32769) = - 1"
    by (simp add: seqDelta_def)
  ultimately show ?thesis
    using stream_state_simp [of 32768 s0 pl c]
    by (simp add: Let_def jb_Pull_def jb_Push_def stream_packet_def add.assoc)
qed

theorem jitter_deadline_wraps_witness:
  "let b = stream_state 0 (\<lambda>k. []) zero_Config 32768; t = 32768 * PacketInterval (withDefaults zero_Config)
   in snd (fst (jb_Pull b t)) = PullLost
      \<and> fst (jb_Push (snd (jb_Pull b t)) (stream_packet 0 (\<lambda>k. []) 32768) t) = PushLate"
  using jitter_deadline_wraps
    [of "zero_Config" 0 "\<lambda>k. []"]
  by (simp add: Let_def zero_Config_defaults)

end
