(* ===== verification/Media.thy ===== *)
theory Media
  imports Prelude
begin

section \<open>The data the components exchange\<close>

text \<open>
  The types of \<open>pkg/asr/interface.go\<close>, \<open>pkg/translate/interface.go\<close> and
  \<open>pkg/tts/interface.go\<close>, Go errors as values, and the conversion between 16-bit samples and
  little-endian bytes. The three packages each declare \<open>type Language string\<close>; here they
  share \<open>language\<close>. A Go string is a byte string, which is what HOL's \<open>string\<close> is.
\<close>

subsection \<open>Errors\<close>

text \<open>
  \<open>ErrContext\<close> is \<open>ctx.Err()\<close>; \<open>ErrNew\<close> an error the package makes (its message without the
  interpolated values); \<open>ErrCircuitOpen\<close> the sentinel of one of the three packages;
  \<open>ErrFatalness b s\<close> an error that implements \<open>FatalError\<close> with \<open>Fatal() == b\<close>;
  \<open>ErrWrap\<close> is \<open>fmt.Errorf("...: %w", err)\<close>.
\<close>

datatype package = PkgASR | PkgTranslate | PkgTTS

datatype go_error =
  ErrContext | ErrNew string | ErrCircuitOpen package | ErrFatalness bool string | ErrWrap string go_error

type_synonym 'a result = "go_error + 'a"

abbreviation Err :: "go_error \<Rightarrow> 'a result" where "Err \<equiv> Inl"
abbreviation Ok :: "'a \<Rightarrow> 'a result" where "Ok \<equiv> Inr"

fun is_ok :: "'a result \<Rightarrow> bool" where
  "is_ok (Inl e) = False"
| "is_ok (Inr x) = True"

subsection \<open>Media types\<close>

record Transcript =
  tr_Text :: string
  tr_Language :: language
  tr_IsFinal :: bool
  tr_Confidence :: float64
  tr_StartMS :: int
  tr_EndMS :: int

record AudioFrame =
  af_PCM :: bytes
  af_SampleRate :: int
  af_TimestampMS :: int

record MTChunk =
  mt_Text :: string
  mt_SourceLang :: language
  mt_TargetLang :: language
  mt_IsFinal :: bool

record AudioChunk =
  ac_PCM :: bytes
  ac_SampleRate :: int
  ac_IsFinal :: bool

record Persona =
  VoiceID :: string
  persona_Language :: language
  Gender :: string
  ClonedFrom :: string

subsection \<open>Samples and bytes\<close>

text \<open>\<open>int16PCMToBytes\<close> and \<open>pcmBytesToInt16\<close> of pkg/rtp/duplex.go; a trailing odd byte is dropped.\<close>

fun int16PCMToBytes :: "u16 list \<Rightarrow> bytes" where
  "int16PCMToBytes [] = []"
| "int16PCMToBytes (s # ss) = lo8 s # hi8 s # int16PCMToBytes ss"

fun pcmBytesToInt16 :: "bytes \<Rightarrow> u16 list" where
  "pcmBytesToInt16 (lo # hi # bs) = u16_le lo hi # pcmBytesToInt16 bs"
| "pcmBytesToInt16 bs = []"

lemma length_int16PCMToBytes [simp]: "length (int16PCMToBytes ss) = 2 * length ss"
  by (induction ss) simp_all

lemma length_pcmBytesToInt16 [simp]: "length (pcmBytesToInt16 bs) = length bs div 2"
  by (induction bs rule: pcmBytesToInt16.induct) simp_all

lemma pcmBytesToInt16_inverse: "pcmBytesToInt16 (int16PCMToBytes ss @ [b]) = ss"
  "pcmBytesToInt16 (int16PCMToBytes ss) = ss"
  by (induction ss) simp_all

lemma int16PCMToBytes_inverse:
  "int16PCMToBytes (pcmBytesToInt16 bs) = take (length bs - length bs mod 2) bs"
proof (induction bs rule: pcmBytesToInt16.induct)
  case (1 lo hi bs)
  have "Suc (Suc (length bs)) - length bs mod 2 = Suc (Suc (length bs - length bs mod 2))"
    using mod_less_eq_dividend [of "length bs" 2] by arith
  with 1 show ?case by simp
qed simp_all

text \<open>
  Samples survive the wire format. Encoding samples and decoding the bytes gives the samples
  back, with or without a stray trailing byte; decoding bytes and encoding again gives the bytes
  back except for a trailing odd byte.
\<close>
theorem pcm16_roundtrip:
  "pcmBytesToInt16 (int16PCMToBytes ss) = ss \<and> pcmBytesToInt16 (int16PCMToBytes ss @ [b]) = ss
   \<and> int16PCMToBytes (pcmBytesToInt16 bs) = take (length bs - length bs mod 2) bs"
  using pcmBytesToInt16_inverse int16PCMToBytes_inverse by blast

end
