(* ===== verification/TTSPacer.thy ===== *)
theory TTSPacer
  imports Jitter Media
begin

section \<open>Outbound TTS pacing (pkg/rtp/duplex.go)\<close>

text \<open>
  \<open>feedTTSPacer\<close> re-chunks synthesized audio to whole 320-byte frames and pushes it into a
  jitter buffer; \<open>runTTSPacer\<close> pulls at most one found packet per tick and injects it. The two
  goroutines are a step relation over their shared state: the buffer's \<open>Push\<close> and \<open>Pull\<close>, the
  increment of \<open>pushed\<close> and its load are separate steps that interleave freely.

  The locale \<open>pacing_buffer\<close> is what the bridge needs of the buffer; it is interpreted on the
  jitter buffer. The definitions take the buffer's operations as arguments, so that the
  bridge's lemmas are proved from the contract and hold for the code's buffer.
\<close>

subsection \<open>Re-chunking\<close>

definition ttsFrameBytes :: nat where "ttsFrameBytes = 160 * 2"

text \<open>One chunk off the channel: the payloads pushed for it and the new \<open>carry\<close>.\<close>

definition feed_chunk :: "bytes \<Rightarrow> AudioChunk \<Rightarrow> bytes list \<times> bytes" where
  "feed_chunk carry chunk =
     (if ac_PCM chunk = [] \<and> \<not> ac_IsFinal chunk then ([], carry)
      else
        let buf = carry @ ac_PCM chunk;
            aligned = length buf - length buf mod ttsFrameBytes;
            pushes = (if aligned > 0 then [take aligned buf] else [])
        in if ac_IsFinal chunk
           then (pushes @ (if aligned < length buf then [drop aligned buf] else []), [])
           else (pushes, if aligned < length buf then drop aligned buf else []))"

text \<open>The channel closes: \<open>push(carry)\<close>, which skips an empty payload.\<close>

definition feed_close :: "bytes \<Rightarrow> bytes list" where
  "feed_close carry = (if carry = [] then [] else [carry])"

fun feed_all :: "bytes \<Rightarrow> AudioChunk list \<Rightarrow> bytes list \<times> bytes" where
  "feed_all carry [] = ([], carry)"
| "feed_all carry (c # cs) =
     (let (ps, carry1) = feed_chunk carry c; (qs, carry2) = feed_all carry1 cs in (ps @ qs, carry2))"

lemma feed_chunk_concat:
  "feed_chunk carry c = (ps, carry') \<Longrightarrow> concat ps @ carry' = carry @ ac_PCM c"
  by (auto simp: feed_chunk_def Let_def simp del: take_append drop_append length_append split: if_splits)

lemma feed_all_concat:
  "feed_all carry cs = (ps, carry') \<Longrightarrow> concat ps @ carry' = carry @ concat (map ac_PCM cs)"
proof (induction cs arbitrary: carry ps)
  case (Cons c cs)
  obtain qs carry1 where q: "feed_chunk carry c = (qs, carry1)" by (cases "feed_chunk carry c")
  obtain rs carry2 where r: "feed_all carry1 cs = (rs, carry2)" by (cases "feed_all carry1 cs")
  from Cons.prems q r have eq: "ps = qs @ rs" "carry2 = carry'" by simp_all
  with Cons.IH [OF r [unfolded eq]] feed_chunk_concat [OF q] show ?case
    by simp
qed simp

lemma aligned_split:
  "ttsFrameBytes dvd (n - n mod ttsFrameBytes)" "n - (n - n mod ttsFrameBytes) < ttsFrameBytes"
  by (simp_all add: dvd_minus_mod ttsFrameBytes_def)

text \<open>
  The carry is always shorter than a frame; a payload that is not a whole number of frames can
  only be the last one of a final chunk.
\<close>

lemma feed_chunk_carry:
  "length carry < ttsFrameBytes \<Longrightarrow> length (snd (feed_chunk carry c)) < ttsFrameBytes"
  using aligned_split(2) [of "length (carry @ ac_PCM c)"]
  by (auto simp: feed_chunk_def Let_def ttsFrameBytes_def)

lemma feed_chunk_aligned:
  "feed_chunk carry c = (ps, carry') \<Longrightarrow> p \<in> set ps \<Longrightarrow>
     p \<noteq> [] \<and> (ttsFrameBytes dvd length p \<or> ac_IsFinal c \<and> p = last ps \<and> length p < ttsFrameBytes)"
proof -
  assume ch: "feed_chunk carry c = (ps, carry')" and p: "p \<in> set ps"
  define buf where "buf = carry @ ac_PCM c"
  define n where "n = length buf - length buf mod ttsFrameBytes"
  have n: "ttsFrameBytes dvd n" "length buf - n < ttsFrameBytes" "n \<le> length buf"
    using aligned_split [of "length buf"] by (simp_all add: n_def)
  have "feed_chunk carry c =
     (if ac_PCM c = [] \<and> \<not> ac_IsFinal c then ([], carry)
      else if ac_IsFinal c
      then ((if n > 0 then [take n buf] else []) @ (if n < length buf then [drop n buf] else []), [])
      else (if n > 0 then [take n buf] else [], if n < length buf then drop n buf else []))"
    unfolding feed_chunk_def Let_def buf_def [symmetric] n_def [symmetric] by (rule refl)
  with ch p n show ?thesis by (auto split: if_splits)
qed

lemma feed_chunk_final:
  "ac_IsFinal c \<Longrightarrow> snd (feed_chunk carry c) = []"
  by (simp add: feed_chunk_def Let_def)

subsection \<open>The two goroutines\<close>

datatype feed_phase = FIdle | FAdd

datatype cons_phase = CIdle | CCheck instant | CPull instant

text \<open>
  Shared state and the local state of both loops: \<open>ps_todo\<close> holds the payloads the feed
  goroutine has computed from the last chunk and not pushed yet; \<open>ps_received\<close>, \<open>ps_injected\<close>
  and \<open>ps_lost\<close> are the history.
\<close>

record 's pacer =
  ps_buf :: 's
  ps_pushed :: nat
  ps_seq :: u16
  ps_carry :: bytes
  ps_todo :: "bytes list"
  ps_fphase :: feed_phase
  ps_closed :: bool
  ps_consumed :: nat
  ps_cphase :: cons_phase
  ps_received :: "AudioChunk list"
  ps_injected :: "bytes list"
  ps_lost :: nat

definition new_pacer :: "'s \<Rightarrow> 's pacer" where
  "new_pacer b =
     \<lparr>ps_buf = b, ps_pushed = 0, ps_seq = 0, ps_carry = [], ps_todo = [], ps_fphase = FIdle,
      ps_closed = False, ps_consumed = 0, ps_cphase = CIdle, ps_received = [], ps_injected = [],
      ps_lost = 0\<rparr>"

text \<open>\<open>feedTTSPacer\<close>: receive a chunk, see the channel closed, \<open>Push\<close>, \<open>pushed.Add(1)\<close>.\<close>

definition feed_recv :: "'s pacer \<Rightarrow> AudioChunk \<Rightarrow> 's pacer" where
  "feed_recv s chunk =
     (let (pushes, carry) = feed_chunk (ps_carry s) chunk
      in s\<lparr>ps_todo := pushes, ps_carry := carry, ps_received := ps_received s @ [chunk]\<rparr>)"

definition feed_closed :: "'s pacer \<Rightarrow> 's pacer" where
  "feed_closed s = s\<lparr>ps_todo := feed_close (ps_carry s), ps_carry := [], ps_closed := True\<rparr>"

definition pacer_packet :: "u16 \<Rightarrow> bytes \<Rightarrow> Packet" where
  "pacer_packet seq payload = \<lparr>SeqNum = seq, Timestamp = 0, Payload = payload\<rparr>"

definition feed_push ::
  "('s \<Rightarrow> Packet \<Rightarrow> instant \<Rightarrow> PushStatus \<times> 's) \<Rightarrow> 's pacer \<Rightarrow> instant \<Rightarrow> 's pacer" where
  "feed_push push s now =
     (case ps_todo s of [] \<Rightarrow> s
      | payload # rest \<Rightarrow>
          s\<lparr>ps_buf := snd (push (ps_buf s) (pacer_packet (ps_seq s) payload) now),
            ps_seq := ps_seq s + 1, ps_todo := rest, ps_fphase := FAdd\<rparr>)"

definition feed_add :: "'s pacer \<Rightarrow> 's pacer" where
  "feed_add s = s\<lparr>ps_pushed := ps_pushed s + 1, ps_fphase := FIdle\<rparr>"

text \<open>\<open>runTTSPacer\<close>: a tick, the loop condition, \<open>Pull\<close> and what follows it.\<close>

definition run_tick :: "'s pacer \<Rightarrow> instant \<Rightarrow> 's pacer" where
  "run_tick s now = s\<lparr>ps_cphase := CCheck now\<rparr>"

definition run_check :: "'s pacer \<Rightarrow> instant \<Rightarrow> 's pacer" where
  "run_check s now =
     s\<lparr>ps_cphase := (if ps_consumed s < ps_pushed s then CPull now else CIdle)\<rparr>"

definition run_pull ::
  "('s \<Rightarrow> instant \<Rightarrow> (Packet \<times> PullStatus) \<times> 's) \<Rightarrow> 's pacer \<Rightarrow> instant \<Rightarrow> 's pacer" where
  "run_pull pull s now =
     (let ((pkt, status), b) = pull (ps_buf s) now; s1 = s\<lparr>ps_buf := b\<rparr>
      in if status = PullLost then
           s1\<lparr>ps_consumed := ps_consumed s + 1, ps_cphase := CCheck now, ps_lost := ps_lost s + 1\<rparr>
         else if status = PullOK then
           s1\<lparr>ps_consumed := ps_consumed s + 1, ps_cphase := CIdle,
              ps_injected := ps_injected s @ [Payload pkt]\<rparr>
         else s1\<lparr>ps_cphase := CIdle\<rparr>)"

datatype pacer_ev = Recv AudioChunk | Closed | Push instant | Add | Tick instant | Check | Pull

inductive pacer_step ::
  "('s \<Rightarrow> Packet \<Rightarrow> instant \<Rightarrow> PushStatus \<times> 's) \<Rightarrow> ('s \<Rightarrow> instant \<Rightarrow> (Packet \<times> PullStatus) \<times> 's)
   \<Rightarrow> 's pacer \<Rightarrow> pacer_ev \<Rightarrow> 's pacer \<Rightarrow> bool"
  for push pull where
  step_recv: "\<not> ps_closed s \<Longrightarrow> ps_todo s = [] \<Longrightarrow> ps_fphase s = FIdle \<Longrightarrow>
     pacer_step push pull s (Recv c) (feed_recv s c)"
| step_closed: "\<not> ps_closed s \<Longrightarrow> ps_todo s = [] \<Longrightarrow> ps_fphase s = FIdle \<Longrightarrow>
     pacer_step push pull s Closed (feed_closed s)"
| step_push: "ps_todo s \<noteq> [] \<Longrightarrow> ps_fphase s = FIdle \<Longrightarrow>
     pacer_step push pull s (Push t) (feed_push push s t)"
| step_add: "ps_fphase s = FAdd \<Longrightarrow> pacer_step push pull s Add (feed_add s)"
| step_tick: "ps_cphase s = CIdle \<Longrightarrow> pacer_step push pull s (Tick t) (run_tick s t)"
| step_check: "ps_cphase s = CCheck t \<Longrightarrow> pacer_step push pull s Check (run_check s t)"
| step_pull: "ps_cphase s = CPull t \<Longrightarrow> pacer_step push pull s Pull (run_pull pull s t)"

inductive pacer_reach ::
  "('s \<Rightarrow> Packet \<Rightarrow> instant \<Rightarrow> PushStatus \<times> 's) \<Rightarrow> ('s \<Rightarrow> instant \<Rightarrow> (Packet \<times> PullStatus) \<times> 's)
   \<Rightarrow> 's \<Rightarrow> 's pacer \<Rightarrow> bool"
  for push pull b where
  reach_new: "pacer_reach push pull b (new_pacer b)"
| reach_step: "pacer_reach push pull b s \<Longrightarrow> pacer_step push pull s e s' \<Longrightarrow> pacer_reach push pull b s'"

inductive_cases pacer_stepE: "pacer_step push pull s e s'"

subsection \<open>What the bridge needs of the buffer\<close>

text \<open>
  Packets with consecutive sequence numbers queue up in order. \<open>pb_lossless\<close> says that the
  buffer has never dropped one for lack of capacity.
\<close>

locale pacing_buffer =
  fixes pb_push :: "'s \<Rightarrow> Packet \<Rightarrow> instant \<Rightarrow> PushStatus \<times> 's"
    and pb_pull :: "'s \<Rightarrow> instant \<Rightarrow> (Packet \<times> PullStatus) \<times> 's"
    and pb_inv :: "'s \<Rightarrow> bool"
    and pb_lossless :: "'s \<Rightarrow> bool"
    and pb_next :: "'s \<Rightarrow> u16"
    and pb_queue :: "'s \<Rightarrow> Packet list"
  assumes push_lossless: "pb_lossless (snd (pb_push b p t)) \<Longrightarrow> pb_lossless b"
    and push_queue: "pb_inv b \<Longrightarrow> pb_lossless (snd (pb_push b p t)) \<Longrightarrow>
      SeqNum p = pb_next b + of_nat (length (pb_queue b)) \<Longrightarrow>
      pb_inv (snd (pb_push b p t)) \<and> pb_queue (snd (pb_push b p t)) = pb_queue b @ [p]
      \<and> pb_next (snd (pb_push b p t)) = pb_next b"
    and pull_queue: "pb_inv b \<Longrightarrow> pb_queue b = p # ps \<Longrightarrow>
      fst (pb_pull b t) = (p, PullOK) \<and> pb_inv (snd (pb_pull b t))
      \<and> pb_queue (snd (pb_pull b t)) = ps \<and> pb_next (snd (pb_pull b t)) = pb_next b + 1"
    and pull_lossless: "pb_lossless (snd (pb_pull b t)) \<Longrightarrow> pb_lossless b"
begin

text \<open>
  The invariant of the bridge: what was injected, what is queued and what is still to push are,
  in this order, the payloads computed from the chunks received so far; nothing was lost; the
  consumer never runs ahead of what is queued.
\<close>

definition bridge_inv :: "'s pacer \<Rightarrow> bool" where
  "bridge_inv s \<longleftrightarrow> pb_inv (ps_buf s) \<and> ps_lost s = 0
     \<and> ps_seq s = pb_next (ps_buf s) + of_nat (length (pb_queue (ps_buf s)))
     \<and> ps_pushed s + (if ps_fphase s = FAdd then 1 else 0) = ps_consumed s + length (pb_queue (ps_buf s))
     \<and> ps_consumed s = length (ps_injected s)
     \<and> (\<forall>t. ps_cphase s = CPull t \<longrightarrow> ps_consumed s < ps_pushed s)
     \<and> (let (ps, carry) = feed_all [] (ps_received s)
        in ps_injected s @ map Payload (pb_queue (ps_buf s)) @ ps_todo s
             = ps @ (if ps_closed s then feed_close carry else [])
           \<and> ps_carry s = (if ps_closed s then [] else carry))"

end

lemma feed_all_snoc:
  "feed_all carry (cs @ [c]) =
     (let (ps, carry1) = feed_all carry cs; (qs, carry2) = feed_chunk carry1 c in (ps @ qs, carry2))"
  by (induction cs arbitrary: carry) (simp_all add: split_beta Let_def)

context pacing_buffer
begin

lemma step_lossless:
  "pacer_step pb_push pb_pull s e s' \<Longrightarrow> pb_lossless (ps_buf s') \<Longrightarrow> pb_lossless (ps_buf s)"
  by (erule pacer_stepE)
    (auto simp: feed_recv_def feed_closed_def feed_push_def feed_add_def run_tick_def
      run_check_def run_pull_def Let_def split_beta neq_Nil_conv
      dest: push_lossless pull_lossless split: if_splits)

lemma bridge_pull:
  assumes "bridge_inv s" "ps_cphase s = CPull t"
  obtains p ps where "pb_queue (ps_buf s) = p # ps" "pb_inv (ps_buf s)"
    "fst (pb_pull (ps_buf s) t) = (p, PullOK)"
proof -
  from assms have "pb_queue (ps_buf s) \<noteq> []" by (auto simp: bridge_inv_def split: if_splits)
  then obtain p ps where q: "pb_queue (ps_buf s) = p # ps" by (cases "pb_queue (ps_buf s)") auto
  have i: "pb_inv (ps_buf s)" using assms by (simp add: bridge_inv_def)
  from pull_queue [OF i q] q i that show thesis by blast
qed

lemma bridge_step_pull:
  assumes "bridge_inv s" "ps_cphase s = CPull t"
  shows "bridge_inv (run_pull pb_pull s t)"
proof -
  from assms obtain p ps where q: "pb_queue (ps_buf s) = p # ps" and i: "pb_inv (ps_buf s)"
    by (rule bridge_pull)
  obtain b where b: "pb_pull (ps_buf s) t = ((p, PullOK), b)" "pb_inv b" "pb_queue b = ps"
    "pb_next b = pb_next (ps_buf s) + 1"
    using pull_queue [OF i q, of t] by (cases "pb_pull (ps_buf s) t") auto
  from assms(1) q b show ?thesis
    by (auto simp: bridge_inv_def run_pull_def Let_def split_beta)
qed

lemma bridge_step_push:
  assumes "bridge_inv s" "ps_todo s \<noteq> []" "ps_fphase s = FIdle"
    "pb_lossless (ps_buf (feed_push pb_push s t))"
  shows "bridge_inv (feed_push pb_push s t)"
proof -
  obtain pl rest where todo: "ps_todo s = pl # rest" using assms(2) by (cases "ps_todo s") auto
  let ?p = "pacer_packet (ps_seq s) pl"
  have p: "SeqNum ?p = pb_next (ps_buf s) + of_nat (length (pb_queue (ps_buf s)))" "Payload ?p = pl"
    using assms(1) by (simp_all add: bridge_inv_def pacer_packet_def)
  from assms have "pb_inv (ps_buf s)" "pb_lossless (snd (pb_push (ps_buf s) ?p t))"
    by (simp_all add: bridge_inv_def feed_push_def todo)
  from push_queue [OF this p(1)] assms(1,3) todo p(2) show ?thesis
    by (auto simp: bridge_inv_def feed_push_def Let_def split_beta)
qed

lemma bridge_step:
  assumes "bridge_inv s" "pacer_step pb_push pb_pull s e s'" "pb_lossless (ps_buf s')"
  shows "bridge_inv s'"
  using assms(2)
proof cases
  case (step_recv c)
  with assms(1) show ?thesis
    by (auto simp: bridge_inv_def feed_recv_def feed_all_snoc Let_def split_beta)
next
  case step_closed
  with assms(1) show ?thesis
    by (auto simp: bridge_inv_def feed_closed_def Let_def split_beta)
next
  case (step_push t)
  with assms(1,3) bridge_step_push show ?thesis by blast
next
  case (step_pull t)
  with assms(1) bridge_step_pull show ?thesis by blast
qed (use assms(1) in \<open>auto simp: bridge_inv_def feed_add_def run_tick_def run_check_def split: if_splits\<close>)

lemma bridge_reach:
  assumes "pacer_reach pb_push pb_pull b s" "pb_lossless (ps_buf s)"
    "pb_inv b" "pb_queue b = []" "pb_next b = 0"
  shows "bridge_inv s"
  using assms(1,2)
proof induction
  case reach_new
  show ?case using assms(3-5) by (simp add: bridge_inv_def new_pacer_def)
next
  case (reach_step s e s')
  then show ?case using step_lossless bridge_step by blast
qed

end

subsection \<open>The jitter buffer keeps the contract\<close>

definition jb_queue :: "JitterBuffer \<Rightarrow> Packet list" where
  "jb_queue b = map (\<lambda>k. the (map_of (jb_buffered b) (jb_nextSeq b + of_nat k))) [0..<length (jb_buffered b)]"

definition jb_contiguous :: "JitterBuffer \<Rightarrow> bool" where
  "jb_contiguous b \<longleftrightarrow> jb_inv b \<and> MaxPacketsBuffered (jb_cfg b) < 32768
     \<and> 0 \<le> EvictedForCapacity (jb_stats b)
     \<and> (\<forall>k < length (jb_buffered b). jb_nextSeq b + of_nat k \<in> keys (jb_buffered b))"

definition jb_lossless :: "JitterBuffer \<Rightarrow> bool" where
  "jb_lossless b \<longleftrightarrow> EvictedForCapacity (jb_stats b) \<le> 0"

lemma of_nat_u16_inj: "(n :: u16) + of_nat j = n + of_nat k \<Longrightarrow> j < 32768 \<Longrightarrow> k < 32768 \<Longrightarrow> j = k"
proof -
  assume eq: "n + of_nat j = n + of_nat k" and "j < 32768" "k < 32768"
  then have "int j = int k" using seqDelta_of_nat [of j n] seqDelta_of_nat [of k n] by (simp only: eq)
  then show "j = k" by (simp only: of_nat_eq_iff)
qed

lemma contiguous_keys:
  assumes "wf_al xs" "\<forall>k < length xs. (n :: u16) + of_nat k \<in> keys xs" "length xs \<le> 32768"
  shows "keys xs = (\<lambda>k. n + of_nat k) ` {..<length xs}"
proof (rule card_subset_eq [symmetric])
  have "inj_on (\<lambda>k. n + of_nat k) {..<length xs}"
    using of_nat_u16_inj assms(3) by (auto intro!: inj_onI)
  then show "card ((\<lambda>k. n + of_nat k) ` {..<length xs}) = card (keys xs)"
    using distinct_card [OF assms(1)] by (simp add: card_image)
qed (use assms(2) in auto)

lemma jb_contiguous_length: "jb_contiguous b \<Longrightarrow> length (jb_buffered b) < 32768"
  by (auto simp: jb_contiguous_def jb_inv_def)

lemma jb_contiguous_next:
  assumes "jb_contiguous b"
  shows "jb_nextSeq b + of_nat (length (jb_buffered b)) \<notin> keys (jb_buffered b)"
proof
  let ?n = "length (jb_buffered b)"
  have len: "?n < 32768" using assms by (rule jb_contiguous_length)
  assume "jb_nextSeq b + of_nat ?n \<in> keys (jb_buffered b)"
  with assms len obtain k where "k < ?n" "jb_nextSeq b + of_nat ?n = jb_nextSeq b + of_nat k"
    using contiguous_keys [of "jb_buffered b" "jb_nextSeq b"] by (auto simp: jb_contiguous_def jb_inv_def)
  with of_nat_u16_inj [of "jb_nextSeq b" ?n k] len show False by simp
qed

lemma jb_push_law:
  assumes inv: "jb_contiguous b" and ok: "jb_lossless (snd (jb_Push b p t))"
    and seq: "SeqNum p = jb_nextSeq b + of_nat (length (jb_queue b))"
  shows "jb_contiguous (snd (jb_Push b p t)) \<and> jb_queue (snd (jb_Push b p t)) = jb_queue b @ [p]
    \<and> jb_nextSeq (snd (jb_Push b p t)) = jb_nextSeq b"
proof -
  let ?n = "length (jb_buffered b)"
  have len: "?n < 32768" using inv by (rule jb_contiguous_length)
  have s: "SeqNum p = jb_nextSeq b + of_nat ?n" using seq by (simp add: jb_queue_def)
  have empty: "\<not> jb_initialized b \<Longrightarrow> jb_buffered b = []"
    using inv by (auto simp: jb_contiguous_def jb_inv_def)
  then have nxt: "jb_nextSeq (jb_prime b p t) = jb_nextSeq b" using s by (auto simp: jb_prime_def)
  have "0 \<le> seqDelta (SeqNum p) (jb_nextSeq (jb_prime b p t))"
    using seqDelta_of_nat [OF len, of "jb_nextSeq b"] s nxt by simp
  moreover have new: "SeqNum p \<notin> keys (jb_buffered b)" using jb_contiguous_next [OF inv] s by simp
  ultimately have push: "jb_Push b p t = (PushAccepted, jb_store (jb_prime b p t) p)"
    using ok inv by (cases rule: jb_Push_cases [of b p t]) (auto simp: jb_lossless_def jb_contiguous_def)
  let ?b = "jb_store (jb_prime b p t) p"
  have buf: "jb_buffered ?b = jb_buffered b @ [(SeqNum p, p)]" using new by (simp add: al_put_new)
  have "jb_inv ?b" using jb_Push_inv [of b p t] inv push by (simp add: jb_contiguous_def)
  then have c: "jb_contiguous ?b"
    using inv s nxt buf by (auto simp: jb_contiguous_def less_Suc_eq)
  have "\<forall>k < ?n. map_of (jb_buffered b @ [(SeqNum p, p)]) (jb_nextSeq b + of_nat k)
      = map_of (jb_buffered b) (jb_nextSeq b + of_nat k)"
  proof (intro allI impI)
    fix k assume "k < ?n"
    then have "jb_nextSeq b + of_nat k \<noteq> SeqNum p" using inv new unfolding jb_contiguous_def by metis
    then show "map_of (jb_buffered b @ [(SeqNum p, p)]) (jb_nextSeq b + of_nat k)
        = map_of (jb_buffered b) (jb_nextSeq b + of_nat k)"
      by (auto simp: map_add_def split: option.splits)
  qed
  moreover have "map_of (jb_buffered b @ [(SeqNum p, p)]) (jb_nextSeq b + of_nat ?n) = Some p"
    using new [folded map_of_None_keys] by (simp add: s [symmetric] map_add_def)
  ultimately have "jb_queue ?b = jb_queue b @ [p]"
    unfolding jb_queue_def buf by (auto simp: nxt)
  with push nxt c show ?thesis by simp
qed

lemma jb_pull_law:
  assumes inv: "jb_contiguous b" and q: "jb_queue b = p # ps"
  shows "fst (jb_Pull b t) = (p, PullOK) \<and> jb_contiguous (snd (jb_Pull b t))
    \<and> jb_queue (snd (jb_Pull b t)) = ps \<and> jb_nextSeq (snd (jb_Pull b t)) = jb_nextSeq b + 1"
proof -
  let ?xs = "jb_buffered b" and ?n = "jb_nextSeq b"
  obtain m where m: "length ?xs = Suc m" using q by (cases "length ?xs") (auto simp: jb_queue_def)
  have len: "Suc m < 32768" using jb_contiguous_length [OF inv] m by simp
  have split: "[0..<Suc m] = 0 # map Suc [0..<m]" by (simp add: upt_conv_Cons map_Suc_upt del: upt_Suc)
  have all: "\<forall>k < Suc m. ?n + of_nat k \<in> keys ?xs" using inv m by (simp add: jb_contiguous_def)
  have key: "?n \<in> keys ?xs" using spec [OF all, of 0] by simp
  then obtain p' where p': "map_of ?xs ?n = Some p'" by (metis map_of_None_keys not_None_eq)
  have ini: "jb_initialized b" using inv m by (auto simp: jb_contiguous_def jb_inv_def)
  from q have pp: "p' = p" "ps = map (\<lambda>k. the (map_of ?xs (?n + of_nat (Suc k)))) [0..<m]"
    unfolding jb_queue_def m split by (simp_all add: p' o_def)
  let ?b = "b\<lparr>jb_buffered := al_del ?n ?xs, jb_nextSeq := ?n + 1\<rparr>"
  have pull: "jb_Pull b t = ((p, PullOK), ?b)" using ini p' pp by (simp add: jb_Pull_def)
  have lend: "length (al_del ?n ?xs) = m"
    using length_al_del_in [OF _ key] inv m by (simp add: jb_contiguous_def jb_inv_def)
  have ne: "?n + of_nat (Suc k) \<noteq> ?n" if "k < m" for k
    using of_nat_u16_inj [of ?n "Suc k" 0] that len by auto
  have "jb_inv ?b" using jb_Pull_inv [of b t] inv pull by (simp add: jb_contiguous_def)
  moreover have "\<forall>k < m. ?n + 1 + of_nat k \<in> keys (al_del ?n ?xs)"
  proof (intro allI impI)
    fix k assume k: "k < m"
    then have "Suc k < Suc m" by simp
    with all have "?n + of_nat (Suc k) \<in> keys ?xs" by blast
    with ne [OF k] show "?n + 1 + of_nat k \<in> keys (al_del ?n ?xs)" by (simp add: add_ac)
  qed
  ultimately have "jb_contiguous ?b" using inv by (simp add: jb_contiguous_def lend)
  moreover have "jb_queue ?b = ps"
    unfolding jb_queue_def pp(2) by (simp add: lend) (use ne in \<open>auto simp: add_ac\<close>)
  ultimately show ?thesis by (simp add: pull)
qed

lemma jb_lossless_back:
  "jb_lossless (snd (jb_Push b p t)) \<Longrightarrow> jb_lossless b"
  "jb_lossless (snd (jb_Pull b t)) \<Longrightarrow> jb_lossless b"
  by (cases rule: jb_Push_cases [of b p t]; simp add: jb_lossless_def)
    (cases rule: jb_Pull_cases [of b t]; simp add: jb_lossless_def)

interpretation jbp: pacing_buffer jb_Push jb_Pull jb_contiguous jb_lossless jb_nextSeq jb_queue
  by unfold_locales (fact jb_lossless_back(1) jb_push_law jb_pull_law jb_lossless_back(2))+

subsection \<open>Properties\<close>

lemma feed_all_append:
  "feed_all carry (cs @ ds) =
     (let (ps, carry1) = feed_all carry cs; (qs, carry2) = feed_all carry1 ds in (ps @ qs, carry2))"
  by (induction cs arbitrary: carry) (simp_all add: split_beta Let_def)

lemma feed_all_final_last:
  "cs \<noteq> [] \<Longrightarrow> ac_IsFinal (last cs) \<Longrightarrow> snd (feed_all carry cs) = []"
  by (induction cs rule: rev_induct) (simp_all add: feed_all_snoc split_beta Let_def feed_chunk_final)

lemma feed_all_aligned:
  "p \<in> set (fst (feed_all carry cs)) \<Longrightarrow>
     p \<noteq> [] \<and> (ttsFrameBytes dvd length p \<or> (\<exists>c \<in> set cs. ac_IsFinal c) \<and> length p < ttsFrameBytes)"
proof (induction cs arbitrary: carry)
  case (Cons c cs)
  obtain qs carry1 where q: "feed_chunk carry c = (qs, carry1)" by (cases "feed_chunk carry c")
  with Cons.prems have "p \<in> set qs \<or> p \<in> set (fst (feed_all carry1 cs))" by (auto simp: split_beta)
  then show ?case using Cons.IH feed_chunk_aligned [OF q, of p] by auto
qed simp

lemma feed_all_carry:
  "length carry < ttsFrameBytes \<Longrightarrow> length (snd (feed_all carry cs)) < ttsFrameBytes"
  by (induction cs arbitrary: carry) (simp_all add: split_beta Let_def feed_chunk_carry)

text \<open>
  C17: Re-chunking. For any stream of synthesized chunks, every payload pushed is non-empty and a
  whole number of 320-byte frames, unless a final chunk flushed a shorter remainder; no byte is lost
  or reordered between the chunks, the payloads and the carry; the carry is shorter than a frame;
  and a final chunk separates what comes before it from what follows.
\<close>
theorem feed_rechunks:
  "(let (ps, carry) = feed_all [] cs
    in (\<forall>p \<in> set ps. p \<noteq> [] \<and> (ttsFrameBytes dvd length p
          \<or> (\<exists>c \<in> set cs. ac_IsFinal c) \<and> length p < ttsFrameBytes))
       \<and> concat ps @ carry = concat (map ac_PCM cs) \<and> length carry < ttsFrameBytes)
   \<and> (cs \<noteq> [] \<and> ac_IsFinal (last cs) \<longrightarrow>
       fst (feed_all [] (cs @ ds)) = fst (feed_all [] cs) @ fst (feed_all [] ds))"
proof -
  obtain ps carry where f: "feed_all [] cs = (ps, carry)" by (cases "feed_all [] cs")
  have "\<forall>p \<in> set ps. p \<noteq> [] \<and> (ttsFrameBytes dvd length p
          \<or> (\<exists>c \<in> set cs. ac_IsFinal c) \<and> length p < ttsFrameBytes)"
    using feed_all_aligned [of _ "[]" cs] f by auto
  moreover have "length carry < ttsFrameBytes"
    using feed_all_carry [of "[]" cs] f by (simp add: ttsFrameBytes_def)
  moreover have "cs \<noteq> [] \<and> ac_IsFinal (last cs) \<longrightarrow>
      fst (feed_all [] (cs @ ds)) = fst (feed_all [] cs) @ fst (feed_all [] ds)"
    using feed_all_final_last [of cs "[]"] by (auto simp: feed_all_append split_beta Let_def)
  ultimately show ?thesis using feed_all_concat [OF f] by (simp add: f)
qed

text \<open>Two bytes, the second chunk final: one short payload; then an unrelated utterance.\<close>

theorem feed_rechunks_witness:
  "fst (feed_all [] ([\<lparr>ac_PCM = [1, 2], ac_SampleRate = 8000, ac_IsFinal = False\<rparr>,
                      \<lparr>ac_PCM = [], ac_SampleRate = 8000, ac_IsFinal = True\<rparr>]
                   @ [\<lparr>ac_PCM = [3], ac_SampleRate = 8000, ac_IsFinal = True\<rparr>])) = [[1, 2], [3]]"
  using feed_rechunks [of "[\<lparr>ac_PCM = [1, 2], ac_SampleRate = 8000, ac_IsFinal = False\<rparr>,
                      \<lparr>ac_PCM = [], ac_SampleRate = 8000, ac_IsFinal = True\<rparr>]"
                      "[\<lparr>ac_PCM = [3], ac_SampleRate = 8000, ac_IsFinal = True\<rparr>]"]
  by (simp add: feed_chunk_def Let_def ttsFrameBytes_def)

lemma jb_reach_inv:
  assumes "pacer_reach jb_Push jb_Pull (NewJitterBuffer c) s"
    "MaxPacketsBuffered (withDefaults c) < 32768" "EvictedForCapacity (jb_stats (ps_buf s)) = 0"
  shows "jbp.bridge_inv s"
  using assms(1)
proof (rule jbp.bridge_reach)
  show "jb_contiguous (NewJitterBuffer c)" using assms(2) by (simp add: jb_contiguous_def zero_Stats_def)
qed (use assms(3) in \<open>simp_all add: jb_lossless_def jb_queue_def\<close>)

text \<open>
  C2: The pacing bridge is a lossless queue. In every state the two goroutines can reach, however
  their steps interleave, as long as the buffer has not evicted for capacity: nothing was declared
  lost, and what was injected, what is queued and what is still to push are in order exactly the
  payloads computed from the chunks received. So a loss can only come from capacity, never from
  slow synthesis.
\<close>
theorem pacer_lossless_in_order:
  assumes "pacer_reach jb_Push jb_Pull (NewJitterBuffer c) s"
    "MaxPacketsBuffered (withDefaults c) < 32768" "EvictedForCapacity (jb_stats (ps_buf s)) = 0"
  shows "ps_lost s = 0 \<and>
    (let (ps, carry) = feed_all [] (ps_received s)
     in ps_injected s @ map Payload (jb_queue (ps_buf s)) @ ps_todo s
          = ps @ (if ps_closed s then feed_close carry else []))"
  using jb_reach_inv [OF assms] by (auto simp: jbp.bridge_inv_def split_beta)

definition small_cfg :: Config where
  "small_cfg = \<lparr>TargetDelay = 40 * millisecond, PacketInterval = 20 * millisecond, MaxPacketsBuffered = 200\<rparr>"

definition small_chunk :: AudioChunk where
  "small_chunk = \<lparr>ac_PCM = [1, 2], ac_SampleRate = 8000, ac_IsFinal = True\<rparr>"

definition small_queued :: "JitterBuffer pacer" where
  "small_queued = feed_add (feed_push jb_Push (feed_recv (new_pacer (NewJitterBuffer small_cfg)) small_chunk) 0)"

lemmas small_defs = small_queued_def small_cfg_def small_chunk_def feed_add_def feed_push_def feed_recv_def
  new_pacer_def NewJitterBuffer_def withDefaults_def feed_chunk_def ttsFrameBytes_def jb_Push_def
  jb_prime_def jb_store_def pacer_packet_def zero_Stats_def Let_def

lemma small_queued_reach: "pacer_reach jb_Push jb_Pull (NewJitterBuffer small_cfg) small_queued"
proof -
  let ?r = "pacer_reach jb_Push jb_Pull (NewJitterBuffer small_cfg)"
  have "?r (feed_recv (new_pacer (NewJitterBuffer small_cfg)) small_chunk)"
    by (rule reach_step [OF reach_new], rule step_recv) (simp_all add: new_pacer_def)
  then have "?r (feed_push jb_Push (feed_recv (new_pacer (NewJitterBuffer small_cfg)) small_chunk) 0)"
    by (rule reach_step) (rule step_push; simp add: small_defs)
  then show ?thesis unfolding small_queued_def
    by (rule reach_step) (rule step_add; simp add: small_defs)
qed

lemma small_queued_eval:
  "EvictedForCapacity (jb_stats (ps_buf small_queued)) = 0" "ps_cphase small_queued = CIdle"
  "ps_consumed small_queued < ps_pushed small_queued" "ps_injected small_queued = []"
  "jb_queue (ps_buf small_queued) = [pacer_packet 0 [1, 2]]" "ps_todo small_queued = []"
  "ps_lost small_queued = 0"
  by (simp_all add: small_defs jb_queue_def)

theorem pacer_lossless_in_order_witness:
  "ps_lost small_queued = 0 \<and>
    (let (ps, carry) = feed_all [] (ps_received small_queued)
     in ps_injected small_queued @ map Payload (jb_queue (ps_buf small_queued)) @ ps_todo small_queued
          = ps @ (if ps_closed small_queued then feed_close carry else []))"
  by (rule pacer_lossless_in_order [OF small_queued_reach])
    (simp_all add: small_queued_eval small_cfg_def withDefaults_def)

text \<open>
  The pacing bridge makes progress. Whenever a pushed payload is outstanding at a tick, the
  tick, the loop test and the pull inject exactly the next payload in order, whatever the time.
\<close>
theorem pacer_tick_injects_next:
  assumes "pacer_reach jb_Push jb_Pull (NewJitterBuffer c) s"
    "MaxPacketsBuffered (withDefaults c) < 32768" "EvictedForCapacity (jb_stats (ps_buf s)) = 0"
    "ps_cphase s = CIdle" "ps_consumed s < ps_pushed s"
  shows "run_check (run_tick s t) t = s\<lparr>ps_cphase := CPull t\<rparr>
    \<and> jb_queue (ps_buf s) \<noteq> []
    \<and> ps_injected (run_pull jb_Pull (run_check (run_tick s t) t) t)
        = ps_injected s @ [Payload (hd (jb_queue (ps_buf s)))]
    \<and> ps_cphase (run_pull jb_Pull (run_check (run_tick s t) t) t) = CIdle"
proof -
  have chk: "run_check (run_tick s t) t = s\<lparr>ps_cphase := CPull t\<rparr>"
    using assms(5) by (simp add: run_check_def run_tick_def)
  have inv: "jbp.bridge_inv (s\<lparr>ps_cphase := CPull t\<rparr>)"
    using jb_reach_inv [OF assms(1-3)] assms(5) by (simp add: jbp.bridge_inv_def)
  have "ps_cphase (s\<lparr>ps_cphase := CPull t\<rparr>) = CPull t" by simp
  with inv obtain p ps where "jb_queue (ps_buf (s\<lparr>ps_cphase := CPull t\<rparr>)) = p # ps"
    "fst (jb_Pull (ps_buf (s\<lparr>ps_cphase := CPull t\<rparr>)) t) = (p, PullOK)" by (rule jbp.bridge_pull)
  with chk show ?thesis by (simp add: run_pull_def Let_def split_beta)
qed

theorem pacer_tick_injects_next_witness:
  "ps_injected (run_pull jb_Pull (run_check (run_tick small_queued 20000000) 20000000) 20000000) = [[1, 2]]"
proof -
  have "MaxPacketsBuffered (withDefaults small_cfg) < 32768" by (simp add: small_cfg_def withDefaults_def)
  from pacer_tick_injects_next [OF small_queued_reach this small_queued_eval(1-3), of 20000000]
  show ?thesis by (auto simp: small_queued_eval pacer_packet_def)
qed

end
