(* ===== verification/Duplex.thy ===== *)
theory Duplex
  imports Jitter Media
begin

section \<open>The duplex RTP session (pkg/rtp/duplex.go)\<close>

text \<open>
  Configuration of the two legs, construction, the clean-audio bridge and the Start/Stop
  life cycle. ClearStream (an external module) appears through the outcome of its constructor and
  the calls made on its sessions. \<open>Start\<close> runs under \<open>lifecycleMu\<close> and is one step; \<open>Stop\<close> is
  the flag step under the mutex, the shutdown of the legs, and the bounded wait, which
  interleave with \<open>Start\<close> and with the exits of the six goroutines.
\<close>

subsection \<open>Configuration\<close>

definition defaultCleanAudioBufferSize :: int where "defaultCleanAudioBufferSize = 32"
definition cleanAudioSampleRate :: int where "cleanAudioSampleRate = 16000"
definition duplexStopTimeout :: duration where "duplexStopTimeout = 3 * second"
definition DefaultTTSPacingTargetDelay :: duration where "DefaultTTSPacingTargetDelay = 40 * millisecond"
definition DefaultTTSPacingInterval :: duration where "DefaultTTSPacingInterval = 20 * millisecond"

text \<open>Suppressors and loggers are opaque handles; \<open>None\<close> is a nil one.\<close>

record ('sup, 'log) LegConfig =
  lc_ListenAddr :: string
  lc_ForwardAddr :: string
  lc_ForwardAddrs :: "string list"
  lc_PayloadType :: byte
  lc_JitterDepth :: int
  lc_Suppressor :: "'sup option"
  lc_Logger :: "'log option"
  lc_CleanAudioBufferSize :: int

definition clearStreamConfig :: "'log \<Rightarrow> ('sup, 'log) LegConfig \<Rightarrow> ('sup, 'log) LegConfig" where
  "clearStreamConfig nop c =
     c\<lparr>lc_CleanAudioBufferSize := (if lc_CleanAudioBufferSize c \<le> 0 then defaultCleanAudioBufferSize
                                   else lc_CleanAudioBufferSize c),
       lc_Logger := (case lc_Logger c of None \<Rightarrow> Some nop | Some l \<Rightarrow> Some l)\<rparr>"

definition ttsPacingConfig :: "Config \<Rightarrow> Config" where
  "ttsPacingConfig TTSPacing =
     (let c1 = (if TargetDelay TTSPacing \<le> 0
                then TTSPacing\<lparr>TargetDelay := DefaultTTSPacingTargetDelay\<rparr> else TTSPacing);
          c2 = (if PacketInterval c1 \<le> 0 then c1\<lparr>PacketInterval := DefaultTTSPacingInterval\<rparr> else c1)
      in withDefaults c2)"

subsection \<open>Construction\<close>

datatype leg = CallerLeg | AgentLeg

datatype cs_call = CSNew leg | CSStart leg | CSStop leg

text \<open>
  \<open>validate\<close> and \<open>NewDuplexSession\<close>: \<open>mk\<close> is \<open>clearstream.NewSession\<close>; the result comes with
  the calls made. When the agent leg cannot be built the caller leg's socket is released by
  starting and stopping it.
\<close>

definition validate :: "'s option \<Rightarrow> unit result" where
  "validate session =
     (case session of None \<Rightarrow> Err (ErrNew ''rtp: DuplexConfig.Session must not be nil'') | Some s \<Rightarrow> Ok ())"

definition NewDuplexSession ::
  "(leg \<Rightarrow> ('sup, 'log) LegConfig \<Rightarrow> 'cs result) \<Rightarrow> 'log \<Rightarrow> ('sup, 'log) LegConfig
   \<Rightarrow> ('sup, 'log) LegConfig \<Rightarrow> 's option \<Rightarrow> ('cs \<times> 'cs) result \<times> cs_call list" where
  "NewDuplexSession mk nop callerCfg agentCfg session =
     (case validate session of Inl e \<Rightarrow> (Err e, [])
      | Inr _ \<Rightarrow>
        (case mk CallerLeg (clearStreamConfig nop callerCfg) of
           Inl e \<Rightarrow> (Err (ErrWrap ''rtp: constructing caller leg ClearStream session'' e), [CSNew CallerLeg])
         | Inr callerSess \<Rightarrow>
           (case mk AgentLeg (clearStreamConfig nop agentCfg) of
              Inl e \<Rightarrow> (Err (ErrWrap ''rtp: constructing agent leg ClearStream session'' e),
                        [CSNew CallerLeg, CSNew AgentLeg, CSStart CallerLeg, CSStop CallerLeg])
            | Inr agentSess \<Rightarrow> (Ok (callerSess, agentSess), [CSNew CallerLeg, CSNew AgentLeg]))))"

lemma clearStreamConfig_ok:
  "0 < lc_CleanAudioBufferSize (clearStreamConfig nop c)" "\<exists>l. lc_Logger (clearStreamConfig nop c) = Some l"
  by (cases "lc_Logger c"; simp add: clearStreamConfig_def defaultCleanAudioBufferSize_def)+

subsection \<open>The clean-audio bridge\<close>

text \<open>
  What \<open>bridgeCleanAudio\<close> sees at each turn of its loop: cancellation, a frame of samples with
  the wall clock at that moment, or the closed channel. A failing push is only logged.
\<close>

datatype clean_ev = CleanCancelled | CleanFrame "u16 list" int | CleanClosed

fun bridgeCleanAudio :: "clean_ev list \<Rightarrow> AudioFrame list" where
  "bridgeCleanAudio [] = []"
| "bridgeCleanAudio (CleanCancelled # evs) = []"
| "bridgeCleanAudio (CleanClosed # evs) = []"
| "bridgeCleanAudio (CleanFrame pcm now # evs) =
     \<lparr>af_PCM = int16PCMToBytes pcm, af_SampleRate = cleanAudioSampleRate, af_TimestampMS = now\<rparr>
       # bridgeCleanAudio evs"

subsection \<open>Start and Stop\<close>

datatype stop_phase = NotStopped | FlagSet bool | LegsStopped bool | StopReturned

record DuplexSession =
  startedFlag :: bool
  stoppedFlag :: bool
  dx_callerRunning :: bool
  dx_agentRunning :: bool
  dx_wg :: nat
  dx_cancelled :: bool
  dx_once :: stop_phase
  dx_stopErr :: "go_error option"

definition new_duplex :: DuplexSession where
  "new_duplex = \<lparr>startedFlag = False, stoppedFlag = False, dx_callerRunning = False,
     dx_agentRunning = False, dx_wg = 0, dx_cancelled = False, dx_once = NotStopped, dx_stopErr = None\<rparr>"

definition dx_Start :: "DuplexSession \<Rightarrow> DuplexSession" where
  "dx_Start d =
     (if startedFlag d \<or> stoppedFlag d then d
      else d\<lparr>startedFlag := True, dx_callerRunning := True, dx_agentRunning := True, dx_wg := dx_wg d + 6\<rparr>)"

definition dx_Stop_flag :: "DuplexSession \<Rightarrow> DuplexSession" where
  "dx_Stop_flag d = d\<lparr>stoppedFlag := True, dx_once := FlagSet (startedFlag d)\<rparr>"

definition stopLocked_legs :: "DuplexSession \<Rightarrow> bool \<Rightarrow> DuplexSession" where
  "stopLocked_legs d started =
     (let d1 = (if started then d\<lparr>dx_callerRunning := False, dx_agentRunning := False\<rparr> else d)
      in d1\<lparr>dx_cancelled := True, dx_once := LegsStopped started\<rparr>)"

definition stopLocked_wait :: "DuplexSession \<Rightarrow> bool \<Rightarrow> DuplexSession" where
  "stopLocked_wait d timed_out =
     d\<lparr>dx_once := StopReturned,
       dx_stopErr := (if timed_out then Some (ErrNew ''rtp: DuplexSession.Stop: timed out'') else None)\<rparr>"

inductive dx_step :: "DuplexSession \<Rightarrow> DuplexSession \<Rightarrow> bool" where
  dx_start: "dx_step d (dx_Start d)"
| dx_stop_flag: "dx_once d = NotStopped \<Longrightarrow> dx_step d (dx_Stop_flag d)"
| dx_stop_legs: "dx_once d = FlagSet started \<Longrightarrow> dx_step d (stopLocked_legs d started)"
| dx_wait_done: "dx_once d = LegsStopped started \<Longrightarrow> dx_wg d = 0 \<Longrightarrow> dx_step d (stopLocked_wait d False)"
| dx_wait_timeout: "dx_once d = LegsStopped started \<Longrightarrow> dx_step d (stopLocked_wait d True)"
| dx_exit: "0 < dx_wg d \<Longrightarrow> dx_step d (d\<lparr>dx_wg := dx_wg d - 1\<rparr>)"

inductive_cases dx_stepE: "dx_step d d'"

definition dx_inv :: "DuplexSession \<Rightarrow> bool" where
  "dx_inv d \<longleftrightarrow> (dx_once d = NotStopped \<longleftrightarrow> \<not> stoppedFlag d)
     \<and> (dx_wg d \<le> 6) \<and> (\<not> startedFlag d \<longrightarrow> dx_wg d = 0)
     \<and> (case dx_once d of
          NotStopped \<Rightarrow> dx_callerRunning d = startedFlag d \<and> dx_agentRunning d = startedFlag d
        | FlagSet s \<Rightarrow> s = startedFlag d \<and> dx_callerRunning d = s \<and> dx_agentRunning d = s
        | LegsStopped s \<Rightarrow> s = startedFlag d \<and> \<not> dx_callerRunning d \<and> \<not> dx_agentRunning d \<and> dx_cancelled d
        | StopReturned \<Rightarrow> \<not> dx_callerRunning d \<and> \<not> dx_agentRunning d \<and> dx_cancelled d
            \<and> (dx_stopErr d = None \<longrightarrow> dx_wg d = 0))"

lemma dx_inv_new [simp]: "dx_inv new_duplex"
  by (simp add: dx_inv_def new_duplex_def)

lemmas dx_op_defs = dx_Start_def dx_Stop_flag_def stopLocked_legs_def stopLocked_wait_def

lemma dx_inv_step: "dx_inv d \<Longrightarrow> dx_step d d' \<Longrightarrow> dx_inv d'"
  by (erule dx_stepE) (auto simp: dx_inv_def dx_op_defs Let_def split: stop_phase.splits if_splits)

lemma dx_inv_reach: "dx_step\<^sup>*\<^sup>* new_duplex d \<Longrightarrow> dx_inv d"
  by (induction rule: rtranclp_induct) (auto intro: dx_inv_step)

lemma dx_after_stop:
  "dx_step d d' \<Longrightarrow> stoppedFlag d \<Longrightarrow> stoppedFlag d' \<and> startedFlag d' = startedFlag d \<and> dx_wg d' \<le> dx_wg d"
  by (erule dx_stepE) (auto simp: dx_op_defs Let_def)

text \<open>
  C20: Start and Stop never race on the wait group. In every interleaving of Start, Stop and the
  goroutines: the six goroutines are started at most once; once Stop has set its flag no step adds
  to the wait group any more, so its Wait never meets a late Add; and when Stop has returned both
  legs are down, the context is cancelled, and a nil error means that no goroutine is left.
\<close>
theorem duplex_lifecycle_safe:
  assumes "dx_step\<^sup>*\<^sup>* new_duplex d" "dx_step\<^sup>*\<^sup>* d d'"
  shows "dx_wg d \<le> 6 \<and> (stoppedFlag d \<longrightarrow> stoppedFlag d' \<and> dx_wg d' \<le> dx_wg d \<and> startedFlag d' = startedFlag d)
    \<and> (dx_once d = StopReturned \<longrightarrow> \<not> dx_callerRunning d \<and> \<not> dx_agentRunning d \<and> dx_cancelled d
         \<and> (dx_stopErr d = None \<longrightarrow> dx_wg d = 0 \<and> dx_wg d' = 0))"
proof -
  have inv: "dx_inv d" using assms(1) by (rule dx_inv_reach)
  have later: "stoppedFlag d \<longrightarrow> stoppedFlag d' \<and> dx_wg d' \<le> dx_wg d \<and> startedFlag d' = startedFlag d"
    using assms(2)
  proof (induction rule: rtranclp_induct)
    case (step y z)
    then show ?case using dx_after_stop [of y z] by auto
  qed simp
  moreover have "dx_once d = StopReturned \<longrightarrow> stoppedFlag d" using inv by (auto simp: dx_inv_def)
  ultimately show ?thesis using inv by (auto simp: dx_inv_def)
qed

text \<open>Stop before Start: nothing runs, the wait is over at once, and Start does nothing.\<close>

definition stopped_first :: DuplexSession where
  "stopped_first = stopLocked_wait (stopLocked_legs (dx_Stop_flag new_duplex) False) False"

theorem duplex_lifecycle_safe_witness:
  "dx_wg (dx_Start stopped_first) = 0 \<and> \<not> startedFlag (dx_Start stopped_first)"
proof -
  have s: "dx_step\<^sup>*\<^sup>* new_duplex (dx_Stop_flag new_duplex)"
    by (intro r_into_rtranclp dx_stop_flag) (simp add: new_duplex_def)
  then have "dx_step\<^sup>*\<^sup>* new_duplex (stopLocked_legs (dx_Stop_flag new_duplex) False)"
    by (rule rtranclp.rtrancl_into_rtrancl) (rule dx_stop_legs, simp add: new_duplex_def dx_Stop_flag_def)
  then have r: "dx_step\<^sup>*\<^sup>* new_duplex stopped_first" unfolding stopped_first_def
    by (rule rtranclp.rtrancl_into_rtrancl)
      (rule dx_wait_done [where started = False], simp_all add: new_duplex_def dx_Stop_flag_def stopLocked_legs_def)
  have "dx_step\<^sup>*\<^sup>* stopped_first (dx_Start stopped_first)" by (intro r_into_rtranclp dx_start)
  from duplex_lifecycle_safe [OF r this] show ?thesis
    by (simp add: stopped_first_def new_duplex_def dx_op_defs)
qed

text \<open>
  Construction leaks no started leg and fails as documented: without a session nothing is
  built; the two sessions are returned only if both were built from configurations whose
  clean-audio feed is enabled and whose logger is set; and on a failure of the agent leg the caller
  leg is started and then stopped, every other leg call being a construction.
\<close>
theorem NewDuplexSession_outcomes:
  "case NewDuplexSession mk nop cc ac session of
     (Inr (c, a), calls) \<Rightarrow> session \<noteq> None \<and> mk CallerLeg (clearStreamConfig nop cc) = Ok c
        \<and> mk AgentLeg (clearStreamConfig nop ac) = Ok a
        \<and> 0 < lc_CleanAudioBufferSize (clearStreamConfig nop cc) \<and> lc_Logger (clearStreamConfig nop ac) \<noteq> None
        \<and> calls = [CSNew CallerLeg, CSNew AgentLeg]
   | (Inl e, calls) \<Rightarrow> (session = None \<longleftrightarrow> calls = [])
        \<and> (CSStart CallerLeg \<in> set calls \<longleftrightarrow> CSStop CallerLeg \<in> set calls)
        \<and> CSStart AgentLeg \<notin> set calls
        \<and> (CSNew AgentLeg \<in> set calls \<longleftrightarrow> CSStop CallerLeg \<in> set calls)"
  by (cases session; cases "mk CallerLeg (clearStreamConfig nop cc)";
      cases "mk AgentLeg (clearStreamConfig nop ac)";
      simp add: NewDuplexSession_def validate_def clearStreamConfig_ok)

lemma ttsPacingConfig_ok: "cfg_ok (ttsPacingConfig c)"
  by (simp add: ttsPacingConfig_def Let_def cfg_ok_withDefaults)

end
