(* ===== verification/Breaker.thy ===== *)
theory Breaker
  imports Media
begin

section \<open>Circuit breaker and retry backoff (pkg/{asr,translate,tts}/circuitbreaker.go, backoff.go)\<close>

text \<open>
  The same breaker stands in three packages; it is modelled once. Each method holds the mutex and
  is one step; \<open>b.now()\<close> is the argument \<open>now\<close>. The locale \<open>breaker\<close> is the contract its
  clients rely on (retry loops, first connections); it is interpreted here on the code's breaker.
\<close>

subsection \<open>The breaker\<close>

record circuitBreaker =
  threshold :: int
  cooldown :: duration
  cb_open :: bool
  consecutiveFails :: int
  openUntil :: instant
  probeInFlight :: bool

definition defaultBreakerFailureThreshold :: int where "defaultBreakerFailureThreshold = 5"
definition defaultBreakerCooldown :: duration where "defaultBreakerCooldown = 10 * second"

definition newCircuitBreaker :: "int \<Rightarrow> duration \<Rightarrow> circuitBreaker" where
  "newCircuitBreaker th cd =
     \<lparr>threshold = (if th \<le> 0 then defaultBreakerFailureThreshold else th),
      cooldown = (if cd \<le> 0 then defaultBreakerCooldown else cd),
      cb_open = False, consecutiveFails = 0, openUntil = 0, probeInFlight = False\<rparr>"

definition cb_allow :: "circuitBreaker \<Rightarrow> instant \<Rightarrow> bool \<times> circuitBreaker" where
  "cb_allow b now =
     (if \<not> cb_open b then (True, b)
      else if now < openUntil b then (False, b)
      else if probeInFlight b then (False, b)
      else (True, b\<lparr>probeInFlight := True\<rparr>))"

definition cb_recordSuccess :: "circuitBreaker \<Rightarrow> circuitBreaker" where
  "cb_recordSuccess b = b\<lparr>consecutiveFails := 0, cb_open := False, probeInFlight := False\<rparr>"

definition cb_recordFailure :: "circuitBreaker \<Rightarrow> instant \<Rightarrow> circuitBreaker" where
  "cb_recordFailure b now =
     (let b1 = b\<lparr>probeInFlight := False, consecutiveFails := consecutiveFails b + 1\<rparr>
      in if cb_open b1 \<or> consecutiveFails b1 \<ge> threshold b1
         then b1\<lparr>cb_open := True, openUntil := now + cooldown b1\<rparr> else b1)"

definition cb_abort :: "circuitBreaker \<Rightarrow> circuitBreaker" where
  "cb_abort b = b\<lparr>probeInFlight := False\<rparr>"

lemmas cb_defs = cb_allow_def cb_recordSuccess_def cb_recordFailure_def cb_abort_def Let_def

subsection \<open>The contract of a breaker\<close>

text \<open>
  \<open>busy\<close> says that a probe is outstanding. A refusal changes nothing; every verdict releases the
  slot; a breaker with no probe outstanding lets calls through from some time on.
\<close>

locale breaker =
  fixes br_allow :: "'b \<Rightarrow> instant \<Rightarrow> bool \<times> 'b"
    and br_success :: "'b \<Rightarrow> 'b"
    and br_failure :: "'b \<Rightarrow> instant \<Rightarrow> 'b"
    and br_abort :: "'b \<Rightarrow> 'b"
    and br_busy :: "'b \<Rightarrow> bool"
  assumes refuse_frame: "\<not> fst (br_allow b t) \<Longrightarrow> snd (br_allow b t) = b"
    and success_releases: "\<not> br_busy (br_success b)"
    and failure_releases: "\<not> br_busy (br_failure b t)"
    and abort_releases: "\<not> br_busy (br_abort b)"
    and success_opens: "fst (br_allow (br_success b) t)"
    and idle_available: "\<not> br_busy b \<Longrightarrow> \<exists>t0. \<forall>t \<ge> t0. fst (br_allow b t)"
begin

text \<open>A call that was let through and settled once, by any verdict, leaves the breaker available.\<close>

definition settled :: "'b \<Rightarrow> 'b \<Rightarrow> bool" where
  "settled b b' \<longleftrightarrow> b' = br_success b \<or> (\<exists>t. b' = br_failure b t) \<or> b' = br_abort b"

lemma settled_idle: "settled b b' \<Longrightarrow> \<not> br_busy b'"
  by (auto simp: settled_def success_releases failure_releases abort_releases)

lemma settled_available: "settled b b' \<Longrightarrow> \<exists>t0. \<forall>t \<ge> t0. fst (br_allow b' t)"
  by (intro idle_available settled_idle)

end

interpretation cb: breaker cb_allow cb_recordSuccess cb_recordFailure cb_abort probeInFlight
  proof unfold_locales
  fix b :: circuitBreaker and t
  assume "\<not> probeInFlight b"
  then have "\<forall>t \<ge> openUntil b. fst (cb_allow b t)" by (simp add: cb_defs)
  then show "\<exists>t0. \<forall>t \<ge> t0. fst (cb_allow b t)" by blast
qed (auto simp: cb_defs)

subsection \<open>Runs and the abstract three-state breaker\<close>

datatype cb_op = CbAllow instant | CbSuccess | CbFailure instant | CbAbort

fun cb_step :: "circuitBreaker \<Rightarrow> cb_op \<Rightarrow> bool list \<times> circuitBreaker" where
  "cb_step b (CbAllow t) = (let (r, b') = cb_allow b t in ([r], b'))"
| "cb_step b CbSuccess = ([], cb_recordSuccess b)"
| "cb_step b (CbFailure t) = ([], cb_recordFailure b t)"
| "cb_step b CbAbort = ([], cb_abort b)"

fun cb_run :: "circuitBreaker \<Rightarrow> cb_op list \<Rightarrow> bool list \<times> circuitBreaker" where
  "cb_run b [] = ([], b)"
| "cb_run b (x # xs) = (let (r, b1) = cb_step b x; (rs, b2) = cb_run b1 xs in (r @ rs, b2))"

text \<open>The states the comment of \<open>circuitBreaker\<close> lists.\<close>

datatype breaker_state = Closed int | Open instant | Probing instant

fun spec_step :: "int \<Rightarrow> duration \<Rightarrow> breaker_state \<Rightarrow> cb_op \<Rightarrow> bool list \<times> breaker_state" where
  "spec_step th cd (Closed n) (CbAllow t) = ([True], Closed n)"
| "spec_step th cd (Open u) (CbAllow t) = (if t < u then ([False], Open u) else ([True], Probing u))"
| "spec_step th cd (Probing u) (CbAllow t) = ([False], Probing u)"
| "spec_step th cd s CbSuccess = ([], Closed 0)"
| "spec_step th cd (Closed n) (CbFailure t) =
     ([], if n + 1 \<ge> th then Open (t + cd) else Closed (n + 1))"
| "spec_step th cd (Open u) (CbFailure t) = ([], Open (t + cd))"
| "spec_step th cd (Probing u) (CbFailure t) = ([], Open (t + cd))"
| "spec_step th cd (Closed n) CbAbort = ([], Closed n)"
| "spec_step th cd (Open u) CbAbort = ([], Open u)"
| "spec_step th cd (Probing u) CbAbort = ([], Open u)"

fun spec_run :: "int \<Rightarrow> duration \<Rightarrow> breaker_state \<Rightarrow> cb_op list \<Rightarrow> bool list \<times> breaker_state" where
  "spec_run th cd s [] = ([], s)"
| "spec_run th cd s (x # xs) =
     (let (r, s1) = spec_step th cd s x; (rs, s2) = spec_run th cd s1 xs in (r @ rs, s2))"

definition cb_abs :: "circuitBreaker \<Rightarrow> breaker_state" where
  "cb_abs b = (if \<not> cb_open b then Closed (consecutiveFails b)
               else if probeInFlight b then Probing (openUntil b) else Open (openUntil b))"

definition cb_inv :: "circuitBreaker \<Rightarrow> bool" where
  "cb_inv b \<longleftrightarrow> 0 < threshold b \<and> 0 < cooldown b \<and> (probeInFlight b \<longrightarrow> cb_open b)
     \<and> 0 \<le> consecutiveFails b \<and> (\<not> cb_open b \<longrightarrow> consecutiveFails b < threshold b)"

lemma cb_inv_new [simp]: "cb_inv (newCircuitBreaker th cd)"
  by (simp add: cb_inv_def newCircuitBreaker_def defaultBreakerFailureThreshold_def defaultBreakerCooldown_def)

lemma cb_abs_new [simp]: "cb_abs (newCircuitBreaker th cd) = Closed 0"
  by (simp add: cb_abs_def newCircuitBreaker_def)

lemma cb_step_refines:
  assumes "cb_inv b"
  shows "cb_inv (snd (cb_step b x))
    \<and> threshold (snd (cb_step b x)) = threshold b \<and> cooldown (snd (cb_step b x)) = cooldown b
    \<and> spec_step (threshold b) (cooldown b) (cb_abs b) x = (fst (cb_step b x), cb_abs (snd (cb_step b x)))"
  using assms by (cases x) (auto simp: cb_inv_def cb_abs_def cb_defs)

lemma cb_run_refines:
  "cb_inv b \<Longrightarrow> cb_inv (snd (cb_run b xs))
     \<and> spec_run (threshold b) (cooldown b) (cb_abs b) xs = (fst (cb_run b xs), cb_abs (snd (cb_run b xs)))"
proof (induction xs arbitrary: b)
  case (Cons x xs)
  then show ?case using cb_step_refines [OF Cons.prems, of x] Cons.IH [of "snd (cb_step b x)"]
    by (simp add: split_beta Let_def)
qed simp

text \<open>
  C3: The breaker refines the three-state machine of its comment. For every threshold and
  cooldown (defaults filled in) and every sequence of allow, success, failure and abort calls by any
  number of callers, the answers of \<open>allow\<close> and the resulting state are those of the abstract
  closed / open / probing machine.
\<close>
theorem breaker_refines_spec:
  "let b = newCircuitBreaker th cd
   in spec_run (threshold b) (cooldown b) (Closed 0) xs = (fst (cb_run b xs), cb_abs (snd (cb_run b xs)))"
  using cb_run_refines [OF cb_inv_new, of th cd xs] by simp

subsection \<open>Tripping and recovery\<close>

lemma failures_below_threshold:
  assumes "cb_inv b" "\<not> cb_open b" "consecutiveFails b + int (length ts) < threshold b"
  shows "\<not> cb_open (foldl cb_recordFailure b ts)
    \<and> consecutiveFails (foldl cb_recordFailure b ts) = consecutiveFails b + int (length ts)
    \<and> threshold (foldl cb_recordFailure b ts) = threshold b \<and> cooldown (foldl cb_recordFailure b ts) = cooldown b"
  using assms
proof (induction ts arbitrary: b)
  case (Cons t ts)
  have b1: "\<not> cb_open (cb_recordFailure b t)" "consecutiveFails (cb_recordFailure b t) = consecutiveFails b + 1"
    "threshold (cb_recordFailure b t) = threshold b" "cooldown (cb_recordFailure b t) = cooldown b"
    using Cons.prems by (auto simp: cb_defs)
  moreover have "cb_inv (cb_recordFailure b t)"
    using cb_step_refines [OF Cons.prems(1), of "CbFailure t"] by simp
  ultimately show ?case using Cons.IH [of "cb_recordFailure b t"] Cons.prems by simp
qed simp

text \<open>
  The breaker trips at the threshold and not before. From a new breaker, fewer consecutive
  failures than the threshold leave it closed and letting every call through; the failure that
  reaches the threshold, at time \<open>t\<close>, closes the gate until \<open>t + cooldown\<close> and lets exactly one
  probe through from then on.
\<close>
theorem breaker_trips_at_threshold:
  assumes "int (length ts) + 1 = threshold (newCircuitBreaker th cd)"
  shows "let b = foldl cb_recordFailure (newCircuitBreaker th cd) ts; b' = cb_recordFailure b t
    in fst (cb_allow b u)
       \<and> (u < t + cooldown b \<longrightarrow> \<not> fst (cb_allow b' u))
       \<and> (t + cooldown b \<le> u \<longrightarrow> fst (cb_allow b' u) \<and> \<not> fst (cb_allow (snd (cb_allow b' u)) v))"
proof -
  let ?n = "newCircuitBreaker th cd"
  have "\<not> cb_open ?n" "consecutiveFails ?n = 0" by (simp_all add: newCircuitBreaker_def)
  with failures_below_threshold [OF cb_inv_new, of th cd ts] assms show ?thesis
    by (auto simp: cb_defs)
qed

theorem breaker_trips_at_threshold_witness:
  "let b = foldl cb_recordFailure (newCircuitBreaker 0 0) [1, 2, 3, 4]; b' = cb_recordFailure b 5
   in fst (cb_allow b 6) \<and> (6 < 5 + cooldown b \<longrightarrow> \<not> fst (cb_allow b' 6))
      \<and> (5 + cooldown b \<le> 6 \<longrightarrow> fst (cb_allow b' 6) \<and> \<not> fst (cb_allow (snd (cb_allow b' 6)) 7))"
  by (rule breaker_trips_at_threshold)
    (simp add: newCircuitBreaker_def defaultBreakerFailureThreshold_def)

text \<open>
  Probe exclusivity has one gap. While a probe is out, further calls are refused until a
  verdict arrives; but the verdict of a call that was let through before the breaker tripped counts
  as the probe's: a stale abort (or failure) of such a call makes the next \<open>allow\<close> after the
  cooldown admit a second probe while the first is still running.
\<close>
theorem breaker_stale_verdict:
  assumes "cb_inv b" "cb_abs b = Probing u"
  shows "(\<forall>t. \<not> fst (cb_allow b t)) \<and> (\<forall>t \<ge> u. fst (cb_allow (cb_abort b) t))
    \<and> (\<forall>s. \<forall>t \<ge> s + cooldown b. fst (cb_allow (cb_recordFailure b s) t))"
  using assms by (auto simp: cb_abs_def cb_defs split: if_splits)

text \<open>Threshold 1, one call \<open>A\<close> running, another one trips the breaker, a probe starts, \<open>A\<close> aborts.\<close>

theorem breaker_stale_verdict_witness:
  "let b = snd (cb_run (newCircuitBreaker 1 10) [CbAllow 0, CbAllow 1, CbFailure 2, CbAllow 12])
   in fst (cb_run (newCircuitBreaker 1 10)
        [CbAllow 0, CbAllow 1, CbFailure 2, CbAllow 12, CbAllow 13, CbAbort, CbAllow 14])
        = [True, True, True, False, True]
      \<and> fst (cb_allow (cb_abort b) 14)"
proof -
  let ?b = "snd (cb_run (newCircuitBreaker 1 10) [CbAllow 0, CbAllow 1, CbFailure 2, CbAllow 12])"
  have "cb_inv ?b" using cb_run_refines [OF cb_inv_new] by blast
  moreover have "cb_abs ?b = Probing 12" by (simp add: newCircuitBreaker_def cb_defs cb_abs_def)
  ultimately have "\<forall>t \<ge> 12. fst (cb_allow (cb_abort ?b) t)" using breaker_stale_verdict by blast
  then show ?thesis by (simp add: newCircuitBreaker_def cb_defs)
qed

subsection \<open>Backoff\<close>

text \<open>
  \<open>retryBackoff\<close> and \<open>reconnectBackoff\<close> on 64-bit integers. \<open>rnd\<close> is \<open>rand.Int63n\<close>: it
  panics on an argument that is not positive, otherwise it returns a number below it.
\<close>

definition clamp_attempt :: "int \<Rightarrow> nat" where
  "clamp_attempt attempt = (if attempt < 0 then 0 else if attempt > 20 then 20 else nat attempt)"

definition retryBackoff :: "(int \<Rightarrow> int) \<Rightarrow> int \<Rightarrow> i64 \<Rightarrow> i64 \<Rightarrow> i64 option" where
  "retryBackoff rnd attempt base cap =
     (let d0 = push_bit (clamp_attempt attempt) base;
          d = (if sint d0 \<le> 0 \<or> sint d0 > sint cap then cap else d0);
          n = go_div (sint d) 5 + 1
      in if n \<le> 0 then None else Some (d + word_of_int (rnd n)))"

lemma sint_of_small: "- (2 ^ 63) \<le> k \<Longrightarrow> k < 2 ^ 63 \<Longrightarrow> sint (word_of_int k :: i64) = k"
proof -
  assume k: "- (2 ^ 63) \<le> k" "k < 2 ^ 63"
  have "sint (word_of_int k :: i64) = signed_take_bit 63 k" by (simp only: sint_sbintrunc') simp
  also have "\<dots> = k" using k by (intro signed_take_bit_int_eq_self) simp_all
  finally show ?thesis .
qed

lemma sint_push_bit_small:
  fixes w :: i64
  assumes "0 < sint w" "sint w * 2 ^ n < 2 ^ 63"
  shows "sint (push_bit n w) = sint w * 2 ^ n"
proof -
  have "push_bit n w = word_of_int (sint w * 2 ^ n)"
    by (simp add: push_bit_eq_mult)
  moreover have "0 \<le> sint w * 2 ^ n" using assms(1) by simp
  ultimately show ?thesis using assms(2) by (simp only: sint_of_small)
qed

lemma clamp_attempt_le: "clamp_attempt a \<le> 20"
  by (simp add: clamp_attempt_def nat_le_iff)

lemma retryBackoff_range:
  assumes "0 < sint base" "sint base \<le> 2 ^ 42" "0 < sint cap" "sint cap \<le> 2 ^ 61"
    "\<forall>n > 0. 0 \<le> rnd n \<and> rnd n < n"
  shows "\<exists>d. retryBackoff rnd attempt base cap = Some d
    \<and> (let m = min (sint base * 2 ^ clamp_attempt attempt) (sint cap)
       in m \<le> sint d \<and> sint d \<le> m + m div 5)"
proof -
  let ?k = "clamp_attempt attempt" and ?d0 = "push_bit (clamp_attempt attempt) base"
  define m where "m = min (sint base * 2 ^ ?k) (sint cap)"
  have "(2::int) ^ ?k \<le> 2 ^ 20" using clamp_attempt_le by (intro power_increasing) simp_all
  then have "sint base * 2 ^ ?k \<le> 2 ^ 42 * 2 ^ 20" using assms(1,2) by (intro mult_mono) simp_all
  then have d0: "sint ?d0 = sint base * 2 ^ ?k" using assms(1) by (intro sint_push_bit_small) simp_all
  have pos: "0 < sint ?d0" using d0 assms(1) by simp
  define d where "d = (if sint ?d0 \<le> 0 \<or> sint ?d0 > sint cap then cap else ?d0)"
  have d: "sint d = m" using d0 pos by (auto simp: d_def m_def)
  have m: "0 < m" "m \<le> 2 ^ 61" using assms(3,4) pos d0 by (auto simp: m_def)
  have n: "go_div (sint d) 5 + 1 = m div 5 + 1" using m by (simp add: d go_div_nonneg)
  let ?r = "rnd (m div 5 + 1)"
  have r: "0 \<le> ?r" "?r \<le> m div 5" using assms(5) [rule_format, of "m div 5 + 1"] m(1) by simp_all
  have "d + word_of_int ?r = word_of_int (m + ?r)" using d by (simp flip: d)
  moreover have "sint (word_of_int (m + ?r) :: i64) = m + ?r"
    using m r by (intro sint_of_small) simp_all
  moreover have "retryBackoff rnd attempt base cap = Some (d + word_of_int ?r)"
    using m n by (simp add: retryBackoff_def Let_def d_def [symmetric])
  ultimately show ?thesis using r by (simp add: m_def [symmetric] Let_def)
qed

text \<open>
  Backoff bounds. For a positive base of at most \<open>2^42\<close> ns (73 minutes) and a positive cap
  of at most \<open>2^61\<close> ns, the delay before attempt \<open>n\<close> never panics and lies between
  \<open>min (base * 2^n') cap\<close>, with \<open>n'\<close> the attempt clamped to 0..20, and that value plus a fifth: no
  overflow of the shift or of the sum can shorten or lengthen it.
\<close>
theorem retryBackoff_bounds:
  assumes "0 < sint base" "sint base \<le> 2 ^ 42" "0 < sint cap" "sint cap \<le> 2 ^ 61"
    "\<forall>n > 0. 0 \<le> rnd n \<and> rnd n < n"
  shows "\<exists>d. retryBackoff rnd attempt base cap = Some d
    \<and> (let m = min (sint base * 2 ^ clamp_attempt attempt) (sint cap)
       in m \<le> sint d \<and> sint d \<le> m + m div 5)"
  using assms by (rule retryBackoff_range)

theorem retryBackoff_bounds_witness:
  "\<exists>d. retryBackoff (\<lambda>n. n div 2) 3 200000000 2000000000 = Some d
    \<and> (let m = min (sint (200000000 :: i64) * 2 ^ clamp_attempt 3) (sint (2000000000 :: i64))
       in m \<le> sint d \<and> sint d \<le> m + m div 5)"
proof (rule retryBackoff_bounds)
  show "\<forall>n > 0. 0 \<le> n div 2 \<and> n div 2 < (n :: int)" by auto
qed simp_all

subsection \<open>Which failures are retried (pkg/tts/backoff.go)\<close>

definition isRetryableStatusCode :: "int \<Rightarrow> bool" where
  "isRetryableStatusCode code \<longleftrightarrow> code = 429 \<or> (code \<ge> 500 \<and> code \<le> 599)"

text \<open>\<open>isRetryableConnErr\<close>: nil and errors that wrap a context error are not retried.\<close>

fun is_context_error :: "go_error \<Rightarrow> bool" where
  "is_context_error ErrContext = True"
| "is_context_error (ErrWrap s e) = is_context_error e"
| "is_context_error e = False"

definition isRetryableConnErr :: "go_error option \<Rightarrow> bool" where
  "isRetryableConnErr err = (case err of None \<Rightarrow> False | Some e \<Rightarrow> \<not> is_context_error e)"

end
