(* ===== verification/Metrics.thy ===== *)
theory Metrics
  imports Prelude "HOL-Library.Char_ord" "HOL-Library.List_Lexorder" "HOL-Library.Product_Lexorder"
begin

section \<open>Metrics and dashboard (pkg/observability)\<close>

text \<open>
  The latency recorder: samples, error and event counters, reasons, costs, the sorted snapshots,
  percentiles, the Prometheus text and the dashboard data. Every method holds the mutex and is one
  step. Go maps are association lists; map keys that are structs are datatypes ordered as the
  code's comparators order them. Strings compare bytewise (\<open>List_Lexorder\<close>, \<open>Char_ord\<close>).
  \<open>float64\<close> is \<open>real\<close>. The HTML page and the HTTP handler are in the theory Dashboard.
\<close>

subsection \<open>Keys and their order\<close>

datatype errorKey = ErrorKey (ek_Stage: string) (ek_Vendor: string)

datatype reasonKey = ReasonKey (rk_Stage: string) (rk_Vendor: string) (rk_Reason: string)

instantiation errorKey :: linorder
begin

definition less_eq_errorKey :: "errorKey \<Rightarrow> errorKey \<Rightarrow> bool" where
  "less_eq_errorKey a b \<longleftrightarrow> (ek_Stage a, ek_Vendor a) \<le> (ek_Stage b, ek_Vendor b)"

definition less_errorKey :: "errorKey \<Rightarrow> errorKey \<Rightarrow> bool" where
  "less_errorKey a b \<longleftrightarrow> (ek_Stage a, ek_Vendor a) < (ek_Stage b, ek_Vendor b)"

instance
  by standard (auto simp: less_eq_errorKey_def less_errorKey_def intro: errorKey.expand)

end

instantiation reasonKey :: linorder
begin

definition less_eq_reasonKey :: "reasonKey \<Rightarrow> reasonKey \<Rightarrow> bool" where
  "less_eq_reasonKey a b \<longleftrightarrow> (rk_Stage a, rk_Vendor a, rk_Reason a) \<le> (rk_Stage b, rk_Vendor b, rk_Reason b)"

definition less_reasonKey :: "reasonKey \<Rightarrow> reasonKey \<Rightarrow> bool" where
  "less_reasonKey a b \<longleftrightarrow> (rk_Stage a, rk_Vendor a, rk_Reason a) < (rk_Stage b, rk_Vendor b, rk_Reason b)"

instance
  by standard (auto simp: less_eq_reasonKey_def less_reasonKey_def intro: reasonKey.expand)

end

subsection \<open>The recorder\<close>

record LatencyRecorder =
  lr_samples :: "(string \<times> float64 list) list"
  lr_startedAt :: instant
  lr_errorEvents :: "(errorKey \<times> int) list"
  lr_totalEvents :: "(errorKey \<times> int) list"
  lr_costTotals :: "(string \<times> float64) list"
  lr_costEvents :: "(string \<times> int) list"
  lr_reasonEvents :: "(reasonKey \<times> int) list"

definition NewLatencyRecorder :: "instant \<Rightarrow> LatencyRecorder" where
  "NewLatencyRecorder now =
     \<lparr>lr_samples = [], lr_startedAt = now, lr_errorEvents = [], lr_totalEvents = [],
      lr_costTotals = [], lr_costEvents = [], lr_reasonEvents = []\<rparr>"

text \<open>\<open>m[k]\<close> with Go's zero value, and \<open>m[k]++\<close>.\<close>

definition al_get :: "'v \<Rightarrow> 'k \<Rightarrow> ('k \<times> 'v) list \<Rightarrow> 'v" where
  "al_get z k xs = (case map_of xs k of None \<Rightarrow> z | Some v \<Rightarrow> v)"

definition al_bump :: "'k \<Rightarrow> ('k \<times> int) list \<Rightarrow> ('k \<times> int) list" where
  "al_bump k xs = al_put k (al_get 0 k xs + 1) xs"

lemma al_get_put [simp]: "al_get z k (al_put k' v xs) = (if k = k' then v else al_get z k xs)"
  by (simp add: al_get_def)

lemma al_get_bump [simp]: "al_get 0 k (al_bump k' xs) = al_get 0 k xs + (if k = k' then 1 else 0)"
  by (simp add: al_bump_def)

lemma keys_al_bump [simp]: "keys (al_bump k xs) = insert k (keys xs)"
  by (simp add: al_bump_def)

lemma wf_al_bump [simp]: "wf_al xs \<Longrightarrow> wf_al (al_bump k xs)"
  by (simp add: al_bump_def)

definition Record :: "string \<Rightarrow> float64 \<Rightarrow> LatencyRecorder \<Rightarrow> LatencyRecorder" where
  "Record stage ms r = r\<lparr>lr_samples := al_put stage (al_get [] stage (lr_samples r) @ [ms]) (lr_samples r)\<rparr>"

definition RecordEvent :: "string \<Rightarrow> string \<Rightarrow> LatencyRecorder \<Rightarrow> LatencyRecorder" where
  "RecordEvent stage vendor r = r\<lparr>lr_totalEvents := al_bump (ErrorKey stage vendor) (lr_totalEvents r)\<rparr>"

definition RecordErrorReason :: "string \<Rightarrow> string \<Rightarrow> string \<Rightarrow> LatencyRecorder \<Rightarrow> LatencyRecorder" where
  "RecordErrorReason stage vendor reason r =
     (let key = ErrorKey stage vendor;
          r1 = r\<lparr>lr_errorEvents := al_bump key (lr_errorEvents r),
                 lr_totalEvents := al_bump key (lr_totalEvents r)\<rparr>
      in if reason \<noteq> []
         then r1\<lparr>lr_reasonEvents := al_bump (ReasonKey stage vendor reason) (lr_reasonEvents r1)\<rparr>
         else r1)"

definition RecordError :: "string \<Rightarrow> string \<Rightarrow> LatencyRecorder \<Rightarrow> LatencyRecorder" where
  "RecordError stage vendor = RecordErrorReason stage vendor []"

definition RecordCost :: "string \<Rightarrow> float64 \<Rightarrow> LatencyRecorder \<Rightarrow> LatencyRecorder" where
  "RecordCost vendor amountUSD r =
     r\<lparr>lr_costTotals := al_put vendor (al_get 0 vendor (lr_costTotals r) + amountUSD) (lr_costTotals r),
       lr_costEvents := al_bump vendor (lr_costEvents r)\<rparr>"

definition ErrorCount :: "LatencyRecorder \<Rightarrow> string \<Rightarrow> string \<Rightarrow> int" where
  "ErrorCount r stage vendor = al_get 0 (ErrorKey stage vendor) (lr_errorEvents r)"

definition EventCount :: "LatencyRecorder \<Rightarrow> string \<Rightarrow> string \<Rightarrow> int" where
  "EventCount r stage vendor = al_get 0 (ErrorKey stage vendor) (lr_totalEvents r)"

definition ReasonCount :: "LatencyRecorder \<Rightarrow> string \<Rightarrow> string \<Rightarrow> string \<Rightarrow> int" where
  "ReasonCount r stage vendor reason = al_get 0 (ReasonKey stage vendor reason) (lr_reasonEvents r)"

definition ErrorRate :: "LatencyRecorder \<Rightarrow> string \<Rightarrow> string \<Rightarrow> float64" where
  "ErrorRate r stage vendor =
     (let total = EventCount r stage vendor
      in if total = 0 then 0 else of_int (ErrorCount r stage vendor) / of_int total)"

definition SampleCount :: "LatencyRecorder \<Rightarrow> string \<Rightarrow> int" where
  "SampleCount r stage = int (length (al_get [] stage (lr_samples r)))"

definition Stages :: "LatencyRecorder \<Rightarrow> string list" where
  "Stages r = sort (map fst (lr_samples r))"

definition Snapshot :: "LatencyRecorder \<Rightarrow> (string \<times> float64 list) list" where
  "Snapshot r = lr_samples r"

definition CostTotal :: "LatencyRecorder \<Rightarrow> string \<Rightarrow> float64" where
  "CostTotal r vendor = al_get 0 vendor (lr_costTotals r)"

definition CostEventCount :: "LatencyRecorder \<Rightarrow> string \<Rightarrow> int" where
  "CostEventCount r vendor = al_get 0 vendor (lr_costEvents r)"

definition CostPerMinute :: "LatencyRecorder \<Rightarrow> string \<Rightarrow> float64 \<Rightarrow> float64" where
  "CostPerMinute r vendor durationSeconds =
     (if durationSeconds \<le> 0 then 0
      else let total = CostTotal r vendor; minutes = durationSeconds / 60 in total / minutes)"

subsection \<open>Snapshots\<close>

record ErrorStats =
  es_Stage :: string
  es_Vendor :: string
  es_Errors :: int
  es_Total :: int
  es_Rate :: float64

definition ErrorSnapshot :: "LatencyRecorder \<Rightarrow> ErrorStats list" where
  "ErrorSnapshot r =
     map (\<lambda>(key, total).
            let errs = al_get 0 key (lr_errorEvents r);
                rate = (if total > 0 then of_int errs / of_int total else 0)
            in \<lparr>es_Stage = ek_Stage key, es_Vendor = ek_Vendor key, es_Errors = errs, es_Total = total, es_Rate = rate\<rparr>)
       (sort_key fst (lr_totalEvents r))"

record ReasonStats =
  rs_Stage :: string
  rs_Vendor :: string
  rs_Reason :: string
  rs_Count :: int

definition ReasonSnapshot :: "LatencyRecorder \<Rightarrow> ReasonStats list" where
  "ReasonSnapshot r =
     map (\<lambda>(key, count).
            \<lparr>rs_Stage = rk_Stage key, rs_Vendor = rk_Vendor key, rs_Reason = rk_Reason key, rs_Count = count\<rparr>)
       (sort_key fst (lr_reasonEvents r))"

record CostStats =
  cs_Vendor :: string
  cs_TotalUSD :: float64
  cs_Events :: int
  cs_PerMinuteUSD :: float64

definition CostSnapshot :: "LatencyRecorder \<Rightarrow> instant \<Rightarrow> CostStats list" where
  "CostSnapshot r now =
     (let elapsedSeconds = of_int (now - lr_startedAt r) / of_int second;
          perMinuteDivisor = (if elapsedSeconds \<ge> 1 then elapsedSeconds / 60 else 0)
      in map (\<lambda>(vendor, total).
                \<lparr>cs_Vendor = vendor, cs_TotalUSD = total, cs_Events = al_get 0 vendor (lr_costEvents r),
                 cs_PerMinuteUSD = (if perMinuteDivisor > 0 then total / perMinuteDivisor else 0)\<rparr>)
           (sort_key fst (lr_costTotals r)))"

subsection \<open>Percentiles\<close>

definition percentile :: "float64 list \<Rightarrow> float64 \<Rightarrow> float64" where
  "percentile values0 p =
     (let n = length values0
      in if n = 0 then 0
         else if n = 1 then values0 ! 0
         else let values = sort values0
              in if p \<le> 0 then values ! 0
                 else if p \<ge> 100 then values ! (n - 1)
                 else let rank = (p / 100) * real (n - 1);
                          lower = nat \<lfloor>rank\<rfloor>; upper = nat \<lceil>rank\<rceil>
                      in if lower = upper then values ! lower
                         else let frac = rank - real lower
                              in values ! lower * (1 - frac) + values ! upper * frac)"

definition Percentile :: "LatencyRecorder \<Rightarrow> string \<Rightarrow> float64 \<Rightarrow> float64" where
  "Percentile r stage p = percentile (al_get [] stage (lr_samples r)) p"

subsection \<open>The dashboard's data\<close>

record StageLatencySummary =
  sl_Stage :: string
  sl_Count :: int
  sl_P50 :: float64
  sl_P90 :: float64
  sl_P95 :: float64
  sl_P99 :: float64

record DashboardData =
  dd_GeneratedAt :: instant
  dd_Latency :: "StageLatencySummary list"
  dd_Errors :: "ErrorStats list"
  dd_Reasons :: "ReasonStats list"
  dd_Costs :: "CostStats list"

definition BuildDashboardData :: "LatencyRecorder \<Rightarrow> instant \<Rightarrow> DashboardData" where
  "BuildDashboardData r now =
     \<lparr>dd_GeneratedAt = now,
      dd_Latency = map (\<lambda>stage. \<lparr>sl_Stage = stage, sl_Count = SampleCount r stage,
          sl_P50 = Percentile r stage 50, sl_P90 = Percentile r stage 90,
          sl_P95 = Percentile r stage 95, sl_P99 = Percentile r stage 99\<rparr>) (Stages r),
      dd_Errors = ErrorSnapshot r, dd_Reasons = ReasonSnapshot r, dd_Costs = CostSnapshot r now\<rparr>"

subsection \<open>Text output\<close>

text \<open>
  \<open>%.6f\<close> (round half to even on the exact value) and \<open>strings.TrimRight\<close> with a one-character set.
\<close>

definition round_half_even :: "float64 \<Rightarrow> int" where
  "round_half_even x =
     (let f = \<lfloor>x\<rfloor>; d = x - of_int f
      in if d < 1 / 2 then f else if d > 1 / 2 then f + 1 else if even f then f else f + 1)"

definition pad6 :: "string \<Rightarrow> string" where
  "pad6 s = replicate (6 - length s) (CHR ''0'') @ s"

definition fmt_6f :: "float64 \<Rightarrow> string" where
  "fmt_6f x =
     (let n = nat (round_half_even (\<bar>x\<bar> * 1000000))
      in (if x < 0 then ''-'' else []) @ show_nat (n div 1000000) @ ''.'' @ pad6 (show_nat (n mod 1000000)))"

definition trim_right :: "char \<Rightarrow> string \<Rightarrow> string" where
  "trim_right c s = rev (dropWhile (\<lambda>x. x = c) (rev s))"

definition formatFloat :: "float64 \<Rightarrow> string" where
  "formatFloat f = trim_right (CHR ''.'') (trim_right (CHR ''0'') (fmt_6f f))"

definition formatPercent :: "float64 \<Rightarrow> string" where
  "formatPercent f = formatFloat (f * 100) @ ''%''"

definition text_line :: "string \<Rightarrow> string" where
  "text_line s = s @ [CHR 0x0A]"

definition text_head :: "string \<Rightarrow> string \<Rightarrow> string \<Rightarrow> string" where
  "text_head name help typ =
     text_line (''# HELP '' @ name @ '' '' @ help) @ text_line (''# TYPE '' @ name @ '' '' @ typ)"

definition stage_sample :: "string \<Rightarrow> string \<Rightarrow> string \<Rightarrow> string" where
  "stage_sample name stage v = text_line (name @ ''{stage='' @ fmt_q stage @ ''} '' @ v)"

definition vendor_sample :: "string \<Rightarrow> string \<Rightarrow> string \<Rightarrow> string" where
  "vendor_sample name vendor v = text_line (name @ ''{vendor='' @ fmt_q vendor @ ''} '' @ v)"

definition error_sample :: "string \<Rightarrow> ErrorStats \<Rightarrow> string \<Rightarrow> string" where
  "error_sample name es v =
     text_line (name @ ''{stage='' @ fmt_q (es_Stage es) @ '',vendor='' @ fmt_q (es_Vendor es) @ ''} '' @ v)"

definition quantile_samples :: "string \<Rightarrow> float64 list \<Rightarrow> string" where
  "quantile_samples stage values =
     concat (map (\<lambda>q. text_line (''langstream_stage_latency_ms_quantile{stage='' @ fmt_q stage
        @ '',quantile='' @ [CHR 0x22] @ formatFloat (q / 100) @ [CHR 0x22] @ ''} ''
        @ formatFloat (percentile values q))) [50, 90, 95, 99])"

text \<open>
  \<open>WriteText\<close> takes four separate snapshots under the lock; \<open>r1\<close> to \<open>r4\<close> are the
  recorder's states at those moments.
\<close>

definition write_latency :: "LatencyRecorder \<Rightarrow> string" where
  "write_latency r1 =
     (let stages = Stages r1; samples = (\<lambda>s. al_get [] s (Snapshot r1))
      in text_head ''langstream_stage_latency_ms'' ''Per-stage pipeline latency in milliseconds.'' ''gauge''
         @ concat (map (\<lambda>s. if samples s = [] then []
             else stage_sample ''langstream_stage_latency_ms'' s (formatFloat (last (samples s)))) stages)
         @ text_head ''langstream_stage_latency_count'' ''Number of latency samples recorded per stage.'' ''counter''
         @ concat (map (\<lambda>s. stage_sample ''langstream_stage_latency_count'' s
             (show_int (int (length (samples s))))) stages)
         @ text_head ''langstream_stage_latency_sum_ms'' ''Sum of latency samples in milliseconds per stage.'' ''counter''
         @ concat (map (\<lambda>s. stage_sample ''langstream_stage_latency_sum_ms'' s
             (formatFloat (foldl (+) 0 (samples s)))) stages)
         @ text_head ''langstream_stage_latency_ms_quantile'' ''Latency percentiles in milliseconds per stage.'' ''gauge''
         @ concat (map (\<lambda>s. quantile_samples s (samples s)) stages))"

definition write_errors :: "LatencyRecorder \<Rightarrow> string" where
  "write_errors r2 =
     (let errorSnap = ErrorSnapshot r2
      in text_head ''langstream_stage_errors_total'' ''Total error events recorded per stage/vendor.'' ''counter''
         @ concat (map (\<lambda>es. error_sample ''langstream_stage_errors_total'' es (show_int (es_Errors es))) errorSnap)
         @ text_head ''langstream_stage_events_total''
             ''Total events (errors + successes) recorded per stage/vendor.'' ''counter''
         @ concat (map (\<lambda>es. error_sample ''langstream_stage_events_total'' es (show_int (es_Total es))) errorSnap)
         @ text_head ''langstream_stage_error_rate''
             ''Error rate (errors / total events) per stage/vendor, in [0,1].'' ''gauge''
         @ concat (map (\<lambda>es. error_sample ''langstream_stage_error_rate'' es (formatFloat (es_Rate es))) errorSnap))"

definition write_reasons :: "LatencyRecorder \<Rightarrow> string" where
  "write_reasons r3 =
     text_head ''langstream_stage_error_reason_total''
       (''Total error events recorded per stage/vendor/reason (e.g. reason='' @ fmt_q ''circuit_open'' @
        '' for circuit-breaker fast-fails that never attempted the vendor), a finer-grained breakdown of langstream_stage_errors_total.'')
       ''counter''
     @ concat (map (\<lambda>rs. text_line (''langstream_stage_error_reason_total{stage='' @ fmt_q (rs_Stage rs)
         @ '',vendor='' @ fmt_q (rs_Vendor rs) @ '',reason='' @ fmt_q (rs_Reason rs) @ ''} ''
         @ show_int (rs_Count rs))) (ReasonSnapshot r3))"

definition write_costs :: "LatencyRecorder \<Rightarrow> instant \<Rightarrow> string" where
  "write_costs r4 now =
     (let costSnap = CostSnapshot r4 now
      in text_head ''langstream_vendor_cost_usd_total'' ''Running total cost in USD recorded per vendor.'' ''counter''
         @ concat (map (\<lambda>cs. vendor_sample ''langstream_vendor_cost_usd_total'' (cs_Vendor cs)
             (formatFloat (cs_TotalUSD cs))) costSnap)
         @ text_head ''langstream_vendor_cost_events_total'' ''Number of cost events recorded per vendor.'' ''counter''
         @ concat (map (\<lambda>cs. vendor_sample ''langstream_vendor_cost_events_total'' (cs_Vendor cs)
             (show_int (cs_Events cs))) costSnap)
         @ text_head ''langstream_vendor_cost_usd_per_minute''
             (''Live cost rate in USD/minute per vendor, computed as the running cost total divided by minutes elapsed '' @
              ''since this process'' @ [CHR 0x27] @ ''s LatencyRecorder was created.'') ''gauge''
         @ concat (map (\<lambda>cs. vendor_sample ''langstream_vendor_cost_usd_per_minute'' (cs_Vendor cs)
             (formatFloat (cs_PerMinuteUSD cs))) costSnap))"

definition WriteText ::
  "LatencyRecorder \<Rightarrow> LatencyRecorder \<Rightarrow> LatencyRecorder \<Rightarrow> LatencyRecorder \<Rightarrow> instant \<Rightarrow> string" where
  "WriteText r1 r2 r3 r4 now = write_latency r1 @ write_errors r2 @ write_reasons r3 @ write_costs r4 now"

subsection \<open>Call sequences\<close>

datatype rec_call =
  CallRecord string float64 | CallEvent string string | CallError string string string | CallCost string float64

fun rec_apply :: "LatencyRecorder \<Rightarrow> rec_call \<Rightarrow> LatencyRecorder" where
  "rec_apply r (CallRecord stage ms) = Record stage ms r"
| "rec_apply r (CallEvent stage vendor) = RecordEvent stage vendor r"
| "rec_apply r (CallError stage vendor reason) = RecordErrorReason stage vendor reason r"
| "rec_apply r (CallCost vendor usd) = RecordCost vendor usd r"

fun is_error_of :: "string \<Rightarrow> string \<Rightarrow> rec_call \<Rightarrow> bool" where
  "is_error_of s v (CallError s' v' r) \<longleftrightarrow> s = s' \<and> v = v'"
| "is_error_of s v _ \<longleftrightarrow> False"

fun is_event_of :: "string \<Rightarrow> string \<Rightarrow> rec_call \<Rightarrow> bool" where
  "is_event_of s v (CallEvent s' v') \<longleftrightarrow> s = s' \<and> v = v'"
| "is_event_of s v c \<longleftrightarrow> is_error_of s v c"

fun is_reason_of :: "string \<Rightarrow> string \<Rightarrow> string \<Rightarrow> rec_call \<Rightarrow> bool" where
  "is_reason_of s v q (CallError s' v' r) \<longleftrightarrow> s = s' \<and> v = v' \<and> q = r \<and> q \<noteq> []"
| "is_reason_of s v q _ \<longleftrightarrow> False"

definition count_calls :: "(rec_call \<Rightarrow> bool) \<Rightarrow> rec_call list \<Rightarrow> int" where
  "count_calls P cs = int (length (filter P cs))"

lemma count_calls_simps [simp]:
  "count_calls P [] = 0" "count_calls P (c # cs) = (if P c then 1 else 0) + count_calls P cs"
  "count_calls P (cs @ ds) = count_calls P cs + count_calls P ds"
  by (simp_all add: count_calls_def)

lemma count_calls_mono: "(\<And>c. P c \<Longrightarrow> Q c) \<Longrightarrow> count_calls P cs \<le> count_calls Q cs"
  by (induction cs) auto

lemma count_calls_nonneg [simp]: "0 \<le> count_calls P cs"
  by (simp add: count_calls_def)

text \<open>
  What a component that reports into a recorder relies on: every call is counted once, under its
  own stage and vendor. The lemmas hold for any sequence of calls.
\<close>

locale metric_sink =
  fixes ms_apply :: "'r \<Rightarrow> rec_call \<Rightarrow> 'r"
    and ms_errors :: "'r \<Rightarrow> string \<Rightarrow> string \<Rightarrow> int"
    and ms_events :: "'r \<Rightarrow> string \<Rightarrow> string \<Rightarrow> int"
    and ms_reasons :: "'r \<Rightarrow> string \<Rightarrow> string \<Rightarrow> string \<Rightarrow> int"
  assumes apply_errors: "ms_errors (ms_apply r c) s v = ms_errors r s v + (if is_error_of s v c then 1 else 0)"
    and apply_events: "ms_events (ms_apply r c) s v = ms_events r s v + (if is_event_of s v c then 1 else 0)"
    and apply_reasons: "ms_reasons (ms_apply r c) s v q = ms_reasons r s v q + (if is_reason_of s v q c then 1 else 0)"
begin

lemma fold_errors: "ms_errors (foldl ms_apply r cs) s v = ms_errors r s v + count_calls (is_error_of s v) cs"
  by (induction cs arbitrary: r) (simp_all add: apply_errors)

lemma fold_events: "ms_events (foldl ms_apply r cs) s v = ms_events r s v + count_calls (is_event_of s v) cs"
  by (induction cs arbitrary: r) (simp_all add: apply_events)

lemma fold_reasons:
  "ms_reasons (foldl ms_apply r cs) s v q = ms_reasons r s v q + count_calls (is_reason_of s v q) cs"
  by (induction cs arbitrary: r) (simp_all add: apply_reasons)

lemma errors_le_events:
  assumes "ms_errors r s v = 0" "ms_events r s v = 0"
  shows "ms_errors (foldl ms_apply r cs) s v \<le> ms_events (foldl ms_apply r cs) s v"
proof -
  have "is_error_of s v c \<Longrightarrow> is_event_of s v c" for c by (cases c) auto
  with assms show ?thesis by (simp add: fold_errors fold_events count_calls_mono)
qed

end

lemmas rec_defs = Record_def RecordEvent_def RecordErrorReason_def RecordCost_def Let_def

interpretation lr: metric_sink rec_apply ErrorCount EventCount ReasonCount
  by unfold_locales (case_tac c; auto simp: rec_defs ErrorCount_def EventCount_def ReasonCount_def)+

end
