(* ===== verification/MetricsProps.thy ===== *)
theory MetricsProps
  imports Metrics "HOL-Library.Multiset"
begin

section \<open>Properties of the metrics\<close>

text \<open>
  Counters and snapshots after any sequence of calls, and the range and monotonicity of
  percentiles.
\<close>

subsection \<open>Counters and snapshots\<close>

definition lr_inv :: "LatencyRecorder \<Rightarrow> bool" where
  "lr_inv r \<longleftrightarrow> wf_al (lr_samples r) \<and> wf_al (lr_errorEvents r) \<and> wf_al (lr_totalEvents r)
     \<and> wf_al (lr_costTotals r) \<and> wf_al (lr_costEvents r) \<and> wf_al (lr_reasonEvents r)
     \<and> keys (lr_errorEvents r) \<subseteq> keys (lr_totalEvents r) \<and> keys (lr_costTotals r) = keys (lr_costEvents r)"

lemma lr_inv_new [simp]: "lr_inv (NewLatencyRecorder t)"
  by (simp add: lr_inv_def NewLatencyRecorder_def)

lemma lr_inv_apply: "lr_inv r \<Longrightarrow> lr_inv (rec_apply r c)"
  by (cases c) (auto simp: lr_inv_def rec_defs)

lemma lr_inv_run: "lr_inv r \<Longrightarrow> lr_inv (foldl rec_apply r cs)"
  by (induction cs arbitrary: r) (simp_all add: lr_inv_apply)

lemma total_keys_run:
  "keys (lr_totalEvents (foldl rec_apply r cs)) =
     keys (lr_totalEvents r) \<union> {k. \<exists>c \<in> set cs. is_event_of (ek_Stage k) (ek_Vendor k) c}"
proof (induction cs arbitrary: r)
  case (Cons c cs)
  have "keys (lr_totalEvents (rec_apply r c)) =
      keys (lr_totalEvents r) \<union> {k. is_event_of (ek_Stage k) (ek_Vendor k) c}"
    by (cases c) (auto simp: rec_defs intro: errorKey.expand)
  with Cons show ?case by auto
qed simp

lemma al_get_in: "wf_al xs \<Longrightarrow> (k, v) \<in> set xs \<Longrightarrow> al_get z k xs = v"
  by (simp add: al_get_def)

lemma sorted_fst_sort_key: "wf_al xs \<Longrightarrow> sorted_wrt (<) (map fst (sort_key fst xs))"
  by (simp add: strict_sorted_iff distinct_map)

lemma ErrorSnapshot_keys:
  "map (\<lambda>es. ErrorKey (es_Stage es) (es_Vendor es)) (ErrorSnapshot r) = map fst (sort_key fst (lr_totalEvents r))"
  by (auto simp: ErrorSnapshot_def Let_def)

lemma ErrorSnapshot_entry:
  assumes "lr_inv r" "es \<in> set (ErrorSnapshot r)"
  shows "es_Errors es = ErrorCount r (es_Stage es) (es_Vendor es)
    \<and> es_Total es = EventCount r (es_Stage es) (es_Vendor es)"
  using assms by (auto simp: ErrorSnapshot_def Let_def lr_inv_def ErrorCount_def EventCount_def al_get_in)

lemma ErrorRate_range:
  assumes "0 \<le> ErrorCount r s v" "ErrorCount r s v \<le> EventCount r s v"
  shows "0 \<le> ErrorRate r s v \<and> ErrorRate r s v \<le> 1"
  using assms by (auto simp: ErrorRate_def Let_def divide_le_eq_1)

lemma new_counts [simp]:
  "ErrorCount (NewLatencyRecorder t) s v = 0" "EventCount (NewLatencyRecorder t) s v = 0"
  "ReasonCount (NewLatencyRecorder t) s v q = 0"
  by (simp_all add: ErrorCount_def EventCount_def ReasonCount_def NewLatencyRecorder_def al_get_def)

text \<open>
  C26: The recorder counts every call once. After any sequence of calls on a new recorder the
  error, event and reason counters of a stage and vendor equal the number of calls naming them, an
  error counting as an event; the error rate lies between 0 and 1; and the error snapshot lists
  exactly the stage and vendor pairs seen, once each, in strictly increasing order, with those
  counters.
\<close>
theorem metrics_count_every_call:
  "let r = foldl rec_apply (NewLatencyRecorder t) cs; snap = ErrorSnapshot r
   in ErrorCount r s v = count_calls (is_error_of s v) cs
      \<and> EventCount r s v = count_calls (is_event_of s v) cs
      \<and> ReasonCount r s v q = count_calls (is_reason_of s v q) cs
      \<and> 0 \<le> ErrorRate r s v \<and> ErrorRate r s v \<le> 1
      \<and> sorted_wrt (<) (map (\<lambda>es. ErrorKey (es_Stage es) (es_Vendor es)) snap)
      \<and> (\<lambda>es. (es_Stage es, es_Vendor es)) ` set snap = {(s, v). \<exists>c \<in> set cs. is_event_of s v c}
      \<and> list_all (\<lambda>es. es_Errors es = ErrorCount r (es_Stage es) (es_Vendor es)
                        \<and> es_Total es = EventCount r (es_Stage es) (es_Vendor es)) snap"
proof -
  define r where "r = foldl rec_apply (NewLatencyRecorder t) cs"
  have inv: "lr_inv r" unfolding r_def by (intro lr_inv_run lr_inv_new)
  have e: "ErrorCount r s v = count_calls (is_error_of s v) cs"
    "EventCount r s v = count_calls (is_event_of s v) cs"
    "ReasonCount r s v q = count_calls (is_reason_of s v q) cs"
    unfolding r_def by (simp_all add: lr.fold_errors lr.fold_events lr.fold_reasons)
  have "ErrorCount r s v \<le> EventCount r s v" unfolding r_def by (rule lr.errors_le_events) simp_all
  then have rate: "0 \<le> ErrorRate r s v \<and> ErrorRate r s v \<le> 1"
    by (intro ErrorRate_range) (simp_all add: e)
  have sorted: "sorted_wrt (<) (map (\<lambda>es. ErrorKey (es_Stage es) (es_Vendor es)) (ErrorSnapshot r))"
    unfolding ErrorSnapshot_keys using inv by (intro sorted_fst_sort_key) (simp add: lr_inv_def)
  have "(\<lambda>es. ErrorKey (es_Stage es) (es_Vendor es)) ` set (ErrorSnapshot r) = keys (lr_totalEvents r)"
    using arg_cong [OF ErrorSnapshot_keys [of r], of set] by simp
  also have "\<dots> = {k. \<exists>c \<in> set cs. is_event_of (ek_Stage k) (ek_Vendor k) c}"
    unfolding r_def total_keys_run by (simp add: NewLatencyRecorder_def)
  finally have keys: "(\<lambda>es. ErrorKey (es_Stage es) (es_Vendor es)) ` set (ErrorSnapshot r)
      = {k. \<exists>c \<in> set cs. is_event_of (ek_Stage k) (ek_Vendor k) c}" .
  have "(\<lambda>es. (es_Stage es, es_Vendor es)) ` set (ErrorSnapshot r)
      = (\<lambda>k. (ek_Stage k, ek_Vendor k)) ` (\<lambda>es. ErrorKey (es_Stage es) (es_Vendor es)) ` set (ErrorSnapshot r)"
    by (simp add: image_image)
  also have "\<dots> = {(s, v). \<exists>c \<in> set cs. is_event_of s v c}"
    unfolding keys by (force simp: image_iff intro: exI [of _ "ErrorKey x y" for x y])
  finally have "(\<lambda>es. (es_Stage es, es_Vendor es)) ` set (ErrorSnapshot r)
      = {(s, v). \<exists>c \<in> set cs. is_event_of s v c}" .
  with e rate sorted ErrorSnapshot_entry [OF inv] show ?thesis
    by (simp add: r_def [symmetric] Let_def list_all_iff)
qed

subsection \<open>Percentiles\<close>

definition interp :: "float64 list \<Rightarrow> float64 \<Rightarrow> float64" where
  "interp xs r = (let k = nat \<lfloor>r\<rfloor> in xs ! k + (xs ! Suc k - xs ! k) * (r - real k))"

lemma percentile_interp:
  assumes "1 < length values" "0 < p" "p < 100"
  shows "percentile values p = interp (sort values) (p / 100 * real (length values - 1))"
proof -
  define r where "r = p / 100 * real (length values - 1)"
  have eq: "percentile values p = (if nat \<lfloor>r\<rfloor> = nat \<lceil>r\<rceil> then sort values ! nat \<lfloor>r\<rfloor>
      else sort values ! nat \<lfloor>r\<rfloor> * (1 - (r - real (nat \<lfloor>r\<rfloor>)))
        + sort values ! nat \<lceil>r\<rceil> * (r - real (nat \<lfloor>r\<rfloor>)))"
    unfolding percentile_def Let_def r_def [symmetric] using assms by auto
  have r: "0 \<le> r" using assms by (simp add: r_def)
  show ?thesis unfolding r_def [symmetric]
  proof (cases "nat \<lfloor>r\<rfloor> = nat \<lceil>r\<rceil>")
    case True
    then have "r = real (nat \<lfloor>r\<rfloor>)" using r by linarith
    with True eq show "percentile values p = interp (sort values) r" by (simp add: interp_def Let_def)
  next
    case False
    then have up: "nat \<lceil>r\<rceil> = Suc (nat \<lfloor>r\<rfloor>)" using r by linarith
    then show "percentile values p = interp (sort values) r"
      unfolding eq up by (simp add: interp_def Let_def algebra_simps)
  qed
qed

lemma interp_range:
  assumes "sorted xs" "0 \<le> r" "r < real (length xs - 1)"
  shows "xs ! nat \<lfloor>r\<rfloor> \<le> interp xs r" "interp xs r \<le> xs ! Suc (nat \<lfloor>r\<rfloor>)" "Suc (nat \<lfloor>r\<rfloor>) < length xs"
proof -
  let ?k = "nat \<lfloor>r\<rfloor>"
  have k: "Suc ?k < length xs" using assms(2,3) by linarith
  have f: "0 \<le> r - real ?k" "r - real ?k \<le> 1" using assms(2) by linarith+
  have m: "0 \<le> xs ! Suc ?k - xs ! ?k" using assms(1) k by (simp add: sorted_nth_mono)
  show "xs ! ?k \<le> interp xs r" using m f by (simp add: interp_def Let_def)
  have "(xs ! Suc ?k - xs ! ?k) * (r - real ?k) \<le> (xs ! Suc ?k - xs ! ?k) * 1"
    using m f by (intro mult_left_mono) simp_all
  then show "interp xs r \<le> xs ! Suc ?k" by (simp add: interp_def Let_def)
  show "Suc ?k < length xs" by (rule k)
qed

lemma interp_mono:
  assumes "sorted xs" "0 \<le> r" "r \<le> s" "s < real (length xs - 1)"
  shows "interp xs r \<le> interp xs s"
proof (cases "nat \<lfloor>r\<rfloor> = nat \<lfloor>s\<rfloor>")
  case True
  have "Suc (nat \<lfloor>s\<rfloor>) < length xs" using interp_range(3) [OF assms(1) _ assms(4)] assms by simp
  then have "0 \<le> xs ! Suc (nat \<lfloor>s\<rfloor>) - xs ! nat \<lfloor>s\<rfloor>" using assms(1) by (simp add: sorted_nth_mono)
  then show ?thesis using True assms(3) by (simp add: interp_def Let_def mult_left_mono)
next
  case False
  have r: "r < real (length xs - 1)" "0 \<le> s" using assms by linarith+
  have "Suc (nat \<lfloor>r\<rfloor>) \<le> nat \<lfloor>s\<rfloor>" using False assms(2,3) by linarith
  moreover have "Suc (nat \<lfloor>s\<rfloor>) < length xs" using interp_range(3) [OF assms(1) r(2) assms(4)] .
  ultimately have "xs ! Suc (nat \<lfloor>r\<rfloor>) \<le> xs ! nat \<lfloor>s\<rfloor>" using assms(1) by (simp add: sorted_nth_mono)
  with interp_range(2) [OF assms(1,2) r(1)] interp_range(1) [OF assms(1) r(2) assms(4)] show ?thesis
    by linarith
qed

lemma rank_range:
  assumes "1 < n" "0 < p" "p < 100"
  shows "0 \<le> p / 100 * real (n - 1)" "p / 100 * real (n - 1) < real (n - 1)"
  using assms mult_strict_right_mono [of "p / 100" 1 "real (n - 1)"] by simp_all

lemma percentile_cases:
  obtains (One) "length values = 1" "percentile values p = values ! 0"
  | (Low) "1 < length values" "p \<le> 0" "percentile values p = sort values ! 0"
  | (High) "1 < length values" "100 \<le> p" "percentile values p = sort values ! (length values - 1)"
  | (Mid) "1 < length values" "0 < p" "p < 100"
      "percentile values p = interp (sort values) (p / 100 * real (length values - 1))"
  | (Zero) "values = []"
proof -
  consider "values = []" | "length values = 1" | "1 < length values" "p \<le> 0"
    | "1 < length values" "100 \<le> p" | "1 < length values" "0 < p" "p < 100"
    using not_le [of p 0] not_le [of 100 p] by (cases "length values") force+
  then show thesis
  proof cases
    case 2 then show thesis by (intro One) (simp_all add: percentile_def)
  next
    case 3 then show thesis by (intro Low) (auto simp: percentile_def Let_def)
  next
    case 4 then show thesis by (intro High) (auto simp: percentile_def Let_def)
  next
    case 5 then show thesis by (intro Mid percentile_interp)
  qed (rule Zero)
qed

lemma sort_nth_bounds:
  assumes "values \<noteq> []" "k < length values"
  shows "Min (set values) \<le> sort values ! k" "sort values ! k \<le> Max (set values)"
proof -
  have "sort values ! k \<in> set values" using assms(2) nth_mem [of k "sort values"] by simp
  then show "Min (set values) \<le> sort values ! k" "sort values ! k \<le> Max (set values)" by simp_all
qed

lemma percentile_range:
  assumes "values \<noteq> []"
  shows "Min (set values) \<le> percentile values p \<and> percentile values p \<le> Max (set values)"
proof (cases rule: percentile_cases [of "values" p])
  case One
  then show ?thesis by (cases "values") auto
next
  case Mid
  note r = rank_range [OF Mid(1-3)]
  have "sorted (sort values)" by simp
  from interp_range [OF this r(1)] r(2) Mid(4) sort_nth_bounds [OF assms]
  show ?thesis by (smt (verit) Suc_lessD length_sort)
qed (use assms sort_nth_bounds [OF assms] in simp_all)

lemma percentile_mono:
  assumes "p \<le> q"
  shows "percentile values p \<le> percentile values q"
proof (cases rule: percentile_cases [of "values" q])
  case Mid
  note q = rank_range [OF Mid(1-3)]
  have ne: "values \<noteq> []" using Mid(1) by auto
  show ?thesis
  proof (cases rule: percentile_cases [of "values" p])
    case Low
    have s: "sorted (sort values)" by simp
    have "sort values ! 0 \<le> sort values ! nat \<lfloor>q / 100 * real (length values - 1)\<rfloor>"
      using interp_range(3) [OF s q(1), unfolded length_sort, OF q(2)]
      by (intro sorted_nth_mono s) (simp_all only: length_sort Suc_lessD le0)
    also have "\<dots> \<le> interp (sort values) (q / 100 * real (length values - 1))"
      by (rule interp_range(1) [OF s q(1), unfolded length_sort, OF q(2)])
    finally show ?thesis by (simp only: Low(3) Mid(4))
  next
    case Mid': Mid
    have "p / 100 * real (length values - 1) \<le> q / 100 * real (length values - 1)"
      using assms by (intro mult_right_mono divide_right_mono) simp_all
    from interp_mono [of "sort values", OF _ rank_range(1) [OF Mid'(1-3)] this, unfolded length_sort, OF _ q(2)]
    show ?thesis by (simp only: Mid(4) Mid'(4) sorted_sort)
  qed (use assms Mid in auto)
next
  case High
  have ne: "values \<noteq> []" using High(1) by auto
  have "v \<le> sort values ! (length values - 1)" if v: "v \<in> set values" for v
  proof -
    from v obtain k where "k < length values" "v = sort values ! k"
      by (metis in_set_conv_nth length_sort set_sort)
    then show ?thesis by (simp add: sorted_nth_mono)
  qed
  then have "Max (set values) \<le> sort values ! (length values - 1)"
    using ne by simp
  with percentile_range [OF ne, of p] High(3) show ?thesis by simp
next
  case Low
  then show ?thesis using assms by (auto simp: percentile_def Let_def)
qed (auto simp: percentile_def Let_def)

text \<open>
  Percentiles are sound for reporting. Over a non-empty list of samples every percentile lies
  between the least and the greatest sample, a larger percentile is never smaller, and only the
  samples matter, not the order in which they were recorded.
\<close>
theorem percentile_sound:
  assumes "values \<noteq> []" "p \<le> q" "mset values' = mset values"
  shows "Min (set values) \<le> percentile values p \<and> percentile values q \<le> Max (set values)
    \<and> percentile values p \<le> percentile values q
    \<and> percentile values' p = percentile values p"
proof -
  have s: "sort values' = sort values" using assms(3) by (metis mset_sort properties_for_sort sorted_sort)
  have l: "length values' = length values" using assms(3) by (rule mset_eq_length)
  have "percentile values' p = percentile values p"
  proof (cases "length values = 1")
    case True
    with l s have "values' = values" by (cases "values"; cases values') auto
    then show ?thesis by simp
  next
    case False
    then show ?thesis unfolding percentile_def Let_def l s by (simp cong: if_cong)
  qed
  with percentile_range [OF assms(1)] percentile_mono [OF assms(2)] show ?thesis by blast
qed

theorem percentile_sound_witness:
  "percentile [30, 10, 20] 50 \<le> percentile [30, 10, 20] 90
    \<and> percentile [10, 20, 30] 50 = percentile [30, 10, 20] (50 :: real)"
  using percentile_sound [of "[30, 10, 20]" 50 90 "[10, 20, 30]"] by simp

end
