(* ===== verification/Fallback.thy ===== *)
theory Fallback
  imports Media Metrics
begin

section \<open>Graceful degradation (pkg/langstream/fallback.go, personas.go)\<close>

text \<open>
  The fallback configuration and its defaults, the raw-audio ring buffer of a leg, the failure
  counter and the degraded flag, the calls made on the metrics recorder, the warning tone and the
  passthrough chunks, and the persona table. Recorder calls are collected as a list of
  \<open>rec_call\<close>; the recorder itself is theory \<open>Metrics\<close>. A zero \<open>time.Time\<close> is \<open>None\<close>.
\<close>

subsection \<open>Configuration\<close>

record FallbackConfig =
  ConfidenceThreshold :: float64
  DegradeToneEnabled :: bool
  TranslateTimeout :: duration
  SynthesizeTimeout :: duration
  MaxConsecutiveFailures :: int
  DeadLegDrainInterval :: duration

definition defaultDeadLegDrainInterval :: duration where "defaultDeadLegDrainInterval = 300 * millisecond"

definition DefaultFallbackConfig :: FallbackConfig where
  "DefaultFallbackConfig =
     \<lparr>ConfidenceThreshold = 55 / 100, DegradeToneEnabled = True, TranslateTimeout = 6 * second,
      SynthesizeTimeout = 4 * second, MaxConsecutiveFailures = 3,
      DeadLegDrainInterval = defaultDeadLegDrainInterval\<rparr>"

definition fallback_withDefaults :: "FallbackConfig \<Rightarrow> FallbackConfig" where
  "fallback_withDefaults cfg =
     (let d = DefaultFallbackConfig;
          c1 = (if ConfidenceThreshold cfg \<le> 0 then cfg\<lparr>ConfidenceThreshold := ConfidenceThreshold d\<rparr> else cfg);
          c2 = (if TranslateTimeout c1 \<le> 0 then c1\<lparr>TranslateTimeout := TranslateTimeout d\<rparr> else c1);
          c3 = (if SynthesizeTimeout c2 \<le> 0 then c2\<lparr>SynthesizeTimeout := SynthesizeTimeout d\<rparr> else c2);
          c4 = (if MaxConsecutiveFailures c3 \<le> 0
                then c3\<lparr>MaxConsecutiveFailures := MaxConsecutiveFailures d\<rparr> else c3)
      in if DeadLegDrainInterval c4 \<le> 0
         then c4\<lparr>DeadLegDrainInterval := DeadLegDrainInterval d\<rparr> else c4)"

text \<open>The untouched struct (no \<open>Metrics\<close> either), which \<open>NewSession\<close> replaces as a whole.\<close>

definition zero_FallbackConfig :: FallbackConfig where
  "zero_FallbackConfig =
     \<lparr>ConfidenceThreshold = 0, DegradeToneEnabled = False, TranslateTimeout = 0, SynthesizeTimeout = 0,
      MaxConsecutiveFailures = 0, DeadLegDrainInterval = 0\<rparr>"

text \<open>The part of \<open>NewSession\<close> that picks the configuration; \<open>shared\<close>: \<open>Metrics\<close> was set.\<close>

definition session_fallback :: "FallbackConfig \<Rightarrow> bool \<Rightarrow> FallbackConfig" where
  "session_fallback cfg shared =
     (if cfg = zero_FallbackConfig \<and> \<not> shared then DefaultFallbackConfig else fallback_withDefaults cfg)"

definition fallback_ok :: "FallbackConfig \<Rightarrow> bool" where
  "fallback_ok c \<longleftrightarrow> 0 < ConfidenceThreshold c \<and> 0 < TranslateTimeout c \<and> 0 < SynthesizeTimeout c
     \<and> 0 < MaxConsecutiveFailures c \<and> 0 < DeadLegDrainInterval c"

lemma session_fallback_ok: "fallback_ok (session_fallback cfg shared)"
  by (simp add: session_fallback_def fallback_ok_def fallback_withDefaults_def DefaultFallbackConfig_def
      defaultDeadLegDrainInterval_def Let_def)

subsection \<open>Errors\<close>

fun isFatal :: "go_error \<Rightarrow> bool" where
  "isFatal (ErrFatalness b s) = b"
| "isFatal (ErrWrap s e) = isFatal e"
| "isFatal e = False"

text \<open>\<open>errors.Is(err, translate.ErrCircuitOpen) || errors.Is(err, tts.ErrCircuitOpen)\<close>.\<close>

fun is_circuit_open :: "go_error \<Rightarrow> bool" where
  "is_circuit_open (ErrCircuitOpen p) \<longleftrightarrow> p = PkgTranslate \<or> p = PkgTTS"
| "is_circuit_open (ErrWrap s e) = is_circuit_open e"
| "is_circuit_open e = False"

subsection \<open>The ring buffer\<close>

record bufferedFrame =
  bf_pcm :: bytes
  bf_sampleRate :: int

record audioRingBuffer =
  rb_frames :: "bufferedFrame list"
  rb_capacity :: int
  rb_utteranceAt :: "instant option"

definition audioBufferFrames :: int where "audioBufferFrames = 500"

definition newAudioRingBuffer :: "int \<Rightarrow> audioRingBuffer" where
  "newAudioRingBuffer capacity =
     \<lparr>rb_frames = [], rb_capacity = (if capacity \<le> 0 then audioBufferFrames else capacity), rb_utteranceAt = None\<rparr>"

definition rb_push :: "audioRingBuffer \<Rightarrow> bytes \<Rightarrow> int \<Rightarrow> instant \<Rightarrow> audioRingBuffer" where
  "rb_push b pcm sampleRate now =
     (if pcm = [] then b
      else let b1 = (if rb_frames b = [] then b\<lparr>rb_utteranceAt := Some now\<rparr> else b);
               frames = rb_frames b1 @ [\<lparr>bf_pcm = pcm, bf_sampleRate = sampleRate\<rparr>];
               over = int (length frames) - rb_capacity b1
           in b1\<lparr>rb_frames := (if over > 0 then drop (nat over) frames else frames)\<rparr>)"

definition rb_utteranceStart :: "audioRingBuffer \<Rightarrow> instant option" where
  "rb_utteranceStart b = rb_utteranceAt b"

definition rb_drain :: "audioRingBuffer \<Rightarrow> bufferedFrame list \<times> audioRingBuffer" where
  "rb_drain b = (rb_frames b, b\<lparr>rb_frames := [], rb_utteranceAt := None\<rparr>)"

definition rb_inv :: "audioRingBuffer \<Rightarrow> bool" where
  "rb_inv b \<longleftrightarrow> 0 < rb_capacity b \<and> int (length (rb_frames b)) \<le> rb_capacity b
     \<and> (\<forall>f \<in> set (rb_frames b). bf_pcm f \<noteq> []) \<and> (rb_utteranceAt b = None \<longleftrightarrow> rb_frames b = [])"

lemma rb_inv_new [simp]: "rb_inv (newAudioRingBuffer n)"
  by (simp add: rb_inv_def newAudioRingBuffer_def audioBufferFrames_def)

lemma rb_inv_push: "rb_inv b \<Longrightarrow> rb_inv (rb_push b pcm sr now)"
  by (auto simp: rb_inv_def rb_push_def Let_def dest: in_set_dropD)

lemma rb_inv_drain: "rb_inv b \<Longrightarrow> rb_inv (snd (rb_drain b))"
  by (simp add: rb_inv_def rb_drain_def)

text \<open>
  What a leg relies on: pushing keeps the most recent frames, draining returns them all, in order,
  and leaves the buffer empty.
\<close>

lemma bufferedFrame_eta [simp]: "\<lparr>bf_pcm = bf_pcm f, bf_sampleRate = bf_sampleRate f\<rparr> = f"
  by simp

lemma drop_burst:
  assumes "length xs \<le> c"
  shows "drop (length (drop (Suc (length xs) - c) (xs @ [f])) + length fs - c) (drop (Suc (length xs) - c) (xs @ [f]) @ fs)
    = drop (length xs + (length fs + Suc 0) - c) (xs @ f # fs)"
proof -
  let ?a = "Suc (length xs) - c"
  have "drop ?a (xs @ [f]) @ fs = drop ?a (xs @ f # fs)"
    using drop_append [of ?a "xs @ [f]" fs] by simp
  moreover have "length (drop ?a (xs @ [f])) + length fs - c + ?a = length xs + (length fs + Suc 0) - c"
    using assms by simp
  ultimately show ?thesis by (simp only: drop_drop)
qed

locale audio_ring =
  fixes ar_push :: "'b \<Rightarrow> bytes \<Rightarrow> int \<Rightarrow> instant \<Rightarrow> 'b"
    and ar_drain :: "'b \<Rightarrow> bufferedFrame list \<times> 'b"
    and ar_inv :: "'b \<Rightarrow> bool"
    and ar_cap :: "'b \<Rightarrow> nat"
    and ar_frames :: "'b \<Rightarrow> bufferedFrame list"
  assumes push_keeps: "ar_inv b \<Longrightarrow> pcm \<noteq> [] \<Longrightarrow>
      ar_frames (ar_push b pcm sr t) =
        drop (Suc (length (ar_frames b)) - ar_cap b) (ar_frames b @ [\<lparr>bf_pcm = pcm, bf_sampleRate = sr\<rparr>])"
    and push_frame: "ar_inv b \<Longrightarrow> ar_inv (ar_push b pcm sr t) \<and> ar_cap (ar_push b pcm sr t) = ar_cap b"
    and drain_all: "fst (ar_drain b) = ar_frames b"
    and drain_empties: "ar_inv b \<Longrightarrow> ar_inv (snd (ar_drain b)) \<and> ar_frames (snd (ar_drain b)) = []
      \<and> ar_cap (snd (ar_drain b)) = ar_cap b"
begin

text \<open>A burst that fits comes out whole; a longer one keeps its last \<open>ar_cap\<close> frames.\<close>

lemma push_burst:
  assumes "ar_inv b" "\<forall>f \<in> set fs. bf_pcm f \<noteq> []" "length (ar_frames b) \<le> ar_cap b"
  shows "ar_frames (foldl (\<lambda>b f. ar_push b (bf_pcm f) (bf_sampleRate f) t) b fs) =
    drop (length (ar_frames b) + length fs - ar_cap b) (ar_frames b @ fs)"
  using assms
proof (induction fs arbitrary: b)
  case (Cons f fs)
  let ?b = "ar_push b (bf_pcm f) (bf_sampleRate f) t"
  have fr: "ar_frames ?b = drop (Suc (length (ar_frames b)) - ar_cap b) (ar_frames b @ [f])"
    using push_keeps [OF Cons.prems(1), of "bf_pcm f" "bf_sampleRate f" t] Cons.prems(2)
    by (simp del: drop_append)
  have b: "ar_inv ?b" "ar_cap ?b = ar_cap b" using push_frame [OF Cons.prems(1)] by simp_all
  have "ar_frames (foldl (\<lambda>b f. ar_push b (bf_pcm f) (bf_sampleRate f) t) ?b fs)
      = drop (length (ar_frames ?b) + length fs - ar_cap ?b) (ar_frames ?b @ fs)"
    using Cons.prems b by (intro Cons.IH) (auto simp: fr)
  also have "\<dots> = drop (length (ar_frames b) + length (f # fs) - ar_cap b) (ar_frames b @ f # fs)"
    unfolding fr b using Cons.prems(3) by (simp only: drop_burst list.size)
  finally show ?case by simp
qed simp

end

interpretation rb: audio_ring rb_push rb_drain rb_inv "\<lambda>b. nat (rb_capacity b)" rb_frames
proof unfold_locales
  fix b :: audioRingBuffer and pcm :: bytes and sr t
  assume "rb_inv b" "pcm \<noteq> []"
  then show "rb_frames (rb_push b pcm sr t) =
      drop (Suc (length (rb_frames b)) - nat (rb_capacity b)) (rb_frames b @ [\<lparr>bf_pcm = pcm, bf_sampleRate = sr\<rparr>])"
    by (auto simp: rb_push_def rb_inv_def Let_def nat_diff_distrib nat_add_distrib)
next
  fix b :: audioRingBuffer and pcm :: bytes and sr t
  assume "rb_inv b"
  then show "rb_inv (rb_push b pcm sr t) \<and> nat (rb_capacity (rb_push b pcm sr t)) = nat (rb_capacity b)"
    by (simp add: rb_inv_push) (simp add: rb_push_def Let_def)
next
  fix b :: audioRingBuffer
  assume "rb_inv b"
  then show "rb_inv (snd (rb_drain b)) \<and> rb_frames (snd (rb_drain b)) = []
      \<and> nat (rb_capacity (snd (rb_drain b))) = nat (rb_capacity b)"
    by (simp add: rb_inv_drain) (simp add: rb_drain_def)
qed (simp add: rb_drain_def)

subsection \<open>The state of a leg\<close>

text \<open>
  \<open>consecutiveFailures\<close> and \<open>degraded\<close> are atomics; only the leg's own goroutine writes
  them, so an operation is one step.
\<close>

record legState =
  leg_name :: string
  consecutiveFailures :: int
  degraded :: bool
  leg_audio :: audioRingBuffer

definition newLegState :: "string \<Rightarrow> int \<Rightarrow> legState" where
  "newLegState name bufferFrames =
     \<lparr>leg_name = name, consecutiveFailures = 0, degraded = False, leg_audio = newAudioRingBuffer bufferFrames\<rparr>"

text \<open>\<open>CompareAndSwap(false, true)\<close> answers whether it changed the flag.\<close>

definition recordFailure :: "legState \<Rightarrow> bool \<Rightarrow> int \<Rightarrow> bool \<times> legState" where
  "recordFailure ls fatal maxConsecutive =
     (if fatal then (\<not> degraded ls, ls\<lparr>degraded := True\<rparr>)
      else let n = consecutiveFailures ls + 1; ls1 = ls\<lparr>consecutiveFailures := n\<rparr>
           in if maxConsecutive > 0 \<and> n \<ge> maxConsecutive then (\<not> degraded ls1, ls1\<lparr>degraded := True\<rparr>)
              else (False, ls1))"

definition recordSuccess :: "legState \<Rightarrow> legState" where
  "recordSuccess ls = ls\<lparr>consecutiveFailures := 0\<rparr>"

definition isDegraded :: "legState \<Rightarrow> bool" where
  "isDegraded ls = degraded ls"

lemma recordFailure_sticky: "degraded ls \<Longrightarrow> degraded (snd (recordFailure ls fatal m)) \<and> \<not> fst (recordFailure ls fatal m)"
  by (simp add: recordFailure_def Let_def)

lemma recordFailure_audio [simp]: "leg_audio (snd (recordFailure ls fatal m)) = leg_audio ls"
  "leg_name (snd (recordFailure ls fatal m)) = leg_name ls"
  by (simp_all add: recordFailure_def Let_def)

lemma recordSuccess_frame [simp]: "leg_audio (recordSuccess ls) = leg_audio ls"
  "leg_name (recordSuccess ls) = leg_name ls" "degraded (recordSuccess ls) = degraded ls"
  by (simp_all add: recordSuccess_def)

subsection \<open>Calls on the recorder\<close>

definition stageASRConfidence :: string where "stageASRConfidence = ''asr_confidence''"
definition stageTranslate :: string where "stageTranslate = ''translate''"
definition stageTTS :: string where "stageTTS = ''tts''"
definition stageLegDegraded :: string where "stageLegDegraded = ''leg_degraded''"
definition stageASRFirstChunk :: string where "stageASRFirstChunk = ''asr_first_chunk''"
definition stageMT :: string where "stageMT = ''mt''"
definition stageTTSFirstChunk :: string where "stageTTSFirstChunk = ''tts_first_chunk''"
definition stageTotal :: string where "stageTotal = ''total''"
definition reasonASRStreamClosed :: string where "reasonASRStreamClosed = ''asr_stream_closed''"
definition reasonASRStreamClosedPassthrough :: string where
  "reasonASRStreamClosedPassthrough = ''asr_stream_closed_passthrough''"

lemmas stage_defs = stageASRConfidence_def stageTranslate_def stageTTS_def stageLegDegraded_def
  stageASRFirstChunk_def stageMT_def stageTTSFirstChunk_def stageTotal_def
  reasonASRStreamClosed_def reasonASRStreamClosedPassthrough_def

definition vendor_or_unknown :: "string \<Rightarrow> string" where
  "vendor_or_unknown vendor = (if vendor = [] then ''unknown'' else vendor)"

text \<open>The first argument says whether a recorder is there (\<open>rec != nil\<close>).\<close>

definition recordFallback :: "bool \<Rightarrow> string \<Rightarrow> string \<Rightarrow> rec_call list" where
  "recordFallback rec stage vendor = (if \<not> rec then [] else [CallError stage (vendor_or_unknown vendor) []])"

definition recordFallbackErr :: "bool \<Rightarrow> string \<Rightarrow> string \<Rightarrow> go_error \<Rightarrow> rec_call list" where
  "recordFallbackErr rec stage vendor err =
     (if \<not> rec then []
      else [CallError stage (vendor_or_unknown vendor) (if is_circuit_open err then ''circuit_open'' else [])])"

definition recordFallbackReason :: "bool \<Rightarrow> string \<Rightarrow> string \<Rightarrow> string \<Rightarrow> rec_call list" where
  "recordFallbackReason rec stage vendor reason =
     (if \<not> rec then [] else [CallError stage (vendor_or_unknown vendor) reason])"

definition recordSuccessMetric :: "bool \<Rightarrow> string \<Rightarrow> string \<Rightarrow> rec_call list" where
  "recordSuccessMetric rec stage vendor = (if \<not> rec then [] else [CallEvent stage (vendor_or_unknown vendor)])"

definition recordLatency :: "bool \<Rightarrow> string \<Rightarrow> float64 \<Rightarrow> rec_call list" where
  "recordLatency rec stage ms = (if \<not> rec then [] else [CallRecord stage ms])"

definition msSince :: "instant \<Rightarrow> instant \<Rightarrow> float64" where
  "msSince now t = of_int (now - t) / of_int millisecond"

definition recordTotalIfStarted :: "bool \<Rightarrow> instant option \<Rightarrow> instant \<Rightarrow> rec_call list" where
  "recordTotalIfStarted rec start now =
     (case start of None \<Rightarrow> [] | Some t \<Rightarrow> recordLatency rec stageTotal (msSince now t))"

lemmas record_defs = recordFallback_def recordFallbackErr_def recordFallbackReason_def
  recordSuccessMetric_def recordLatency_def

subsection \<open>Passthrough audio\<close>

definition degradeToneHz :: float64 where "degradeToneHz = 440"
definition degradeToneDurationMS :: int where "degradeToneDurationMS = 150"
definition degradeToneAmplitude :: float64 where "degradeToneAmplitude = 2 / 10"

text \<open>\<open>int16(sample * math.MaxInt16)\<close> truncates towards zero; the bytes are low, then high.\<close>

definition tone_sample :: "int \<Rightarrow> nat \<Rightarrow> u16" where
  "tone_sample sampleRate i =
     (let sample = degradeToneAmplitude * sin (2 * pi * degradeToneHz * real i / of_int sampleRate);
          v = sample * 32767
      in word_of_int (if v < 0 then \<lceil>v\<rceil> else \<lfloor>v\<rfloor>))"

definition generateDegradeTone :: "int \<Rightarrow> bytes" where
  "generateDegradeTone sampleRate0 =
     (let sampleRate = (if sampleRate0 \<le> 0 then 8000 else sampleRate0);
          n = nat (sampleRate * degradeToneDurationMS div 1000)
      in concat (map (\<lambda>i. let v = tone_sample sampleRate i in [lo8 v, hi8 v]) [0..<n]))"

definition first_rate :: "bufferedFrame list \<Rightarrow> int" where
  "first_rate frames = (case filter (\<lambda>f. bf_sampleRate f > 0) frames of [] \<Rightarrow> 8000 | f # fs \<Rightarrow> bf_sampleRate f)"

definition frame_chunk :: "bufferedFrame \<Rightarrow> AudioChunk" where
  "frame_chunk f = \<lparr>ac_PCM = bf_pcm f, ac_SampleRate = bf_sampleRate f, ac_IsFinal = False\<rparr>"

definition buildPassthroughChunks :: "bufferedFrame list \<Rightarrow> bool \<Rightarrow> AudioChunk list" where
  "buildPassthroughChunks frames toneEnabled =
     (let sampleRate = first_rate frames;
          chunks = (if toneEnabled
                    then [\<lparr>ac_PCM = generateDegradeTone sampleRate, ac_SampleRate = sampleRate, ac_IsFinal = False\<rparr>]
                    else []) @ map frame_chunk frames
      in if chunks = [] then [\<lparr>ac_PCM = [], ac_SampleRate = sampleRate, ac_IsFinal = True\<rparr>]
         else butlast chunks @ [(last chunks)\<lparr>ac_IsFinal := True\<rparr>])"

lemma map_butlast_last:
  "xs \<noteq> [] \<Longrightarrow> f (g (last xs)) = f (last xs) \<Longrightarrow> map f (butlast xs @ [g (last xs)]) = map f xs"
  by (induction xs rule: rev_induct) simp_all

lemma length_tone: "length (generateDegradeTone r) = 2 * nat ((if r \<le> 0 then 8000 else r) * 150 div 1000)"
  by (simp add: generateDegradeTone_def Let_def degradeToneDurationMS_def length_concat o_def sum_list_triv)

lemma tone_sample_bound: "\<bar>sint (tone_sample r i)\<bar> \<le> 6553"
proof -
  define v where "v = degradeToneAmplitude * sin (2 * pi * degradeToneHz * real i / of_int r) * 32767"
  have "\<bar>v\<bar> = 1 / 5 * \<bar>sin (2 * pi * degradeToneHz * real i / of_int r)\<bar> * 32767"
    by (simp add: v_def degradeToneAmplitude_def abs_mult)
  also have "\<dots> \<le> 1 / 5 * 1 * 32767" by (intro mult_right_mono mult_left_mono abs_sin_le_one) simp_all
  finally have "\<bar>v\<bar> \<le> 6553.4" by simp
  then have k: "\<bar>if v < 0 then \<lceil>v\<rceil> else \<lfloor>v\<rfloor>\<bar> \<le> 6553" by (auto simp: abs_le_iff; linarith)
  let ?k = "if v < 0 then \<lceil>v\<rceil> else \<lfloor>v\<rfloor>"
  have "sint (word_of_int ?k :: u16) = signed_take_bit 15 ?k" by (simp only: sint_sbintrunc') simp
  also have "\<dots> = ?k" using k by (intro signed_take_bit_int_eq_self) (auto simp: abs_le_iff)
  finally have "\<bar>sint (word_of_int ?k :: u16)\<bar> \<le> 6553" using k by simp
  then show ?thesis unfolding tone_sample_def Let_def v_def by (simp only:)
qed

text \<open>
  Passthrough keeps the speaker's audio. For every list of buffered frames the chunks forwarded
  are never none, exactly the last one is final, and their audio is the warning tone when it is
  enabled followed by every buffered frame, byte for byte and in order, each with its own sample
  rate; the tone is 150 ms long and never above a fifth of full scale.
\<close>
theorem passthrough_keeps_audio:
  "let chunks = buildPassthroughChunks frames tone
   in chunks \<noteq> [] \<and> ac_IsFinal (last chunks) \<and> (\<forall>c \<in> set (butlast chunks). \<not> ac_IsFinal c)
      \<and> (tone \<or> frames \<noteq> [] \<longrightarrow>
           map ac_PCM chunks = (if tone then [generateDegradeTone (first_rate frames)] else []) @ map bf_pcm frames
           \<and> map ac_SampleRate chunks = (if tone then [first_rate frames] else []) @ map bf_sampleRate frames)
      \<and> length (generateDegradeTone (first_rate frames)) = 2 * nat (first_rate frames * 150 div 1000)
      \<and> \<bar>sint (tone_sample r i)\<bar> \<le> 6553"
proof -
  define base where "base = (if tone
      then [\<lparr>ac_PCM = generateDegradeTone (first_rate frames), ac_SampleRate = first_rate frames, ac_IsFinal = False\<rparr>]
      else []) @ map frame_chunk frames"
  have nofinal: "\<forall>c \<in> set base. \<not> ac_IsFinal c" by (auto simp: base_def frame_chunk_def)
  have chunks: "buildPassthroughChunks frames tone =
      (if base = [] then [\<lparr>ac_PCM = [], ac_SampleRate = first_rate frames, ac_IsFinal = True\<rparr>]
       else butlast base @ [(last base)\<lparr>ac_IsFinal := True\<rparr>])"
    by (simp add: buildPassthroughChunks_def base_def Let_def)
  have pos: "0 < first_rate frames"
  proof (cases "filter (\<lambda>f. bf_sampleRate f > 0) frames")
    case (Cons f fs)
    then show ?thesis by (auto simp: first_rate_def filter_eq_Cons_iff)
  qed (simp add: first_rate_def)
  have maps: "base \<noteq> [] \<Longrightarrow> map ac_PCM (butlast base @ [(last base)\<lparr>ac_IsFinal := True\<rparr>]) = map ac_PCM base
      \<and> map ac_SampleRate (butlast base @ [(last base)\<lparr>ac_IsFinal := True\<rparr>]) = map ac_SampleRate base"
    by (intro conjI map_butlast_last) simp_all
  have ne: "tone \<or> frames \<noteq> [] \<Longrightarrow> base \<noteq> []" by (auto simp: base_def)
  have pcm: "map ac_PCM base = (if tone then [generateDegradeTone (first_rate frames)] else []) @ map bf_pcm frames"
    "map ac_SampleRate base = (if tone then [first_rate frames] else []) @ map bf_sampleRate frames"
    by (simp_all add: base_def frame_chunk_def o_def)
  show ?thesis
    using nofinal maps ne pos pcm
    by (auto simp: chunks Let_def length_tone tone_sample_bound dest: in_set_butlastD)
qed

theorem passthrough_keeps_audio_witness:
  "map ac_PCM (buildPassthroughChunks [\<lparr>bf_pcm = [1, 2], bf_sampleRate = 0\<rparr>, \<lparr>bf_pcm = [3], bf_sampleRate = 16000\<rparr>] False)
     = [[1, 2], [3]]"
  using passthrough_keeps_audio [of "[\<lparr>bf_pcm = [1, 2], bf_sampleRate = 0\<rparr>, \<lparr>bf_pcm = [3], bf_sampleRate = 16000\<rparr>]" False 1 0]
  by (simp add: Let_def)

subsection \<open>Personas (pkg/langstream/personas.go)\<close>

type_synonym PersonaManager = "(language \<times> Persona) list"

definition NewPersonaManager :: PersonaManager where "NewPersonaManager = []"

definition persona_Get :: "PersonaManager \<Rightarrow> language \<Rightarrow> Persona" where
  "persona_Get pm lang =
     (case map_of pm lang of Some p \<Rightarrow> p
      | None \<Rightarrow> \<lparr>VoiceID = ''default-'' @ lang, persona_Language = lang, Gender = ''neutral'', ClonedFrom = []\<rparr>)"

definition persona_Set :: "PersonaManager \<Rightarrow> language \<Rightarrow> Persona \<Rightarrow> PersonaManager" where
  "persona_Set pm lang p = al_put lang p pm"

lemma persona_Get_Set [simp]:
  "persona_Get (persona_Set pm l p) l' = (if l' = l then p else persona_Get pm l')"
  by (simp add: persona_Get_def persona_Set_def)

end
