(* ===== verification/SessionLeg.thy ===== *)
theory SessionLeg
  imports Fallback
begin

section \<open>One translation leg of a session (pkg/langstream/session.go)\<close>

text \<open>
  \<open>runLeg\<close>, \<open>drainDeadLeg\<close> and the functions they call, as a step function over events: audio
  pushed into the leg, a transcript with what the backends and the clock do while it is handled,
  the transcripts channel closing, the context ending, a tick of the dead-leg drain.

  A backend call is an argument: \<open>ue_translate\<close> is \<open>Translator.Translate\<close> under its timeout, as
  a function of what it is called with, and \<open>ue_synth\<close> is \<open>SynthesizeStream\<close>. Reading the
  utterance's start and draining the buffer are one step (a push between them would only date the
  utterance one frame late); audio pushed while a transcript is handled belongs to the next event.
  Logging is left out.
\<close>

subsection \<open>Sending under a context that can end\<close>

text \<open>
  Every blocking operation is a \<open>select\<close> between the operation and \<open>ctx.Done()\<close>. A budget
  \<open>Some n\<close> lets the operation win \<open>n\<close> more times before \<open>Done\<close> is taken; \<open>None\<close> means that
  the context does not end. \<open>forwardAudio\<close> selects once to receive a chunk (or the close) and once
  to send it.
\<close>

type_synonym budget = "nat option"

fun spend :: "budget \<Rightarrow> bool \<times> budget" where
  "spend None = (True, None)"
| "spend (Some 0) = (False, Some 0)"
| "spend (Some (Suc n)) = (True, Some n)"

fun forwardAudio :: "budget \<Rightarrow> AudioChunk list \<Rightarrow> AudioChunk list \<times> budget \<times> bool" where
  "forwardAudio k [] = (let (recv, k1) = spend k in ([], k1, recv))"
| "forwardAudio k (c # cs) =
     (let (recv, k1) = spend k
      in if \<not> recv then ([], k1, False)
         else let (sent, k2) = spend k1
              in if \<not> sent then ([], k2, False)
                 else let (out, k3, ok) = forwardAudio k2 cs in (c # out, k3, ok))"

lemma forwardAudio_None [simp]: "forwardAudio None cs = (cs, None, True)"
  by (induction cs) simp_all

subsection \<open>The environment of one utterance\<close>

text \<open>
  What the stall guard sees of a synthesis: nothing before its deadline, or the chunks up to the
  channel's close (possibly none), the first of them in time.
\<close>

datatype tts_stream = Stalls | Delivers "AudioChunk list"

record utt_env =
  ue_translate :: "string \<Rightarrow> language \<Rightarrow> language \<Rightarrow> bool \<Rightarrow> MTChunk result"
  ue_synth :: "string \<Rightarrow> Persona \<Rightarrow> tts_stream result"
  ue_budget :: budget
  ue_at :: instant
  ue_mt_start :: instant
  ue_mt_end :: instant
  ue_tts_start :: instant
  ue_first_chunk :: instant
  ue_done :: instant

record leg_cfg =
  lg_fallback :: FallbackConfig
  lg_srcLang :: language
  lg_dstLang :: language
  lg_personas :: PersonaManager
  lg_ASRName :: string
  lg_MTName :: string
  lg_TTSName :: string

text \<open>\<open>LegRunning\<close>: in \<open>runLeg\<close>; \<open>LegDraining\<close>: in \<open>drainDeadLeg\<close>; \<open>LegExited\<close>: neither runs.\<close>

datatype leg_phase = LegRunning | LegDraining | LegExited

record leg_sys =
  ls_leg :: legState
  ls_phase :: leg_phase
  ls_out :: "AudioChunk list"
  ls_calls :: "rec_call list"

abbreviation emit :: "AudioChunk list \<Rightarrow> leg_sys \<Rightarrow> leg_sys" where
  "emit cs s \<equiv> s\<lparr>ls_out := ls_out s @ cs\<rparr>"
abbreviation call :: "rec_call list \<Rightarrow> leg_sys \<Rightarrow> leg_sys" where
  "call cs s \<equiv> s\<lparr>ls_calls := ls_calls s @ cs\<rparr>"

subsection \<open>Passthrough and synthesis forwarding\<close>

definition emitPassthrough :: "FallbackConfig \<Rightarrow> bufferedFrame list \<Rightarrow> budget \<Rightarrow> leg_sys \<Rightarrow> leg_sys \<times> bool" where
  "emitPassthrough fb frames k s =
     (let (out, k1, ok) = forwardAudio k (buildPassthroughChunks frames (DegradeToneEnabled fb)) in (emit out s, ok))"

definition emitPassthroughTimed ::
  "FallbackConfig \<Rightarrow> bufferedFrame list \<Rightarrow> instant option \<Rightarrow> budget \<Rightarrow> instant \<Rightarrow> leg_sys \<Rightarrow> leg_sys \<times> bool" where
  "emitPassthroughTimed fb frames utteranceStart k now s =
     (let (s1, ok) = emitPassthrough fb frames k s
      in (if ok then call (recordTotalIfStarted True utteranceStart now) s1 else s1, ok))"

datatype guard_result = Completed | Stalled | ShuttingDown

definition forwardTTSWithStallGuard ::
  "utt_env \<Rightarrow> tts_stream \<Rightarrow> leg_sys \<Rightarrow> leg_sys \<times> guard_result \<times> budget" where
  "forwardTTSWithStallGuard e stream s =
     (case spend (ue_budget e) of
        (False, k) \<Rightarrow> (s, ShuttingDown, k)
      | (True, k) \<Rightarrow>
        (case stream of
           Stalls \<Rightarrow> (s, Stalled, k)
         | Delivers [] \<Rightarrow> (s, Completed, k)
         | Delivers (c # cs) \<Rightarrow>
             let s1 = call (recordLatency True stageTTSFirstChunk (msSince (ue_first_chunk e) (ue_tts_start e))) s
             in (case spend k of
                   (False, k1) \<Rightarrow> (s1, ShuttingDown, k1)
                 | (True, k1) \<Rightarrow>
                     let s2 = emit [c] s1
                     in if ac_IsFinal c then (s2, Completed, k1)
                        else let (out, k2, ok) = forwardAudio k1 cs
                             in (emit out s2, if ok then Completed else ShuttingDown, k2))))"

subsection \<open>One final transcript\<close>

text \<open>A failure of MT or TTS: the error is recorded, then the leg's failure counter.\<close>

definition record_leg_failure :: "FallbackConfig \<Rightarrow> bool \<Rightarrow> leg_sys \<Rightarrow> leg_sys" where
  "record_leg_failure fb fatal s =
     (let (newly, leg) = recordFailure (ls_leg s) fatal (MaxConsecutiveFailures fb);
          s1 = s\<lparr>ls_leg := leg\<rparr>
      in if newly then call (recordFallback True stageLegDegraded (leg_name leg)) s1 else s1)"

text \<open>The result says whether the goroutine goes on (it returns when a forward was cut off).\<close>

definition handle_synthesis ::
  "leg_cfg \<Rightarrow> utt_env \<Rightarrow> bufferedFrame list \<Rightarrow> instant option \<Rightarrow> string \<Rightarrow> leg_sys \<Rightarrow> leg_sys \<times> bool" where
  "handle_synthesis c e frames utteranceStart txt s =
     (let fb = lg_fallback c; persona = persona_Get (lg_personas c) (lg_dstLang c) in
      case ue_synth e txt persona of
        Inl err \<Rightarrow>
          emitPassthroughTimed fb frames utteranceStart (ue_budget e) (ue_done e)
            (record_leg_failure fb (isFatal err) (call (recordFallbackErr True stageTTS (lg_TTSName c) err) s))
      | Inr stream \<Rightarrow>
          (let (s1, r, k1) = forwardTTSWithStallGuard e stream s in
           case r of
             ShuttingDown \<Rightarrow> (s1, False)
           | Stalled \<Rightarrow>
               emitPassthroughTimed fb frames utteranceStart k1 (ue_done e)
                 (record_leg_failure fb False (call (recordFallback True stageTTS (lg_TTSName c)) s1))
           | Completed \<Rightarrow>
               (call (recordSuccessMetric True stageTTS (lg_TTSName c) @ recordTotalIfStarted True utteranceStart (ue_done e))
                  (s1\<lparr>ls_leg := recordSuccess (ls_leg s1)\<rparr>), True)))"

definition handle_final :: "leg_cfg \<Rightarrow> utt_env \<Rightarrow> Transcript \<Rightarrow> leg_sys \<Rightarrow> leg_sys \<times> bool" where
  "handle_final c e tr s0 =
     (let fb = lg_fallback c;
          utteranceStart = rb_utteranceStart (leg_audio (ls_leg s0));
          (frames, audio) = rb_drain (leg_audio (ls_leg s0));
          s = s0\<lparr>ls_leg := (ls_leg s0)\<lparr>leg_audio := audio\<rparr>\<rparr>;
          pass = emitPassthroughTimed fb frames utteranceStart (ue_budget e) (ue_done e)
      in if isDegraded (ls_leg s) then
           pass (call (recordFallback True stageLegDegraded (leg_name (ls_leg s))) s)
         else if tr_Confidence tr > 0 \<and> tr_Confidence tr < ConfidenceThreshold fb then
           pass (call (recordFallback True stageASRConfidence (lg_ASRName c)) s)
         else
           let s1 = call (recordSuccessMetric True stageASRConfidence (lg_ASRName c)
                 @ (case utteranceStart of None \<Rightarrow> []
                    | Some t \<Rightarrow> recordLatency True stageASRFirstChunk (msSince (ue_at e) t))
                 @ recordLatency True stageMT (msSince (ue_mt_end e) (ue_mt_start e))) s
           in (case ue_translate e (tr_Text tr) (lg_srcLang c) (lg_dstLang c) (tr_IsFinal tr) of
                 Inl err \<Rightarrow>
                   pass (record_leg_failure fb (isFatal err)
                           (call (recordFallbackErr True stageTranslate (lg_MTName c) err) s1))
               | Inr chunk \<Rightarrow>
                   let s2 = call (recordSuccessMetric True stageTranslate (lg_MTName c))
                              (s1\<lparr>ls_leg := recordSuccess (ls_leg s1)\<rparr>)
                   in if mt_Text chunk = [] then (s2, True)
                      else handle_synthesis c e frames utteranceStart (mt_Text chunk) s2))"

subsection \<open>The dead leg\<close>

definition flushDeadLegAudio :: "leg_cfg \<Rightarrow> budget \<Rightarrow> instant \<Rightarrow> leg_sys \<Rightarrow> leg_sys \<times> bool" where
  "flushDeadLegAudio c k now s0 =
     (let utteranceStart = rb_utteranceStart (leg_audio (ls_leg s0));
          (frames, audio) = rb_drain (leg_audio (ls_leg s0));
          s = s0\<lparr>ls_leg := (ls_leg s0)\<lparr>leg_audio := audio\<rparr>\<rparr>
      in if frames = [] then (s, True)
         else emitPassthroughTimed (lg_fallback c) frames utteranceStart k now
                (call (recordFallbackReason True stageLegDegraded (leg_name (ls_leg s))
                         reasonASRStreamClosedPassthrough) s))"

text \<open>
  \<open>drainDeadLeg\<close>: on a tick it flushes and goes on unless the flush was cut off or the session
  is closing; when the context ends it flushes once more and returns.
\<close>

definition drainDeadLeg_tick :: "leg_cfg \<Rightarrow> bool \<Rightarrow> budget \<Rightarrow> instant \<Rightarrow> leg_sys \<Rightarrow> leg_sys" where
  "drainDeadLeg_tick c closing k now s =
     (let (s1, ok) = flushDeadLegAudio c k now s
      in if \<not> ok \<or> closing then s1\<lparr>ls_phase := LegExited\<rparr> else s1)"

definition drainDeadLeg_done :: "leg_cfg \<Rightarrow> budget \<Rightarrow> instant \<Rightarrow> leg_sys \<Rightarrow> leg_sys" where
  "drainDeadLeg_done c k now s = (fst (flushDeadLegAudio c k now s))\<lparr>ls_phase := LegExited\<rparr>"

text \<open>The transcripts channel closes; \<open>closing\<close> is what \<open>s.closing.Load()\<close> reads.\<close>

definition asr_stream_closed :: "leg_cfg \<Rightarrow> bool \<Rightarrow> budget \<Rightarrow> instant \<Rightarrow> leg_sys \<Rightarrow> leg_sys" where
  "asr_stream_closed c closing k now s0 =
     (if closing then s0\<lparr>ls_phase := LegExited\<rparr>
      else
        let leg1 = snd (recordFailure (ls_leg s0) True 0);
            s1 = call (recordFallbackReason True stageLegDegraded (leg_name leg1) reasonASRStreamClosed)
                   (s0\<lparr>ls_leg := leg1\<rparr>);
            utteranceStart = rb_utteranceStart (leg_audio leg1);
            (frames, audio) = rb_drain (leg_audio leg1);
            s2 = s1\<lparr>ls_leg := leg1\<lparr>leg_audio := audio\<rparr>\<rparr>
        in (fst (emitPassthroughTimed (lg_fallback c) frames utteranceStart k now s2))\<lparr>ls_phase := LegDraining\<rparr>)"

subsection \<open>Events and runs\<close>

datatype leg_event =
    PushAudio bytes int instant
  | FinalOrPartial Transcript utt_env
  | TranscriptsClosed bool budget instant
  | LegCtxDone budget instant
  | DrainTick bool budget instant

fun leg_step :: "leg_cfg \<Rightarrow> leg_sys \<Rightarrow> leg_event \<Rightarrow> leg_sys" where
  "leg_step c s (PushAudio pcm rate now) =
     s\<lparr>ls_leg := (ls_leg s)\<lparr>leg_audio := rb_push (leg_audio (ls_leg s)) pcm rate now\<rparr>\<rparr>"
| "leg_step c s (FinalOrPartial tr e) =
     (if ls_phase s = LegRunning \<and> tr_IsFinal tr
      then let (s1, go_on) = handle_final c e tr s in (if go_on then s1 else s1\<lparr>ls_phase := LegExited\<rparr>)
      else s)"
| "leg_step c s (TranscriptsClosed closing k now) =
     (if ls_phase s = LegRunning then asr_stream_closed c closing k now s else s)"
| "leg_step c s (LegCtxDone k now) =
     (case ls_phase s of LegRunning \<Rightarrow> s\<lparr>ls_phase := LegExited\<rparr>
      | LegDraining \<Rightarrow> drainDeadLeg_done c k now s
      | LegExited \<Rightarrow> s)"
| "leg_step c s (DrainTick closing k now) =
     (if ls_phase s = LegDraining then drainDeadLeg_tick c closing k now s else s)"

definition leg_run :: "leg_cfg \<Rightarrow> leg_sys \<Rightarrow> leg_event list \<Rightarrow> leg_sys" where
  "leg_run c s evs = foldl (leg_step c) s evs"

definition new_leg :: "string \<Rightarrow> leg_sys" where
  "new_leg name = \<lparr>ls_leg = newLegState name audioBufferFrames, ls_phase = LegRunning, ls_out = [], ls_calls = []\<rparr>"

lemmas leg_defs = emitPassthrough_def emitPassthroughTimed_def forwardTTSWithStallGuard_def
  record_leg_failure_def handle_synthesis_def handle_final_def flushDeadLegAudio_def
  asr_stream_closed_def drainDeadLeg_tick_def drainDeadLeg_done_def

end
