(* ===== verification/SessionLegProps.thy ===== *)
theory SessionLegProps
  imports SessionLeg
begin

section \<open>What a leg guarantees\<close>

text \<open>
  What the listener hears of one utterance, when a leg degrades, what a degraded leg and a
  dead leg do, and that the metrics see every failure.
\<close>

subsection \<open>One utterance\<close>

lemma emitPassthroughTimed_None [simp]:
  "emitPassthroughTimed fb frames u None now s =
     (call (recordTotalIfStarted True u now) (emit (buildPassthroughChunks frames (DegradeToneEnabled fb)) s), True)"
  by (simp add: emitPassthroughTimed_def emitPassthrough_def)

lemma record_leg_failure_frame [simp]:
  "ls_out (record_leg_failure fb fatal s) = ls_out s" "ls_phase (record_leg_failure fb fatal s) = ls_phase s"
  "leg_audio (ls_leg (record_leg_failure fb fatal s)) = leg_audio (ls_leg s)"
  "leg_name (ls_leg (record_leg_failure fb fatal s)) = leg_name (ls_leg s)"
  by (simp_all add: record_leg_failure_def split_beta Let_def)

lemma record_leg_failure_leg:
  "ls_leg (record_leg_failure fb fatal s) = snd (recordFailure (ls_leg s) fatal (MaxConsecutiveFailures fb))"
  by (simp add: record_leg_failure_def split_beta Let_def)

text \<open>The abstract contract: which audio reaches the listener for one final transcript.\<close>

definition low_confidence :: "leg_cfg \<Rightarrow> Transcript \<Rightarrow> bool" where
  "low_confidence c tr \<longleftrightarrow> tr_Confidence tr > 0 \<and> tr_Confidence tr < ConfidenceThreshold (lg_fallback c)"

definition up_to_first_final :: "AudioChunk list \<Rightarrow> AudioChunk list" where
  "up_to_first_final cs = (case cs of [] \<Rightarrow> [] | c # rest \<Rightarrow> if ac_IsFinal c then [c] else c # rest)"

definition heard :: "leg_cfg \<Rightarrow> utt_env \<Rightarrow> Transcript \<Rightarrow> legState \<Rightarrow> AudioChunk list" where
  "heard c e tr leg =
     (let pass = buildPassthroughChunks (rb_frames (leg_audio leg)) (DegradeToneEnabled (lg_fallback c))
      in if degraded leg \<or> low_confidence c tr then pass
         else case ue_translate e (tr_Text tr) (lg_srcLang c) (lg_dstLang c) (tr_IsFinal tr) of
                Inl err \<Rightarrow> pass
              | Inr chunk \<Rightarrow>
                  if mt_Text chunk = [] then []
                  else case ue_synth e (mt_Text chunk) (persona_Get (lg_personas c) (lg_dstLang c)) of
                         Inl err \<Rightarrow> pass
                       | Inr Stalls \<Rightarrow> pass
                       | Inr (Delivers cs) \<Rightarrow> up_to_first_final cs)"

lemma buildPassthroughChunks_ne [simp]: "buildPassthroughChunks frames tone \<noteq> []"
  by (simp add: buildPassthroughChunks_def Let_def)

lemma handle_synthesis_None:
  assumes "ue_budget e = None"
  shows "snd (handle_synthesis c e frames u txt s)"
    "ls_out (fst (handle_synthesis c e frames u txt s)) = ls_out s @
       (case ue_synth e txt (persona_Get (lg_personas c) (lg_dstLang c)) of
          Inl err \<Rightarrow> buildPassthroughChunks frames (DegradeToneEnabled (lg_fallback c))
        | Inr Stalls \<Rightarrow> buildPassthroughChunks frames (DegradeToneEnabled (lg_fallback c))
        | Inr (Delivers cs) \<Rightarrow> up_to_first_final cs)"
    "leg_audio (ls_leg (fst (handle_synthesis c e frames u txt s))) = leg_audio (ls_leg s)"
    "ls_phase (fst (handle_synthesis c e frames u txt s)) = ls_phase s"
  using assms
  by (simp_all add: handle_synthesis_def forwardTTSWithStallGuard_def Let_def up_to_first_final_def
      split: sum.split tts_stream.split list.split)

lemma handle_final_None:
  assumes "ue_budget e = None"
  shows "snd (handle_final c e tr s) \<and> ls_out (fst (handle_final c e tr s)) = ls_out s @ heard c e tr (ls_leg s)
    \<and> rb_frames (leg_audio (ls_leg (fst (handle_final c e tr s)))) = []
    \<and> ls_phase (fst (handle_final c e tr s)) = ls_phase s"
proof -
  consider "degraded (ls_leg s)" | "\<not> degraded (ls_leg s)" "low_confidence c tr"
    | "\<not> degraded (ls_leg s)" "\<not> low_confidence c tr" by blast
  then show ?thesis
  proof cases
    case 3
    then show ?thesis
      by (cases "ue_translate e (tr_Text tr) (lg_srcLang c) (lg_dstLang c) (tr_IsFinal tr)")
        (auto simp: handle_final_def heard_def isDegraded_def low_confidence_def Let_def rb_drain_def assms
          handle_synthesis_None)
  qed (simp_all add: handle_final_def heard_def isDegraded_def low_confidence_def Let_def rb_drain_def assms)
qed

text \<open>
  C1: What the listener hears. While the session is not shutting down, a final transcript makes the
  leg forward exactly: the original audio as passthrough when the leg is degraded, the confidence is
  low, the translation fails, or the synthesis fails or stalls; otherwise the synthesis (of the
  translation from the leg's source into its target language, in the target language's voice). The
  buffer is emptied. The only utterances of which nothing at all is heard are those whose
  translation is empty or whose synthesis ends without a chunk.
\<close>
theorem leg_utterance_outcome:
  assumes "ue_budget e = None" "tr_IsFinal tr" "ls_phase s = LegRunning"
  shows "let s' = leg_step c s (FinalOrPartial tr e)
    in ls_out s' = ls_out s @ heard c e tr (ls_leg s) \<and> ls_phase s' = LegRunning
       \<and> rb_frames (leg_audio (ls_leg s')) = []
       \<and> (heard c e tr (ls_leg s) = [] \<longleftrightarrow>
            \<not> degraded (ls_leg s) \<and> \<not> low_confidence c tr \<and>
            (\<exists>chunk. ue_translate e (tr_Text tr) (lg_srcLang c) (lg_dstLang c) True = Ok chunk
               \<and> (mt_Text chunk = []
                  \<or> ue_synth e (mt_Text chunk) (persona_Get (lg_personas c) (lg_dstLang c)) = Ok (Delivers []))))"
  using handle_final_None [OF assms(1), of c tr s] assms(2,3)
  by (auto simp: split_beta Let_def heard_def up_to_first_final_def
      split: sum.splits tts_stream.splits list.splits)

subsection \<open>A concrete leg for the witnesses\<close>

definition demo_cfg :: leg_cfg where
  "demo_cfg =
     \<lparr>lg_fallback = DefaultFallbackConfig\<lparr>DegradeToneEnabled := False\<rparr>, lg_srcLang = ''hi'', lg_dstLang = ''en'',
      lg_personas = [], lg_ASRName = ''mock'', lg_MTName = ''mock'', lg_TTSName = ''mock''\<rparr>"

definition demo_tr :: Transcript where
  "demo_tr = \<lparr>tr_Text = ''x'', tr_Language = ''hi'', tr_IsFinal = True, tr_Confidence = 1, tr_StartMS = 0, tr_EndMS = 1\<rparr>"

definition demo_env :: "(string \<Rightarrow> language \<Rightarrow> language \<Rightarrow> bool \<Rightarrow> MTChunk result) \<Rightarrow> (string \<Rightarrow> Persona \<Rightarrow> tts_stream result) \<Rightarrow> utt_env" where
  "demo_env f g = \<lparr>ue_translate = f, ue_synth = g, ue_budget = None, ue_at = 0, ue_mt_start = 0, ue_mt_end = 0,
     ue_tts_start = 0, ue_first_chunk = 0, ue_done = 0\<rparr>"

definition demo_mt :: "string \<Rightarrow> language \<Rightarrow> language \<Rightarrow> bool \<Rightarrow> MTChunk result" where
  "demo_mt txt src dst fin = Ok \<lparr>mt_Text = dst @ txt, mt_SourceLang = src, mt_TargetLang = dst, mt_IsFinal = fin\<rparr>"

definition demo_tts :: "string \<Rightarrow> Persona \<Rightarrow> tts_stream result" where
  "demo_tts txt p = Ok (Delivers [\<lparr>ac_PCM = [7], ac_SampleRate = 8000, ac_IsFinal = True\<rparr>])"

theorem leg_utterance_outcome_witness:
  "ls_out (leg_step demo_cfg (new_leg ''caller'') (FinalOrPartial demo_tr (demo_env demo_mt demo_tts)))
     = [\<lparr>ac_PCM = [7], ac_SampleRate = 8000, ac_IsFinal = True\<rparr>]"
proof -
  have "heard demo_cfg (demo_env demo_mt demo_tts) demo_tr (ls_leg (new_leg ''caller''))
      = [\<lparr>ac_PCM = [7], ac_SampleRate = 8000, ac_IsFinal = True\<rparr>]"
    by (simp add: heard_def demo_cfg_def demo_env_def demo_mt_def demo_tts_def demo_tr_def new_leg_def
        newLegState_def low_confidence_def up_to_first_final_def DefaultFallbackConfig_def Let_def)
  moreover have "ue_budget (demo_env demo_mt demo_tts) = None" "tr_IsFinal demo_tr"
    "ls_phase (new_leg ''caller'') = LegRunning" "ls_out (new_leg ''caller'') = []"
    by (simp_all add: demo_env_def demo_tr_def new_leg_def)
  ultimately show ?thesis
    using leg_utterance_outcome [of "demo_env demo_mt demo_tts" demo_tr "new_leg ''caller''" demo_cfg]
    by (simp only: Let_def append_Nil)
qed

subsection \<open>When a leg degrades\<close>

lemma emitPassthroughTimed_leg [simp]:
  "ls_leg (fst (emitPassthroughTimed fb frames u k now s)) = ls_leg s"
  "ls_phase (fst (emitPassthroughTimed fb frames u k now s)) = ls_phase s"
  by (simp_all add: emitPassthroughTimed_def emitPassthrough_def split_beta Let_def)

lemma forwardTTS_leg [simp]:
  "ls_leg (fst (forwardTTSWithStallGuard e st s)) = ls_leg s"
  "ls_phase (fst (forwardTTSWithStallGuard e st s)) = ls_phase s"
  by (simp_all add: forwardTTSWithStallGuard_def split_beta Let_def split: tts_stream.split list.split prod.split bool.split)

text \<open>How the guard ends does not depend on the leg's state.\<close>

definition guard_of :: "utt_env \<Rightarrow> tts_stream \<Rightarrow> guard_result" where
  "guard_of e st = fst (snd (forwardTTSWithStallGuard e st (new_leg [])))"

lemma guard_of [simp]: "fst (snd (forwardTTSWithStallGuard e st s)) = guard_of e st"
  unfolding guard_of_def forwardTTSWithStallGuard_def
  by (simp add: split_beta Let_def split: tts_stream.split list.split prod.split bool.split)

lemma handle_synthesis_leg:
  "ls_leg (fst (handle_synthesis c e frames u txt s)) =
     (case ue_synth e txt (persona_Get (lg_personas c) (lg_dstLang c)) of
        Inl err \<Rightarrow> snd (recordFailure (ls_leg s) (isFatal err) (MaxConsecutiveFailures (lg_fallback c)))
      | Inr st \<Rightarrow>
          (case guard_of e st of
             ShuttingDown \<Rightarrow> ls_leg s
           | Stalled \<Rightarrow> snd (recordFailure (ls_leg s) False (MaxConsecutiveFailures (lg_fallback c)))
           | Completed \<Rightarrow> recordSuccess (ls_leg s)))"
  by (simp add: handle_synthesis_def record_leg_failure_leg split_beta Let_def split: sum.split guard_result.split)

definition leg_drained :: "legState \<Rightarrow> legState" where
  "leg_drained leg = leg\<lparr>leg_audio := snd (rb_drain (leg_audio leg))\<rparr>"

lemma handle_final_leg:
  "ls_leg (fst (handle_final c e tr s)) =
     (if degraded (ls_leg s) \<or> low_confidence c tr then leg_drained (ls_leg s)
      else case ue_translate e (tr_Text tr) (lg_srcLang c) (lg_dstLang c) (tr_IsFinal tr) of
             Inl err \<Rightarrow> snd (recordFailure (leg_drained (ls_leg s)) (isFatal err) (MaxConsecutiveFailures (lg_fallback c)))
           | Inr chunk \<Rightarrow>
               let ok = recordSuccess (leg_drained (ls_leg s)); m = MaxConsecutiveFailures (lg_fallback c) in
               if mt_Text chunk = [] then ok
               else case ue_synth e (mt_Text chunk) (persona_Get (lg_personas c) (lg_dstLang c)) of
                      Inl err \<Rightarrow> snd (recordFailure ok (isFatal err) m)
                    | Inr st \<Rightarrow>
                        (case guard_of e st of
                           ShuttingDown \<Rightarrow> ok | Stalled \<Rightarrow> snd (recordFailure ok False m) | Completed \<Rightarrow> recordSuccess ok))"
proof -
  note defs = handle_final_def isDegraded_def leg_drained_def Let_def rb_drain_def low_confidence_def
  consider "degraded (ls_leg s)" | "\<not> degraded (ls_leg s)" "low_confidence c tr"
    | "\<not> degraded (ls_leg s)" "\<not> low_confidence c tr" by blast
  then show ?thesis
  proof cases
    case 3
    show ?thesis
    proof (cases "ue_translate e (tr_Text tr) (lg_srcLang c) (lg_dstLang c) (tr_IsFinal tr)")
      case (Inl err)
      with 3 show ?thesis by (auto simp: defs record_leg_failure_leg)
    next
      case (Inr chunk)
      show ?thesis
      proof (cases "ue_synth e (mt_Text chunk) (persona_Get (lg_personas c) (lg_dstLang c))")
        case Inl': (Inl err)
        with 3 Inr show ?thesis by (auto simp: defs handle_synthesis_leg)
      next
        case Inr': (Inr st)
        with 3 Inr show ?thesis by (cases "guard_of e st") (auto simp: defs handle_synthesis_leg)
      qed
    qed
  qed (auto simp: defs)
qed

lemma recordFailure_nonfatal:
  "\<not> degraded ls \<Longrightarrow> consecutiveFailures ls + 1 < m \<Longrightarrow>
     \<not> degraded (snd (recordFailure ls False m)) \<and> consecutiveFailures (snd (recordFailure ls False m)) = consecutiveFailures ls + 1"
  by (simp add: recordFailure_def Let_def)

text \<open>Events in which every translation succeeds and no synthesis error is fatal; ASR never dies.\<close>

fun mt_healthy :: "leg_event \<Rightarrow> bool" where
  "mt_healthy (FinalOrPartial tr e) \<longleftrightarrow>
     (\<forall>t s d f. is_ok (ue_translate e t s d f)) \<and> (\<forall>t p err. ue_synth e t p = Err err \<longrightarrow> \<not> isFatal err)"
| "mt_healthy (TranscriptsClosed closing k now) \<longleftrightarrow> closing"
| "mt_healthy ev \<longleftrightarrow> True"

lemma is_ok_Inr: "is_ok r \<Longrightarrow> \<exists>x. r = Inr x"
  by (cases r) auto

definition leg_healthy :: "legState \<Rightarrow> bool" where
  "leg_healthy leg \<longleftrightarrow> \<not> degraded leg \<and> consecutiveFailures leg \<le> 1"

lemma healthy_ops [simp]:
  "\<not> degraded leg \<Longrightarrow> leg_healthy (recordSuccess leg)" "leg_healthy leg \<Longrightarrow> leg_healthy (leg_drained leg)"
  "\<not> degraded leg \<Longrightarrow> 2 \<le> m \<Longrightarrow> leg_healthy (snd (recordFailure (recordSuccess leg) False m))"
  by (simp_all add: leg_healthy_def recordSuccess_def leg_drained_def recordFailure_def Let_def)

lemma handle_final_healthy:
  assumes "leg_healthy (ls_leg s)" "2 \<le> MaxConsecutiveFailures (lg_fallback c)" "mt_healthy (FinalOrPartial tr e)"
  shows "leg_healthy (ls_leg (fst (handle_final c e tr s)))"
proof -
  have d: "\<not> degraded (ls_leg s)" "\<not> degraded (leg_drained (ls_leg s))"
    using assms(1) by (simp_all add: leg_healthy_def leg_drained_def)
  obtain chunk where t: "ue_translate e (tr_Text tr) (lg_srcLang c) (lg_dstLang c) (tr_IsFinal tr) = Inr chunk"
    using assms(3) is_ok_Inr [of "ue_translate e (tr_Text tr) (lg_srcLang c) (lg_dstLang c) (tr_IsFinal tr)"] by auto
  show ?thesis
    using assms d by (auto simp: handle_final_leg t Let_def split: sum.split guard_result.split)
qed

lemma leg_step_healthy:
  assumes "leg_healthy (ls_leg s)" "2 \<le> MaxConsecutiveFailures (lg_fallback c)" "mt_healthy ev" "ls_phase s \<noteq> LegDraining"
  shows "leg_healthy (ls_leg (leg_step c s ev)) \<and> ls_phase (leg_step c s ev) \<noteq> LegDraining"
proof (cases ev)
  case (FinalOrPartial tr e)
  with assms handle_final_healthy [of s c tr e] have "leg_healthy (ls_leg (fst (handle_final c e tr s)))" by simp
  moreover have "ls_phase (fst (handle_final c e tr s)) = ls_phase s"
    by (simp add: handle_final_def handle_synthesis_def split_beta Let_def split: sum.split guard_result.split)
  ultimately show ?thesis using assms FinalOrPartial by (simp add: split_beta)
qed (use assms in \<open>auto simp: leg_healthy_def asr_stream_closed_def split: leg_phase.splits\<close>)

text \<open>
  C6: A dead synthesizer never degrades a leg. With the default threshold (any threshold of at
  least two), as long as translations succeed, no number of failed or stalled syntheses, fatal errors
  apart, marks the leg degraded: the counter is reset by every translation before the synthesis is
  tried, so it never exceeds one and every utterance pays the synthesis timeout again.
\<close>
theorem leg_tts_outage_never_degrades:
  assumes "2 \<le> MaxConsecutiveFailures (lg_fallback c)" "list_all mt_healthy evs"
  shows "\<not> degraded (ls_leg (leg_run c (new_leg name) evs))
    \<and> consecutiveFailures (ls_leg (leg_run c (new_leg name) evs)) \<le> 1"
proof -
  have "leg_healthy (ls_leg s) \<Longrightarrow> ls_phase s \<noteq> LegDraining \<Longrightarrow> leg_healthy (ls_leg (foldl (leg_step c) s evs))" for s
    using assms(2) by (induction evs arbitrary: s) (auto simp: leg_step_healthy assms(1))
  then show ?thesis by (simp add: leg_run_def new_leg_def newLegState_def leg_healthy_def)
qed

theorem leg_tts_outage_never_degrades_witness:
  "\<not> degraded (ls_leg (leg_run demo_cfg (new_leg ''caller'')
      (replicate 50 (FinalOrPartial demo_tr (demo_env demo_mt (\<lambda>t p. Err (ErrNew ''down'')))))))"
  using leg_tts_outage_never_degrades
    [of demo_cfg "replicate 50 (FinalOrPartial demo_tr (demo_env demo_mt (\<lambda>t p. Err (ErrNew ''down''))))" "''caller''"]
  by (simp add: demo_cfg_def DefaultFallbackConfig_def demo_env_def demo_mt_def list_all_iff)

text \<open>An utterance the leg tries to translate and whose translation fails, not fatally.\<close>

definition mt_fails :: "leg_cfg \<Rightarrow> Transcript \<times> utt_env \<Rightarrow> bool" where
  "mt_fails c = (\<lambda>(tr, e). tr_IsFinal tr \<and> \<not> low_confidence c tr \<and> ue_budget e = None
     \<and> (\<exists>err. ue_translate e (tr_Text tr) (lg_srcLang c) (lg_dstLang c) True = Err err \<and> \<not> isFatal err))"

definition utterances :: "(Transcript \<times> utt_env) list \<Rightarrow> leg_event list" where
  "utterances us = map (\<lambda>(tr, e). FinalOrPartial tr e) us"

lemma leg_step_mt_fails:
  assumes "mt_fails c (tr, e)" "ls_phase s = LegRunning" "\<not> degraded (ls_leg s)"
    "0 < MaxConsecutiveFailures (lg_fallback c)"
  shows "ls_phase (leg_step c s (FinalOrPartial tr e)) = LegRunning
    \<and> consecutiveFailures (ls_leg (leg_step c s (FinalOrPartial tr e))) = consecutiveFailures (ls_leg s) + 1
    \<and> (degraded (ls_leg (leg_step c s (FinalOrPartial tr e))) \<longleftrightarrow>
         MaxConsecutiveFailures (lg_fallback c) \<le> consecutiveFailures (ls_leg s) + 1)"
proof -
  from assms(1) obtain err where t: "ue_translate e (tr_Text tr) (lg_srcLang c) (lg_dstLang c) (tr_IsFinal tr) = Err err"
    "\<not> isFatal err" "\<not> low_confidence c tr" "tr_IsFinal tr" "ue_budget e = None" by (auto simp: mt_fails_def)
  with assms(2,3,4) handle_final_None [of e c tr s] show ?thesis
    by (auto simp: split_beta handle_final_leg recordFailure_def leg_drained_def Let_def)
qed

lemma leg_run_mt_fails:
  assumes "list_all (mt_fails c) us" "ls_phase s = LegRunning" "\<not> degraded (ls_leg s)"
    "0 < MaxConsecutiveFailures (lg_fallback c)"
    "consecutiveFailures (ls_leg s) + int (length us) < MaxConsecutiveFailures (lg_fallback c)"
  shows "ls_phase (leg_run c s (utterances us)) = LegRunning \<and> \<not> degraded (ls_leg (leg_run c s (utterances us)))
    \<and> consecutiveFailures (ls_leg (leg_run c s (utterances us))) = consecutiveFailures (ls_leg s) + int (length us)"
  using assms
proof (induction us arbitrary: s)
  case (Cons u us)
  obtain tr e where u: "u = (tr, e)" by (cases u)
  with Cons.prems have f: "mt_fails c (tr, e)" by simp
  note st = leg_step_mt_fails [OF f Cons.prems(2-4)]
  then show ?case
    using Cons.IH [of "leg_step c s (FinalOrPartial tr e)"] Cons.prems u
    by (simp add: leg_run_def utterances_def del: leg_step.simps)
qed (simp_all add: leg_run_def utterances_def)

text \<open>
  A dead translator degrades the leg exactly at the threshold. On a fresh leg with threshold
  \<open>m\<close>, fewer than \<open>m\<close> consecutive failed translations leave it translating, and the
  \<open>m\<close>-th marks it degraded.
\<close>
theorem leg_mt_outage_degrades:
  assumes "list_all (mt_fails c) us" "mt_fails c (tr, e)"
    "int (length us) + 1 = MaxConsecutiveFailures (lg_fallback c)"
  shows "\<not> degraded (ls_leg (leg_run c (new_leg name) (utterances us)))
    \<and> degraded (ls_leg (leg_run c (new_leg name) (utterances (us @ [(tr, e)]))))"
proof -
  have new: "ls_phase (new_leg name) = LegRunning" "\<not> degraded (ls_leg (new_leg name))"
    "consecutiveFailures (ls_leg (new_leg name)) = 0"
    by (simp_all add: new_leg_def newLegState_def)
  have pos: "0 < MaxConsecutiveFailures (lg_fallback c)" using assms(3) by linarith
  have less: "consecutiveFailures (ls_leg (new_leg name)) + int (length us) < MaxConsecutiveFailures (lg_fallback c)"
    using assms(3) new(3) by linarith
  note run = leg_run_mt_fails [OF assms(1) new(1,2) pos less]
  have "leg_run c (new_leg name) (utterances (us @ [(tr, e)]))
      = leg_step c (leg_run c (new_leg name) (utterances us)) (FinalOrPartial tr e)"
    by (simp add: leg_run_def utterances_def del: leg_step.simps)
  with leg_step_mt_fails [OF assms(2) _ _ pos, of "leg_run c (new_leg name) (utterances us)"] run assms(3) new(3)
  show ?thesis by simp
qed

definition demo_failed :: "Transcript \<times> utt_env" where
  "demo_failed = (demo_tr, demo_env (\<lambda>t s d f. Err (ErrNew ''down'')) demo_tts)"

theorem leg_mt_outage_degrades_witness:
  "\<not> degraded (ls_leg (leg_run demo_cfg (new_leg ''caller'') (utterances [demo_failed, demo_failed])))
    \<and> degraded (ls_leg (leg_run demo_cfg (new_leg ''caller'') (utterances ([demo_failed, demo_failed] @ [demo_failed]))))"
  unfolding demo_failed_def
  by (rule leg_mt_outage_degrades)
    (simp_all add: mt_fails_def demo_env_def demo_tr_def demo_cfg_def low_confidence_def DefaultFallbackConfig_def)

subsection \<open>Degraded for good\<close>

lemma handle_final_degraded:
  assumes "degraded (ls_leg s)"
  shows "degraded (ls_leg (fst (handle_final c e tr s)))"
  using assms by (simp add: handle_final_leg leg_drained_def)

lemma leg_step_degraded: "degraded (ls_leg s) \<Longrightarrow> degraded (ls_leg (leg_step c s ev))"
  by (cases ev)
    (auto simp: split_beta handle_final_degraded asr_stream_closed_def flushDeadLegAudio_def recordFailure_def
      drainDeadLeg_tick_def drainDeadLeg_done_def rb_drain_def Let_def split: leg_phase.split)

text \<open>
  Degradation is permanent and stops all vendor traffic. Once a leg is degraded it stays
  degraded through every later event, and what it does with a transcript is the same whatever the
  translator and the synthesizer would answer: they are not asked.
\<close>
theorem leg_degraded_for_good:
  assumes "degraded (ls_leg s)"
  shows "degraded (ls_leg (leg_run c s evs))
    \<and> leg_step c s (FinalOrPartial tr e) = leg_step c s (FinalOrPartial tr (e\<lparr>ue_translate := f, ue_synth := g\<rparr>))"
proof
  show "degraded (ls_leg (leg_run c s evs))"
    using assms unfolding leg_run_def by (induction evs arbitrary: s) (simp_all add: leg_step_degraded del: leg_step.simps)
  show "leg_step c s (FinalOrPartial tr e) = leg_step c s (FinalOrPartial tr (e\<lparr>ue_translate := f, ue_synth := g\<rparr>))"
    using assms by (simp add: handle_final_def isDegraded_def Let_def rb_drain_def)
qed

definition demo_degraded :: leg_sys where
  "demo_degraded = leg_run demo_cfg (new_leg ''caller'') [TranscriptsClosed False None 0]"

lemma demo_degraded_eval:
  "demo_degraded = \<lparr>ls_leg = \<lparr>leg_name = ''caller'', consecutiveFailures = 0, degraded = True,
      leg_audio = newAudioRingBuffer 500\<rparr>, ls_phase = LegDraining,
     ls_out = [\<lparr>ac_PCM = [], ac_SampleRate = 8000, ac_IsFinal = True\<rparr>],
     ls_calls = [CallError ''leg_degraded'' ''caller'' ''asr_stream_closed'']\<rparr>"
  by (simp add: demo_degraded_def leg_run_def new_leg_def newLegState_def asr_stream_closed_def recordFailure_def
      rb_drain_def rb_utteranceStart_def newAudioRingBuffer_def audioBufferFrames_def demo_cfg_def
      buildPassthroughChunks_def first_rate_def recordTotalIfStarted_def record_defs stage_defs
      vendor_or_unknown_def Let_def)

theorem leg_degraded_for_good_witness:
  "degraded (ls_leg (leg_run demo_cfg demo_degraded [FinalOrPartial demo_tr (demo_env demo_mt demo_tts)]))"
  using leg_degraded_for_good [of demo_degraded demo_cfg "[FinalOrPartial demo_tr (demo_env demo_mt demo_tts)]"
      demo_tr "demo_env demo_mt demo_tts" demo_tts demo_mt]
  by (simp add: demo_degraded_eval)

subsection \<open>The dead leg\<close>

definition pushes :: "bufferedFrame list \<Rightarrow> instant \<Rightarrow> leg_event list" where
  "pushes fs now = map (\<lambda>f. PushAudio (bf_pcm f) (bf_sampleRate f) now) fs"

lemma leg_run_pushes:
  "leg_run c s (pushes fs now) = s\<lparr>ls_leg := (ls_leg s)\<lparr>leg_audio :=
     foldl (\<lambda>b f. rb_push b (bf_pcm f) (bf_sampleRate f) now) (leg_audio (ls_leg s)) fs\<rparr>\<rparr>"
  by (induction fs arbitrary: s) (simp_all add: leg_run_def pushes_def)

text \<open>
  C22: A leg whose recognizer died does not go dark. In the draining phase, audio pushed between
  two ticks (up to the buffer's capacity) is forwarded at the next tick, whole and in order, as one
  passthrough; a tick with nothing buffered forwards nothing; the drain goes on until a tick sees that
  the session is closing.
\<close>
theorem dead_leg_forwards_audio:
  assumes "ls_phase s = LegDraining" "rb_inv (leg_audio (ls_leg s))" "rb_frames (leg_audio (ls_leg s)) = []"
    "\<forall>f \<in> set fs. bf_pcm f \<noteq> []" "int (length fs) \<le> rb_capacity (leg_audio (ls_leg s))"
  shows "let s' = leg_run c s (pushes fs t @ [DrainTick closing None now])
    in ls_out s' = ls_out s @ (if fs = [] then [] else buildPassthroughChunks fs (DegradeToneEnabled (lg_fallback c)))
       \<and> rb_frames (leg_audio (ls_leg s')) = []
       \<and> ls_phase s' = (if closing then LegExited else LegDraining)"
proof -
  let ?s = "leg_run c s (pushes fs t)"
  have "rb_frames (foldl (\<lambda>b f. rb_push b (bf_pcm f) (bf_sampleRate f) t) (leg_audio (ls_leg s)) fs) = fs"
    using rb.push_burst [OF assms(2,4), of t] assms(3,5) by simp
  then have "rb_frames (leg_audio (ls_leg ?s)) = fs" by (simp add: leg_run_pushes)
  moreover have "ls_phase ?s = LegDraining" "ls_out ?s = ls_out s" using assms(1) by (simp_all add: leg_run_pushes)
  moreover have "leg_run c s (pushes fs t @ [DrainTick closing None now]) = leg_step c ?s (DrainTick closing None now)"
    by (simp add: leg_run_def)
  ultimately show ?thesis
    by (auto simp: drainDeadLeg_tick_def flushDeadLegAudio_def rb_drain_def split_beta Let_def)
qed

theorem dead_leg_forwards_audio_witness:
  "ls_out (leg_run demo_cfg demo_degraded (pushes [\<lparr>bf_pcm = [5], bf_sampleRate = 8000\<rparr>] 1 @ [DrainTick False None 2]))
     = [\<lparr>ac_PCM = [], ac_SampleRate = 8000, ac_IsFinal = True\<rparr>, \<lparr>ac_PCM = [5], ac_SampleRate = 8000, ac_IsFinal = True\<rparr>]"
  using dead_leg_forwards_audio [of demo_degraded "[\<lparr>bf_pcm = [5], bf_sampleRate = 8000\<rparr>]" demo_cfg 1 False 2]
  by (simp add: demo_degraded_eval Let_def newAudioRingBuffer_def rb_inv_def buildPassthroughChunks_def
      first_rate_def frame_chunk_def demo_cfg_def)

subsection \<open>Failures reach the dashboard\<close>

text \<open>Whether an utterance asks the translator, and the synthesizer, and whether that fails.\<close>

definition mt_asked :: "leg_cfg \<Rightarrow> Transcript \<Rightarrow> legState \<Rightarrow> bool" where
  "mt_asked c tr leg \<longleftrightarrow> \<not> degraded leg \<and> \<not> low_confidence c tr"

definition mt_answer :: "leg_cfg \<Rightarrow> utt_env \<Rightarrow> Transcript \<Rightarrow> MTChunk result" where
  "mt_answer c e tr = ue_translate e (tr_Text tr) (lg_srcLang c) (lg_dstLang c) (tr_IsFinal tr)"

definition tts_asked :: "leg_cfg \<Rightarrow> utt_env \<Rightarrow> Transcript \<Rightarrow> legState \<Rightarrow> bool" where
  "tts_asked c e tr leg \<longleftrightarrow> mt_asked c tr leg
     \<and> (case mt_answer c e tr of Inl err \<Rightarrow> False | Inr chunk \<Rightarrow> mt_Text chunk \<noteq> [])"

definition tts_failed :: "leg_cfg \<Rightarrow> utt_env \<Rightarrow> Transcript \<Rightarrow> bool" where
  "tts_failed c e tr \<longleftrightarrow>
     (case mt_answer c e tr of Inl err \<Rightarrow> False
      | Inr chunk \<Rightarrow>
          (case ue_synth e (mt_Text chunk) (persona_Get (lg_personas c) (lg_dstLang c)) of
             Inl err \<Rightarrow> True | Inr st \<Rightarrow> st = Stalls))"

definition calls_count :: "rec_call list \<Rightarrow> string \<Rightarrow> string \<Rightarrow> int \<Rightarrow> int \<Rightarrow> bool" where
  "calls_count cs stage vendor errs evs \<longleftrightarrow>
     count_calls (is_error_of stage vendor) cs = errs \<and> count_calls (is_event_of stage vendor) cs = evs"

lemma passthrough_calls_None:
  "\<exists>new. ls_calls (fst (emitPassthroughTimed fb frames u None now s)) = ls_calls s @ new
     \<and> calls_count new st v 0 0"
  by (cases u) (auto simp: recordTotalIfStarted_def record_defs calls_count_def)

lemma calls_count_append:
  "calls_count xs st v a b \<Longrightarrow> calls_count ys st v c d \<Longrightarrow> calls_count (xs @ ys) st v (a + c) (b + d)"
  by (simp add: calls_count_def)

lemma record_leg_failure_calls:
  "\<exists>new. ls_calls (record_leg_failure fb fatal s) = ls_calls s @ new
     \<and> (st \<noteq> stageLegDegraded \<longrightarrow> calls_count new st v 0 0)"
  by (auto simp: record_leg_failure_def record_defs split_beta Let_def calls_count_def)

lemma stages_distinct [simp]:
  "stageTranslate \<noteq> stageLegDegraded" "stageTTS \<noteq> stageLegDegraded" "stageTranslate \<noteq> stageASRConfidence"
  "stageTTS \<noteq> stageASRConfidence" "stageTranslate \<noteq> stageTTS" "stageTTS \<noteq> stageTranslate"
  by (simp_all add: stage_defs)

lemma handle_synthesis_calls:
  assumes "ue_budget e = None"
  shows "\<exists>new. ls_calls (fst (handle_synthesis c e frames u txt s)) = ls_calls s @ new
    \<and> calls_count new stageTranslate v 0 0
    \<and> calls_count new stageTTS (vendor_or_unknown (lg_TTSName c))
        (if (case ue_synth e txt (persona_Get (lg_personas c) (lg_dstLang c)) of Inl err \<Rightarrow> True | Inr st \<Rightarrow> st = Stalls) then 1 else 0) 1"
proof -
  have d1: "\<forall>fatal s. \<exists>new. ls_calls (record_leg_failure (lg_fallback c) fatal s) = ls_calls s @ new
      \<and> calls_count new stageTranslate v 0 0 \<and> calls_count new stageTTS (vendor_or_unknown (lg_TTSName c)) 0 0"
    by (auto simp: record_leg_failure_def record_defs split_beta Let_def calls_count_def)
  have tot: "calls_count (recordTotalIfStarted True u t) st w 0 0" for t st w
    by (cases u) (auto simp: recordTotalIfStarted_def record_defs calls_count_def)
  show ?thesis
  proof (cases "ue_synth e txt (persona_Get (lg_personas c) (lg_dstLang c))")
    case (Inl err)
    let ?s = "call (recordFallbackErr True stageTTS (lg_TTSName c) err) s"
    obtain new where "ls_calls (record_leg_failure (lg_fallback c) (isFatal err) ?s) = ls_calls ?s @ new"
      "calls_count new stageTranslate v 0 0" "calls_count new stageTTS (vendor_or_unknown (lg_TTSName c)) 0 0"
      using d1 by blast
    then show ?thesis using tot [of "ue_done e"] Inl assms
      by (simp add: handle_synthesis_def Let_def) (simp add: calls_count_def record_defs)
  next
    case (Inr st)
    show ?thesis
    proof (cases "st = Stalls")
      case True
      let ?s = "call (recordFallback True stageTTS (lg_TTSName c)) s"
      obtain new where "ls_calls (record_leg_failure (lg_fallback c) False ?s) = ls_calls ?s @ new"
        "calls_count new stageTranslate v 0 0" "calls_count new stageTTS (vendor_or_unknown (lg_TTSName c)) 0 0"
        using d1 by blast
      then show ?thesis using tot [of "ue_done e"] Inr True assms
        by (simp add: handle_synthesis_def forwardTTSWithStallGuard_def Let_def) (simp add: calls_count_def record_defs)
    next
      case False
      then obtain cs where "st = Delivers cs" by (cases st) auto
      then show ?thesis using tot [of "ue_done e"] Inr assms
        by (cases cs) (auto simp: handle_synthesis_def forwardTTSWithStallGuard_def Let_def calls_count_def record_defs)
    qed
  qed
qed

lemma handle_final_calls:
  assumes "ue_budget e = None"
  shows "\<exists>new. ls_calls (fst (handle_final c e tr s)) = ls_calls s @ new
    \<and> calls_count new stageTranslate (vendor_or_unknown (lg_MTName c))
        (if mt_asked c tr (ls_leg s) \<and> \<not> is_ok (mt_answer c e tr) then 1 else 0) (if mt_asked c tr (ls_leg s) then 1 else 0)
    \<and> calls_count new stageTTS (vendor_or_unknown (lg_TTSName c))
        (if tts_asked c e tr (ls_leg s) \<and> tts_failed c e tr then 1 else 0) (if tts_asked c e tr (ls_leg s) then 1 else 0)"
proof -
  have tot: "calls_count (recordTotalIfStarted True u t) st w 0 0" for u t st w
    by (cases u) (auto simp: recordTotalIfStarted_def record_defs calls_count_def)
  have lat: "calls_count (case rb_utteranceStart (leg_audio (ls_leg s)) of None \<Rightarrow> []
      | Some t \<Rightarrow> recordLatency True stageASRFirstChunk (msSince (ue_at e) t)) st w 0 0" for st w
    by (cases "rb_utteranceStart (leg_audio (ls_leg s))") (auto simp: record_defs calls_count_def)
  note defs = handle_final_def isDegraded_def Let_def rb_drain_def mt_asked_def tts_asked_def tts_failed_def
    mt_answer_def low_confidence_def
  consider (pass) "degraded (ls_leg s) \<or> low_confidence c tr"
    | (mt) err where "mt_asked c tr (ls_leg s)" "mt_answer c e tr = Inl err"
    | (empty) chunk where "mt_asked c tr (ls_leg s)" "mt_answer c e tr = Inr chunk" "mt_Text chunk = []"
    | (tts) chunk where "mt_asked c tr (ls_leg s)" "mt_answer c e tr = Inr chunk" "mt_Text chunk \<noteq> []"
    by (cases "mt_answer c e tr") (auto simp: mt_asked_def)
  then show ?thesis
  proof cases
    case pass
    then show ?thesis using tot assms by (auto simp: defs record_defs calls_count_def)
  next
    case mt
    let ?u = "rb_utteranceStart (leg_audio (ls_leg s))"
    have "\<exists>new. ls_calls (record_leg_failure (lg_fallback c) fatal s) = ls_calls s @ new
      \<and> calls_count new stageTranslate v 0 0 \<and> calls_count new stageTTS w 0 0" for fatal s v w
      by (auto simp: record_leg_failure_def record_defs split_beta Let_def calls_count_def)
    then show ?thesis using mt tot [of ?u "ue_done e"] lat assms
      by (auto simp: defs record_leg_failure_def split_beta) (auto simp: calls_count_def record_defs)
  next
    case empty
    then show ?thesis using lat assms
      by (auto simp: defs) (auto simp: calls_count_def record_defs)
  next
    case tts
    let ?u = "rb_utteranceStart (leg_audio (ls_leg s))"
    define pre where "pre = recordSuccessMetric True stageASRConfidence (lg_ASRName c)
      @ (case ?u of None \<Rightarrow> [] | Some t \<Rightarrow> recordLatency True stageASRFirstChunk (msSince (ue_at e) t))
      @ recordLatency True stageMT (msSince (ue_mt_end e) (ue_mt_start e))
      @ recordSuccessMetric True stageTranslate (lg_MTName c)"
    have pre: "calls_count pre stageTranslate (vendor_or_unknown (lg_MTName c)) 0 1"
      "calls_count pre stageTTS (vendor_or_unknown (lg_TTSName c)) 0 0"
      using lat by (simp_all add: pre_def calls_count_def record_defs)
    define s1 where "s1 = call pre (s\<lparr>ls_leg := recordSuccess (leg_drained (ls_leg s))\<rparr>)"
    have s1: "ls_calls s1 = ls_calls s @ pre"
      "fst (handle_final c e tr s) = fst (handle_synthesis c e (rb_frames (leg_audio (ls_leg s))) ?u (mt_Text chunk) s1)"
      using tts by (auto simp: defs pre_def s1_def leg_drained_def)
    from handle_synthesis_calls [OF assms, of c "rb_frames (leg_audio (ls_leg s))" ?u "mt_Text chunk" s1
        "vendor_or_unknown (lg_MTName c)"]
    obtain new where new: "ls_calls (fst (handle_final c e tr s)) = ls_calls s @ pre @ new"
      "calls_count new stageTranslate (vendor_or_unknown (lg_MTName c)) 0 0"
      "calls_count new stageTTS (vendor_or_unknown (lg_TTSName c)) (if tts_failed c e tr then 1 else 0) 1"
      using tts by (auto simp: s1 tts_failed_def)
    show ?thesis
      using new pre tts by (intro exI [of _ "pre @ new"]) (auto simp: calls_count_def tts_asked_def)
  qed
qed

end
