(* ===== verification/Session.thy ===== *)
theory Session
  imports SessionLeg
begin

section \<open>Construction and shutdown of a session (pkg/langstream/session.go)\<close>

text \<open>
  \<open>NewSession\<close> with its clean-up when a recognizer cannot be started, the push operations, and
  \<open>Close\<close> as a protocol: the flag, the closing of the streams, the wait with its timeout, and the
  closing of the outbound channels, interleaved with the leg goroutines and the hand-over of a
  dead leg to its drain goroutine.
\<close>

subsection \<open>Construction\<close>

record 'asr SessionConfig =
  sc_CallerLanguage :: language
  sc_AgentLanguage :: language
  sc_ASR :: "'asr option"
  sc_hasTranslator :: bool
  sc_hasTTS :: bool
  sc_VoicePersona :: "Persona option"
  sc_CodeSwitching :: bool
  sc_Fallback :: FallbackConfig
  sc_sharedMetrics :: bool

definition session_validate :: "'asr SessionConfig \<Rightarrow> unit result" where
  "session_validate cfg =
     (if sc_CallerLanguage cfg = [] then Err (ErrNew ''langstream: SessionConfig.CallerLanguage must be set'')
      else if sc_AgentLanguage cfg = [] then Err (ErrNew ''langstream: SessionConfig.AgentLanguage must be set'')
      else if sc_ASR cfg = None then Err (ErrNew ''langstream: SessionConfig.ASR must not be nil'')
      else if \<not> sc_hasTranslator cfg then Err (ErrNew ''langstream: SessionConfig.Translator must not be nil'')
      else if \<not> sc_hasTTS cfg then Err (ErrNew ''langstream: SessionConfig.TTS must not be nil'')
      else Ok ())"

datatype sess_call = StartStream language | CloseCallerASR | CancelCtx

record 'st session_parts =
  sp_callerASR :: 'st
  sp_agentASR :: 'st
  sp_personas :: PersonaManager
  sp_fallback :: FallbackConfig

text \<open>
  \<open>start a hint n\<close> is the \<open>n\<close>-th \<open>StartStream\<close> on the recognizer \<open>a\<close>; the calls made come
  back with the result. The two legs run from caller to agent language and back.
\<close>

definition NewSession ::
  "('asr \<Rightarrow> language \<Rightarrow> nat \<Rightarrow> 'st result) \<Rightarrow> 'asr SessionConfig \<Rightarrow> 'st session_parts result \<times> sess_call list" where
  "NewSession start cfg =
     (case session_validate cfg of Inl e \<Rightarrow> (Err e, [])
      | Inr _ \<Rightarrow>
        let a = the (sc_ASR cfg);
            personas = (case sc_VoicePersona cfg of None \<Rightarrow> NewPersonaManager
                        | Some p \<Rightarrow> persona_Set NewPersonaManager (persona_Language p) p);
            callerHint = (if sc_CodeSwitching cfg then [] else sc_CallerLanguage cfg);
            agentHint = (if sc_CodeSwitching cfg then [] else sc_AgentLanguage cfg)
        in (case start a callerHint 0 of
              Inl e \<Rightarrow> (Err (ErrWrap ''langstream: starting caller ASR stream'' e), [StartStream callerHint, CancelCtx])
            | Inr callerASR \<Rightarrow>
              (case start a agentHint 1 of
                 Inl e \<Rightarrow> (Err (ErrWrap ''langstream: starting agent ASR stream'' e),
                           [StartStream callerHint, StartStream agentHint, CloseCallerASR, CancelCtx])
               | Inr agentASR \<Rightarrow>
                   (Ok \<lparr>sp_callerASR = callerASR, sp_agentASR = agentASR, sp_personas = personas,
                        sp_fallback = session_fallback (sc_Fallback cfg) (sc_sharedMetrics cfg)\<rparr>,
                    [StartStream callerHint, StartStream agentHint]))))"

subsection \<open>Pushing audio\<close>

text \<open>The frame goes into the leg's ring buffer, then to the recognizer's stream, whose answer is returned.\<close>

definition push_leg_audio ::
  "(AudioFrame \<Rightarrow> unit result) \<Rightarrow> legState \<Rightarrow> AudioFrame \<Rightarrow> instant \<Rightarrow> unit result \<times> legState" where
  "push_leg_audio asrPush leg frame now =
     (asrPush frame, leg\<lparr>leg_audio := rb_push (leg_audio leg) (af_PCM frame) (af_SampleRate frame) now\<rparr>)"

definition PushCallerAudio ::
  "(AudioFrame \<Rightarrow> unit result) \<Rightarrow> legState \<times> legState \<Rightarrow> AudioFrame \<Rightarrow> instant \<Rightarrow> unit result \<times> legState \<times> legState" where
  "PushCallerAudio callerPush legs frame now =
     (let (r, caller) = push_leg_audio callerPush (fst legs) frame now in (r, caller, snd legs))"

definition PushAgentAudio ::
  "(AudioFrame \<Rightarrow> unit result) \<Rightarrow> legState \<times> legState \<Rightarrow> AudioFrame \<Rightarrow> instant \<Rightarrow> unit result \<times> legState \<times> legState" where
  "PushAgentAudio agentPush legs frame now =
     (let (r, agent) = push_leg_audio agentPush (snd legs) frame now in (r, fst legs, agent))"

subsection \<open>Close\<close>

text \<open>
  Per leg: whether \<open>runLeg\<close>'s and \<open>drainDeadLeg\<close>'s goroutines exist. \<open>close_phase\<close> is where
  the one execution of \<open>Close\<close>'s body stands (\<open>closeOnce\<close>).
\<close>

datatype close_phase = NotClosing | FlagStored | StreamsClosed | TimedOut | CloseReturned

record leg_procs =
  lp_run :: bool
  lp_drain :: bool

record session_sys =
  ss_closing :: bool
  ss_ctxDone :: bool
  ss_wg :: nat
  ss_caller :: leg_procs
  ss_agent :: leg_procs
  ss_phase :: close_phase
  ss_outClosed :: nat

definition started_session :: session_sys where
  "started_session = \<lparr>ss_closing = False, ss_ctxDone = False, ss_wg = 2,
     ss_caller = \<lparr>lp_run = True, lp_drain = False\<rparr>, ss_agent = \<lparr>lp_run = True, lp_drain = False\<rparr>,
     ss_phase = NotClosing, ss_outClosed = 0\<rparr>"

definition close_flag :: "session_sys \<Rightarrow> session_sys" where
  "close_flag s = s\<lparr>ss_closing := True, ss_phase := FlagStored\<rparr>"

definition close_streams :: "session_sys \<Rightarrow> session_sys" where
  "close_streams s = s\<lparr>ss_phase := StreamsClosed\<rparr>"

definition close_timeout :: "session_sys \<Rightarrow> session_sys" where
  "close_timeout s = s\<lparr>ss_ctxDone := True, ss_phase := TimedOut\<rparr>"

definition close_finish :: "session_sys \<Rightarrow> session_sys" where
  "close_finish s = s\<lparr>ss_ctxDone := True, ss_outClosed := ss_outClosed s + 1, ss_phase := CloseReturned\<rparr>"

text \<open>
  \<open>session_step\<close>: \<open>runLeg\<close> may return at any time (its stream closed or the context ended), or
  add one to the wait group and hand over to a drain goroutine when it found \<open>closing\<close> unset
  (the flag may have been set since); a drain goroutine returns once it sees \<open>closing\<close> or the end
  of the context. The wait is over only when the wait group is at zero.
\<close>

inductive session_step :: "session_sys \<Rightarrow> session_sys \<Rightarrow> bool" where
  caller_exit: "lp_run (ss_caller s) \<Longrightarrow>
     session_step s (s\<lparr>ss_caller := (ss_caller s)\<lparr>lp_run := False\<rparr>, ss_wg := ss_wg s - 1\<rparr>)"
| agent_exit: "lp_run (ss_agent s) \<Longrightarrow>
     session_step s (s\<lparr>ss_agent := (ss_agent s)\<lparr>lp_run := False\<rparr>, ss_wg := ss_wg s - 1\<rparr>)"
| caller_dies: "lp_run (ss_caller s) \<Longrightarrow> \<not> lp_drain (ss_caller s) \<Longrightarrow>
     session_step s (s\<lparr>ss_caller := (ss_caller s)\<lparr>lp_drain := True\<rparr>, ss_wg := ss_wg s + 1\<rparr>)"
| agent_dies: "lp_run (ss_agent s) \<Longrightarrow> \<not> lp_drain (ss_agent s) \<Longrightarrow>
     session_step s (s\<lparr>ss_agent := (ss_agent s)\<lparr>lp_drain := True\<rparr>, ss_wg := ss_wg s + 1\<rparr>)"
| caller_drained: "lp_drain (ss_caller s) \<Longrightarrow> ss_closing s \<or> ss_ctxDone s \<Longrightarrow>
     session_step s (s\<lparr>ss_caller := (ss_caller s)\<lparr>lp_drain := False\<rparr>, ss_wg := ss_wg s - 1\<rparr>)"
| agent_drained: "lp_drain (ss_agent s) \<Longrightarrow> ss_closing s \<or> ss_ctxDone s \<Longrightarrow>
     session_step s (s\<lparr>ss_agent := (ss_agent s)\<lparr>lp_drain := False\<rparr>, ss_wg := ss_wg s - 1\<rparr>)"
| parent_cancelled: "session_step s (s\<lparr>ss_ctxDone := True\<rparr>)"
| do_close_flag: "ss_phase s = NotClosing \<Longrightarrow> session_step s (close_flag s)"
| do_close_streams: "ss_phase s = FlagStored \<Longrightarrow> session_step s (close_streams s)"
| do_close_timeout: "ss_phase s = StreamsClosed \<Longrightarrow> session_step s (close_timeout s)"
| do_close_done: "ss_phase s = StreamsClosed \<Longrightarrow> ss_wg s = 0 \<Longrightarrow> session_step s (close_finish s)"
| do_close_done_late: "ss_phase s = TimedOut \<Longrightarrow> ss_wg s = 0 \<Longrightarrow> session_step s (close_finish s)"

inductive_cases session_stepE: "session_step s s'"

lemmas close_defs = close_flag_def close_streams_def close_timeout_def close_finish_def

definition alive :: "session_sys \<Rightarrow> nat" where
  "alive s = of_bool (lp_run (ss_caller s)) + of_bool (lp_drain (ss_caller s))
     + of_bool (lp_run (ss_agent s)) + of_bool (lp_drain (ss_agent s))"

definition sess_inv :: "session_sys \<Rightarrow> bool" where
  "sess_inv s \<longleftrightarrow> ss_wg s = alive s \<and> (ss_closing s \<longleftrightarrow> ss_phase s \<noteq> NotClosing)
     \<and> ss_outClosed s = of_bool (ss_phase s = CloseReturned)
     \<and> (ss_phase s = CloseReturned \<longrightarrow> alive s = 0 \<and> ss_ctxDone s)
     \<and> (ss_phase s = TimedOut \<longrightarrow> ss_ctxDone s)"

lemma sess_inv_start: "sess_inv started_session"
  by (simp add: sess_inv_def started_session_def alive_def)

lemma sess_inv_step: "sess_inv s \<Longrightarrow> session_step s s' \<Longrightarrow> sess_inv s'"
  by (erule session_stepE) (auto simp: sess_inv_def alive_def close_defs)

lemma sess_inv_reach: "session_step\<^sup>*\<^sup>* started_session s \<Longrightarrow> sess_inv s"
  by (induction rule: rtranclp_induct) (auto intro: sess_inv_start sess_inv_step)

text \<open>Once \<open>Close\<close> has begun, every goroutine can always still return: nothing waits for \<open>Close\<close>.\<close>

lemma sess_can_finish:
  assumes "ss_closing s" "ss_wg s = alive s"
  shows "\<exists>s'. session_step\<^sup>*\<^sup>* s s' \<and> ss_wg s' = 0 \<and> alive s' = 0 \<and> ss_phase s' = ss_phase s \<and> ss_closing s'"
  using assms
proof (induction "alive s" arbitrary: s)
  case 0
  then show ?case by (intro exI [of _ s]) simp
next
  case (Suc n)
  have "\<exists>s1. session_step s s1 \<and> alive s1 = n \<and> ss_wg s1 = alive s1 \<and> ss_phase s1 = ss_phase s \<and> ss_closing s1"
  proof -
    consider "lp_run (ss_caller s)" | "lp_run (ss_agent s)" | "lp_drain (ss_caller s)" | "lp_drain (ss_agent s)"
      using Suc.hyps(2) by (auto simp: alive_def of_bool_def split: if_splits)
    then show ?thesis
    proof cases
      case 1 show ?thesis using Suc.hyps(2) Suc.prems 1 caller_exit [OF 1]
        by (intro exI [of _ "s\<lparr>ss_caller := (ss_caller s)\<lparr>lp_run := False\<rparr>, ss_wg := ss_wg s - 1\<rparr>"])
          (auto simp: alive_def)
    next
      case 2 show ?thesis using Suc.hyps(2) Suc.prems 2 agent_exit [OF 2]
        by (intro exI [of _ "s\<lparr>ss_agent := (ss_agent s)\<lparr>lp_run := False\<rparr>, ss_wg := ss_wg s - 1\<rparr>"])
          (auto simp: alive_def)
    next
      case 3 show ?thesis using Suc.hyps(2) Suc.prems 3 caller_drained [OF 3 disjI1 [OF Suc.prems(1)]]
        by (intro exI [of _ "s\<lparr>ss_caller := (ss_caller s)\<lparr>lp_drain := False\<rparr>, ss_wg := ss_wg s - 1\<rparr>"])
          (auto simp: alive_def)
    next
      case 4 show ?thesis using Suc.hyps(2) Suc.prems 4 agent_drained [OF 4 disjI1 [OF Suc.prems(1)]]
        by (intro exI [of _ "s\<lparr>ss_agent := (ss_agent s)\<lparr>lp_drain := False\<rparr>, ss_wg := ss_wg s - 1\<rparr>"])
          (auto simp: alive_def)
    qed
  qed
  then obtain s1 where s1: "session_step s s1" "alive s1 = n" "ss_wg s1 = alive s1" "ss_phase s1 = ss_phase s" "ss_closing s1"
    by blast
  from Suc.hyps(1) [of s1] s1 obtain s' where "session_step\<^sup>*\<^sup>* s1 s'" "ss_wg s' = 0" "alive s' = 0"
    "ss_phase s' = ss_phase s" "ss_closing s'" by auto
  with s1(1) show ?case by (meson converse_rtranclp_into_rtranclp)
qed

text \<open>
  C27: Close never closes a channel under a sender. In every interleaving of the legs, the hand-over
  of dead legs to drain goroutines, a cancelled parent and \<open>Close\<close>: the wait group counts the
  goroutines alive, the outbound channels are closed at most once and only when no goroutine is left;
  and from every state in which \<open>Close\<close> has stored its flag it can still run to its end.
\<close>
theorem session_close_safe:
  assumes "session_step\<^sup>*\<^sup>* started_session s"
  shows "ss_wg s = alive s \<and> ss_outClosed s \<le> 1 \<and> (ss_outClosed s = 1 \<longrightarrow> alive s = 0)
    \<and> (ss_closing s \<longrightarrow> (\<exists>s'. session_step\<^sup>*\<^sup>* s s' \<and> ss_phase s' = CloseReturned))"
proof -
  have inv: "sess_inv s" using assms by (rule sess_inv_reach)
  have fin: "\<exists>s'. session_step\<^sup>*\<^sup>* s s' \<and> ss_phase s' = CloseReturned" if closing: "ss_closing s"
  proof -
    obtain s1 where s1: "session_step\<^sup>*\<^sup>* s s1" "ss_wg s1 = 0" "ss_phase s1 = ss_phase s" "ss_closing s1"
      using sess_can_finish [OF closing] inv by (auto simp: sess_inv_def)
    consider "ss_phase s = FlagStored" | "ss_phase s = StreamsClosed" | "ss_phase s = TimedOut" | "ss_phase s = CloseReturned"
      using closing inv by (cases "ss_phase s") (auto simp: sess_inv_def)
    then show ?thesis
    proof cases
      case 1
      have "session_step s1 (close_streams s1)" using s1 1 by (intro do_close_streams) simp
      moreover have "session_step (close_streams s1) (close_finish (close_streams s1))"
        using s1 by (intro do_close_done) (simp_all add: close_streams_def)
      ultimately have "session_step\<^sup>*\<^sup>* s (close_finish (close_streams s1))"
        using s1(1) by (meson rtranclp.rtrancl_into_rtrancl)
      then show ?thesis by (auto simp: close_defs)
    next
      case 2
      then have "session_step s1 (close_finish s1)" using s1 by (auto intro: do_close_done)
      with s1(1) have "session_step\<^sup>*\<^sup>* s (close_finish s1)" by (rule rtranclp.rtrancl_into_rtrancl)
      then show ?thesis by (auto simp: close_defs)
    next
      case 3
      then have "session_step s1 (close_finish s1)" using s1 by (auto intro: do_close_done_late)
      with s1(1) have "session_step\<^sup>*\<^sup>* s (close_finish s1)" by (rule rtranclp.rtrancl_into_rtrancl)
      then show ?thesis by (auto simp: close_defs)
    qed auto
  qed
  show ?thesis using inv fin by (auto simp: sess_inv_def)
qed

text \<open>A caller leg that died before \<open>Close\<close>: its drain goroutine is alive when the flag is stored.\<close>

definition dying_session :: session_sys where
  "dying_session = close_flag (started_session\<lparr>ss_caller := \<lparr>lp_run = True, lp_drain = True\<rparr>, ss_wg := 3\<rparr>)"

theorem session_close_safe_witness:
  "alive dying_session = 3 \<and> (\<exists>s'. session_step\<^sup>*\<^sup>* dying_session s' \<and> ss_phase s' = CloseReturned)"
proof -
  have "session_step started_session (started_session\<lparr>ss_caller := \<lparr>lp_run = True, lp_drain = True\<rparr>, ss_wg := 3\<rparr>)"
    using caller_dies [of started_session] by (simp add: started_session_def)
  moreover have "session_step (started_session\<lparr>ss_caller := \<lparr>lp_run = True, lp_drain = True\<rparr>, ss_wg := 3\<rparr>) dying_session"
    unfolding dying_session_def by (rule do_close_flag) (simp add: started_session_def)
  ultimately have "session_step\<^sup>*\<^sup>* started_session dying_session" by (meson r_into_rtranclp rtranclp.rtrancl_into_rtrancl)
  from session_close_safe [OF this] show ?thesis
    by (simp add: dying_session_def close_flag_def started_session_def)
qed

subsection \<open>Construction cleans up\<close>

lemma NewSession_cleanup:
  assumes "NewSession start cfg = (Err e, calls)" "calls \<noteq> []"
  shows "last calls = CancelCtx
    \<and> (length (filter (\<lambda>c. \<exists>l. c = StartStream l) calls) = 2 \<longrightarrow> CloseCallerASR \<in> set calls)"
  using assms
  by (cases "session_validate cfg") (auto simp: NewSession_def Let_def split: sum.splits)

lemma NewSession_ok:
  assumes "NewSession start cfg = (Ok parts, calls)"
  shows "is_ok (session_validate cfg) \<and> fallback_ok (sp_fallback parts)
    \<and> (sc_CodeSwitching cfg \<longrightarrow> calls = [StartStream [], StartStream []])"
  using assms
  by (cases "session_validate cfg") (auto simp: NewSession_def Let_def session_fallback_ok split: sum.splits)

end
