(* ===== verification/Mocks.thy ===== *)
theory Mocks
  imports Media "HOL-Library.Sublist"
begin

section \<open>The mock backends (pkg/asr/mock.go, pkg/translate/mock.go, pkg/tts/mock.go)\<close>

text \<open>
  The deterministic recognizer, translator and synthesizer. A context that is already done is an
  argument; a send on a channel whose reader keeps up always succeeds (a cancelled session can drop
  what is still unsent, \<open>take\<close> for the synthesizer). Language codes are ASCII, so
  \<open>strings.ToUpper\<close> is the bytewise one.
\<close>

subsection \<open>ASR\<close>

definition default_langs :: "language list" where "default_langs = [''en'', ''hi'']"

definition NewMockRecognizer :: "language list \<Rightarrow> language list" where
  "NewMockRecognizer langs = (if langs = [] then default_langs else langs)"

definition mock_supports :: "language list \<Rightarrow> language \<Rightarrow> bool" where
  "mock_supports langs lang = list_ex (\<lambda>l. l = lang) langs"

definition mockPhrase_en :: string where "mockPhrase_en = ''hello, this is a test call''"

text \<open>The Hindi phrase, as its UTF-8 bytes.\<close>

definition mockPhrase_hi :: string where
  "mockPhrase_hi = map (char_of :: nat \<Rightarrow> char)
     [0xE0, 0xA4, 0xA8, 0xE0, 0xA4, 0xAE, 0xE0, 0xA4, 0xB8, 0xE0, 0xA5, 0x8D, 0xE0, 0xA4, 0xA4, 0xE0, 0xA5, 0x87,
      0x2C, 0x20, 0xE0, 0xA4, 0xAF, 0xE0, 0xA4, 0xB9, 0x20, 0xE0, 0xA4, 0x8F, 0xE0, 0xA4, 0x95, 0x20, 0xE0, 0xA4,
      0xAA, 0xE0, 0xA4, 0xB0, 0xE0, 0xA5, 0x80, 0xE0, 0xA4, 0x95, 0xE0, 0xA5, 0x8D, 0xE0, 0xA4, 0xB7, 0xE0, 0xA4,
      0xA3, 0x20, 0xE0, 0xA4, 0x95, 0xE0, 0xA5, 0x89, 0xE0, 0xA4, 0xB2, 0x20, 0xE0, 0xA4, 0xB9, 0xE0, 0xA5, 0x88]"

definition mockPhrases :: "(language \<times> string) list" where
  "mockPhrases = [(''en'', mockPhrase_en), (''hi'', mockPhrase_hi)]"

definition mockFlushBytes :: int where "mockFlushBytes = 8000"

record mockStreamSession =
  ms_lang :: language
  ms_buffered :: int
  ms_totalMS :: int
  ms_seq :: int
  ms_closed :: bool
  ms_startedMS :: int

definition mock_StartStream :: "language list \<Rightarrow> language \<Rightarrow> mockStreamSession result" where
  "mock_StartStream langs languageHint =
     (let lang = (if languageHint = [] then ''en'' else languageHint)
      in if \<not> mock_supports langs lang then Err (ErrNew ''asr/mock: unsupported language'')
         else Ok \<lparr>ms_lang = lang, ms_buffered = 0, ms_totalMS = 0, ms_seq = 0, ms_closed = False, ms_startedMS = 0\<rparr>)"

definition buildTranscript :: "mockStreamSession \<Rightarrow> bool \<Rightarrow> Transcript \<times> mockStreamSession" where
  "buildTranscript s final =
     (let phrase = (case map_of mockPhrases (ms_lang s) of Some p \<Rightarrow> p
                    | None \<Rightarrow> the (map_of mockPhrases ''en''))
      in (\<lparr>tr_Text = phrase, tr_Language = ms_lang s, tr_IsFinal = final, tr_Confidence = 99 / 100,
           tr_StartMS = ms_startedMS s, tr_EndMS = ms_totalMS s\<rparr>,
          s\<lparr>ms_startedMS := ms_totalMS s\<rparr>))"

definition frame_ms :: "AudioFrame \<Rightarrow> int" where
  "frame_ms f = (if af_SampleRate f > 0 then int (length (af_PCM f) div 2) * 1000 div af_SampleRate f else 0)"

definition mock_PushAudio ::
  "bool \<Rightarrow> AudioFrame \<Rightarrow> mockStreamSession \<Rightarrow> unit result \<times> Transcript list \<times> mockStreamSession" where
  "mock_PushAudio ctxDone frame s =
     (if ctxDone then (Err ErrContext, [], s)
      else if ms_closed s then (Err (ErrNew ''asr/mock: session closed''), [], s)
      else
        let s1 = s\<lparr>ms_buffered := ms_buffered s + int (length (af_PCM frame)), ms_totalMS := ms_totalMS s + frame_ms frame\<rparr>
        in if ms_buffered s1 \<ge> mockFlushBytes
           then let (tr, s2) = buildTranscript (s1\<lparr>ms_buffered := 0, ms_seq := ms_seq s1 + 1\<rparr>) False
                in (Ok (), [tr], s2)
           else (Ok (), [], s1))"

definition mock_Close :: "mockStreamSession \<Rightarrow> Transcript list \<times> mockStreamSession" where
  "mock_Close s =
     (if ms_closed s then ([], s)
      else let (tr, s1) = buildTranscript (s\<lparr>ms_closed := True, ms_buffered := 0, ms_seq := ms_seq s + 1\<rparr>) True
           in ([tr], s1))"

datatype mock_op = MockPush bool AudioFrame | MockClose

fun mock_run :: "mockStreamSession \<Rightarrow> mock_op list \<Rightarrow> Transcript list \<times> mockStreamSession" where
  "mock_run s [] = ([], s)"
| "mock_run s (MockPush d f # ops) =
     (let (r, trs, s1) = mock_PushAudio d f s; (trs', s2) = mock_run s1 ops in (trs @ trs', s2))"
| "mock_run s (MockClose # ops) =
     (let (trs, s1) = mock_Close s; (trs', s2) = mock_run s1 ops in (trs @ trs', s2))"

text \<open>Transcripts that follow each other without a gap, from \<open>t0\<close> to \<open>t1\<close>.\<close>

fun contiguous :: "int \<Rightarrow> Transcript list \<Rightarrow> int \<Rightarrow> bool" where
  "contiguous t0 [] t1 \<longleftrightarrow> t0 = t1"
| "contiguous t0 (tr # trs) t1 \<longleftrightarrow> tr_StartMS tr = t0 \<and> contiguous (tr_EndMS tr) trs t1"

lemma contiguous_append [simp]:
  "contiguous t0 (xs @ ys) t2 \<longleftrightarrow> (\<exists>t1. contiguous t0 xs t1 \<and> contiguous t1 ys t2)"
  by (induction xs arbitrary: t0) auto

lemma mock_run_closed: "ms_closed s \<Longrightarrow> mock_run s ops = ([], s)"
proof (induction ops arbitrary: s)
  case (Cons x ops)
  then show ?case by (cases x) (auto simp: mock_PushAudio_def mock_Close_def)
qed simp

lemma mock_run_spec:
  assumes "\<not> ms_closed s" "0 \<le> ms_buffered s" "ms_buffered s < mockFlushBytes"
  shows "contiguous (ms_startedMS s) (fst (mock_run s ops)) (ms_startedMS (snd (mock_run s ops)))
    \<and> (MockClose \<in> set ops \<longleftrightarrow> ms_closed (snd (mock_run s ops)))
    \<and> (filter tr_IsFinal (fst (mock_run s ops)) =
         (if MockClose \<in> set ops then [last (fst (mock_run s ops))] else []))
    \<and> (MockClose \<in> set ops \<longrightarrow> fst (mock_run s ops) \<noteq> []
         \<and> ms_startedMS (snd (mock_run s ops)) = ms_totalMS (snd (mock_run s ops)))
    \<and> ms_seq (snd (mock_run s ops)) = ms_seq s + int (length (fst (mock_run s ops)))"
  using assms
proof (induction ops arbitrary: s)
  case (Cons x ops)
  show ?case
  proof (cases x)
    case MockClose
    then show ?thesis using Cons.prems
      by (simp add: mock_Close_def buildTranscript_def Let_def mock_run_closed)
  next
    case (MockPush d f)
    obtain r trs s1 where p: "mock_PushAudio d f s = (r, trs, s1)" by (cases "mock_PushAudio d f s")
    have one: "\<not> ms_closed s1 \<and> 0 \<le> ms_buffered s1 \<and> ms_buffered s1 < mockFlushBytes
      \<and> contiguous (ms_startedMS s) trs (ms_startedMS s1) \<and> filter tr_IsFinal trs = []
      \<and> ms_seq s1 = ms_seq s + int (length trs)"
      using p Cons.prems
      by (auto simp: mock_PushAudio_def buildTranscript_def Let_def mockFlushBytes_def split: if_splits)
    then show ?thesis using Cons.IH [of s1] MockPush p
      by (auto simp: split_beta)
  qed
qed simp

text \<open>
  The mock recognizer's stream contract. For every sequence of pushes and closes on a new
  stream, the transcripts cover the audio without gap or overlap from 0 on, exactly one of them is
  final if the stream was closed (none otherwise), it is the last one, and it ends at the total
  audio time; nothing is emitted after the close.
\<close>
theorem mock_asr_contract:
  assumes "mock_StartStream langs hint = Ok s"
  shows "let (trs, s') = mock_run s ops
    in contiguous 0 trs (ms_startedMS s')
       \<and> filter tr_IsFinal trs = (if MockClose \<in> set ops then [last trs] else [])
       \<and> (MockClose \<in> set ops \<longrightarrow> trs \<noteq> [] \<and> ms_startedMS s' = ms_totalMS s')
       \<and> (ms_closed s' \<longrightarrow> fst (mock_run s' ops') = [])"
proof -
  have s: "\<not> ms_closed s" "ms_buffered s = 0" "ms_startedMS s = 0"
    using assms by (auto simp: mock_StartStream_def Let_def split: if_splits)
  have "0 \<le> ms_buffered s" "ms_buffered s < mockFlushBytes" using s by (simp_all add: mockFlushBytes_def)
  from mock_run_spec [OF s(1) this, of ops] show ?thesis
    using s(3) by (simp add: split_beta mock_run_closed)
qed

definition demo_stream :: mockStreamSession where
  "demo_stream = \<lparr>ms_lang = ''en'', ms_buffered = 0, ms_totalMS = 0, ms_seq = 0, ms_closed = False, ms_startedMS = 0\<rparr>"

theorem mock_asr_contract_witness:
  "filter tr_IsFinal (fst (mock_run demo_stream [MockClose, MockClose])) \<noteq> []"
proof -
  have "mock_StartStream (NewMockRecognizer []) [] = Ok demo_stream"
    by (simp add: mock_StartStream_def demo_stream_def NewMockRecognizer_def default_langs_def mock_supports_def Let_def)
  from mock_asr_contract [OF this, of "[MockClose, MockClose]"] show ?thesis by (simp add: split_beta)
qed

subsection \<open>MT\<close>

definition NewMockTranslator :: "(language \<times> language) list \<Rightarrow> (language \<times> language) list" where
  "NewMockTranslator pairs = (if pairs = [] then [(''hi'', ''en''), (''en'', ''hi'')] else pairs)"

definition mt_supports :: "(language \<times> language) list \<Rightarrow> language \<Rightarrow> language \<Rightarrow> bool" where
  "mt_supports pairs source target = list_ex (\<lambda>p. (fst p = source \<or> fst p = []) \<and> snd p = target) pairs"

definition upper_char :: "char \<Rightarrow> char" where
  "upper_char c = (let n = (of_char c :: nat) in if 97 \<le> n \<and> n \<le> 122 then char_of (n - 32) else c)"

definition mock_Translate ::
  "(language \<times> language) list \<Rightarrow> bool \<Rightarrow> string \<Rightarrow> language \<Rightarrow> language \<Rightarrow> bool \<Rightarrow> MTChunk result" where
  "mock_Translate pairs ctxDone txt source target isFinal =
     (if ctxDone then Err ErrContext
      else if \<not> mt_supports pairs source target then Err (ErrNew ''translate/mock: unsupported pair'')
      else Ok \<lparr>mt_Text = ''['' @ map upper_char target @ ''] '' @ txt, mt_SourceLang = source,
               mt_TargetLang = target, mt_IsFinal = isFinal\<rparr>)"

lemma mock_Translate_keeps_text:
  "mock_Translate pairs d txt src tgt fin = Ok ch \<Longrightarrow>
     suffix txt (mt_Text ch) \<and> mt_Text ch \<noteq> [] \<and> mt_SourceLang ch = src \<and> mt_TargetLang ch = tgt"
  by (auto simp: mock_Translate_def suffix_def split: if_splits)

subsection \<open>TTS\<close>

definition mockSampleRate :: int where "mockSampleRate = 8000"
definition mockFrameBytes :: nat where "mockFrameBytes = 320"
definition mockWordsPerChunk :: nat where "mockWordsPerChunk = 3"

definition fakePCM :: "nat \<Rightarrow> bytes" where
  "fakePCM i = map (\<lambda>j. of_nat ((i + j) mod 256)) [0..<mockFrameBytes]"

definition is_space :: "char \<Rightarrow> bool" where
  "is_space r \<longleftrightarrow> r = CHR '' '' \<or> r = CHR 0x09 \<or> r = CHR 0x0A \<or> r = CHR 0x0D"

fun wordCount_loop :: "string \<Rightarrow> nat \<Rightarrow> bool \<Rightarrow> nat" where
  "wordCount_loop [] count inWord = count"
| "wordCount_loop (r # rs) count inWord =
     (if is_space r then wordCount_loop rs count False
      else if \<not> inWord then wordCount_loop rs (count + 1) True
      else wordCount_loop rs count inWord)"

definition wordCount :: "string \<Rightarrow> nat" where
  "wordCount s = wordCount_loop s 0 False"

text \<open>The chunks put on the channel before it closes; \<open>sent\<close> bounds them when the context ends.\<close>

definition mock_SynthesizeStream :: "language list \<Rightarrow> string \<Rightarrow> Persona \<Rightarrow> nat option \<Rightarrow> AudioChunk list result" where
  "mock_SynthesizeStream langs txt persona sent =
     (if txt = [] then Err (ErrNew ''tts/mock: empty text'')
      else if \<not> mock_supports langs (persona_Language persona) then Err (ErrNew ''tts/mock: unsupported language'')
      else let numChunks = wordCount txt div mockWordsPerChunk + 1;
               chunks = map (\<lambda>i. \<lparr>ac_PCM = fakePCM i, ac_SampleRate = mockSampleRate, ac_IsFinal = (i = numChunks - 1)\<rparr>)
                          [0..<numChunks]
           in Ok (case sent of None \<Rightarrow> chunks | Some n \<Rightarrow> take n chunks))"

lemma wordCount_loop_acc: "wordCount_loop rs n w = n + wordCount_loop rs 0 w"
proof (induction rs arbitrary: n w)
  case (Cons r rs)
  show ?case using Cons [of "n + 1" True] Cons [of 1 True] Cons [of n w] Cons [of n False] by auto
qed simp

text \<open>
  The mock synthesizer's stream contract. When the context does not end, an accepted request
  yields one chunk per three words plus one, each of exactly one 320-byte frame, of which the last
  and only the last is final; words are separated by any run of white space.
\<close>
theorem mock_tts_contract:
  assumes "mock_SynthesizeStream langs txt persona None = Ok chunks"
  shows "length chunks = wordCount txt div 3 + 1 \<and> (\<forall>c \<in> set chunks. length (ac_PCM c) = 320)
    \<and> filter ac_IsFinal chunks = [last chunks]
    \<and> (is_space sep \<longrightarrow> wordCount (txt @ sep # txt2) = wordCount txt + wordCount txt2)"
proof -
  let ?n = "wordCount txt div mockWordsPerChunk"
  have c: "chunks = map (\<lambda>i. \<lparr>ac_PCM = fakePCM i, ac_SampleRate = mockSampleRate, ac_IsFinal = (i = ?n)\<rparr>) [0..<Suc ?n]"
    using assms by (auto simp: mock_SynthesizeStream_def Let_def split: if_splits)
  have "filter ac_IsFinal chunks = [last chunks]" unfolding c by (simp add: filter_map o_def)
  moreover have "wordCount_loop (t @ sep # txt2) n w = n + wordCount_loop t 0 w + wordCount txt2"
    if "is_space sep" for t n w
    using that
  proof (induction t arbitrary: n w)
    case Nil
    then show ?case using wordCount_loop_acc [of txt2 n False] by (simp add: wordCount_def)
  next
    case (Cons r t)
    then show ?case using wordCount_loop_acc [of t 1 True] by simp
  qed
  ultimately show ?thesis by (auto simp: c fakePCM_def mockFrameBytes_def mockWordsPerChunk_def wordCount_def)
qed

theorem mock_tts_contract_witness:
  "length (map (\<lambda>i. \<lparr>ac_PCM = fakePCM i, ac_SampleRate = 8000, ac_IsFinal = (i = 1)\<rparr>) [0..<2]) = wordCount ''a b c'' div 3 + 1"
proof -
  let ?p = "\<lparr>VoiceID = [], persona_Language = ''en'', Gender = [], ClonedFrom = []\<rparr>"
  have "mock_SynthesizeStream default_langs ''a b c'' ?p None
      = Ok (map (\<lambda>i. \<lparr>ac_PCM = fakePCM i, ac_SampleRate = 8000, ac_IsFinal = (i = 1)\<rparr>) [0..<2])"
    by (simp add: mock_SynthesizeStream_def default_langs_def mock_supports_def wordCount_def is_space_def
        mockWordsPerChunk_def mockSampleRate_def Let_def upt_rec)
  from mock_tts_contract [OF this] show ?thesis by blast
qed

end
