(* ===== verification/Alaw.thy ===== *)
theory Alaw
  imports Media
begin

section \<open>A-law and the inbound buffer (pkg/webrtcgw/alaw.go, inbound_buffer.go)\<close>

text \<open>
  G.711 A-law coding of 16-bit samples and the buffer that groups inbound audio for the pipeline.
  Bytes and samples are words; the code's \<open>int\<close> is \<open>int\<close>.
\<close>

subsection \<open>Coding\<close>

definition alawDecodeByte :: "byte \<Rightarrow> u16" where
  "alawDecodeByte alaw0 =
     (let alaw = xor alaw0 0x55;
          sign = and alaw 0x80;
          exponent = and (drop_bit 4 alaw) 0x07;
          mantissa = and alaw 0x0F;
          sample = (if exponent = 0 then push_bit 4 (uint mantissa) + 8
                    else push_bit (unat (exponent - 1)) (push_bit 4 (uint mantissa) + 0x108))
      in word_of_int (if sign = 0 then - sample else sample))"

text \<open>The loop over the mask, by recursion on the exponent it decrements.\<close>

fun alaw_exponent :: "int \<Rightarrow> int \<Rightarrow> nat \<Rightarrow> nat" where
  "alaw_exponent s msk 0 = 0"
| "alaw_exponent s msk (Suc e) = (if and s msk = 0 then alaw_exponent s (drop_bit 1 msk) e else Suc e)"

definition alawEncodeSample :: "u16 \<Rightarrow> byte" where
  "alawEncodeSample sample =
     (let s0 = sint sample;
          sign = (if s0 < 0 then 0 else 0x80) :: byte;
          s1 = (if s0 < 0 then - s0 - 1 else s0);
          s = (if s1 > 32635 then 32635 else s1);
          exponent = (if s \<ge> 256 then alaw_exponent s 0x4000 7 else 0);
          mantissa = (if exponent = 0 then and (word_of_int (drop_bit 4 s)) 0x0F
                      else and (word_of_int (drop_bit (exponent + 3) s)) 0x0F) :: byte;
          alaw = or sign (or (push_bit 4 (of_nat exponent)) mantissa)
      in xor alaw 0x55)"

text \<open>\<open>init\<close> fills the table that the decoder reads.\<close>

definition alawDecodeTable :: "u16 list" where
  "alawDecodeTable = map (\<lambda>i. alawDecodeByte (of_nat i)) [0..<256]"

definition alawToPCM16 :: "bytes \<Rightarrow> bytes" where
  "alawToPCM16 alaw = concat (map (\<lambda>b. let s = alawDecodeTable ! unat b in [lo8 s, hi8 s]) alaw)"

fun pcm16ToALaw :: "bytes \<Rightarrow> bytes" where
  "pcm16ToALaw (lo # hi # pcm) = alawEncodeSample (u16_le lo hi) # pcm16ToALaw pcm"
| "pcm16ToALaw pcm = []"

lemma alawDecodeTable_nth [simp]: "alawDecodeTable ! unat b = alawDecodeByte b"
proof -
  have "unat b < 256" using unsigned_less [of b, where ?'a = nat] by simp
  then show ?thesis by (simp add: alawDecodeTable_def)
qed

subsection \<open>The code word of a segment and a mantissa\<close>

definition alaw_word :: "bool \<Rightarrow> nat \<Rightarrow> nat \<Rightarrow> byte" where
  "alaw_word positive e m =
     xor (or (if positive then 0x80 else 0) (or (push_bit 4 (of_nat e)) (of_nat m))) 0x55"

definition alaw_value :: "nat \<Rightarrow> nat \<Rightarrow> int" where
  "alaw_value e m = (if e = 0 then 16 * int m + 8 else (16 * int m + 264) * 2 ^ (e - 1))"

lemma decode_word_all:
  "list_all (\<lambda>e. list_all (\<lambda>m. list_all (\<lambda>p.
     sint (alawDecodeByte (alaw_word p e m)) = (if p then alaw_value e m else - alaw_value e m))
     [True, False]) [0..<16]) [0..<8]"
  by code_simp

lemma decode_word:
  assumes "e < 8" "m < 16"
  shows "sint (alawDecodeByte (alaw_word p e m)) = (if p then alaw_value e m else - alaw_value e m)"
  using decode_word_all assms by (cases p) (simp_all only: list_all_iff set_upt Ball_def atLeastLessThan_iff; simp)+

subsection \<open>Segments\<close>

lemma odd_small: "(x::int) < 2 \<Longrightarrow> 0 \<le> x \<Longrightarrow> odd x \<longleftrightarrow> x \<noteq> 0"
  by presburger

lemma and_pow_zero:
  assumes "0 \<le> (s::int)" "s < 2 ^ Suc n"
  shows "and s (2 ^ n) = 0 \<longleftrightarrow> s < 2 ^ n"
proof -
  have "s div 2 ^ n < 2"
  proof (rule ccontr)
    assume "\<not> s div 2 ^ n < 2"
    then have "2 * 2 ^ n \<le> s div 2 ^ n * 2 ^ n" by (intro mult_right_mono) simp_all
    also have "\<dots> \<le> s"
    proof -
      have "0 \<le> s mod 2 ^ n" by (rule pos_mod_sign) simp
      then show ?thesis using minus_mod_eq_div_mult [of s "2 ^ n"] by linarith
    qed
    finally show False using assms(2) by simp
  qed
  moreover have "0 \<le> s div 2 ^ n" using assms(1) by (simp add: pos_imp_zdiv_nonneg_iff)
  moreover have "s div 2 ^ n = 0 \<longleftrightarrow> s < 2 ^ n" using assms(1) by (auto simp: zdiv_eq_0_iff)
  ultimately have "odd (s div 2 ^ n) \<longleftrightarrow> \<not> s < 2 ^ n" using odd_small by blast
  then show ?thesis by (simp add: and_exp_eq_0_iff_not_bit bit_iff_odd)
qed

lemma alaw_exponent_spec:
  assumes "256 \<le> s" "s < 2 ^ (n + 8)"
  shows "1 \<le> alaw_exponent s (2 ^ (n + 7)) n \<and> alaw_exponent s (2 ^ (n + 7)) n \<le> n
    \<and> 2 ^ (alaw_exponent s (2 ^ (n + 7)) n + 7) \<le> s \<and> s < 2 ^ (alaw_exponent s (2 ^ (n + 7)) n + 8)"
  using assms
proof (induction n)
  case (Suc n)
  have z: "and s (2 ^ (Suc n + 7)) = 0 \<longleftrightarrow> s < 2 ^ (Suc n + 7)"
    using Suc.prems by (intro and_pow_zero) simp_all
  have d: "drop_bit 1 (2 ^ (Suc n + 7) :: int) = 2 ^ (n + 7)" by (simp add: drop_bit_eq_div power_add)
  show ?case
  proof (cases "s < 2 ^ (Suc n + 7)")
    case True
    then have "alaw_exponent s (2 ^ (Suc n + 7)) (Suc n) = alaw_exponent s (2 ^ (n + 7)) n"
      using z d by (simp only: alaw_exponent.simps if_True)
    moreover have "s < 2 ^ (n + 8)" using True by (simp add: add.commute)
    ultimately show ?thesis using Suc.IH Suc.prems(1) by simp
  next
    case False
    then have "alaw_exponent s (2 ^ (Suc n + 7)) (Suc n) = Suc n"
      using z by (simp only: alaw_exponent.simps if_False)
    with False Suc.prems show ?thesis by simp
  qed
qed simp

text \<open>The magnitude that is coded: the clipped absolute value, with \<open>-s - 1\<close> for negatives.\<close>

definition alaw_mag :: "u16 \<Rightarrow> int" where
  "alaw_mag x = min 32635 (if sint x < 0 then - sint x - 1 else sint x)"

lemma alaw_mag_range: "0 \<le> alaw_mag x" "alaw_mag x \<le> 32635"
  using sint_greater_eq [of x] sint_less [of x] by (auto simp: alaw_mag_def)

lemma and_15_mod: "and (word_of_int k) 0x0F = (word_of_int (k mod 16) :: byte)"
proof -
  have "and k 15 = take_bit 4 k" using take_bit_eq_mask [of 4 k] by (simp add: mask_eq_exp_minus_1)
  then have "and k 15 = k mod 16" by (simp add: take_bit_eq_mod)
  moreover have "and (word_of_int k) (word_of_int 15) = (word_of_int (and k 15) :: byte)"
    by (rule bit_word_eqI) (auto simp: bit_simps)
  ultimately show ?thesis by simp
qed

lemma div_bounds: "0 < d \<Longrightarrow> s div d * d \<le> s \<and> s < s div d * d + (d::int)"
  using pos_mod_sign [of d s] pos_mod_bound [of d s] div_mult_mod_eq [of s d] by linarith

text \<open>Encoding a magnitude picks a segment and a mantissa whose value is close to it.\<close>

lemma encode_segment:
  assumes "0 \<le> s" "s \<le> 32635"
  defines "e \<equiv> (if s \<ge> 256 then alaw_exponent s 0x4000 7 else 0)"
  defines "k \<equiv> (if e = 0 then drop_bit 4 s else drop_bit (e + 3) s)"
  shows "e < 8" "\<bar>alaw_value e (nat (k mod 16)) - s\<bar> * 32 \<le> max 256 s"
    "s = 32635 \<Longrightarrow> alaw_value e (nat (k mod 16)) = 32256"
proof -
  have "e < 8 \<and> \<bar>alaw_value e (nat (k mod 16)) - s\<bar> * 32 \<le> max 256 s
    \<and> (s = 32635 \<longrightarrow> alaw_value e (nat (k mod 16)) = 32256)"
  proof (cases "256 \<le> s")
    case False
    then have e: "e = 0" and k: "k = s div 16" by (simp_all add: e_def k_def drop_bit_eq_div)
    have "0 \<le> k" "k < 16" using False assms(1) k by simp_all
    then have "k mod 16 = k" by simp
    with e k False assms(1) div_bounds [of 16 s] show ?thesis by (simp add: alaw_value_def)
  next
    case True
    have p: "(2::int) ^ (7 + 7) = 0x4000" "(2::int) ^ (7 + 8) = 32768" by simp_all
    have e: "1 \<le> e" "e \<le> 7" "2 ^ (e + 7) \<le> s" "s < 2 ^ (e + 8)"
      using alaw_exponent_spec [of s 7] True assms(2) by (simp_all only: e_def p if_True; simp)+
    define q where "q = s div 2 ^ (e + 3)"
    have k: "k = q" using e(1) by (simp add: k_def q_def drop_bit_eq_div)
    have pw: "(2::int) ^ (e + 7) = 16 * 2 ^ (e + 3)" "(2::int) ^ (e + 8) = 32 * 2 ^ (e + 3)" by (simp_all add: power_add)
    have dv: "q * 2 ^ (e + 3) \<le> s" "s < q * 2 ^ (e + 3) + 2 ^ (e + 3)" using div_bounds [of "2 ^ (e + 3)" s] by (simp_all add: q_def)
    have "16 \<le> q"
    proof (rule ccontr)
      assume "\<not> 16 \<le> q"
      then have "(q + 1) * 2 ^ (e + 3) \<le> 16 * 2 ^ (e + 3)" by (intro mult_right_mono) simp_all
      moreover have "(q + 1) * 2 ^ (e + 3) = q * 2 ^ (e + 3) + 2 ^ (e + 3)" by (simp add: algebra_simps)
      ultimately show False using dv(2) e(3) pw(1) by linarith
    qed
    moreover have "q < 32"
    proof (rule ccontr)
      assume "\<not> q < 32"
      then have "32 * 2 ^ (e + 3) \<le> q * 2 ^ (e + 3)" by (intro mult_right_mono) simp_all
      then show False using dv(1) e(4) pw(2) by linarith
    qed
    ultimately have m: "q mod 16 = q - 16" "0 \<le> q - 16" by presburger+
    have e3: "(2::int) ^ (e + 3) = 16 * 2 ^ (e - 1)" using e(1) by (cases e) (simp_all add: power_add)
    have val: "alaw_value e (nat (k mod 16)) = q * 2 ^ (e + 3) + 8 * 2 ^ (e - 1)"
    proof -
      have "alaw_value e (nat (k mod 16)) = (16 * int (nat (q - 16)) + 264) * 2 ^ (e - 1)"
        using e(1) by (simp add: alaw_value_def k m(1))
      also have "\<dots> = (16 * q + 8) * 2 ^ (e - 1)" using m(2) by simp
      finally show ?thesis by (simp only: e3 algebra_simps)
    qed
    have "\<bar>alaw_value e (nat (k mod 16)) - s\<bar> \<le> 8 * 2 ^ (e - 1)"
      using dv e3 by (simp add: val abs_le_iff)
    moreover have "8 * 2 ^ (e - 1) * 32 \<le> s" using e(3) pw(1) e3 by simp
    moreover have "s = 32635 \<longrightarrow> alaw_value e (nat (k mod 16)) = 32256"
    proof
      assume s: "s = 32635"
      have "e = 7"
      proof (rule ccontr)
        assume "e \<noteq> 7"
        then have "(2::int) ^ (e + 8) \<le> 2 ^ 14" using e(2) by (intro power_increasing) simp_all
        with e(4) s show False by simp
      qed
      then show "alaw_value e (nat (k mod 16)) = 32256" unfolding val by (simp add: q_def s)
    qed
    ultimately show ?thesis using e(2) max.cobounded2 [of s 256] by (intro conjI) (linarith | blast)+
  qed
  then show "e < 8" "\<bar>alaw_value e (nat (k mod 16)) - s\<bar> * 32 \<le> max 256 s"
    "s = 32635 \<Longrightarrow> alaw_value e (nat (k mod 16)) = 32256" by blast+
qed

definition alaw_seg :: "int \<Rightarrow> nat" where
  "alaw_seg s = (if s \<ge> 256 then alaw_exponent s 0x4000 7 else 0)"

definition alaw_man :: "int \<Rightarrow> nat" where
  "alaw_man s = nat ((if alaw_seg s = 0 then drop_bit 4 s else drop_bit (alaw_seg s + 3) s) mod 16)"

lemma encode_as_word:
  "alawEncodeSample x = alaw_word (0 \<le> sint x) (alaw_seg (alaw_mag x)) (alaw_man (alaw_mag x))"
proof -
  have s': "(let s0 = sint x; s1 = (if s0 < 0 then - s0 - 1 else s0) in if s1 > 32635 then 32635 else s1) = alaw_mag x"
    by (simp add: alaw_mag_def Let_def)
  have km: "word_of_int (k mod 16) = (of_nat (nat (k mod 16)) :: byte)" for k by simp
  show ?thesis
    unfolding alawEncodeSample_def alaw_word_def Let_def s' [unfolded Let_def] alaw_seg_def [symmetric] alaw_man_def
    by (simp add: and_15_mod)
qed

lemma encode_word:
  obtains e m where "e < 8" "m < 16" "alawEncodeSample x = alaw_word (0 \<le> sint x) e m"
    "\<bar>alaw_value e m - alaw_mag x\<bar> * 32 \<le> max 256 (alaw_mag x)" "alaw_mag x = 32635 \<longrightarrow> alaw_value e m = 32256"
proof -
  note seg = encode_segment [OF alaw_mag_range [of x], folded alaw_seg_def, folded alaw_man_def]
  have "alaw_man (alaw_mag x) < 16" by (simp add: alaw_man_def nat_less_iff)
  with seg encode_as_word show thesis by (intro that [of "alaw_seg (alaw_mag x)" "alaw_man (alaw_mag x)"]) blast+
qed

text \<open>Every byte is the word of one segment and mantissa.\<close>

lemma byte_fields:
  "or (if bit (y::byte) 7 then 0x80 else 0) (or (push_bit 4 (and (drop_bit 4 y) 7)) (and y 15)) = y"
proof (rule bit_word_eqI)
  fix n :: nat
  assume "n < LENGTH(8)"
  then consider "n = 0" | "n = 1" | "n = 2" | "n = 3" | "n = 4" | "n = 5" | "n = 6" | "n = 7" by fastforce
  then show "bit (or (if bit y 7 then 0x80 else 0) (or (push_bit 4 (and (drop_bit 4 y) 7)) (and y 15))) n = bit y n"
    by cases (simp_all add: bit_simps)
qed

lemma byte_is_word: "\<exists>p e m. e < 8 \<and> m < 16 \<and> b = alaw_word p e m"
proof -
  define y where "y = xor b 0x55"
  have "unat (and (drop_bit 4 y) 7) < 8" "unat (and y 15) < 16"
    using word_and_le1 [of "drop_bit 4 y" 7] word_and_le1 [of y 15] by (simp_all add: word_le_nat_alt)
  moreover have "b = alaw_word (bit y 7) (unat (and (drop_bit 4 y) 7)) (unat (and y 15))"
  proof -
    have "b = xor y 0x55" by (simp add: y_def xor.assoc)
    then show ?thesis by (simp only: alaw_word_def of_nat_unat ucast_id byte_fields)
  qed
  ultimately show ?thesis by blast
qed

lemma exponent_unique:
  assumes "2 ^ (e + 7) \<le> (s::int)" "s < 2 ^ (e + 8)" "2 ^ (f + 7) \<le> s" "s < 2 ^ (f + 8)"
  shows "e = f"
proof -
  have "(2::int) ^ (e + 7) < 2 ^ (f + 8)" "(2::int) ^ (f + 7) < 2 ^ (e + 8)" using assms by linarith+
  then have "e + 7 < f + 8" "f + 7 < e + 8" by (simp_all only: power_strict_increasing_iff one_less_numeral_iff semiring_norm)
  then show ?thesis by simp
qed

lemma encode_value:
  assumes "f < 8" "m < 16" "s = alaw_value f m \<or> s = alaw_value f m - 1"
  shows "(if s \<ge> 256 then alaw_exponent s 0x4000 7 else 0) = f"
    "(if f = 0 then drop_bit 4 s else drop_bit (f + 3) s) mod 16 = int m"
proof -
  have "(if s \<ge> 256 then alaw_exponent s 0x4000 7 else 0) = f
    \<and> (if f = 0 then drop_bit 4 s else drop_bit (f + 3) s) mod 16 = int m"
  proof (cases "f = 0")
    case True
    then have "s = 16 * int m + 8 \<or> s = 16 * int m + 7" using assms(3) by (auto simp: alaw_value_def)
    then have "s < 256" "s div 16 = int m" using assms(2) by auto
    with True assms(2) show ?thesis by (simp add: drop_bit_eq_div)
  next
    case False
    then have f3: "(2::int) ^ (f + 3) = 16 * 2 ^ (f - 1)" by (cases f) (simp_all add: power_add)
    have v: "alaw_value f m = (int m + 16) * 2 ^ (f + 3) + 8 * 2 ^ (f - 1)"
      using False by (simp add: alaw_value_def f3 algebra_simps)
    have one: "(1::int) \<le> 2 ^ (f - 1)" by simp
    have "(int m + 17) * 2 ^ (f + 3) = (int m + 16) * 2 ^ (f + 3) + 16 * 2 ^ (f - 1)" by (simp add: f3 algebra_simps)
    then have s: "(int m + 16) * 2 ^ (f + 3) \<le> s" "s < (int m + 17) * 2 ^ (f + 3)"
      using assms(3) v one by linarith+
    have q: "s div 2 ^ (f + 3) = int m + 16"
      using s by (intro int_div_pos_eq [of _ _ _ "s - (int m + 16) * 2 ^ (f + 3)"]) (simp_all add: algebra_simps)
    have lo: "2 ^ (f + 7) \<le> s"
    proof -
      have "(2::int) ^ (f + 7) = 16 * 2 ^ (f + 3)" by (simp add: power_add)
      also have "\<dots> \<le> (int m + 16) * 2 ^ (f + 3)" by (intro mult_right_mono) simp_all
      finally show ?thesis using s(1) by linarith
    qed
    have hi: "s < 2 ^ (f + 8)"
    proof -
      have "(int m + 17) * 2 ^ (f + 3) \<le> 32 * 2 ^ (f + 3)" using assms(2) by (intro mult_right_mono) simp_all
      also have "\<dots> = (2::int) ^ (f + 8)" by (simp add: power_add)
      finally show ?thesis using s(2) by linarith
    qed
    have "(2::int) ^ 8 \<le> 2 ^ (f + 7)" using False by (intro power_increasing) simp_all
    then have big: "256 \<le> s" using lo by simp
    have "(2::int) ^ (f + 8) \<le> 2 ^ (7 + 8)" using assms(1) by (intro power_increasing) simp_all
    then have "s < 2 ^ (7 + 8)" using hi by linarith
    have p: "(2::int) ^ (7 + 7) = 0x4000" by simp
    from alaw_exponent_spec [OF big \<open>s < 2 ^ (7 + 8)\<close>, unfolded p] exponent_unique [OF lo hi]
    have "alaw_exponent s 0x4000 7 = f" by metis
    with big q False assms(2) show ?thesis by (simp add: drop_bit_eq_div)
  qed
  then show "(if s \<ge> 256 then alaw_exponent s 0x4000 7 else 0) = f"
    "(if f = 0 then drop_bit 4 s else drop_bit (f + 3) s) mod 16 = int m" by blast+
qed

lemma alaw_value_range: "f < 8 \<Longrightarrow> m < 16 \<Longrightarrow> 0 < alaw_value f m \<and> alaw_value f m \<le> 32256"
proof -
  assume a: "f < 8" "m < 16"
  have "(16 * int m + 264) * 2 ^ (f - 1) \<le> 504 * 2 ^ 6" using a by (intro mult_mono power_increasing) simp_all
  with a show ?thesis by (simp add: alaw_value_def)
qed

lemma reencode: "alawEncodeSample (alawDecodeByte b) = b"
proof -
  obtain p f m where b: "f < 8" "m < 16" "b = alaw_word p f m" using byte_is_word by blast
  define x where "x = alawDecodeByte b"
  have v: "sint x = (if p then alaw_value f m else - alaw_value f m)"
    unfolding x_def b(3) using b(1,2) by (rule decode_word)
  have p: "(0 \<le> sint x) = p" using v alaw_value_range [OF b(1,2)] by (cases p) simp_all
  have "alaw_mag x = alaw_value f m \<or> alaw_mag x = alaw_value f m - 1"
    using v alaw_value_range [OF b(1,2)] by (cases p) (simp_all add: alaw_mag_def)
  note ev = encode_value [OF b(1,2) this, folded alaw_seg_def]
  have "alaw_man (alaw_mag x) = m" by (simp only: alaw_man_def ev nat_int)
  then show ?thesis using encode_as_word [of x] ev(1) p b(3) by (simp add: x_def)
qed

text \<open>
  C31: A-law quantisation. Coding a sample and decoding it again moves it by at most 1/32 of its
  size (8 for small samples) plus one and keeps its sign, for all 65536 samples, the clipped ones
  included; and coding a decoded byte gives the byte back, for all 256 bytes.
\<close>
theorem alaw_quantisation:
  "\<bar>sint (alawDecodeByte (alawEncodeSample x)) - sint x\<bar> * 32 \<le> max 256 \<bar>sint x\<bar> + 32
   \<and> (0 \<le> sint x \<longleftrightarrow> 0 < sint (alawDecodeByte (alawEncodeSample x)))
   \<and> alawEncodeSample (alawDecodeByte b) = b"
proof -
  obtain e m where em: "e < 8" "m < 16" "alawEncodeSample x = alaw_word (0 \<le> sint x) e m"
    "\<bar>alaw_value e m - alaw_mag x\<bar> * 32 \<le> max 256 (alaw_mag x)" "alaw_mag x = 32635 \<longrightarrow> alaw_value e m = 32256"
    by (rule encode_word [of x])
  have dec: "sint (alawDecodeByte (alawEncodeSample x)) = (if 0 \<le> sint x then alaw_value e m else - alaw_value e m)"
    unfolding em(3) using em(1,2) by (rule decode_word)
  have pos: "0 < alaw_value e m" by (simp add: alaw_value_def)
  have r: "- 32768 \<le> sint x" "sint x < 32768" using sint_greater_eq [of x] sint_less [of x] by simp_all
  have "\<bar>sint (alawDecodeByte (alawEncodeSample x)) - sint x\<bar> * 32 \<le> max 256 \<bar>sint x\<bar> + 32"
    using em(4,5) r unfolding dec alaw_mag_def by (auto simp: min_def max_def abs_if split: if_splits)
  then show ?thesis using dec pos reencode by auto
qed

lemma alaw_lengths:
  "length (alawToPCM16 a) = 2 * length a" "length (pcm16ToALaw pcm) = length pcm div 2"
  by (simp add: alawToPCM16_def Let_def length_concat o_def sum_list_triv)
    (induction pcm rule: pcm16ToALaw.induct; simp)

lemma alaw_bytes_roundtrip: "pcm16ToALaw (alawToPCM16 a) = a"
  using reencode by (induction a) (simp_all add: alawToPCM16_def Let_def)

subsection \<open>The inbound buffer\<close>

text \<open>\<open>ib_out\<close> collects the arguments of the \<open>onFull\<close> calls.\<close>

record inboundBuffer =
  ib_targetBytes :: int
  ib_buffered :: bytes
  ib_out :: "bytes list"

definition inboundBufferDuration :: duration where "inboundBufferDuration = 400 * millisecond"
definition gw_sampleRate :: int where "gw_sampleRate = 8000"

definition newInboundBuffer :: "duration \<Rightarrow> inboundBuffer" where
  "newInboundBuffer dur =
     \<lparr>ib_targetBytes = go_div (gw_sampleRate * 2 * go_div dur millisecond) 1000, ib_buffered = [], ib_out = []\<rparr>"

definition ib_flush :: "inboundBuffer \<Rightarrow> inboundBuffer" where
  "ib_flush b =
     (if ib_buffered b = [] then b
      else b\<lparr>ib_buffered := [], ib_out := ib_out b @ [ib_buffered b]\<rparr>)"

definition ib_add :: "inboundBuffer \<Rightarrow> bytes \<Rightarrow> inboundBuffer" where
  "ib_add b pcm =
     (let b1 = b\<lparr>ib_buffered := ib_buffered b @ pcm\<rparr>
      in if int (length (ib_buffered b1)) \<ge> ib_targetBytes b1 then ib_flush b1 else b1)"

lemma ib_add_spec:
  assumes "0 < ib_targetBytes b" "int (length (ib_buffered b)) < ib_targetBytes b"
  shows "concat (ib_out (ib_add b pcm)) @ ib_buffered (ib_add b pcm) = concat (ib_out b) @ ib_buffered b @ pcm
    \<and> int (length (ib_buffered (ib_add b pcm))) < ib_targetBytes b \<and> ib_targetBytes (ib_add b pcm) = ib_targetBytes b
    \<and> (\<forall>c \<in> set (ib_out (ib_add b pcm)). c \<in> set (ib_out b) \<or> ib_targetBytes b \<le> int (length c))"
  using assms by (auto simp: ib_add_def ib_flush_def Let_def)

text \<open>
  For the gateway's 400 ms target (6400 bytes) the blocks handed on and the rest still buffered are
  the input bytes in order, every block has at least 6400 bytes, less than 6400 stay buffered, and a
  final flush hands on exactly the rest.
\<close>

lemma ib_regroups:
  "let b = foldl ib_add (newInboundBuffer inboundBufferDuration) pieces
   in concat (ib_out b) @ ib_buffered b = concat pieces
      \<and> (\<forall>c \<in> set (ib_out b). 6400 \<le> length c) \<and> length (ib_buffered b) < 6400
      \<and> concat (ib_out (ib_flush b)) = concat pieces \<and> ib_buffered (ib_flush b) = []"
proof -
  have "ib_targetBytes b = 6400 \<Longrightarrow> length (ib_buffered b) < 6400 \<Longrightarrow> (\<forall>c \<in> set (ib_out b). 6400 \<le> length c) \<Longrightarrow>
      concat (ib_out (foldl ib_add b pieces)) @ ib_buffered (foldl ib_add b pieces)
        = concat (ib_out b) @ ib_buffered b @ concat pieces
      \<and> (\<forall>c \<in> set (ib_out (foldl ib_add b pieces)). 6400 \<le> length c) \<and> length (ib_buffered (foldl ib_add b pieces)) < 6400" for b
  proof (induction pieces arbitrary: b)
    case (Cons p ps)
    from ib_add_spec [of b p] Cons.prems
    have "ib_targetBytes (ib_add b p) = 6400" "length (ib_buffered (ib_add b p)) < 6400"
      "\<forall>c \<in> set (ib_out (ib_add b p)). 6400 \<le> length c"
      "concat (ib_out (ib_add b p)) @ ib_buffered (ib_add b p) = concat (ib_out b) @ ib_buffered b @ p"
      by auto
    with Cons.IH [of "ib_add b p"] show ?case by (simp flip: append_assoc)
  qed simp
  from this [of "newInboundBuffer inboundBufferDuration"] show ?thesis
    by (auto simp: Let_def ib_flush_def newInboundBuffer_def inboundBufferDuration_def gw_sampleRate_def go_div_nonneg)
qed

end
