(* ===== verification/Rooms.thy ===== *)
theory Rooms
  imports Media
begin

section \<open>Rooms of the WebRTC gateway (pkg/webrtcgw/room.go)\<close>

text \<open>
  The room manager with its interleavings. Every critical section (\<open>m.mu\<close> or \<open>room.mu\<close> held) is
  one operation; a call of \<open>Join\<close>, \<open>leave\<close> or \<open>expireIncomplete\<close> is a thread whose program
  counter names the section it runs next, so that sections of several calls interleave freely.
  Rooms live on a heap and are named by their index. What is external is an input of the call:
  whether the session factory and \<open>newPeer\<close> succeed; a session is the number of times it was closed.
\<close>

datatype peerRole = roleCaller | roleAgent

fun peerRole_String :: "peerRole \<Rightarrow> string" where
  "peerRole_String roleCaller = ''caller''"
| "peerRole_String roleAgent = ''agent''"

text \<open>\<open>rm_idleTimer\<close> is \<open>None\<close> for nil and \<open>Some b\<close> for a timer that is still pending iff \<open>b\<close>.\<close>

record Room =
  rm_id :: string
  rm_cancelled :: bool
  rm_sessionClosed :: nat
  rm_caller :: "nat option"
  rm_agent :: "nat option"
  rm_closed :: bool
  rm_idleTimer :: "bool option"
  rm_bridges :: "(nat \<times> peerRole) list"

datatype join_result = JoinOk nat string peerRole nat | JoinErr go_error

record Manager =
  mg_idleTimeout :: duration
  mg_maxRooms :: int
  mg_rooms :: "(string \<times> nat) list"
  mg_heap :: "Room list"
  mg_nextPeer :: nat
  mg_peersClosed :: "nat list"
  mg_results :: "join_result list"

definition DefaultRoomIdleTimeout :: duration where "DefaultRoomIdleTimeout = 120 * second"

datatype ManagerOption = WithIdleTimeout duration | WithMaxRooms int

fun apply_option :: "Manager \<Rightarrow> ManagerOption \<Rightarrow> Manager" where
  "apply_option m (WithIdleTimeout d) = m\<lparr>mg_idleTimeout := d\<rparr>"
| "apply_option m (WithMaxRooms n) = m\<lparr>mg_maxRooms := n\<rparr>"

definition NewManager :: "ManagerOption list \<Rightarrow> Manager" where
  "NewManager opts = foldl apply_option
     \<lparr>mg_idleTimeout = DefaultRoomIdleTimeout, mg_maxRooms = 0, mg_rooms = [], mg_heap = [],
      mg_nextPeer = 0, mg_peersClosed = [], mg_results = []\<rparr> opts"

definition RoomCount :: "Manager \<Rightarrow> nat" where "RoomCount m = length (mg_rooms m)"

definition upd_room :: "nat \<Rightarrow> (Room \<Rightarrow> Room) \<Rightarrow> Manager \<Rightarrow> Manager" where
  "upd_room r f m = m\<lparr>mg_heap := (mg_heap m)[r := f (mg_heap m ! r)]\<rparr>"

definition is_full :: "Room \<Rightarrow> bool" where "is_full rm \<longleftrightarrow> rm_caller rm \<noteq> None \<and> rm_agent rm \<noteq> None"
definition is_empty :: "Room \<Rightarrow> bool" where "is_empty rm \<longleftrightarrow> rm_caller rm = None \<and> rm_agent rm = None"

subsection \<open>roomFor\<close>

datatype lookup = Existing nat | Created nat | Refused go_error

definition roomFor_lookup :: "string \<Rightarrow> bool \<Rightarrow> Manager \<Rightarrow> lookup \<times> Manager" where
  "roomFor_lookup roomID sessionOk m =
     (case map_of (mg_rooms m) roomID of
        Some r \<Rightarrow> (Existing r, m)
      | None \<Rightarrow>
          if mg_maxRooms m > 0 \<and> int (length (mg_rooms m)) \<ge> mg_maxRooms m
          then (Refused (ErrNew ''webrtcgw: max concurrent rooms reached, rejecting new room''), m)
          else if \<not> sessionOk then (Refused (ErrWrap ''webrtcgw: creating session for room'' (ErrNew ''session factory'')), m)
          else let r = length (mg_heap m);
                   room = \<lparr>rm_id = roomID, rm_cancelled = False, rm_sessionClosed = 0, rm_caller = None, rm_agent = None,
                           rm_closed = False, rm_idleTimer = None, rm_bridges = []\<rparr>
               in (Created r, m\<lparr>mg_heap := mg_heap m @ [room], mg_rooms := al_put roomID r (mg_rooms m)\<rparr>))"

definition roomFor_arm :: "nat \<Rightarrow> Manager \<Rightarrow> Manager" where
  "roomFor_arm r m = (if mg_idleTimeout m > 0 then upd_room r (\<lambda>rm. rm\<lparr>rm_idleTimer := Some True\<rparr>) m else m)"

subsection \<open>Join under the room's lock\<close>

definition role_taken :: "peerRole \<Rightarrow> Room \<Rightarrow> bool" where
  "role_taken role rm = (case role of roleCaller \<Rightarrow> rm_caller rm \<noteq> None | roleAgent \<Rightarrow> rm_agent rm \<noteq> None)"

definition seat :: "peerRole \<Rightarrow> nat \<Rightarrow> Room \<Rightarrow> Room" where
  "seat role p rm =
     (let rm1 = (case role of roleCaller \<Rightarrow> rm\<lparr>rm_caller := Some p\<rparr> | roleAgent \<Rightarrow> rm\<lparr>rm_agent := Some p\<rparr>);
          rm2 = rm1\<lparr>rm_bridges := rm_bridges rm1 @ [(p, role)]\<rparr>
      in if is_full rm2 then rm2\<lparr>rm_idleTimer := None\<rparr> else rm2)"

definition join_locked :: "string \<Rightarrow> peerRole \<Rightarrow> bool \<Rightarrow> nat \<Rightarrow> Manager \<Rightarrow> Manager" where
  "join_locked roomID role peerOk r m =
     (if role_taken role (mg_heap m ! r)
      then m\<lparr>mg_results := mg_results m @ [JoinErr (ErrNew ''webrtcgw: role already taken in this room'')]\<rparr>
      else if \<not> peerOk
      then m\<lparr>mg_results := mg_results m @ [JoinErr (ErrWrap ''webrtcgw: creating peer for room'' (ErrNew ''newPeer''))]\<rparr>
      else let p = mg_nextPeer m
           in (upd_room r (seat role p) m)\<lparr>mg_nextPeer := p + 1, mg_results := mg_results m @ [JoinOk p roomID role r]\<rparr>)"

subsection \<open>leave and expireIncomplete\<close>

definition unseat :: "peerRole \<Rightarrow> Room \<Rightarrow> Room" where
  "unseat role rm = (case role of roleCaller \<Rightarrow> rm\<lparr>rm_caller := None\<rparr> | roleAgent \<Rightarrow> rm\<lparr>rm_agent := None\<rparr>)"

text \<open>\<open>Some timer\<close>: the room is now empty and closed and must be torn down.\<close>

definition leave_locked :: "peerRole \<Rightarrow> nat \<Rightarrow> Manager \<Rightarrow> bool option \<times> Manager" where
  "leave_locked role r m =
     (let rm = mg_heap m ! r
      in if rm_closed rm then (None, m)
         else let rm1 = unseat role rm;
                  rm2 = (if is_empty rm1 then rm1\<lparr>rm_closed := True\<rparr> else rm1)
              in (if is_empty rm1 then Some (rm_idleTimer rm2 \<noteq> None) else None, upd_room r (\<lambda>_. rm2) m))"

definition peers_of :: "Room \<Rightarrow> nat list" where
  "peers_of rm = (case rm_caller rm of Some p \<Rightarrow> [p] | None \<Rightarrow> []) @ (case rm_agent rm of Some p \<Rightarrow> [p] | None \<Rightarrow> [])"

definition expire_locked :: "nat \<Rightarrow> Manager \<Rightarrow> nat list option \<times> Manager" where
  "expire_locked r m =
     (let rm = mg_heap m ! r
      in if rm_closed rm \<or> is_full rm then (None, m)
         else (Some (peers_of rm), upd_room r (\<lambda>rm. rm\<lparr>rm_closed := True, rm_caller := None, rm_agent := None\<rparr>) m))"

definition stop_timer :: "nat \<Rightarrow> Manager \<Rightarrow> Manager" where
  "stop_timer r m = upd_room r (\<lambda>rm. rm\<lparr>rm_idleTimer := map_option (\<lambda>_. False) (rm_idleTimer rm)\<rparr>) m"

definition delete_room :: "string \<Rightarrow> nat \<Rightarrow> Manager \<Rightarrow> Manager" where
  "delete_room roomID r m =
     (if map_of (mg_rooms m) roomID = Some r then m\<lparr>mg_rooms := al_del roomID (mg_rooms m)\<rparr> else m)"

definition cancel_room :: "nat \<Rightarrow> nat list \<Rightarrow> Manager \<Rightarrow> Manager" where
  "cancel_room r ps m =
     (upd_room r (\<lambda>rm. rm\<lparr>rm_cancelled := True\<rparr>) m)\<lparr>mg_peersClosed := mg_peersClosed m @ ps\<rparr>"

definition close_session :: "nat \<Rightarrow> Manager \<Rightarrow> Manager" where
  "close_session r m = upd_room r (\<lambda>rm. rm\<lparr>rm_sessionClosed := rm_sessionClosed rm + 1\<rparr>) m"

subsection \<open>Threads\<close>

datatype pc =
    JoinLookup string peerRole bool bool
  | JoinCheck string peerRole bool bool nat
  | JoinArm string peerRole bool nat
  | JoinLocked string peerRole bool nat
  | LeaveLookup string peerRole
  | LeaveLocked string peerRole nat
  | LeaveStop string nat bool
  | ExpireLocked string nat
  | TearDelete string nat "nat list"
  | TearCancel nat "nat list"
  | TearClose nat

text \<open>One critical section of a thread, and where the thread stands afterwards.\<close>

fun run_pc :: "pc \<Rightarrow> Manager \<Rightarrow> Manager \<times> pc list" where
  "run_pc (JoinLookup i role so po) m =
     (case roomFor_lookup i so m of
        (Existing r, m1) \<Rightarrow> (m1, [JoinCheck i role so po r])
      | (Created r, m1) \<Rightarrow> (m1, [JoinArm i role po r])
      | (Refused e, m1) \<Rightarrow> (m1\<lparr>mg_results := mg_results m1 @ [JoinErr e]\<rparr>, []))"
| "run_pc (JoinCheck i role so po r) m =
     (m, if rm_closed (mg_heap m ! r) then [JoinLookup i role so po] else [JoinLocked i role po r])"
| "run_pc (JoinArm i role po r) m = (roomFor_arm r m, [JoinLocked i role po r])"
| "run_pc (JoinLocked i role po r) m = (join_locked i role po r m, [])"
| "run_pc (LeaveLookup i role) m =
     (m, case map_of (mg_rooms m) i of None \<Rightarrow> [] | Some r \<Rightarrow> [LeaveLocked i role r])"
| "run_pc (LeaveLocked i role r) m =
     (case leave_locked role r m of (None, m1) \<Rightarrow> (m1, []) | (Some t, m1) \<Rightarrow> (m1, [LeaveStop i r t]))"
| "run_pc (LeaveStop i r t) m = (if t then stop_timer r m else m, [TearDelete i r []])"
| "run_pc (ExpireLocked i r) m =
     (case expire_locked r m of (None, m1) \<Rightarrow> (m1, []) | (Some ps, m1) \<Rightarrow> (m1, [TearDelete i r ps]))"
| "run_pc (TearDelete i r ps) m = (delete_room i r m, [TearCancel r ps])"
| "run_pc (TearCancel r ps) m = (cancel_room r ps m, [TearClose r])"
| "run_pc (TearClose r) m = (close_session r m, [])"

text \<open>
  The events of a gateway: a browser joins; a peer that joined leaves (its WebSocket closes, or its
  connection fails, disconnects or closes: the handler and the callback both call \<open>leave\<close>, so one
  departure gives several); a pending idle timer fires; the scheduler runs a thread.
\<close>

datatype gw_event = CallJoin string peerRole bool bool | CallLeave nat | TimerFires nat | RunThread nat

fun join_of :: "nat \<Rightarrow> join_result list \<Rightarrow> (string \<times> peerRole) option" where
  "join_of p [] = None"
| "join_of p (JoinOk q i role r # rs) = (if p = q then Some (i, role) else join_of p rs)"
| "join_of p (JoinErr e # rs) = join_of p rs"

type_synonym gateway = "Manager \<times> pc list"

fun gw_exec :: "gateway \<Rightarrow> gw_event \<Rightarrow> gateway option" where
  "gw_exec (m, ts) (CallJoin i role so po) = Some (m, ts @ [JoinLookup i role so po])"
| "gw_exec (m, ts) (CallLeave p) =
     (case join_of p (mg_results m) of None \<Rightarrow> None | Some (i, role) \<Rightarrow> Some (m, ts @ [LeaveLookup i role]))"
| "gw_exec (m, ts) (TimerFires r) =
     (if r < length (mg_heap m) \<and> rm_idleTimer (mg_heap m ! r) = Some True
      then Some (upd_room r (\<lambda>rm. rm\<lparr>rm_idleTimer := Some False\<rparr>) m, ts @ [ExpireLocked (rm_id (mg_heap m ! r)) r])
      else None)"
| "gw_exec (m, ts) (RunThread n) =
     (if n < length ts then (case run_pc (ts ! n) m of (m1, qs) \<Rightarrow> Some (m1, take n ts @ qs @ drop (Suc n) ts)) else None)"

fun gw_run :: "gateway \<Rightarrow> gw_event list \<Rightarrow> gateway option" where
  "gw_run g [] = Some g"
| "gw_run g (e # es) = (case gw_exec g e of None \<Rightarrow> None | Some g1 \<Rightarrow> gw_run g1 es)"

definition reachable :: "ManagerOption list \<Rightarrow> gateway \<Rightarrow> bool" where
  "reachable opts g \<longleftrightarrow> (\<exists>es. gw_run (NewManager opts, []) es = Some g)"

end
