(* ===== verification/RoomsProps.thy ===== *)
theory RoomsProps
  imports Rooms
begin

section \<open>The life of a room\<close>

text \<open>
  The invariant of the room manager over all interleavings, and what it gives: the registry is
  exact once the threads have run, and every closed room is torn down exactly once; the idle
  timeout; and two interleavings that the code does not exclude.
\<close>

subsection \<open>The invariant\<close>

text \<open>The threads that still owe a room its tear-down, and those that still owe its removal from the map.\<close>

fun tw :: "nat \<Rightarrow> pc \<Rightarrow> nat" where
  "tw r (LeaveStop i q t) = (if q = r then 1 else 0)"
| "tw r (TearDelete i q ps) = (if q = r then 1 else 0)"
| "tw r (TearCancel q ps) = (if q = r then 1 else 0)"
| "tw r (TearClose q) = (if q = r then 1 else 0)"
| "tw r _ = 0"

fun dw :: "nat \<Rightarrow> pc \<Rightarrow> nat" where
  "dw r (LeaveStop i q t) = (if q = r then 1 else 0)"
| "dw r (TearDelete i q ps) = (if q = r then 1 else 0)"
| "dw r _ = 0"

fun pc_ok :: "Manager \<Rightarrow> pc \<Rightarrow> bool" where
  "pc_ok m (JoinLookup i role so po) = True"
| "pc_ok m (LeaveLookup i role) = True"
| "pc_ok m (JoinCheck i role so po r) = (r < length (mg_heap m))"
| "pc_ok m (JoinArm i role po r) = (r < length (mg_heap m))"
| "pc_ok m (JoinLocked i role po r) = (r < length (mg_heap m))"
| "pc_ok m (LeaveLocked i role r) = (r < length (mg_heap m) \<and> rm_id (mg_heap m ! r) = i)"
| "pc_ok m (LeaveStop i r t) = (r < length (mg_heap m) \<and> rm_id (mg_heap m ! r) = i)"
| "pc_ok m (ExpireLocked i r) = (r < length (mg_heap m) \<and> rm_id (mg_heap m ! r) = i)"
| "pc_ok m (TearDelete i r ps) = (r < length (mg_heap m) \<and> rm_id (mg_heap m ! r) = i)"
| "pc_ok m (TearCancel r ps) = (r < length (mg_heap m))"
| "pc_ok m (TearClose r) = (r < length (mg_heap m) \<and> rm_cancelled (mg_heap m ! r))"

text \<open>One room, with \<open>c\<close> tear-downs and \<open>d\<close> removals outstanding.\<close>

definition room_ok :: "Manager \<Rightarrow> nat \<Rightarrow> nat \<Rightarrow> nat \<Rightarrow> bool" where
  "room_ok m c d r \<longleftrightarrow>
     (let rm = mg_heap m ! r; listed = (map_of (mg_rooms m) (rm_id rm) = Some r)
      in rm_sessionClosed rm + c = (if rm_closed rm then 1 else 0)
         \<and> (\<not> rm_closed rm \<longrightarrow> listed) \<and> (rm_closed rm \<longrightarrow> listed \<longrightarrow> 0 < d)
         \<and> (0 < rm_sessionClosed rm \<longrightarrow> rm_cancelled rm))"

definition registry_ok :: "Manager \<Rightarrow> bool" where
  "registry_ok m \<longleftrightarrow> wf_al (mg_rooms m)
     \<and> (\<forall>i r. map_of (mg_rooms m) i = Some r \<longrightarrow> r < length (mg_heap m) \<and> rm_id (mg_heap m ! r) = i)
     \<and> (0 < mg_maxRooms m \<longrightarrow> int (length (mg_rooms m)) \<le> mg_maxRooms m)"

definition gw_inv :: "gateway \<Rightarrow> bool" where
  "gw_inv g \<longleftrightarrow> (case g of (m, ts) \<Rightarrow>
     registry_ok m \<and> (\<forall>t \<in> set ts. pc_ok m t)
     \<and> (\<forall>r < length (mg_heap m). room_ok m (\<Sum>t\<leftarrow>ts. tw r t) (\<Sum>t\<leftarrow>ts. dw r t) r))"

text \<open>What a step may do to the heap: grow it, keep the names, never take a cancellation back.\<close>

definition heap_le :: "Manager \<Rightarrow> Manager \<Rightarrow> bool" where
  "heap_le m m' \<longleftrightarrow> length (mg_heap m) \<le> length (mg_heap m')
     \<and> (\<forall>r < length (mg_heap m). rm_id (mg_heap m' ! r) = rm_id (mg_heap m ! r)
          \<and> (rm_cancelled (mg_heap m ! r) \<longrightarrow> rm_cancelled (mg_heap m' ! r)))"

lemma heap_le_refl [simp]: "heap_le m m"
  by (simp add: heap_le_def)

lemma pc_ok_mono: "pc_ok m t \<Longrightarrow> heap_le m m' \<Longrightarrow> pc_ok m' t"
  by (cases t) (auto simp: heap_le_def)

lemma tw_fresh: "pc_ok m t \<Longrightarrow> length (mg_heap m) \<le> r \<Longrightarrow> tw r t = 0"
  by (cases t) auto

lemma upd_room_simps [simp]:
  "length (mg_heap (upd_room r f m)) = length (mg_heap m)" "mg_rooms (upd_room r f m) = mg_rooms m"
  "mg_maxRooms (upd_room r f m) = mg_maxRooms m" "mg_results (upd_room r f m) = mg_results m"
  "mg_peersClosed (upd_room r f m) = mg_peersClosed m" "mg_idleTimeout (upd_room r f m) = mg_idleTimeout m"
  "q < length (mg_heap m) \<Longrightarrow> mg_heap (upd_room r f m) ! q = (if q = r then f (mg_heap m ! r) else mg_heap m ! q)"
  by (simp_all add: upd_room_def nth_list_update)

lemma seat_simps [simp]:
  "rm_id (seat role p rm) = rm_id rm" "rm_cancelled (seat role p rm) = rm_cancelled rm"
  "rm_sessionClosed (seat role p rm) = rm_sessionClosed rm" "rm_closed (seat role p rm) = rm_closed rm"
  by (cases role; simp add: seat_def Let_def)+

lemma unseat_simps [simp]:
  "rm_id (unseat role rm) = rm_id rm" "rm_cancelled (unseat role rm) = rm_cancelled rm"
  "rm_sessionClosed (unseat role rm) = rm_sessionClosed rm" "rm_closed (unseat role rm) = rm_closed rm"
  by (cases role; simp add: unseat_def)+

subsection \<open>Every section keeps it\<close>

lemmas section_defs = roomFor_arm_def join_locked_def leave_locked_def expire_locked_def stop_timer_def
  cancel_room_def close_session_def room_ok_def registry_ok_def heap_le_def Let_def

lemma results_irrelevant [simp]:
  "registry_ok (m\<lparr>mg_results := x\<rparr>) = registry_ok m" "room_ok (m\<lparr>mg_results := x\<rparr>) c d r = room_ok m c d r"
  "registry_ok (m\<lparr>mg_nextPeer := n\<rparr>) = registry_ok m" "room_ok (m\<lparr>mg_nextPeer := n\<rparr>) c d r = room_ok m c d r"
  "registry_ok (m\<lparr>mg_peersClosed := ps\<rparr>) = registry_ok m" "room_ok (m\<lparr>mg_peersClosed := ps\<rparr>) c d r = room_ok m c d r"
  "heap_le k (m\<lparr>mg_results := x\<rparr>) = heap_le k m" "heap_le k (m\<lparr>mg_nextPeer := n\<rparr>) = heap_le k m"
  "heap_le k (m\<lparr>mg_peersClosed := ps\<rparr>) = heap_le k m"
  by (simp_all add: registry_ok_def room_ok_def heap_le_def)

lemma registry_ok_upd:
  assumes "rm_id (f (mg_heap m ! r)) = rm_id (mg_heap m ! r)" "registry_ok m"
  shows "registry_ok (upd_room r f m)"
proof -
  have ids: "rm_id (mg_heap (upd_room r f m) ! q) = rm_id (mg_heap m ! q)" for q
    using assms(1) by (cases "q = r"; cases "r < length (mg_heap m)") (simp_all add: upd_room_def list_update_beyond)
  show ?thesis using assms(2) unfolding registry_ok_def upd_room_simps(1,2,3) ids .
qed

text \<open>A section that writes one room: only that room has to be looked at.\<close>

lemma upd_room_ok:
  assumes "registry_ok m" "r < length (mg_heap m)" "rm_id (f (mg_heap m ! r)) = rm_id (mg_heap m ! r)"
    and "rm_cancelled (mg_heap m ! r) \<Longrightarrow> rm_cancelled (f (mg_heap m ! r))"
    and "\<forall>q < length (mg_heap m). room_ok m (c q + tw q t) (d q + dw q t) q"
    and "\<And>q. q \<noteq> r \<Longrightarrow> tw q t = (\<Sum>p\<leftarrow>qs. tw q p) \<and> dw q t = (\<Sum>p\<leftarrow>qs. dw q p)"
    and "room_ok m (c r + tw r t) (d r + dw r t) r \<Longrightarrow>
           room_ok (upd_room r f m) (c r + (\<Sum>p\<leftarrow>qs. tw r p)) (d r + (\<Sum>p\<leftarrow>qs. dw r p)) r"
  shows "registry_ok (upd_room r f m) \<and> heap_le m (upd_room r f m)
    \<and> (\<forall>q < length (mg_heap m). room_ok (upd_room r f m) (c q + (\<Sum>p\<leftarrow>qs. tw q p)) (d q + (\<Sum>p\<leftarrow>qs. dw q p)) q)"
proof (intro conjI allI impI)
  show "registry_ok (upd_room r f m)" using assms(3,1) by (rule registry_ok_upd)
  show "heap_le m (upd_room r f m)" using assms(2-4) by (simp add: heap_le_def)
  fix q assume q: "q < length (mg_heap m)"
  show "room_ok (upd_room r f m) (c q + (\<Sum>p\<leftarrow>qs. tw q p)) (d q + (\<Sum>p\<leftarrow>qs. dw q p)) q"
  proof (cases "q = r")
    case True
    then show ?thesis using assms(5,7) q by simp
  next
    case False
    then have "room_ok (upd_room r f m) x y q = room_ok m x y q" for x y using q by (simp add: room_ok_def Let_def)
    then show ?thesis using assms(5) assms(6) [OF False] q by metis
  qed
qed

lemma run_pc_ok:
  assumes "registry_ok m" "pc_ok m t" "\<forall>r < length (mg_heap m). room_ok m (c r + tw r t) (d r + dw r t) r"
    and "\<forall>r \<ge> length (mg_heap m). c r = 0" "run_pc t m = (m', qs)"
  shows "registry_ok m' \<and> heap_le m m' \<and> (\<forall>q \<in> set qs. pc_ok m' q)
    \<and> (\<forall>r < length (mg_heap m'). room_ok m' (c r + (\<Sum>q\<leftarrow>qs. tw r q)) (d r + (\<Sum>q\<leftarrow>qs. dw r q)) r)"
proof (cases t)
  case (JoinLookup i role so po)
  consider (existing) r where "map_of (mg_rooms m) i = Some r" | (refused) e where "roomFor_lookup i so m = (Refused e, m)"
    | (new) "map_of (mg_rooms m) i = None" "\<not> (mg_maxRooms m > 0 \<and> int (length (mg_rooms m)) \<ge> mg_maxRooms m)" "so"
    by (cases "map_of (mg_rooms m) i"; cases "mg_maxRooms m > 0 \<and> int (length (mg_rooms m)) \<ge> mg_maxRooms m"; cases so)
      (simp_all add: roomFor_lookup_def del: de_Morgan_conj)
  then show ?thesis
  proof cases
    case existing
    then show ?thesis using assms JoinLookup by (auto simp: roomFor_lookup_def registry_ok_def)
  next
    case refused
    then have "m' = m\<lparr>mg_results := mg_results m @ [JoinErr e]\<rparr>" "qs = []" using assms(5) JoinLookup by simp_all
    then show ?thesis using assms(1-3) JoinLookup by simp
  next
    case new
    then have k: "i \<notin> keys (mg_rooms m)" by (simp add: map_of_None_keys)
    let ?n = "length (mg_heap m)"
    define room where "room = \<lparr>rm_id = i, rm_cancelled = False, rm_sessionClosed = 0, rm_caller = None, rm_agent = None,
                           rm_closed = False, rm_idleTimer = None, rm_bridges = []\<rparr>"
    have m': "m' = m\<lparr>mg_heap := mg_heap m @ [room], mg_rooms := al_put i ?n (mg_rooms m)\<rparr>"
      and qs: "qs = [JoinArm i role po ?n]"
      using new(1,3) assms(5) JoinLookup
      by (simp_all only: run_pc.simps roomFor_lookup_def option.case if_not_P [OF new(2)] simp_thms if_False Let_def
            prod.case lookup.case room_def; simp)+
    have "registry_ok m'"
      using assms(1) new(2) k by (auto simp: registry_ok_def m' nth_append room_def length_al_put_new intro: less_SucI)
    moreover have "heap_le m m'" by (simp add: heap_le_def m' nth_append)
    moreover have "room_ok m' (c r) (d r) r" if r: "r < Suc ?n" for r
    proof (cases "r = ?n")
      case True
      then show ?thesis using assms(4) by (simp add: room_ok_def m' nth_append room_def)
    next
      case False
      then have "r < ?n" using r by simp
      then show ?thesis using assms(3) JoinLookup new(1) by (auto simp: room_ok_def m' nth_append Let_def)
    qed
    ultimately show ?thesis by (simp add: qs m')
  qed
next
  case (TearDelete i r ps)
  let ?l = "map_of (mg_rooms m) i = Some r"
  have m': "m' = delete_room i r m" and qs: "qs = [TearCancel r ps]" using assms(5) TearDelete by simp_all
  have r: "r < length (mg_heap m)" "rm_id (mg_heap m ! r) = i" using assms(2) TearDelete by simp_all
  have h: "mg_heap m' = mg_heap m" and mx: "mg_maxRooms m' = mg_maxRooms m" by (simp_all add: m' delete_room_def)
  have mp: "map_of (mg_rooms m') = (if ?l then (map_of (mg_rooms m))(i := None) else map_of (mg_rooms m))"
    by (simp add: m' delete_room_def)
  have len: "length (mg_rooms m') \<le> length (mg_rooms m)" by (simp add: m' delete_room_def length_al_del_le)
  have "wf_al (mg_rooms m) \<Longrightarrow> wf_al (mg_rooms m')" by (simp add: m' delete_room_def wf_al_del)
  then have "registry_ok m'" using assms(1) len by (auto simp: registry_ok_def h mx mp split: if_splits)
  moreover have "heap_le m m'" by (simp add: heap_le_def h)
  moreover have "room_ok m' (c q + tw q (TearCancel r ps)) (d q) q" if q: "q < length (mg_heap m)" for q
  proof (cases "q = r")
    case True
    from assms(3) r(1) TearDelete have ok: "room_ok m (c r + 1) (d r + 1) r" by auto
    then have "rm_closed (mg_heap m ! r)" by (auto simp: room_ok_def Let_def split: if_splits)
    with ok show ?thesis using True r(2) by (auto simp: room_ok_def h mp Let_def)
  next
    case False
    have "\<not> (?l \<and> rm_id (mg_heap m ! q) = i \<and> map_of (mg_rooms m) (rm_id (mg_heap m ! q)) = Some q)" using False by auto
    then have "map_of (mg_rooms m') (rm_id (mg_heap m ! q)) = Some q \<longleftrightarrow> map_of (mg_rooms m) (rm_id (mg_heap m ! q)) = Some q"
      by (auto simp: mp)
    moreover have "room_ok m (c q) (d q) q" using assms(3) q False TearDelete by auto
    ultimately show ?thesis using False by (simp add: room_ok_def h Let_def)
  qed
  ultimately show ?thesis using r by (simp add: qs h)
next
  case (JoinCheck i role so po r)
  then show ?thesis using assms by (auto split: if_splits)
next
  case (LeaveLookup i role)
  then show ?thesis using assms by (auto simp: registry_ok_def split: option.splits)
next
  case (JoinArm i role po r)
  then have e: "m' = roomFor_arm r m" "qs = [JoinLocked i role po r]" and r: "r < length (mg_heap m)" using assms by simp_all
  have "registry_ok (upd_room r (\<lambda>rm. rm\<lparr>rm_idleTimer := Some True\<rparr>) m)
    \<and> heap_le m (upd_room r (\<lambda>rm. rm\<lparr>rm_idleTimer := Some True\<rparr>) m)
    \<and> (\<forall>q < length (mg_heap m). room_ok (upd_room r (\<lambda>rm. rm\<lparr>rm_idleTimer := Some True\<rparr>) m)
         (c q + (\<Sum>p\<leftarrow>qs. tw q p)) (d q + (\<Sum>p\<leftarrow>qs. dw q p)) q)"
    using assms(3) JoinArm r by (intro upd_room_ok [OF assms(1) r, of _ c t d]) (simp_all add: e room_ok_def Let_def)
  then show ?thesis using r assms(1,3) JoinArm by (simp add: e roomFor_arm_def)
next
  case (JoinLocked i role po r)
  then have e: "m' = join_locked i role po r m" "qs = []" and r: "r < length (mg_heap m)" using assms by simp_all
  have "registry_ok (upd_room r (seat role (mg_nextPeer m)) m) \<and> heap_le m (upd_room r (seat role (mg_nextPeer m)) m)
    \<and> (\<forall>q < length (mg_heap m). room_ok (upd_room r (seat role (mg_nextPeer m)) m)
         (c q + (\<Sum>p\<leftarrow>qs. tw q p)) (d q + (\<Sum>p\<leftarrow>qs. dw q p)) q)"
    using assms(3) JoinLocked r by (intro upd_room_ok [OF assms(1) r, of _ c t d]) (simp_all add: e room_ok_def Let_def)
  then show ?thesis using r assms(1,3) JoinLocked by (simp add: e join_locked_def Let_def)
next
  case (LeaveLocked i role r)
  let ?u = "unseat role (mg_heap m ! r)"
  let ?f = "\<lambda>_. if is_empty ?u then ?u\<lparr>rm_closed := True\<rparr> else ?u"
  have r: "r < length (mg_heap m)" "rm_id (mg_heap m ! r) = i" using assms(2) LeaveLocked by simp_all
  show ?thesis
  proof (cases "rm_closed (mg_heap m ! r)")
    case True
    then show ?thesis using assms LeaveLocked by (simp add: leave_locked_def Let_def)
  next
    case False
    then have m': "m' = upd_room r ?f m"
      and qs: "qs = (if is_empty ?u then [LeaveStop i r (rm_idleTimer (?f ()) \<noteq> None)] else [])"
      using assms(5) LeaveLocked by (auto simp: leave_locked_def Let_def)
    have "registry_ok m' \<and> heap_le m m' \<and> (\<forall>q < length (mg_heap m). room_ok m' (c q + (\<Sum>p\<leftarrow>qs. tw q p)) (d q + (\<Sum>p\<leftarrow>qs. dw q p)) q)"
      unfolding m' using assms(3) LeaveLocked r False
      by (intro upd_room_ok [OF assms(1) r(1), of _ c t d]) (auto simp: qs room_ok_def Let_def)
    then show ?thesis using r by (simp add: qs m')
  qed
next
  case (LeaveStop i r b)
  have r: "r < length (mg_heap m)" "rm_id (mg_heap m ! r) = i" using assms(2) LeaveStop by simp_all
  have e: "m' = (if b then stop_timer r m else m)" "qs = [TearDelete i r []]" using assms(5) LeaveStop by simp_all
  let ?f = "\<lambda>rm. rm\<lparr>rm_idleTimer := map_option (\<lambda>_. False) (rm_idleTimer rm)\<rparr>"
  have "registry_ok (upd_room r ?f m) \<and> heap_le m (upd_room r ?f m)
    \<and> (\<forall>q < length (mg_heap m). room_ok (upd_room r ?f m) (c q + (\<Sum>p\<leftarrow>qs. tw q p)) (d q + (\<Sum>p\<leftarrow>qs. dw q p)) q)"
    using assms(3) LeaveStop r by (intro upd_room_ok [OF assms(1) r(1), of _ c t d]) (simp_all add: e room_ok_def Let_def)
  then show ?thesis using r assms(1,3) LeaveStop by (simp add: e stop_timer_def)
next
  case (ExpireLocked i r)
  have r: "r < length (mg_heap m)" "rm_id (mg_heap m ! r) = i" using assms(2) ExpireLocked by simp_all
  let ?f = "\<lambda>rm. rm\<lparr>rm_closed := True, rm_caller := None, rm_agent := None\<rparr>"
  show ?thesis
  proof (cases "rm_closed (mg_heap m ! r) \<or> is_full (mg_heap m ! r)")
    case True
    then show ?thesis using assms ExpireLocked by (simp add: expire_locked_def Let_def)
  next
    case False
    then have m': "m' = upd_room r ?f m" and qs: "qs = [TearDelete i r (peers_of (mg_heap m ! r))]"
      using assms(5) ExpireLocked by (auto simp: expire_locked_def Let_def)
    have "registry_ok m' \<and> heap_le m m' \<and> (\<forall>q < length (mg_heap m). room_ok m' (c q + (\<Sum>p\<leftarrow>qs. tw q p)) (d q + (\<Sum>p\<leftarrow>qs. dw q p)) q)"
      unfolding m' using assms(3) ExpireLocked r False
      by (intro upd_room_ok [OF assms(1) r(1), of _ c t d]) (auto simp: qs room_ok_def Let_def)
    then show ?thesis using r by (simp add: qs m')
  qed
next
  case (TearCancel r ps)
  have r: "r < length (mg_heap m)" using assms(2) TearCancel by simp
  let ?u = "upd_room r (\<lambda>rm. rm\<lparr>rm_cancelled := True\<rparr>) m"
  have e: "m' = ?u\<lparr>mg_peersClosed := mg_peersClosed m @ ps\<rparr>" "qs = [TearClose r]"
    using assms(5) TearCancel by (simp_all add: cancel_room_def)
  have "registry_ok ?u \<and> heap_le m ?u
    \<and> (\<forall>q < length (mg_heap m). room_ok ?u (c q + (\<Sum>p\<leftarrow>qs. tw q p)) (d q + (\<Sum>p\<leftarrow>qs. dw q p)) q)"
    using assms(3) TearCancel r by (intro upd_room_ok [OF assms(1) r, of _ c t d]) (simp_all add: e room_ok_def Let_def)
  then show ?thesis using r by (simp add: e)
next
  case (TearClose r)
  have r: "r < length (mg_heap m)" "rm_cancelled (mg_heap m ! r)" using assms(2) TearClose by simp_all
  have e: "m' = close_session r m" "qs = []" using assms(5) TearClose by simp_all
  have "registry_ok m' \<and> heap_le m m' \<and> (\<forall>q < length (mg_heap m). room_ok m' (c q + (\<Sum>p\<leftarrow>qs. tw q p)) (d q + (\<Sum>p\<leftarrow>qs. dw q p)) q)"
    unfolding e(1) close_session_def using assms(3) TearClose r
    by (intro upd_room_ok [OF assms(1) r(1), of _ c t d]) (simp_all add: e room_ok_def Let_def)
  then show ?thesis using r by (simp add: e close_session_def)
qed

lemma gw_exec_inv:
  assumes "gw_inv (m, ts)" "gw_exec (m, ts) e = Some g"
  shows "gw_inv g"
proof (cases e)
  case (RunThread n)
  then have n: "n < length ts" using assms(2) by (auto split: if_splits)
  define xs where "xs = take n ts"
  define ys where "ys = drop (Suc n) ts"
  have ts: "ts = xs @ ts ! n # ys" using n by (simp add: xs_def ys_def id_take_nth_drop [symmetric])
  obtain m' qs where r: "run_pc (ts ! n) m = (m', qs)" by fastforce
  have g: "g = (m', xs @ qs @ ys)" using assms(2) RunThread n r by (simp add: xs_def ys_def)
  define c where "c r = (\<Sum>t\<leftarrow>xs. tw r t) + (\<Sum>t\<leftarrow>ys. tw r t)" for r
  define d where "d r = (\<Sum>t\<leftarrow>xs. dw r t) + (\<Sum>t\<leftarrow>ys. dw r t)" for r
  have inv: "registry_ok m" "\<forall>t \<in> set ts. pc_ok m t"
    "\<forall>r < length (mg_heap m). room_ok m (\<Sum>t\<leftarrow>ts. tw r t) (\<Sum>t\<leftarrow>ts. dw r t) r"
    using assms(1) by (simp_all add: gw_inv_def)
  have ok: "pc_ok m (ts ! n)" "\<forall>t \<in> set xs \<union> set ys. pc_ok m t" using inv(2) ts by (metis UnE in_set_conv_decomp in_set_takeD in_set_dropD xs_def ys_def)+
  have sums: "(\<Sum>t\<leftarrow>ts. tw r t) = c r + tw r (ts ! n)" "(\<Sum>t\<leftarrow>ts. dw r t) = d r + dw r (ts ! n)" for r
    by (subst ts, simp add: c_def d_def)+
  have fresh: "\<forall>r \<ge> length (mg_heap m). c r = 0"
  proof (intro allI impI)
    fix r assume "length (mg_heap m) \<le> r"
    then have "\<forall>t \<in> set xs \<union> set ys. tw r t = 0" using ok(2) tw_fresh by blast
    then show "c r = 0" by (simp add: c_def)
  qed
  from run_pc_ok [OF inv(1) ok(1) _ fresh r, of d] inv(3) sums
  have new: "registry_ok m'" "heap_le m m'" "\<forall>q \<in> set qs. pc_ok m' q"
    "\<forall>r < length (mg_heap m'). room_ok m' (c r + (\<Sum>q\<leftarrow>qs. tw r q)) (d r + (\<Sum>q\<leftarrow>qs. dw r q)) r"
    by simp_all
  have "(\<Sum>t\<leftarrow>xs @ qs @ ys. tw r t) = c r + (\<Sum>q\<leftarrow>qs. tw r q)" "(\<Sum>t\<leftarrow>xs @ qs @ ys. dw r t) = d r + (\<Sum>q\<leftarrow>qs. dw r q)" for r
    by (simp_all add: c_def d_def)
  then show ?thesis using new ok(2) pc_ok_mono [OF _ new(2)] unfolding g gw_inv_def prod.case by (metis UnE UnI1 UnI2 set_append)
next
  case (TimerFires r)
  let ?m' = "upd_room r (\<lambda>rm. rm\<lparr>rm_idleTimer := Some False\<rparr>) m"
  have r: "r < length (mg_heap m)" and g: "g = (?m', ts @ [ExpireLocked (rm_id (mg_heap m ! r)) r])"
    using assms(2) TimerFires by (simp_all split: if_splits)
  have le: "heap_le m ?m'" by (simp add: heap_le_def)
  have "room_ok ?m' c d q = room_ok m c d q" if "q < length (mg_heap m)" for c d q
    using that by (simp add: room_ok_def Let_def)
  moreover have "registry_ok m \<Longrightarrow> registry_ok ?m'" by (rule registry_ok_upd) simp_all
  moreover have "\<forall>t \<in> set ts. pc_ok m t \<longrightarrow> pc_ok ?m' t" using pc_ok_mono [OF _ le] by blast
  ultimately show ?thesis using assms(1) r unfolding g gw_inv_def by simp
qed (use assms in \<open>auto simp: gw_inv_def split: option.splits\<close>)

lemma gw_run_inv: "gw_inv g \<Longrightarrow> gw_run g es = Some g' \<Longrightarrow> gw_inv g'"
proof (induction g es rule: gw_run.induct)
  case (2 g e es)
  then show ?case by (cases g) (auto split: option.splits dest: gw_exec_inv)
qed simp

lemma foldl_apply_option:
  "mg_rooms (foldl apply_option m opts) = mg_rooms m" "mg_heap (foldl apply_option m opts) = mg_heap m"
proof (induction opts arbitrary: m)
  case (Cons a opts)
  { case 1 show ?case using Cons by (cases a) simp_all }
  { case 2 show ?case using Cons by (cases a) simp_all }
qed simp_all

lemma reachable_inv: "reachable opts g \<Longrightarrow> gw_inv g"
  unfolding reachable_def
  by (elim exE, rule gw_run_inv [rotated])
    (auto simp: gw_inv_def registry_ok_def NewManager_def foldl_apply_option)

subsection \<open>The registry and the tear-down\<close>

text \<open>
  C4: A room's life. In every interleaving of joins, leaves and idle timers, the session of a room
  is closed at most once, only after the room was marked closed and its context cancelled; the
  number of rooms never exceeds a positive cap; and once no thread is inside the manager, the map
  holds exactly the open rooms, under their names, and every closed room has been torn down.
\<close>
theorem rooms_torn_down_once:
  assumes "reachable opts (m, ts)" "r < length (mg_heap m)"
  shows "let rm = mg_heap m ! r in
     rm_sessionClosed rm \<le> 1 \<and> (rm_sessionClosed rm = 1 \<longrightarrow> rm_closed rm \<and> rm_cancelled rm)
     \<and> (0 < mg_maxRooms m \<longrightarrow> int (RoomCount m) \<le> mg_maxRooms m)
     \<and> (ts = [] \<longrightarrow> (if rm_closed rm then rm_sessionClosed rm = 1 \<and> rm_cancelled rm \<and> r \<notin> snd ` set (mg_rooms m)
                     else map_of (mg_rooms m) (rm_id rm) = Some r))"
proof -
  let ?rm = "mg_heap m ! r"
  have inv: "registry_ok m" "room_ok m (\<Sum>t\<leftarrow>ts. tw r t) (\<Sum>t\<leftarrow>ts. dw r t) r"
    using reachable_inv [OF assms(1)] assms(2) by (simp_all add: gw_inv_def)
  have quiet: "if rm_closed ?rm then rm_sessionClosed ?rm = 1 \<and> rm_cancelled ?rm \<and> r \<notin> snd ` set (mg_rooms m)
      else map_of (mg_rooms m) (rm_id ?rm) = Some r" if "ts = []"
  proof (cases "rm_closed ?rm")
    case True
    have "map_of (mg_rooms m) (rm_id ?rm) \<noteq> Some r" using inv(2) that True by (simp add: room_ok_def Let_def)
    moreover have "(i, r) \<in> set (mg_rooms m) \<Longrightarrow> map_of (mg_rooms m) (rm_id ?rm) = Some r" for i
      using inv(1) by (auto simp: registry_ok_def)
    ultimately have "r \<notin> snd ` set (mg_rooms m)" by auto
    with inv(2) that True show ?thesis by (simp add: room_ok_def Let_def)
  next
    case False
    with inv(2) show ?thesis by (simp add: room_ok_def Let_def)
  qed
  have "rm_sessionClosed ?rm \<le> 1 \<and> (rm_sessionClosed ?rm = 1 \<longrightarrow> rm_closed ?rm \<and> rm_cancelled ?rm)"
    using inv(2) by (auto simp: room_ok_def Let_def split: if_splits)
  moreover have "0 < mg_maxRooms m \<longrightarrow> int (RoomCount m) \<le> mg_maxRooms m"
    using inv(1) by (simp add: registry_ok_def RoomCount_def)
  ultimately show ?thesis using quiet by (simp add: Let_def)
qed

text \<open>A caller joins, nobody else does, and the idle timer fires.\<close>

definition abandoned_events :: "gw_event list" where
  "abandoned_events = [CallJoin ''x'' roleCaller True True, RunThread 0, RunThread 0, RunThread 0,
     TimerFires 0, RunThread 0, RunThread 0, RunThread 0, RunThread 0]"

definition abandoned_gateway :: gateway where
  "abandoned_gateway = the (gw_run (NewManager [WithMaxRooms 1], []) abandoned_events)"

lemmas gw_eval = NewManager_def DefaultRoomIdleTimeout_def roomFor_lookup_def roomFor_arm_def upd_room_def join_locked_def
  role_taken_def seat_def is_full_def is_empty_def unseat_def leave_locked_def expire_locked_def peers_of_def delete_room_def
  cancel_room_def close_session_def stop_timer_def Let_def

lemma abandoned_run:
  "gw_run (NewManager [WithMaxRooms 1], []) abandoned_events = Some abandoned_gateway"
  by (simp add: abandoned_gateway_def abandoned_events_def gw_eval)

lemma abandoned_end:
  "snd abandoned_gateway = []" "length (mg_heap (fst abandoned_gateway)) = 1"
  "rm_closed (mg_heap (fst abandoned_gateway) ! 0)"
  by (simp_all add: abandoned_gateway_def abandoned_events_def gw_eval)

theorem rooms_torn_down_once_witness:
  "rm_sessionClosed (mg_heap (fst abandoned_gateway) ! 0) = 1 \<and> 0 \<notin> snd ` set (mg_rooms (fst abandoned_gateway))"
proof -
  have "reachable [WithMaxRooms 1] (fst abandoned_gateway, [])"
    using abandoned_run abandoned_end(1) unfolding reachable_def by (metis prod.collapse)
  from rooms_torn_down_once [OF this, of 0] abandoned_end show ?thesis by (simp add: Let_def)
qed

subsection \<open>The idle timeout\<close>

lemma run_last: "gw_exec (m, ts @ [t]) (RunThread (length ts)) = (case run_pc t m of (m1, qs) \<Rightarrow> Some (m1, ts @ qs))"
  by (simp split: prod.splits)

lemmas run_last_simps = run_last gw_run.simps

text \<open>
  C21: The idle timeout reclaims incomplete rooms and spares full ones. When the pending timer of an
  open room fires and its thread runs, a room without both peers ends closed, its context is
  cancelled, its session closed once, its lone peer's connection closed and its entry gone from the
  map, all within four steps; a full room keeps everything but the timer.
\<close>
theorem idle_room_reclaimed:
  assumes "reachable opts (m, ts)" "r < length (mg_heap m)" "rm_idleTimer (mg_heap m ! r) = Some True"
    and "\<not> rm_closed (mg_heap m ! r)"
  shows "if is_full (mg_heap m ! r)
    then gw_run (m, ts) [TimerFires r, RunThread (length ts)]
           = Some (upd_room r (\<lambda>rm. rm\<lparr>rm_idleTimer := Some False\<rparr>) m, ts)
    else \<exists>m'. gw_run (m, ts) (TimerFires r # replicate 4 (RunThread (length ts))) = Some (m', ts)
           \<and> rm_closed (mg_heap m' ! r) \<and> rm_cancelled (mg_heap m' ! r) \<and> rm_sessionClosed (mg_heap m' ! r) = 1
           \<and> is_empty (mg_heap m' ! r) \<and> mg_peersClosed m' = mg_peersClosed m @ peers_of (mg_heap m ! r)
           \<and> mg_rooms m' = al_del (rm_id (mg_heap m ! r)) (mg_rooms m)"
proof -
  let ?rm = "mg_heap m ! r"
  let ?t = "upd_room r (\<lambda>rm. rm\<lparr>rm_idleTimer := Some False\<rparr>) m"
  have inv: "room_ok m (\<Sum>t\<leftarrow>ts. tw r t) (\<Sum>t\<leftarrow>ts. dw r t) r"
    using reachable_inv [OF assms(1)] assms(2) by (simp add: gw_inv_def)
  then have listed: "map_of (mg_rooms m) (rm_id ?rm) = Some r" and zero: "rm_sessionClosed ?rm = 0"
    using assms(4) by (simp_all add: room_ok_def Let_def)
  have fire: "gw_exec (m, ts) (TimerFires r) = Some (?t, ts @ [ExpireLocked (rm_id ?rm) r])" using assms(2,3) by simp
  show ?thesis
  proof (cases "is_full ?rm")
    case True
    then have "expire_locked r ?t = (None, ?t)" using assms(2) by (simp add: expire_locked_def is_full_def)
    with fire True show ?thesis by (simp del: gw_exec.simps add: run_last)
  next
    case False
    define m1 where "m1 = snd (expire_locked r ?t)"
    have e: "expire_locked r ?t = (Some (peers_of ?rm), m1)"
      using False assms(2,4) by (simp add: m1_def expire_locked_def is_full_def peers_of_def Let_def)
    have m1: "rm_closed (mg_heap m1 ! r)" "is_empty (mg_heap m1 ! r)" "rm_sessionClosed (mg_heap m1 ! r) = 0"
      "mg_rooms m1 = mg_rooms m" "mg_peersClosed m1 = mg_peersClosed m" "length (mg_heap m1) = length (mg_heap m)"
      using False assms(2,4) zero by (auto simp: m1_def expire_locked_def is_full_def is_empty_def Let_def)
    define m2 where "m2 = m1\<lparr>mg_rooms := al_del (rm_id ?rm) (mg_rooms m1)\<rparr>"
    have d: "delete_room (rm_id ?rm) r m1 = m2" using listed m1(4) by (simp add: delete_room_def m2_def)
    let ?m' = "close_session r (cancel_room r (peers_of ?rm) m2)"
    have "gw_run (m, ts) (TimerFires r # replicate 4 (RunThread (length ts))) = Some (?m', ts)"
      using fire e d by (simp del: gw_exec.simps add: run_last numeral_eq_Suc)
    moreover have "rm_closed (mg_heap ?m' ! r) \<and> rm_cancelled (mg_heap ?m' ! r) \<and> rm_sessionClosed (mg_heap ?m' ! r) = 1
      \<and> is_empty (mg_heap ?m' ! r) \<and> mg_peersClosed ?m' = mg_peersClosed m @ peers_of ?rm
      \<and> mg_rooms ?m' = al_del (rm_id ?rm) (mg_rooms m)"
      using m1 assms(2) by (simp add: close_session_def cancel_room_def upd_room_def m2_def is_empty_def)
    ultimately show ?thesis using False by (metis (no_types))
  qed
qed

definition waiting_gateway :: gateway where
  "waiting_gateway = the (gw_run (NewManager [], []) (take 4 abandoned_events))"

theorem idle_room_reclaimed_witness:
  "\<exists>m'. gw_run waiting_gateway (TimerFires 0 # replicate 4 (RunThread 0)) = Some (m', [])
     \<and> rm_sessionClosed (mg_heap m' ! 0) = 1"
proof -
  have w: "snd waiting_gateway = []" "length (mg_heap (fst waiting_gateway)) = 1"
    "rm_idleTimer (mg_heap (fst waiting_gateway) ! 0) = Some True" "\<not> rm_closed (mg_heap (fst waiting_gateway) ! 0)"
    "\<not> is_full (mg_heap (fst waiting_gateway) ! 0)"
    by (simp_all add: waiting_gateway_def abandoned_events_def gw_eval)
  have "gw_run (NewManager [], []) (take 4 abandoned_events) = Some waiting_gateway"
    by (simp add: waiting_gateway_def abandoned_events_def gw_eval)
  then have "reachable [] (fst waiting_gateway, [])" using w(1) unfolding reachable_def by (metis prod.collapse)
  from idle_room_reclaimed [OF this, of 0] w show ?thesis by (metis list.size(3) prod.collapse zero_less_one)
qed

subsection \<open>What the interleavings allow\<close>

text \<open>
  Peer 0 joins and its connection drops: the connection callback and the handler both call
  \<open>leave\<close>. The first runs, the browser joins again as peer 1, and the second runs.
\<close>

definition rejoin_events :: "gw_event list" where
  "rejoin_events =
     [CallJoin ''x'' roleAgent True True, RunThread 0, RunThread 0, RunThread 0,
      CallJoin ''x'' roleCaller True True, RunThread 0, RunThread 0, RunThread 0,
      CallLeave 1, CallLeave 1, RunThread 0, RunThread 0,
      CallJoin ''x'' roleCaller True True, RunThread 1, RunThread 1, RunThread 1,
      RunThread 0, RunThread 0]"

text \<open>
  A late second \<open>leave\<close> evicts the next peer. There is a run in which peer 1 leaves the caller's
  seat (its two \<open>leave\<close> calls are all that leaves), peer 2 then takes the seat successfully, and in
  the end no thread is running, peer 2's bridges are on and its room open, yet the caller's seat is
  empty again, so a third browser could take it beside peer 2.
\<close>
theorem stale_leave_evicts_next_peer:
  "\<exists>m. gw_run (NewManager [], []) rejoin_events = Some (m, [])
     \<and> list_all (\<lambda>e. case e of CallLeave p \<Rightarrow> p = 1 | TimerFires r \<Rightarrow> False | _ \<Rightarrow> True) rejoin_events
     \<and> mg_results m = [JoinOk 0 ''x'' roleAgent 0, JoinOk 1 ''x'' roleCaller 0, JoinOk 2 ''x'' roleCaller 0]
     \<and> (2, roleCaller) \<in> set (rm_bridges (mg_heap m ! 0)) \<and> \<not> rm_closed (mg_heap m ! 0)
     \<and> rm_caller (mg_heap m ! 0) = None"
  by (simp add: rejoin_events_def gw_eval)

text \<open>
  A room is found open by a second \<open>Join\<close>, closes, and is then joined all the same: \<open>roomFor\<close>
  gives the lock back before \<open>Join\<close> takes it again.
\<close>

definition late_join_events :: "gw_event list" where
  "late_join_events =
     [CallJoin ''x'' roleCaller True True, RunThread 0, RunThread 0, RunThread 0,
      CallJoin ''x'' roleAgent True True, RunThread 0, RunThread 0,
      TimerFires 0, RunThread 1, RunThread 1, RunThread 1, RunThread 1,
      RunThread 0]"

text \<open>
  A peer can join a room that is already torn down. There is a run with a single room in which
  \<open>Join\<close> succeeds for the agent although the room is closed, its context cancelled, its session
  closed and its entry gone from the map; no later \<open>leave\<close> can find that room.
\<close>
theorem join_can_hit_closed_room:
  "\<exists>m. gw_run (NewManager [], []) late_join_events = Some (m, [])
     \<and> JoinOk 1 ''x'' roleAgent 0 \<in> set (mg_results m) \<and> rm_agent (mg_heap m ! 0) = Some 1
     \<and> rm_closed (mg_heap m ! 0) \<and> rm_cancelled (mg_heap m ! 0) \<and> rm_sessionClosed (mg_heap m ! 0) = 1
     \<and> mg_rooms m = [] \<and> fst (run_pc (LeaveLookup ''x'' roleAgent) m) = m \<and> snd (run_pc (LeaveLookup ''x'' roleAgent) m) = []"
  by (simp add: late_join_events_def gw_eval)

end
