(* ===== verification/Peer.thy ===== *)
theory Peer
  imports Rooms Alaw
begin

section \<open>Peers and signaling of the gateway (pkg/webrtcgw/peer.go, signaling.go)\<close>

text \<open>
  What a browser's peer does beyond the library it drives: buffering of ICE candidates until the
  offer is applied, the two audio bridges, and the signaling loop. The peer connection (pion) is
  external: whether its calls succeed is an input, and the candidates given to it are recorded.
\<close>

subsection \<open>ICE candidates and the offer\<close>

record 'c peer =
  pe_role :: peerRole
  pe_pendingICE :: "'c list"
  pe_remoteSet :: bool
  pe_added :: "'c list"

definition newPeer :: "peerRole \<Rightarrow> 'c peer" where
  "newPeer role = \<lparr>pe_role = role, pe_pendingICE = [], pe_remoteSet = False, pe_added = []\<rparr>"

record 'c pc_answers =
  pa_setRemote :: bool
  pa_createAnswer :: "string option"
  pa_setLocal :: bool
  pa_addICE :: "'c \<Rightarrow> bool"

text \<open>The loop over the buffered candidates stops at the first one that is refused.\<close>

fun add_pending :: "('c \<Rightarrow> bool) \<Rightarrow> 'c list \<Rightarrow> 'c list \<times> bool" where
  "add_pending ok [] = ([], True)"
| "add_pending ok (c # cs) = (if ok c then (let (a, r) = add_pending ok cs in (c # a, r)) else ([c], False))"

definition handleOffer :: "'c pc_answers \<Rightarrow> 'c peer \<Rightarrow> string result \<times> 'c peer" where
  "handleOffer a p =
     (if \<not> pa_setRemote a then (Err (ErrNew ''SetRemoteDescription''), p)
      else case pa_createAnswer a of
        None \<Rightarrow> (Err (ErrNew ''CreateAnswer''), p)
      | Some sdp \<Rightarrow>
          if \<not> pa_setLocal a then (Err (ErrNew ''SetLocalDescription''), p)
          else let (added, ok) = add_pending (pa_addICE a) (pe_pendingICE p);
                   p1 = p\<lparr>pe_remoteSet := True, pe_pendingICE := [], pe_added := pe_added p @ added\<rparr>
               in (if ok then Ok sdp else Err (ErrNew ''applying buffered ICE candidate''), p1))"

definition addICECandidate :: "'c pc_answers \<Rightarrow> 'c \<Rightarrow> 'c peer \<Rightarrow> unit result \<times> 'c peer" where
  "addICECandidate a c p =
     (if \<not> pe_remoteSet p then (Ok (), p\<lparr>pe_pendingICE := pe_pendingICE p @ [c]\<rparr>)
      else (if pa_addICE a c then Ok () else Err (ErrNew ''AddICECandidate''), p\<lparr>pe_added := pe_added p @ [c]\<rparr>))"

subsection \<open>Signaling\<close>

record 'c wireMessage =
  wm_Type :: string
  wm_Room :: string
  wm_Role :: string
  wm_SDP :: string
  wm_Candidate :: "'c option"

text \<open>The first message must be a join with a room and one of the two roles.\<close>

definition join_request :: "'c wireMessage \<Rightarrow> (string \<times> peerRole) option" where
  "join_request msg =
     (if wm_Type msg \<noteq> ''join'' \<or> wm_Room msg = [] \<or> (wm_Role msg \<noteq> ''caller'' \<and> wm_Role msg \<noteq> ''agent'') then None
      else Some (wm_Room msg, if wm_Role msg = ''agent'' then roleAgent else roleCaller))"

datatype reply = AnswerMsg string | ErrorMsg

text \<open>
  One message of the loop: the replies written, the peer after it, and whether the loop goes on
  (it ends when the answer cannot be written).
\<close>

definition signal_step :: "'c pc_answers \<Rightarrow> bool \<Rightarrow> 'c wireMessage \<Rightarrow> 'c peer \<Rightarrow> reply list \<times> 'c peer \<times> bool" where
  "signal_step a writeOk msg p =
     (if wm_Type msg = ''offer'' then
        (case handleOffer a p of
           (Inl e, p1) \<Rightarrow> ([ErrorMsg], p1, True)
         | (Inr sdp, p1) \<Rightarrow> ([AnswerMsg sdp], p1, writeOk))
      else if wm_Type msg = ''candidate'' then
        (case wm_Candidate msg of None \<Rightarrow> ([], p, True) | Some c \<Rightarrow> ([], snd (addICECandidate a c p), True))
      else ([ErrorMsg], p, True))"

fun signal_loop :: "('c pc_answers \<times> bool \<times> 'c wireMessage) list \<Rightarrow> 'c peer \<Rightarrow> reply list \<times> 'c peer" where
  "signal_loop [] p = ([], p)"
| "signal_loop ((a, w, msg) # rest) p =
     (let (rs, p1, goon) = signal_step a w msg p
      in if goon then (let (rs', p2) = signal_loop rest p1 in (rs @ rs', p2)) else (rs, p1))"

definition candidate_of :: "'c wireMessage \<Rightarrow> 'c list" where
  "candidate_of msg = (if wm_Type msg = ''candidate'' then (case wm_Candidate msg of None \<Rightarrow> [] | Some c \<Rightarrow> [c]) else [])"

lemma add_pending_all: "\<forall>c. ok c \<Longrightarrow> add_pending ok cs = (cs, True)"
  by (induction cs) simp_all

lemma signal_step_candidates:
  assumes "\<forall>c. pa_addICE a c" "pe_remoteSet p \<longrightarrow> pe_pendingICE p = []" "\<not> pe_remoteSet p \<longrightarrow> pe_added p = []"
    and "signal_step a w msg p = (rs, p1, goon)"
  shows "pe_added p1 @ pe_pendingICE p1 = pe_added p @ pe_pendingICE p @ candidate_of msg
    \<and> (pe_remoteSet p1 \<longrightarrow> pe_pendingICE p1 = []) \<and> (\<not> pe_remoteSet p1 \<longrightarrow> pe_added p1 = [])
    \<and> (pe_remoteSet p1 \<longleftrightarrow> pe_remoteSet p \<or> (\<exists>sdp. AnswerMsg sdp \<in> set rs))"
  using assms
  by (auto simp: signal_step_def candidate_of_def handleOffer_def addICECandidate_def add_pending_all
      split: if_splits option.splits sum.splits prod.splits)

text \<open>
  No candidate is lost or reordered around the offer. Whatever the order of offers, candidates
  and unknown messages on a signaling connection, as long as the connection accepts every
  candidate, the candidates given to it followed by those still buffered are the candidates of the
  messages handled, in order; none is given before an offer was answered, and none is still
  buffered after one was.
\<close>
theorem ice_candidates_kept_in_order:
  assumes "\<forall>(a, w, msg) \<in> set msgs. w \<and> (\<forall>c. pa_addICE a c)"
  shows "let (rs, p) = signal_loop msgs (newPeer role)
    in pe_added p @ pe_pendingICE p = concat (map (\<lambda>(a, w, msg). candidate_of msg) msgs)
       \<and> (if \<exists>sdp. AnswerMsg sdp \<in> set rs then pe_pendingICE p = [] else pe_added p = [])"
proof -
  have "let (rs, p') = signal_loop msgs p
    in pe_added p' @ pe_pendingICE p' = pe_added p @ pe_pendingICE p @ concat (map (\<lambda>(a, w, msg). candidate_of msg) msgs)
       \<and> (if pe_remoteSet p \<or> (\<exists>sdp. AnswerMsg sdp \<in> set rs) then pe_pendingICE p' = [] else pe_added p' = [])"
    if "pe_remoteSet p \<longrightarrow> pe_pendingICE p = []" "\<not> pe_remoteSet p \<longrightarrow> pe_added p = []" for p
    using that assms
  proof (induction msgs p rule: signal_loop.induct)
    case (2 a w msg rest p)
    obtain rs p1 goon where s: "signal_step a w msg p = (rs, p1, goon)" by (cases "signal_step a w msg p")
    have ok: "w" "\<forall>c. pa_addICE a c" using 2(4) by auto
    have g: "goon" using s ok(1) by (auto simp: signal_step_def split: if_splits option.splits sum.splits prod.splits)
    note k = signal_step_candidates [OF ok(2) 2(2,3) s]
    obtain rs' p2 where l: "signal_loop rest p1 = (rs', p2)" by fastforce
    have "\<forall>(a, w, msg) \<in> set rest. w \<and> (\<forall>c. pa_addICE a c)" using 2(4) by simp
    from 2(1) [OF s [symmetric] refl refl g _ _ this] k l
    have "pe_added p2 @ pe_pendingICE p2 = pe_added p1 @ pe_pendingICE p1 @ concat (map (\<lambda>(a, w, msg). candidate_of msg) rest)"
      "if pe_remoteSet p1 \<or> (\<exists>sdp. AnswerMsg sdp \<in> set rs') then pe_pendingICE p2 = [] else pe_added p2 = []"
      by (simp_all add: Let_def)
    moreover have eq: "signal_loop ((a, w, msg) # rest) p = (rs @ rs', p2)" using s g l by simp
    moreover have an: "pe_remoteSet p \<or> (\<exists>sdp. AnswerMsg sdp \<in> set (rs @ rs'))
        \<longleftrightarrow> pe_remoteSet p1 \<or> (\<exists>sdp. AnswerMsg sdp \<in> set rs')" using k by auto
    ultimately show ?case unfolding eq Let_def prod.case an using k by simp
  qed simp
  from this [of "newPeer role"] show ?thesis by (simp add: newPeer_def)
qed

theorem ice_candidates_kept_in_order_witness:
  "let a = \<lparr>pa_setRemote = True, pa_createAnswer = Some ''v=0'', pa_setLocal = True, pa_addICE = (\<lambda>c. True)\<rparr>;
       cand = \<lambda>c. \<lparr>wm_Type = ''candidate'', wm_Room = [], wm_Role = [], wm_SDP = [], wm_Candidate = Some c\<rparr>;
       offer = \<lparr>wm_Type = ''offer'', wm_Room = [], wm_Role = [], wm_SDP = ''v=0'', wm_Candidate = None\<rparr>
   in pe_added (snd (signal_loop [(a, True, cand (1::nat)), (a, True, offer), (a, True, cand 2)] (newPeer roleCaller))) = [1, 2]"
proof -
  let ?a = "\<lparr>pa_setRemote = True, pa_createAnswer = Some ''v=0'', pa_setLocal = True, pa_addICE = (\<lambda>c::nat. True)\<rparr>"
  let ?cand = "\<lambda>c::nat. \<lparr>wm_Type = ''candidate'', wm_Room = [], wm_Role = [], wm_SDP = [], wm_Candidate = Some c\<rparr>"
  let ?offer = "\<lparr>wm_Type = ''offer'', wm_Room = [], wm_Role = [], wm_SDP = ''v=0'', wm_Candidate = None :: nat option\<rparr>"
  let ?msgs = "[(?a, True, ?cand 1), (?a, True, ?offer), (?a, True, ?cand 2)]"
  have "\<forall>(a, w, msg) \<in> set ?msgs. w \<and> (\<forall>c. pa_addICE a c)" by simp
  from ice_candidates_kept_in_order [OF this, of roleCaller] show ?thesis
    by (simp add: Let_def split_beta candidate_of_def signal_step_def handleOffer_def addICECandidate_def newPeer_def
        split: if_splits)
qed

subsection \<open>The audio bridges\<close>

text \<open>Outbound: a chunk's PCM is cut into 20 ms frames, the last one possibly shorter.\<close>

definition audioFrameDuration :: duration where "audioFrameDuration = 20 * millisecond"

definition bytesPerFrame :: nat where
  "bytesPerFrame = nat (go_div (gw_sampleRate * 2) 1000 * go_div audioFrameDuration millisecond)"

function outbound_from :: "bytes \<Rightarrow> nat \<Rightarrow> bytes list" where
  "outbound_from pcm off =
     (if off < length pcm
      then pcm16ToALaw (drop off (take (min (off + bytesPerFrame) (length pcm)) pcm))
             # outbound_from pcm (off + bytesPerFrame)
      else [])"
  by pat_completeness auto
termination
  by (relation "measure (\<lambda>(pcm, off). length pcm - off)")
    (auto simp: bytesPerFrame_def gw_sampleRate_def audioFrameDuration_def go_div_nonneg)

definition outbound_samples :: "AudioChunk \<Rightarrow> bytes list" where
  "outbound_samples chunk = outbound_from (ac_PCM chunk) 0"

text \<open>
  Inbound: packets are decoded into the buffer; a read error (the track ended) flushes it, a
  cancelled context that is seen before the next read does not.
\<close>

datatype rtp_event = RTPPacket bytes | RTPReadError | CtxDoneSeen

fun inbound_loop :: "rtp_event list \<Rightarrow> inboundBuffer \<Rightarrow> inboundBuffer" where
  "inbound_loop [] buf = buf"
| "inbound_loop (CtxDoneSeen # es) buf = buf"
| "inbound_loop (RTPReadError # es) buf = ib_flush buf"
| "inbound_loop (RTPPacket payload # es) buf =
     (if payload = [] then inbound_loop es buf else inbound_loop es (ib_add buf (alawToPCM16 payload)))"

definition pushed_frames :: "rtp_event list \<Rightarrow> AudioFrame list" where
  "pushed_frames es = map (\<lambda>pcm. \<lparr>af_PCM = pcm, af_SampleRate = gw_sampleRate, af_TimestampMS = 0\<rparr>)
     (ib_out (inbound_loop es (newInboundBuffer inboundBufferDuration)))"

lemma bytesPerFrame_320 [simp]: "bytesPerFrame = 320"
  by (simp add: bytesPerFrame_def gw_sampleRate_def audioFrameDuration_def go_div_nonneg)

lemma pcm16ToALaw_append: "even (length a) \<Longrightarrow> pcm16ToALaw (a @ b) = pcm16ToALaw a @ pcm16ToALaw b"
  by (induction a rule: pcm16ToALaw.induct) simp_all

lemma alawToPCM16_append: "alawToPCM16 (a @ b) = alawToPCM16 a @ alawToPCM16 b"
  by (simp add: alawToPCM16_def)

declare outbound_from.simps [simp del]

lemma outbound_from_spec:
  "concat (outbound_from pcm off) = pcm16ToALaw (drop off pcm)
   \<and> (\<forall>f \<in> set (butlast (outbound_from pcm off)). length f = 160) \<and> (\<forall>f \<in> set (outbound_from pcm off). length f \<le> 160)"
proof (induction pcm off rule: outbound_from.induct)
  case (1 pcm off)
  show ?case
  proof (cases "off < length pcm")
    case False
    then show ?thesis by (simp add: outbound_from.simps [of pcm off])
  next
    case True
    let ?f = "drop off (take (min (off + 320) (length pcm)) pcm)"
    have f: "?f = take 320 (drop off pcm)" by (simp add: take_drop add.commute min_def)
    have ih: "concat (outbound_from pcm (off + 320)) = pcm16ToALaw (drop (off + 320) pcm)"
      "\<forall>f \<in> set (butlast (outbound_from pcm (off + 320))). length f = 160"
      "\<forall>f \<in> set (outbound_from pcm (off + 320)). length f \<le> 160"
      using 1 True by simp_all
    have u: "outbound_from pcm off = pcm16ToALaw ?f # outbound_from pcm (off + 320)"
      using True by (simp add: outbound_from.simps [of pcm off])
    have len: "length (pcm16ToALaw ?f) \<le> 160" by (simp add: alaw_lengths f)
    show ?thesis
    proof (cases "off + 320 < length pcm")
      case True
      then have l: "length ?f = 320" by (simp add: f)
      have "drop off pcm = ?f @ drop (off + 320) pcm" unfolding f by (metis append_take_drop_id drop_drop add.commute)
      then have "pcm16ToALaw (drop off pcm) = pcm16ToALaw ?f @ pcm16ToALaw (drop (off + 320) pcm)"
        using pcm16ToALaw_append [of ?f] l by (metis even_numeral)
      then show ?thesis using u ih len l True by (simp add: alaw_lengths)
    next
      case False
      then have "outbound_from pcm (off + 320) = []" "?f = drop off pcm"
        by (simp_all add: outbound_from.simps [of pcm "off + 320"])
      then show ?thesis using u len by simp
    qed
  qed
qed

text \<open>
  The outbound bridge sends the whole chunk. The A-law frames written for a synthesized chunk
  are, joined, the A-law coding of its PCM (a trailing odd byte apart, which has no sample); every
  frame holds at most 160 samples (20 ms) and every frame but the last exactly 160.
\<close>
theorem outbound_bridge_sends_all:
  "concat (outbound_samples chunk) = pcm16ToALaw (ac_PCM chunk)
   \<and> (\<forall>f \<in> set (outbound_samples chunk). length f \<le> 160) \<and> (\<forall>f \<in> set (butlast (outbound_samples chunk)). length f = 160)"
  using outbound_from_spec [of "ac_PCM chunk" 0] by (simp add: outbound_samples_def)

lemma inbound_loop_packets:
  "\<exists>pieces. inbound_loop (map RTPPacket payloads @ [RTPReadError]) buf = ib_flush (foldl ib_add buf pieces)
     \<and> concat pieces = alawToPCM16 (concat payloads)"
proof (induction payloads arbitrary: buf)
  case Nil
  then show ?case by (auto simp: alawToPCM16_def intro: exI [of _ "[]"])
next
  case (Cons p ps)
  show ?case
  proof (cases "p = []")
    case True
    then show ?thesis using Cons by simp
  next
    case False
    obtain pieces where "inbound_loop (map RTPPacket ps @ [RTPReadError]) (ib_add buf (alawToPCM16 p))
        = ib_flush (foldl ib_add (ib_add buf (alawToPCM16 p)) pieces)"
      "concat pieces = alawToPCM16 (concat ps)" using Cons by blast
    with False show ?thesis by (intro exI [of _ "alawToPCM16 p # pieces"]) (simp add: alawToPCM16_append)
  qed
qed

lemma pushed_frames_flushed:
  obtains pieces where "pushed_frames (map RTPPacket payloads @ [RTPReadError])
      = map (\<lambda>pcm. \<lparr>af_PCM = pcm, af_SampleRate = gw_sampleRate, af_TimestampMS = 0\<rparr>)
          (ib_out (ib_flush (foldl ib_add (newInboundBuffer inboundBufferDuration) pieces)))"
    "concat pieces = alawToPCM16 (concat payloads)"
  using inbound_loop_packets [of payloads "newInboundBuffer inboundBufferDuration"] by (auto simp: pushed_frames_def)

lemma pushed_frames_joined:
  "concat (map af_PCM (pushed_frames (map RTPPacket payloads @ [RTPReadError]))) = alawToPCM16 (concat payloads)"
proof -
  obtain pieces where p: "pushed_frames (map RTPPacket payloads @ [RTPReadError])
      = map (\<lambda>pcm. \<lparr>af_PCM = pcm, af_SampleRate = gw_sampleRate, af_TimestampMS = 0\<rparr>)
          (ib_out (ib_flush (foldl ib_add (newInboundBuffer inboundBufferDuration) pieces)))"
    "concat pieces = alawToPCM16 (concat payloads)" by (rule pushed_frames_flushed)
  then show ?thesis using ib_regroups [of pieces] by (simp add: o_def Let_def)
qed

text \<open>
  C34: The inbound bridge loses nothing until the track ends. For every sequence of packets followed
  by the end of the track, the PCM pushed into the session is, joined, the decoding of all payloads
  in order, and coding it again gives the payloads back; every push but the last has at least
  400 ms of audio.
\<close>
theorem inbound_bridge_lossless:
  "let frames = pushed_frames (map RTPPacket payloads @ [RTPReadError])
   in concat (map af_PCM frames) = alawToPCM16 (concat payloads)
      \<and> pcm16ToALaw (concat (map af_PCM frames)) = concat payloads
      \<and> list_all (\<lambda>f. 6400 \<le> length (af_PCM f)) (butlast frames)"
proof -
  obtain pieces where p: "pushed_frames (map RTPPacket payloads @ [RTPReadError])
      = map (\<lambda>pcm. \<lparr>af_PCM = pcm, af_SampleRate = gw_sampleRate, af_TimestampMS = 0\<rparr>)
          (ib_out (ib_flush (foldl ib_add (newInboundBuffer inboundBufferDuration) pieces)))"
    "concat pieces = alawToPCM16 (concat payloads)" by (rule pushed_frames_flushed)
  let ?b = "foldl ib_add (newInboundBuffer inboundBufferDuration) pieces"
  have "set (butlast (ib_out (ib_flush ?b))) \<subseteq> set (ib_out ?b)"
    by (auto simp: ib_flush_def butlast_append dest: in_set_butlastD)
  then have "\<forall>f \<in> set (butlast (pushed_frames (map RTPPacket payloads @ [RTPReadError]))). 6400 \<le> length (af_PCM f)"
    using ib_regroups [of pieces] unfolding p(1) by (auto simp: Let_def map_butlast [symmetric])
  then show ?thesis by (simp add: Let_def pushed_frames_joined alaw_bytes_roundtrip list_all_iff)
qed

subsection \<open>Construction of a peer and the whole handler\<close>

definition pcmaPayloadType :: int where "pcmaPayloadType = 8"

text \<open>
  \<open>newPeer\<close> with the outcomes of what it calls: the codec, the connection, the outbound track and
  adding it. The second component is what happens to the peer connection.
\<close>

datatype pc_event = PCCreated | PCClosed

definition construct_peer ::
  "peerRole \<Rightarrow> go_error option \<Rightarrow> go_error option \<Rightarrow> go_error option \<Rightarrow> go_error option \<Rightarrow> 'c peer result \<times> pc_event list" where
  "construct_peer role codecErr connErr trackErr addErr =
     (case codecErr of Some e \<Rightarrow> (Err (ErrWrap ''webrtcgw: registering PCMA codec'' e), [])
      | None \<Rightarrow>
        (case connErr of Some e \<Rightarrow> (Err (ErrWrap ''webrtcgw: creating peer connection'' e), [])
         | None \<Rightarrow>
           (case trackErr of Some e \<Rightarrow> (Err (ErrWrap ''webrtcgw: creating outbound track'' e), [PCCreated, PCClosed])
            | None \<Rightarrow>
              (case addErr of Some e \<Rightarrow> (Err (ErrWrap ''webrtcgw: adding outbound track'' e), [PCCreated, PCClosed])
               | None \<Rightarrow> (Ok (newPeer role), [PCCreated])))))"

lemma construct_peer_releases:
  "construct_peer role a b c d = (res, evs) \<Longrightarrow>
     (PCClosed \<in> set evs \<longleftrightarrow> PCCreated \<in> set evs \<and> \<not> is_ok res) \<and> (is_ok res \<longrightarrow> evs = [PCCreated] \<and> res = Ok (newPeer role))"
  by (auto simp: construct_peer_def split: option.splits)

text \<open>
  \<open>SignalingHandler\<close>: the upgrade, the first message (\<open>None\<close>: it cannot be read), the join, the loop
  until the connection can no longer be read, and the deferred calls in the order they run.
\<close>

datatype handler_call = PeerClose | MgrLeave string peerRole | ConnClose

definition SignalingHandler ::
  "bool \<Rightarrow> 'c wireMessage option \<Rightarrow> (string \<Rightarrow> peerRole \<Rightarrow> 'c peer result) \<Rightarrow> ('c pc_answers \<times> bool \<times> 'c wireMessage) list
   \<Rightarrow> reply list \<times> handler_call list" where
  "SignalingHandler upgraded first join msgs =
     (if \<not> upgraded then ([], [])
      else case first of
        None \<Rightarrow> ([], [ConnClose])
      | Some msg \<Rightarrow>
          (case join_request msg of
             None \<Rightarrow> ([ErrorMsg], [ConnClose])
           | Some (room, role) \<Rightarrow>
               (case join room role of
                  Inl e \<Rightarrow> ([ErrorMsg], [ConnClose])
                | Inr p \<Rightarrow> (fst (signal_loop msgs p), [PeerClose, MgrLeave room role, ConnClose]))))"

lemma handler_leaves:
  "SignalingHandler upgraded first join msgs = (rs, calls) \<Longrightarrow>
     (upgraded \<longrightarrow> calls \<noteq> [] \<and> last calls = ConnClose)
     \<and> (MgrLeave room role \<in> set calls \<longleftrightarrow>
          upgraded \<and> (\<exists>msg. first = Some msg \<and> join_request msg = Some (room, role) \<and> is_ok (join room role)))"
  by (cases first) (auto simp: SignalingHandler_def split: option.splits sum.splits if_splits)

end
