(* ===== verification/Qa.thy ===== *)
theory Qa
  imports Prelude "HOL-Library.Multiset"
begin

section \<open>Word error rate and BLEU (pkg/qa/wer.go, bleu.go)\<close>

text \<open>
  The two quality measures over token lists and over texts. \<open>strings.Fields\<close> is modelled on the
  ASCII white space (other Unicode spaces, which the corpora do not use, would split too);
  \<open>float64\<close> is \<open>real\<close>.
\<close>

fun fields_from :: "string \<Rightarrow> string \<Rightarrow> string list" where
  "fields_from cur [] = (if cur = [] then [] else [cur])"
| "fields_from cur (c # cs) =
     (if c \<in> {CHR '' '', CHR 0x09, CHR 0x0A, CHR 0x0B, CHR 0x0C, CHR 0x0D}
      then (if cur = [] then fields_from [] cs else cur # fields_from [] cs)
      else fields_from (cur @ [c]) cs)"

definition fields :: "string \<Rightarrow> string list" where "fields s = fields_from [] s"

subsection \<open>Word error rate\<close>

definition min3 :: "nat \<Rightarrow> nat \<Rightarrow> nat \<Rightarrow> nat" where
  "min3 a b c = (let m = a; m = (if b < m then b else m); m = (if c < m then c else m) in m)"

text \<open>The table as a list of rows, its first row and column filled in, and one cell of the loop.\<close>

definition wer_table :: "nat \<Rightarrow> nat \<Rightarrow> nat list list" where
  "wer_table n m = map (\<lambda>i. map (\<lambda>j. if i = 0 then j else if j = 0 then i else 0) [0..<Suc m]) [0..<Suc n]"

definition wer_cell :: "'w list \<Rightarrow> 'w list \<Rightarrow> nat \<Rightarrow> nat list list \<Rightarrow> nat \<Rightarrow> nat list list" where
  "wer_cell ref hyp i dp j =
     dp[i := (dp ! i)[j :=
       (if ref ! (i - 1) = hyp ! (j - 1) then dp ! (i - 1) ! (j - 1)
        else let sub = dp ! (i - 1) ! (j - 1) + 1;
                 del = dp ! (i - 1) ! j + 1;
                 ins = dp ! i ! (j - 1) + 1
             in min3 sub del ins)]]"

definition wer_fill :: "'w list \<Rightarrow> 'w list \<Rightarrow> nat list list" where
  "wer_fill ref hyp =
     foldl (\<lambda>dp i. foldl (wer_cell ref hyp i) dp [1..<Suc (length hyp)])
       (wer_table (length ref) (length hyp)) [1..<Suc (length ref)]"

definition wordErrorRate :: "'w list \<Rightarrow> 'w list \<Rightarrow> float64" where
  "wordErrorRate ref hyp =
     (let n = length ref; m = length hyp
      in if n = 0 then (if m = 0 then 0 else 1)
         else real (wer_fill ref hyp ! n ! m) / real n)"

definition WordErrorRate :: "string \<Rightarrow> string \<Rightarrow> float64" where
  "WordErrorRate reference hypothesis = wordErrorRate (fields reference) (fields hypothesis)"

text \<open>
  The specification: \<open>aligned xs ys k\<close> if some alignment of the two sequences, built from left to
  right, has \<open>k\<close> substitutions, deletions and insertions.
\<close>

inductive aligned :: "'w list \<Rightarrow> 'w list \<Rightarrow> nat \<Rightarrow> bool" where
  aligned_nil: "aligned [] [] 0"
| aligned_keep: "aligned xs ys k \<Longrightarrow> aligned (xs @ [x]) (ys @ [x]) k"
| aligned_sub: "aligned xs ys k \<Longrightarrow> aligned (xs @ [x]) (ys @ [y]) (Suc k)"
| aligned_del: "aligned xs ys k \<Longrightarrow> aligned (xs @ [x]) ys (Suc k)"
| aligned_ins: "aligned xs ys k \<Longrightarrow> aligned xs (ys @ [y]) (Suc k)"

text \<open>The distance the table holds, on reversed prefixes.\<close>

fun levr :: "'w list \<Rightarrow> 'w list \<Rightarrow> nat" where
  "levr [] ys = length ys"
| "levr (x # xs) [] = Suc (length xs)"
| "levr (x # xs) (y # ys) =
     (if x = y then levr xs ys else Suc (min (levr xs ys) (min (levr xs (y # ys)) (levr (x # xs) ys))))"

lemma levr_Nil2 [simp]: "levr xs [] = length xs"
  by (cases xs) simp_all

lemma levr_step:
  "levr (x # xs) (ys :: 'w list) \<le> Suc (levr xs ys) \<and> levr xs ys \<le> Suc (levr (x # xs) ys)
   \<and> levr xs (y # ys) \<le> Suc (levr xs ys) \<and> levr xs ys \<le> Suc (levr xs (y # ys))"
proof (induction "length xs + length ys" arbitrary: x xs y ys rule: less_induct)
  case less
  have ih: "length a + length b < length xs + length ys \<Longrightarrow> levr (u # a) b \<le> Suc (levr a b) \<and> levr a b \<le> Suc (levr (u # a) b)
   \<and> levr a (v # b) \<le> Suc (levr a b) \<and> levr a b \<le> Suc (levr a (v # b))" for u v :: 'w and a b
    using less by blast
  have "levr (x # xs) ys \<le> Suc (levr xs ys) \<and> levr xs ys \<le> Suc (levr (x # xs) ys)"
  proof (cases ys)
    case (Cons y' ys')
    then show ?thesis using ih [of xs ys' x y'] by (cases "x = y'") auto
  qed simp
  moreover have "levr xs (y # ys) \<le> Suc (levr xs ys) \<and> levr xs ys \<le> Suc (levr xs (y # ys))"
  proof (cases xs)
    case (Cons x' xs')
    then show ?thesis using ih [of xs' ys x' y] by (cases "x' = y") auto
  qed simp
  ultimately show ?case by blast
qed

lemma aligned_lower: "aligned xs ys k \<Longrightarrow> levr (rev xs) (rev ys) \<le> k"
proof (induction rule: aligned.induct)
  case (aligned_sub xs ys k x y)
  then show ?case by (auto simp: min_def)
next
  case (aligned_del xs ys k x)
  then show ?case using levr_step [of x "rev xs" "rev ys" undefined] by simp
next
  case (aligned_ins xs ys k y)
  then show ?case using levr_step [of undefined "rev xs" "rev ys" y] by simp
qed simp_all

lemma aligned_exists: "aligned (rev xs) (rev ys) (levr xs ys)"
proof (induction xs ys rule: levr.induct)
  case (1 ys)
  show ?case by (induction ys) (auto intro: aligned.intros)
next
  case (2 x xs)
  have "aligned (rev zs) [] (length zs)" for zs :: "'a list"
    by (induction zs) (auto intro: aligned.intros)
  from this [of "x # xs"] show ?case by simp
next
  case (3 x xs y ys)
  then show ?case by (auto simp: min_def intro: aligned.intros)
qed

subsection \<open>The table computes the distance\<close>

definition wer_done :: "'w list \<Rightarrow> 'w list \<Rightarrow> nat \<Rightarrow> nat \<Rightarrow> nat list list \<Rightarrow> bool" where
  "wer_done ref hyp i j dp \<longleftrightarrow>
     length dp = Suc (length ref) \<and> (\<forall>a \<le> length ref. length (dp ! a) = Suc (length hyp))
     \<and> (\<forall>a \<le> length ref. \<forall>b \<le> length hyp. a < i \<or> b = 0 \<or> a = i \<and> b \<le> j \<longrightarrow>
          dp ! a ! b = levr (rev (take a ref)) (rev (take b hyp)))"

lemma wer_done_init: "wer_done ref hyp 1 0 (wer_table (length ref) (length hyp))"
proof -
  have c: "a \<le> length ref \<Longrightarrow> b \<le> length hyp \<Longrightarrow>
    wer_table (length ref) (length hyp) ! a ! b = (if a = 0 then b else if b = 0 then a else 0)" for a b
    by (simp add: wer_table_def del: upt_Suc)
  show ?thesis unfolding wer_done_def
    by (auto simp: c) (simp_all add: wer_table_def del: upt_Suc)
qed

lemma rev_take_Suc: "i < length xs \<Longrightarrow> rev (take (Suc i) xs) = xs ! i # rev (take i xs)"
  by (simp add: take_Suc_conv_app_nth)

lemma wer_cell_done:
  assumes "wer_done ref hyp (Suc i) j dp" "i < length ref" "j < length hyp"
  shows "wer_done ref hyp (Suc i) (Suc j) (wer_cell ref hyp (Suc i) dp (Suc j))"
proof -
  let ?L = "\<lambda>a b. levr (rev (take a ref)) (rev (take b hyp))"
  have d: "dp ! i ! j = ?L i j" "dp ! i ! Suc j = ?L i (Suc j)" "dp ! Suc i ! j = ?L (Suc i) j"
  proof -
    show "dp ! i ! j = ?L i j" "dp ! i ! Suc j = ?L i (Suc j)" using assms by (simp_all add: wer_done_def)
    have "j \<le> length hyp" "Suc i \<le> length ref" using assms(2,3) by simp_all
    then show "dp ! Suc i ! j = ?L (Suc i) j" using assms(1) unfolding wer_done_def by blast
  qed
  have "(if ref ! i = hyp ! j then dp ! i ! j else min3 (dp ! i ! j + 1) (dp ! i ! Suc j + 1) (dp ! Suc i ! j + 1))
      = ?L (Suc i) (Suc j)"
    unfolding d using assms(2,3) by (simp add: rev_take_Suc min3_def min_def Let_def)
  then have "wer_cell ref hyp (Suc i) dp (Suc j) = dp[Suc i := (dp ! Suc i)[Suc j := ?L (Suc i) (Suc j)]]"
    by (simp only: wer_cell_def Let_def diff_Suc_1)
  then have e: "wer_cell ref hyp (Suc i) dp (Suc j) ! a ! b = (if a = Suc i \<and> b = Suc j then ?L (Suc i) (Suc j) else dp ! a ! b)"
    "length (wer_cell ref hyp (Suc i) dp (Suc j)) = Suc (length ref)"
    "a \<le> length ref \<Longrightarrow> length (wer_cell ref hyp (Suc i) dp (Suc j) ! a) = Suc (length hyp)"
    if "a \<le> length ref" "b \<le> length hyp" for a b
    using assms that by (auto simp: wer_done_def nth_list_update)
  have old: "a \<le> length ref \<Longrightarrow> b \<le> length hyp \<Longrightarrow> a < Suc i \<or> b = 0 \<or> a = Suc i \<and> b \<le> j \<Longrightarrow> dp ! a ! b = ?L a b" for a b
    using assms(1) unfolding wer_done_def by blast
  have "wer_cell ref hyp (Suc i) dp (Suc j) ! a ! b = ?L a b"
    if "a \<le> length ref" "b \<le> length hyp" "a < Suc i \<or> b = 0 \<or> a = Suc i \<and> b \<le> Suc j" for a b
    using that e(1) [of a b] old [of a b] by (cases "a = Suc i \<and> b = Suc j") auto
  then show ?thesis unfolding wer_done_def using e(2,3) [of _ 0] by blast
qed

lemma wer_row_done:
  assumes "wer_done ref hyp (Suc i) 0 dp" "i < length ref" "k \<le> length hyp"
  shows "wer_done ref hyp (Suc i) k (foldl (wer_cell ref hyp (Suc i)) dp [1..<Suc k])"
  using assms(3)
proof (induction k)
  case (Suc k)
  then show ?case using wer_cell_done [OF _ assms(2)] by simp
qed (use assms(1) in simp)

lemma wer_fill_done:
  assumes "k \<le> length ref"
  shows "wer_done ref hyp (Suc k) 0
    (foldl (\<lambda>dp i. foldl (wer_cell ref hyp i) dp [1..<Suc (length hyp)]) (wer_table (length ref) (length hyp)) [1..<Suc k])"
  using assms
proof (induction k)
  case 0
  then show ?case using wer_done_init [of ref hyp] by simp
next
  case (Suc k)
  define dp where "dp = foldl (\<lambda>dp i. foldl (wer_cell ref hyp i) dp [1..<Suc (length hyp)])
    (wer_table (length ref) (length hyp)) [1..<Suc k]"
  have "wer_done ref hyp (Suc k) (length hyp) (foldl (wer_cell ref hyp (Suc k)) dp [1..<Suc (length hyp)])"
    using Suc unfolding dp_def by (intro wer_row_done) simp_all
  then have "wer_done ref hyp (Suc (Suc k)) 0 (foldl (wer_cell ref hyp (Suc k)) dp [1..<Suc (length hyp)])"
    by (auto simp: wer_done_def less_Suc_eq)
  then show ?case by (simp add: dp_def)
qed

lemma wer_fill_distance: "wer_fill ref hyp ! length ref ! length hyp = levr (rev ref) (rev hyp)"
  using wer_fill_done [of "length ref" ref hyp] by (simp add: wer_fill_def wer_done_def)

lemma levr_bound: "levr xs ys \<le> max (length xs) (length ys)"
  by (induction xs ys rule: levr.induct) (auto simp: min_def max_def)

lemma levr_zero: "levr xs ys = 0 \<longleftrightarrow> xs = ys"
  by (induction xs ys rule: levr.induct) auto

text \<open>
  C23: The word error rate is exact. For a non-empty reference the rate is the least number of
  substitutions, deletions and insertions of any alignment with the hypothesis, divided by the
  number of reference words; it is zero only for the reference itself and at most the longer
  length over the shorter; for an empty reference it is 0 or 1.
\<close>
theorem wer_is_minimal_edit_rate:
  assumes "ref \<noteq> []"
  shows "\<exists>d. wordErrorRate ref hyp = real d / real (length ref) \<and> aligned ref hyp d
     \<and> (\<forall>k. aligned ref hyp k \<longrightarrow> d \<le> k) \<and> d \<le> max (length ref) (length hyp)
     \<and> (wordErrorRate ref hyp = 0 \<longleftrightarrow> hyp = ref) \<and> wordErrorRate [] (w # hyp) = 1 \<and> wordErrorRate [] [] = 0"
proof (intro exI [of _ "levr (rev ref) (rev hyp)"] conjI allI impI)
  show w: "wordErrorRate ref hyp = real (levr (rev ref) (rev hyp)) / real (length ref)"
    using assms by (simp add: wordErrorRate_def wer_fill_distance Let_def)
  show "aligned ref hyp (levr (rev ref) (rev hyp))" using aligned_exists [of "rev ref" "rev hyp"] by simp
  show "aligned ref hyp k \<Longrightarrow> levr (rev ref) (rev hyp) \<le> k" for k by (rule aligned_lower)
  show "levr (rev ref) (rev hyp) \<le> max (length ref) (length hyp)" using levr_bound [of "rev ref" "rev hyp"] by simp
  show "wordErrorRate ref hyp = 0 \<longleftrightarrow> hyp = ref" using assms by (auto simp: w levr_zero)
qed (simp_all add: wordErrorRate_def)

theorem wer_is_minimal_edit_rate_witness:
  "\<exists>d. WordErrorRate ''the cat sat'' ''the dog'' = real d / 3 \<and> aligned [''the'', ''cat'', ''sat''] [''the'', ''dog''] d"
proof -
  have f: "fields ''the cat sat'' = [''the'', ''cat'', ''sat'']" "fields ''the dog'' = [''the'', ''dog'']"
    by (simp_all add: fields_def)
  have "[''the'', ''cat'', ''sat''] \<noteq> []" by simp
  from wer_is_minimal_edit_rate [OF this, of "[''the'', ''dog'']" "''x''"] show ?thesis
    unfolding WordErrorRate_def f by (simp del: One_nat_def) blast
qed

subsection \<open>BLEU\<close>

definition bleuMaxNGram :: nat where "bleuMaxNGram = 4"
definition bleuSmoothingEpsilon :: float64 where "bleuSmoothingEpsilon = 0.1"

fun join_words :: "string list \<Rightarrow> string" where
  "join_words [] = []"
| "join_words [w] = w"
| "join_words (w # ws) = w @ '' '' @ join_words ws"

text \<open>The n-gram counts, a map that is ranged over.\<close>

definition nGramCounts :: "string list \<Rightarrow> nat \<Rightarrow> (string \<times> nat) list" where
  "nGramCounts tokens n =
     foldl (\<lambda>counts i. let key = join_words (take n (drop i tokens))
                        in al_put key ((case map_of counts key of None \<Rightarrow> 0 | Some c \<Rightarrow> c) + 1) counts)
       [] [0..<Suc (length tokens) - n]"

definition clippedNGramMatches :: "string list \<Rightarrow> string list \<Rightarrow> nat \<Rightarrow> nat" where
  "clippedNGramMatches ref cand n =
     (let refCounts = nGramCounts ref n; candCounts = nGramCounts cand n
      in foldl (\<lambda>match (gram, candCount).
           case map_of refCounts gram of None \<Rightarrow> match
           | Some refCount \<Rightarrow> if candCount < refCount then match + candCount else match + refCount) 0 candCounts)"

definition brevityPenalty :: "nat \<Rightarrow> nat \<Rightarrow> float64" where
  "brevityPenalty refLen candLen = (if candLen > refLen then 1 else exp (1 - real refLen / real candLen))"

definition ngram_precision :: "string list \<Rightarrow> string list \<Rightarrow> nat \<Rightarrow> float64" where
  "ngram_precision ref cand n =
     (let total = length cand - n + 1; match = clippedNGramMatches ref cand n
      in if match = 0 then bleuSmoothingEpsilon / real total else real match / real total)"

definition bleuScore :: "string list \<Rightarrow> string list \<Rightarrow> float64" where
  "bleuScore ref cand =
     (if ref = [] then (if cand = [] then 1 else 0)
      else if cand = [] then 0
      else let maxN = (if length cand < bleuMaxNGram then length cand else bleuMaxNGram);
               logPrecisionSum = foldl (\<lambda>s n. s + ln (ngram_precision ref cand n)) 0 [1..<Suc maxN]
           in brevityPenalty (length ref) (length cand) * exp (logPrecisionSum / real maxN))"

definition BLEUScore :: "string \<Rightarrow> string \<Rightarrow> float64" where
  "BLEUScore reference candidate = bleuScore (fields reference) (fields candidate)"

text \<open>The n-grams of a token list, as a multiset of keys.\<close>

definition ngrams :: "string list \<Rightarrow> nat \<Rightarrow> string multiset" where
  "ngrams tokens n = mset (map (\<lambda>i. join_words (take n (drop i tokens))) [0..<Suc (length tokens) - n])"

lemma count_fold:
  assumes "wf_al counts" "\<And>k. (case map_of counts k of None \<Rightarrow> 0 | Some c \<Rightarrow> c) = count M k" "\<forall>(k, c) \<in> set counts. 0 < c"
  shows "let r = foldl (\<lambda>counts key. al_put key ((case map_of counts key of None \<Rightarrow> 0 | Some c \<Rightarrow> c) + 1) counts) counts ks
    in wf_al r \<and> (\<forall>k. (case map_of r k of None \<Rightarrow> 0 | Some c \<Rightarrow> c) = count (M + mset ks) k) \<and> (\<forall>(k, c) \<in> set r. 0 < c)"
  using assms
proof (induction ks arbitrary: counts M)
  case (Cons k ks)
  let ?c = "al_put k ((case map_of counts k of None \<Rightarrow> 0 | Some c \<Rightarrow> c) + 1) counts"
  have "wf_al ?c" using Cons.prems(1) by (rule wf_al_put)
  moreover have "(case map_of ?c x of None \<Rightarrow> 0 | Some c \<Rightarrow> c) = count (add_mset k M) x" for x
    using Cons.prems(2) [of x] Cons.prems(2) [of k] by simp
  moreover have "\<forall>(x, c) \<in> set ?c. 0 < c"
  proof safe
    fix x c assume "(x, c) \<in> set ?c"
    with \<open>wf_al ?c\<close> have "map_of ?c x = Some c" by (rule map_of_is_SomeI)
    then show "0 < c" using Cons.prems(3) by (auto dest: map_of_SomeD split: if_splits)
  qed
  ultimately show ?case using Cons.IH [of ?c "add_mset k M"] by (simp add: add.commute)
qed simp

lemma nGramCounts_spec:
  "wf_al (nGramCounts t n)" "(case map_of (nGramCounts t n) k of None \<Rightarrow> 0 | Some c \<Rightarrow> c) = count (ngrams t n) k"
  "(k, c) \<in> set (nGramCounts t n) \<Longrightarrow> 0 < c"
proof -
  let ?ks = "map (\<lambda>i. join_words (take n (drop i t))) [0..<Suc (length t) - n]"
  have e: "nGramCounts t n = foldl (\<lambda>counts key. al_put key ((case map_of counts key of None \<Rightarrow> 0 | Some c \<Rightarrow> c) + 1) counts) [] ?ks"
    by (simp add: nGramCounts_def foldl_map Let_def)
  from count_fold [of "[]" "{#}" ?ks]
  show "wf_al (nGramCounts t n)" "(case map_of (nGramCounts t n) k of None \<Rightarrow> 0 | Some c \<Rightarrow> c) = count (ngrams t n) k"
    "(k, c) \<in> set (nGramCounts t n) \<Longrightarrow> 0 < c"
    by (auto simp: ngrams_def e Let_def)
qed

lemma keys_nGramCounts: "keys (nGramCounts t n) = set_mset (ngrams t n)"
proof -
  have "k \<in> keys (nGramCounts t n) \<longleftrightarrow> 0 < count (ngrams t n) k" for k
    using nGramCounts_spec(2) [of t n k] nGramCounts_spec(3) [of k _ t n] map_of_None_keys [of "nGramCounts t n" k]
    by (cases "map_of (nGramCounts t n) k") (fastforce dest: map_of_SomeD map_of_Some_keys simp del: count_greater_zero_iff)+
  then show ?thesis by auto
qed

text \<open>The clipped count is the size of the intersection of the two multisets of n-grams.\<close>

lemma clipped_is_intersection: "clippedNGramMatches ref cand n = size (ngrams ref n \<inter># ngrams cand n)"
proof -
  let ?R = "ngrams ref n" and ?C = "ngrams cand n"
  define g where "g k = min (count ?R k) (count ?C k)" for k
  have acc: "foldl (\<lambda>m e. m + h e) (a::nat) xs = a + sum_list (map h xs)" for h a xs
    by (induction xs arbitrary: a) simp_all
  have "foldl (\<lambda>match (gram, candCount).
           case map_of (nGramCounts ref n) gram of None \<Rightarrow> match
           | Some refCount \<Rightarrow> if candCount < refCount then match + candCount else match + refCount) 0 (nGramCounts cand n)
      = foldl (\<lambda>m e. m + g (fst e)) 0 (nGramCounts cand n)"
  proof (rule foldl_cong)
    fix m e assume e: "e \<in> set (nGramCounts cand n)"
    then have "map_of (nGramCounts cand n) (fst e) = Some (snd e)" using nGramCounts_spec(1) by simp
    then have "snd e = count ?C (fst e)" using nGramCounts_spec(2) [of cand n "fst e"] by simp
    then show "(case e of (gram, candCount) \<Rightarrow>
           case map_of (nGramCounts ref n) gram of None \<Rightarrow> m
           | Some refCount \<Rightarrow> if candCount < refCount then m + candCount else m + refCount) = m + g (fst e)"
      using nGramCounts_spec(2) [of ref n "fst e"] by (auto simp: g_def min_def split: option.splits prod.splits)
  qed simp_all
  then have "clippedNGramMatches ref cand n = sum_list (map (\<lambda>e. g (fst e)) (nGramCounts cand n))"
    by (simp add: clippedNGramMatches_def acc Let_def)
  also have "\<dots> = sum_list (map g (map fst (nGramCounts cand n)))" by (simp add: o_def)
  also have "\<dots> = sum g (set (map fst (nGramCounts cand n)))"
    using nGramCounts_spec(1) [of cand n] by (rule sum_list_distinct_conv_sum_set)
  also have "\<dots> = sum g (set_mset ?C)" using keys_nGramCounts [of cand n] by simp
  also have "\<dots> = sum g (set_mset (?R \<inter># ?C))"
    by (intro sum.mono_neutral_right) (auto simp: g_def not_in_iff)
  finally show ?thesis by (simp add: size_multiset_overloaded_eq g_def)
qed

lemma size_ngrams: "size (ngrams t n) = Suc (length t) - n"
  by (simp add: ngrams_def)

lemma precision_range:
  assumes "n \<le> length cand"
  shows "0 < ngram_precision ref cand n" "ngram_precision ref cand n \<le> 1"
proof -
  have "size (ngrams ref n \<inter># ngrams cand n) \<le> size (ngrams cand n)" by (rule size_mset_mono) simp
  then have "clippedNGramMatches ref cand n \<le> length cand - n + 1"
    using assms by (simp add: clipped_is_intersection size_ngrams Suc_diff_le)
  then show "0 < ngram_precision ref cand n" "ngram_precision ref cand n \<le> 1"
    by (auto simp: ngram_precision_def bleuSmoothingEpsilon_def Let_def field_simps)
qed

lemma precision_self: "n \<le> length t \<Longrightarrow> ngram_precision t t n = 1"
  by (simp add: ngram_precision_def clipped_is_intersection size_ngrams Suc_diff_le Let_def)

lemma foldl_ln: "foldl (\<lambda>s n. s + ln (f n)) a ns = a + sum_list (map (\<lambda>n. ln (f n :: real)) ns)"
  by (induction ns arbitrary: a) simp_all

text \<open>
  BLEU is a score. It lies between 0 and 1 for all token lists, is 1 for a text against
  itself, is zero exactly when one of the two is empty and the other is not, and credits of every
  order the multiset intersection of the n-grams, so that repeating a word never gains more than the
  reference holds.
\<close>
theorem bleu_score_bounds:
  "0 \<le> bleuScore ref cand \<and> bleuScore ref cand \<le> 1 \<and> bleuScore ref ref = 1
   \<and> (bleuScore ref cand = 0 \<longleftrightarrow> (ref = [] \<longleftrightarrow> cand \<noteq> []))
   \<and> clippedNGramMatches ref cand n = size (ngrams ref n \<inter># ngrams cand n)"
proof -
  have self: "bleuScore ref ref = 1"
  proof (cases "ref = []")
    case False
    have "sum_list (map (\<lambda>n. ln (ngram_precision ref ref n)) [1..<Suc k]) = 0" if "k \<le> length ref" for k
      using that by (induction k) (simp_all add: precision_self)
    from this [of "length ref"] this [of bleuMaxNGram] False show ?thesis
      by (auto simp: bleuScore_def brevityPenalty_def Let_def foldl_ln)
  qed (simp add: bleuScore_def)
  have pos: "0 < bleuScore ref cand \<and> bleuScore ref cand \<le> 1" if ne: "ref \<noteq> []" "cand \<noteq> []"
  proof -
    define maxN where "maxN = (if length cand < bleuMaxNGram then length cand else bleuMaxNGram)"
    have mx: "maxN \<le> length cand" "0 < maxN" using ne by (auto simp: maxN_def bleuMaxNGram_def)
    have "sum_list (map (\<lambda>n. ln (ngram_precision ref cand n)) [1..<Suc k]) \<le> 0" if "k \<le> length cand" for k
      using that
    proof (induction k)
      case (Suc k)
      have "ln (ngram_precision ref cand (Suc k)) \<le> 0" using precision_range [OF Suc.prems, of ref] by simp
      with Suc show ?case by simp
    qed simp
    then have "exp (sum_list (map (\<lambda>n. ln (ngram_precision ref cand n)) [1..<Suc maxN]) / real maxN) \<le> 1"
      using mx by (simp add: divide_nonpos_pos del: upt_Suc)
    moreover have "0 < brevityPenalty (length ref) (length cand)" "brevityPenalty (length ref) (length cand) \<le> 1"
      using ne by (auto simp: brevityPenalty_def field_simps)
    ultimately have "brevityPenalty (length ref) (length cand)
        * exp (sum_list (map (\<lambda>n. ln (ngram_precision ref cand n)) [1..<Suc maxN]) / real maxN) \<le> 1"
      by (intro mult_le_one) simp_all
    with \<open>0 < brevityPenalty _ _\<close> ne show ?thesis
      by (simp add: bleuScore_def foldl_ln Let_def maxN_def [symmetric] del: upt_Suc)
  qed
  then show ?thesis using self clipped_is_intersection [of ref cand n] by (auto simp: bleuScore_def)
qed

end
