(* ===== verification/Vad.thy ===== *)
theory Vad
  imports Media
begin

section \<open>Voice activity and utterance boundaries (pkg/langstream/vad.go)\<close>

text \<open>
  The energy detector over the reals and the silence tracker. Both are plain state machines; a
  tracker is used by one goroutine.
\<close>

definition DefaultVADThreshold :: float64 where "DefaultVADThreshold = 500"
definition DefaultSilenceHoldMS :: int where "DefaultSilenceHoldMS = 600"

record VAD =
  Threshold :: float64

definition NewVAD :: "float64 \<Rightarrow> VAD" where
  "NewVAD threshold = \<lparr>Threshold = (if threshold \<le> 0 then DefaultVADThreshold else threshold)\<rparr>"

definition RMS :: "bytes \<Rightarrow> float64" where
  "RMS pcm =
     (let n = length pcm div 2
      in if n = 0 then 0
         else sqrt (foldl (\<lambda>sumSquares s. sumSquares + real_of_int (sint s) * real_of_int (sint s)) 0 (pcmBytesToInt16 pcm) / real n))"

definition IsSpeech :: "VAD \<Rightarrow> bytes \<Rightarrow> bool" where "IsSpeech v pcm \<longleftrightarrow> RMS pcm > Threshold v"

definition frameDurationMS :: "bytes \<Rightarrow> int \<Rightarrow> int" where
  "frameDurationMS pcm sampleRate =
     (if sampleRate \<le> 0 then 0 else int (length pcm div 2) * 1000 div sampleRate)"

record UtteranceBoundaryTracker =
  ub_vad :: VAD
  ub_silenceHoldMS :: int
  ub_silenceMS :: int

definition NewUtteranceBoundaryTracker :: "VAD option \<Rightarrow> int \<Rightarrow> UtteranceBoundaryTracker" where
  "NewUtteranceBoundaryTracker v silenceHoldMS =
     \<lparr>ub_vad = (case v of None \<Rightarrow> NewVAD 0 | Some v \<Rightarrow> v),
      ub_silenceHoldMS = (if silenceHoldMS \<le> 0 then DefaultSilenceHoldMS else silenceHoldMS), ub_silenceMS = 0\<rparr>"

definition Observe :: "UtteranceBoundaryTracker \<Rightarrow> bytes \<Rightarrow> int \<Rightarrow> bool \<times> UtteranceBoundaryTracker" where
  "Observe u pcm durationMS =
     (if IsSpeech (ub_vad u) pcm then (False, u\<lparr>ub_silenceMS := 0\<rparr>)
      else let u1 = u\<lparr>ub_silenceMS := ub_silenceMS u + durationMS\<rparr>
           in (ub_silenceMS u1 \<ge> ub_silenceHoldMS u1, u1))"

definition ObserveFrame :: "UtteranceBoundaryTracker \<Rightarrow> AudioFrame \<Rightarrow> bool \<times> UtteranceBoundaryTracker" where
  "ObserveFrame u frame = Observe u (af_PCM frame) (frameDurationMS (af_PCM frame) (af_SampleRate frame))"

definition ub_Reset :: "UtteranceBoundaryTracker \<Rightarrow> UtteranceBoundaryTracker" where
  "ub_Reset u = u\<lparr>ub_silenceMS := 0\<rparr>"

text \<open>The answers to a sequence of frames.\<close>

fun observe_all :: "UtteranceBoundaryTracker \<Rightarrow> AudioFrame list \<Rightarrow> bool list \<times> UtteranceBoundaryTracker" where
  "observe_all u [] = ([], u)"
| "observe_all u (f # fs) = (let (b, u1) = ObserveFrame u f; (bs, u2) = observe_all u1 fs in (b # bs, u2))"

subsection \<open>Energy\<close>

lemma foldl_squares:
  "foldl (\<lambda>a s. a + real_of_int (sint s) * real_of_int (sint s)) c ss = c + sum_list (map (\<lambda>s. (real_of_int (sint (s::u16)))\<^sup>2) ss)"
  by (induction ss arbitrary: c) (simp_all add: power2_eq_square)

lemma RMS_eq:
  "RMS pcm = (if length pcm div 2 = 0 then 0
     else sqrt (sum_list (map (\<lambda>s. (real_of_int (sint s))\<^sup>2) (pcmBytesToInt16 pcm)) / real (length pcm div 2)))"
  unfolding RMS_def Let_def foldl_squares by simp

lemma RMS_range: "0 \<le> RMS pcm \<and> RMS pcm \<le> 32768"
proof (cases "length pcm div 2 = 0")
  case False
  define ss where "ss = pcmBytesToInt16 pcm"
  have n: "length ss = length pcm div 2" by (simp add: ss_def)
  have sq: "(real_of_int (sint (s::u16)))\<^sup>2 \<le> 32768\<^sup>2" for s
  proof -
    have "\<bar>sint s\<bar> \<le> 32768" using sint_greater_eq [of s] sint_less [of s] by (simp add: abs_le_iff)
    then have "real_of_int \<bar>sint s\<bar> \<le> real_of_int 32768" by (simp only: of_int_le_iff)
    then have "\<bar>real_of_int (sint s)\<bar> \<le> 32768" by (simp only: of_int_abs of_int_numeral)
    then show ?thesis by (metis abs_le_square_iff abs_numeral)
  qed
  have "sum_list (map (\<lambda>s. (real_of_int (sint s))\<^sup>2) ss) \<le> real (length ss) * 32768\<^sup>2"
    using sq by (induction ss) (simp_all add: algebra_simps add_mono)
  then have "sum_list (map (\<lambda>s. (real_of_int (sint s))\<^sup>2) ss) / real (length ss) \<le> 32768\<^sup>2"
    using False n by (simp add: divide_le_eq mult.commute)
  then have "sqrt (sum_list (map (\<lambda>s. (real_of_int (sint s))\<^sup>2) ss) / real (length ss)) \<le> 32768"
    by (intro real_le_lsqrt) simp_all
  moreover have "0 \<le> sum_list (map (\<lambda>s. (real_of_int (sint s))\<^sup>2) ss)" by (rule sum_list_nonneg) auto
  ultimately show ?thesis using False n by (simp add: RMS_eq ss_def)
qed (simp add: RMS_def)

lemma RMS_constant:
  assumes "0 < n"
  shows "RMS (int16PCMToBytes (replicate n s)) = \<bar>real_of_int (sint s)\<bar>"
proof -
  have "sum_list (map (\<lambda>s. (real_of_int (sint s))\<^sup>2) (replicate n s)) / real n = (real_of_int (sint s))\<^sup>2"
    using assms by (simp add: sum_list_replicate)
  then show ?thesis using assms unfolding RMS_eq pcmBytesToInt16_inverse by simp
qed

subsection \<open>The tracker\<close>

definition vad_ms :: "AudioFrame \<Rightarrow> int" where "vad_ms f = frameDurationMS (af_PCM f) (af_SampleRate f)"

text \<open>The silence at the end of a sequence of frames.\<close>

definition trailing_silence :: "VAD \<Rightarrow> AudioFrame list \<Rightarrow> AudioFrame list" where
  "trailing_silence v fs = takeWhile (\<lambda>f. \<not> IsSpeech v (af_PCM f)) (rev fs)"

lemma observe_all_append:
  "observe_all u (fs @ gs) =
     (let (bs, u1) = observe_all u fs; (cs, u2) = observe_all u1 gs in (bs @ cs, u2))"
  by (induction fs arbitrary: u) (simp_all add: split_beta Let_def)

lemma observe_all_state:
  assumes "observe_all u fs = (bs, u')" "ub_silenceMS u = 0"
  shows "ub_vad u' = ub_vad u \<and> ub_silenceHoldMS u' = ub_silenceHoldMS u
     \<and> ub_silenceMS u' = sum_list (map vad_ms (trailing_silence (ub_vad u) fs))"
  using assms(1)
proof (induction fs arbitrary: bs u' rule: rev_induct)
  case Nil
  then show ?case using assms(2) by (simp add: trailing_silence_def)
next
  case (snoc f fs)
  obtain bs1 u1 where o: "observe_all u fs = (bs1, u1)" by fastforce
  from snoc.IH [OF o] snoc.prems o show ?case
    by (auto simp: observe_all_append ObserveFrame_def Observe_def trailing_silence_def vad_ms_def Let_def split: if_splits)
qed

text \<open>
  The tracker reports the silence at the end. For every sequence of frames ended by the frame
  \<open>f\<close>, a fresh or reset tracker answers that frame with a boundary exactly when \<open>f\<close> is silent and
  the frames since the last speech, \<open>f\<close> included, last at least the hold time; and the energy that
  decides it is between 0 and 32768 and, for a constant signal, its amplitude.
\<close>
theorem vad_boundary_is_trailing_silence:
  assumes "0 < n"
  shows "let u = NewUtteranceBoundaryTracker v hold; (bs, u') = observe_all u (fs @ [f]);
       silence = sum_list (map vad_ms (trailing_silence (ub_vad u) (fs @ [f])))
     in (last bs \<longleftrightarrow> \<not> IsSpeech (ub_vad u) (af_PCM f) \<and> ub_silenceHoldMS u \<le> silence)
        \<and> ub_silenceMS u' = silence \<and> observe_all (ub_Reset u') gs = observe_all u gs
        \<and> 0 \<le> RMS pcm \<and> RMS pcm \<le> 32768 \<and> RMS (int16PCMToBytes (replicate n s)) = \<bar>real_of_int (sint s)\<bar>"
proof -
  let ?u = "NewUtteranceBoundaryTracker v hold"
  obtain bs1 u1 where o: "observe_all ?u fs = (bs1, u1)" by fastforce
  obtain bs u' where a: "observe_all ?u (fs @ [f]) = (bs, u')" by fastforce
  have z: "ub_silenceMS ?u = 0" by (simp add: NewUtteranceBoundaryTracker_def)
  note s1 = observe_all_state [OF o z] and s2 = observe_all_state [OF a z]
  have "ub_Reset u' = ?u" using s2 z by (simp add: ub_Reset_def)
  moreover have "last bs = fst (ObserveFrame u1 f)" using a o by (auto simp: observe_all_append split_beta Let_def)
  then have "last bs \<longleftrightarrow> \<not> IsSpeech (ub_vad ?u) (af_PCM f)
      \<and> ub_silenceHoldMS ?u \<le> sum_list (map vad_ms (trailing_silence (ub_vad ?u) (fs @ [f])))"
    using s1 by (auto simp: ObserveFrame_def Observe_def trailing_silence_def vad_ms_def Let_def)
  ultimately show ?thesis using a s2 RMS_range [of pcm] RMS_constant [OF assms, of s] by (simp add: Let_def)
qed

theorem vad_boundary_is_trailing_silence_witness:
  "RMS (int16PCMToBytes (replicate 1 (-3))) = 3
   \<and> last (fst (observe_all (NewUtteranceBoundaryTracker None 0)
        [\<lparr>af_PCM = [], af_SampleRate = 8000, af_TimestampMS = 0\<rparr>])) = False"
proof -
  let ?f = "\<lparr>af_PCM = [], af_SampleRate = 8000, af_TimestampMS = 0\<rparr>"
  have "(0::nat) < 1" by simp
  from vad_boundary_is_trailing_silence [OF this, of None 0 "[]" ?f "[]" "[]" "-3"] show ?thesis
    by (auto simp: split_beta Let_def NewUtteranceBoundaryTracker_def NewVAD_def DefaultVADThreshold_def
        DefaultSilenceHoldMS_def trailing_silence_def vad_ms_def frameDurationMS_def IsSpeech_def)
qed

end
