(* ===== verification/Cli.thy ===== *)
theory Cli
  imports Media Mocks "HOL-Library.Char_ord" "HOL-Library.List_Lexorder"
begin

section \<open>Backend selection and the commands (pkg/langstream/backends.go, cmd/langstream)\<close>

text \<open>
  The registry of backends by name, the choice of a name from flag, environment and default, and
  the voice tables. The commands are in Commands, their flag syntax in Flags.
\<close>

subsection \<open>The registry\<close>

text \<open>A factory is the result of calling it. The three maps are ranged over for their names.\<close>

type_synonym 'a factories = "(string \<times> 'a result) list"

record ('asr, 'mt, 'tts) backendRegistry =
  asrFac :: "'asr factories"
  translFac :: "'mt factories"
  ttsFac :: "'tts factories"

definition BackendMock :: string where "BackendMock = ''mock''"

definition registerASR :: "string \<Rightarrow> 'asr result \<Rightarrow> ('asr, 'mt, 'tts) backendRegistry \<Rightarrow> ('asr, 'mt, 'tts) backendRegistry" where
  "registerASR name f r = r\<lparr>asrFac := al_put name f (asrFac r)\<rparr>"

definition registerTranslator :: "string \<Rightarrow> 'mt result \<Rightarrow> ('asr, 'mt, 'tts) backendRegistry \<Rightarrow> ('asr, 'mt, 'tts) backendRegistry" where
  "registerTranslator name f r = r\<lparr>translFac := al_put name f (translFac r)\<rparr>"

definition registerTTS :: "string \<Rightarrow> 'tts result \<Rightarrow> ('asr, 'mt, 'tts) backendRegistry \<Rightarrow> ('asr, 'mt, 'tts) backendRegistry" where
  "registerTTS name f r = r\<lparr>ttsFac := al_put name f (ttsFac r)\<rparr>"

definition newBackendRegistry :: "'asr \<Rightarrow> 'mt \<Rightarrow> 'tts \<Rightarrow> ('asr, 'mt, 'tts) backendRegistry" where
  "newBackendRegistry mockASR mockMT mockTTS =
     registerTTS BackendMock (Ok mockTTS) (registerTranslator BackendMock (Ok mockMT)
       (registerASR BackendMock (Ok mockASR) \<lparr>asrFac = [], translFac = [], ttsFac = []\<rparr>))"

definition sortedKeys :: "(string \<times> 'v) list \<Rightarrow> string list" where
  "sortedKeys m = sort (map fst m)"

text \<open>The error carries the sorted names, in its message.\<close>

definition newASR :: "('asr, 'mt, 'tts) backendRegistry \<Rightarrow> string \<Rightarrow> 'asr result" where
  "newASR r name = (case map_of (asrFac r) name of
     None \<Rightarrow> Err (ErrNew (''langstream: unknown ASR backend '' @ fmt_q name @ '' (available: '' @ show_list (sortedKeys (asrFac r)) @ '')''))
   | Some f \<Rightarrow> f)"

definition newTranslator :: "('asr, 'mt, 'tts) backendRegistry \<Rightarrow> string \<Rightarrow> 'mt result" where
  "newTranslator r name = (case map_of (translFac r) name of
     None \<Rightarrow> Err (ErrNew (''langstream: unknown translator backend '' @ fmt_q name @ '' (available: '' @ show_list (sortedKeys (translFac r)) @ '')''))
   | Some f \<Rightarrow> f)"

definition newTTS :: "('asr, 'mt, 'tts) backendRegistry \<Rightarrow> string \<Rightarrow> 'tts result" where
  "newTTS r name = (case map_of (ttsFac r) name of
     None \<Rightarrow> Err (ErrNew (''langstream: unknown TTS backend '' @ fmt_q name @ '' (available: '' @ show_list (sortedKeys (ttsFac r)) @ '')''))
   | Some f \<Rightarrow> f)"

text \<open>\<open>init\<close> of the command registers the six vendor backends.\<close>

definition register_vendors ::
  "'asr result \<Rightarrow> 'asr result \<Rightarrow> 'mt result \<Rightarrow> 'mt result \<Rightarrow> 'tts result \<Rightarrow> 'tts result
   \<Rightarrow> ('asr, 'mt, 'tts) backendRegistry \<Rightarrow> ('asr, 'mt, 'tts) backendRegistry" where
  "register_vendors deepgram sarvam gpt4o gemini cartesia elevenlabs r =
     registerTTS ''elevenlabs'' elevenlabs (registerTTS ''cartesia'' cartesia
       (registerTranslator ''gemini'' gemini (registerTranslator ''gpt4o'' gpt4o
         (registerASR ''sarvam'' sarvam (registerASR ''deepgram'' deepgram r)))))"

text \<open>\<open>resolveBackend\<close>: the flag, else the environment variable, else the mock.\<close>

definition resolveBackend :: "string \<Rightarrow> string \<Rightarrow> string" where
  "resolveBackend flagValue envValue =
     (if flagValue \<noteq> [] then flagValue else if envValue \<noteq> [] then envValue else BackendMock)"

text \<open>What a table of names promises to the selection code, and that the three maps keep it.\<close>

locale name_table =
  fixes put :: "string \<Rightarrow> 'a result \<Rightarrow> 'r \<Rightarrow> 'r"
    and select :: "'r \<Rightarrow> string \<Rightarrow> 'a result"
    and names :: "'r \<Rightarrow> string list"
    and ok :: "'r \<Rightarrow> bool"
  assumes select_put: "select (put n f r) n = f"
    and select_put_other: "m \<noteq> n \<Longrightarrow> m \<in> set (names r) \<Longrightarrow> select (put n f r) m = select r m"
    and names_put: "set (names (put n f r)) = insert n (set (names r))"
    and ok_put: "ok r \<Longrightarrow> ok (put n f r)"
    and names_sorted: "ok r \<Longrightarrow> sorted (names r) \<and> distinct (names r)"
    and select_unknown: "m \<notin> set (names r) \<Longrightarrow> \<not> is_ok (select r m)"
begin

lemma select_latest: "select (put n g (put n f r)) n = g"
  by (rule select_put)

lemma put_commute: "m \<noteq> n \<Longrightarrow> k \<in> set (names r) \<Longrightarrow> select (put n f (put m g r)) k = select (put m g (put n f r)) k"
  using select_put select_put_other names_put by (cases "k = m"; cases "k = n") simp_all

lemma select_ok_known: "is_ok (select r m) \<Longrightarrow> m \<in> set (names r)"
  using select_unknown by blast

end

interpretation asr_table: name_table registerASR newASR "\<lambda>r. sortedKeys (asrFac r)" "\<lambda>r. wf_al (asrFac r)"
  by unfold_locales (auto simp: registerASR_def newASR_def sortedKeys_def map_of_None_keys dest: map_of_Some_keys split: option.splits)

interpretation mt_table: name_table registerTranslator newTranslator "\<lambda>r. sortedKeys (translFac r)" "\<lambda>r. wf_al (translFac r)"
  by unfold_locales (auto simp: registerTranslator_def newTranslator_def sortedKeys_def map_of_None_keys dest: map_of_Some_keys split: option.splits)

interpretation tts_table: name_table registerTTS newTTS "\<lambda>r. sortedKeys (ttsFac r)" "\<lambda>r. wf_al (ttsFac r)"
  by unfold_locales (auto simp: registerTTS_def newTTS_def sortedKeys_def map_of_None_keys dest: map_of_Some_keys split: option.splits)

subsection \<open>Voices\<close>

definition LanguageEnglish :: language where "LanguageEnglish = ''en''"
definition LanguageHindi :: language where "LanguageHindi = ''hi''"

type_synonym voice_table = "(language \<times> (string \<times> string) list) list"

definition cartesiaVoices :: voice_table where
  "cartesiaVoices =
     [(LanguageEnglish, [(''default-en'', ''a0e99841-438c-4a64-b679-ae501e7d6091''),
                         (''agent-male-en'', ''63ff761f-c1e8-414b-b969-d1833d1c870c''),
                         (''agent-female-en'', ''bf0a246a-8642-498a-9950-80c35e9276b5'')]),
      (LanguageHindi, [(''default-hi'', ''839495c2-1cd1-49a1-9a5c-2b1a3f6c9d21''),
                       (''agent-male-hi'', ''a3f1e2c4-9b7d-4a6e-8c1f-5d2e7b9a4c60''),
                       (''agent-female-hi'', ''f4c2a1e9-6d3b-4c8a-9e7f-1a2b3c4d5e6f'')])]"

definition elevenlabsVoices :: voice_table where
  "elevenlabsVoices =
     [(LanguageEnglish, [(''default-en'', ''JBFqnCBsd6RMkjVDRZzb''),
                         (''agent-male-en'', ''JBFqnCBsd6RMkjVDRZzb''),
                         (''agent-female-en'', ''EXAVITQu4vr4xnSDxMaL'')]),
      (LanguageHindi, [(''default-hi'', ''EXAVITQu4vr4xnSDxMaL''),
                       (''agent-male-hi'', ''JBFqnCBsd6RMkjVDRZzb''),
                       (''agent-female-hi'', ''EXAVITQu4vr4xnSDxMaL'')])]"

definition defaultVoiceKey :: "language \<Rightarrow> string" where "defaultVoiceKey lang = ''default-'' @ lang"

text \<open>Looking up a missing key of a Go map gives the zero value.\<close>

definition go_get :: "('k \<times> 'v list) list \<Rightarrow> 'k \<Rightarrow> 'v list" where
  "go_get m k = (case map_of m k of None \<Rightarrow> [] | Some v \<Rightarrow> v)"

definition voiceFor :: "voice_table \<Rightarrow> Persona \<Rightarrow> string" where
  "voiceFor voices persona =
     (let lang0 = (if persona_Language persona = [] then LanguageEnglish else persona_Language persona);
          (byLang, lang) = (case map_of voices lang0 of
             None \<Rightarrow> (go_get voices LanguageEnglish, LanguageEnglish) | Some b \<Rightarrow> (b, lang0));
          named = (if VoiceID persona \<noteq> [] then map_of byLang (VoiceID persona) else None)
      in case named of Some i \<Rightarrow> i
         | None \<Rightarrow> (case map_of byLang (defaultVoiceKey lang) of Some i \<Rightarrow> i
                   | None \<Rightarrow> go_get (go_get voices LanguageEnglish) (defaultVoiceKey LanguageEnglish)))"

definition cartesia_voiceFor :: "Persona \<Rightarrow> string" where "cartesia_voiceFor = voiceFor cartesiaVoices"
definition elevenlabs_voiceFor :: "Persona \<Rightarrow> string" where "elevenlabs_voiceFor = voiceFor elevenlabsVoices"

lemma voiceFor_known:
  assumes "\<And>lang tbl. map_of voices lang = Some tbl \<Longrightarrow> map_of tbl (defaultVoiceKey lang) \<noteq> None"
    and "map_of voices LanguageEnglish \<noteq> None"
  shows "voiceFor voices persona \<in> snd ` (\<Union>e \<in> set voices. set (snd e))"
proof -
  let ?ids = "snd ` (\<Union>e \<in> set voices. set (snd e))"
  define lang0 where "lang0 = (if persona_Language persona = [] then LanguageEnglish else persona_Language persona)"
  define lang where "lang = (case map_of voices lang0 of None \<Rightarrow> LanguageEnglish | Some b \<Rightarrow> lang0)"
  define tbl where "tbl = (case map_of voices lang0 of None \<Rightarrow> go_get voices LanguageEnglish | Some b \<Rightarrow> b)"
  have lt: "map_of voices lang = Some tbl"
    using assms(2) by (auto simp: lang_def tbl_def go_get_def split: option.splits)
  have v: "voiceFor voices persona = (case (if VoiceID persona \<noteq> [] then map_of tbl (VoiceID persona) else None) of Some i \<Rightarrow> i
        | None \<Rightarrow> (case map_of tbl (defaultVoiceKey lang) of Some i \<Rightarrow> i
                  | None \<Rightarrow> go_get (go_get voices LanguageEnglish) (defaultVoiceKey LanguageEnglish)))"
    unfolding voiceFor_def Let_def lang0_def [symmetric] tbl_def lang_def
    by (cases "map_of voices lang0") (simp_all split: option.splits)
  have "i \<in> ?ids" if "map_of tbl k = Some i" for k i
  proof -
    have "(lang, tbl) \<in> set voices" "(k, i) \<in> set tbl" using lt that by (simp_all add: map_of_SomeD)
    then show ?thesis by force
  qed
  then show ?thesis using assms(1) [OF lt] v by (auto split: option.splits if_splits)
qed

lemma voices_known:
  "cartesia_voiceFor p \<in> snd ` (\<Union>e \<in> set cartesiaVoices. set (snd e))"
  "elevenlabs_voiceFor p \<in> snd ` (\<Union>e \<in> set elevenlabsVoices. set (snd e))"
  unfolding cartesia_voiceFor_def elevenlabs_voiceFor_def
  by (rule voiceFor_known; auto simp: cartesiaVoices_def elevenlabsVoices_def LanguageEnglish_def LanguageHindi_def
      defaultVoiceKey_def split: if_splits)+

text \<open>
  Selection never ends empty-handed. With no flag and no environment variable the mock is
  chosen and constructed, also after the vendors are registered; a registered name yields exactly
  what its latest factory yields, whatever else is registered, and an unknown one an error; the
  names in that error are sorted and without repetition; and every persona gets a voice of the
  vendor's table, for any language and any voice name.
\<close>
theorem backend_selection:
  "newASR (register_vendors d s g m c e (newBackendRegistry a t u)) (resolveBackend [] []) = Ok a
   \<and> newTranslator (register_vendors d s g m c e (newBackendRegistry a t u)) (resolveBackend [] []) = Ok t
   \<and> newTTS (register_vendors d s g m c e (newBackendRegistry a t u)) (resolveBackend [] []) = Ok u
   \<and> newASR (register_vendors d s g m c e (newBackendRegistry a t u)) (resolveBackend [] ''sarvam'') = s
   \<and> newASR (registerASR (ch # nm) f2 (registerASR (ch # nm) f1 r)) (resolveBackend (ch # nm) env) = f2
   \<and> (is_ok (newASR r n) \<longrightarrow> n \<in> set (sortedKeys (asrFac r)))
   \<and> (wf_al (asrFac r) \<longrightarrow> sorted (sortedKeys (asrFac r)) \<and> distinct (sortedKeys (asrFac r)))
   \<and> cartesia_voiceFor p \<noteq> [] \<and> elevenlabs_voiceFor p \<noteq> []"
proof -
  have "cartesia_voiceFor p \<noteq> []" "elevenlabs_voiceFor p \<noteq> []"
    using voices_known [of p] by (auto simp: cartesiaVoices_def elevenlabsVoices_def)
  moreover have "newASR (registerASR (ch # nm) f2 (registerASR (ch # nm) f1 r)) (ch # nm) = f2" by (rule asr_table.select_latest)
  moreover have "is_ok (newASR r n) \<longrightarrow> n \<in> set (sortedKeys (asrFac r))" using asr_table.select_ok_known by blast
  moreover have "wf_al (asrFac r) \<longrightarrow> sorted (sortedKeys (asrFac r)) \<and> distinct (sortedKeys (asrFac r))"
    using asr_table.names_sorted by blast
  moreover have "newASR (register_vendors d s g m c e (newBackendRegistry a t u)) (resolveBackend [] []) = Ok a
      \<and> newASR (register_vendors d s g m c e (newBackendRegistry a t u)) (resolveBackend [] ''sarvam'') = s"
    "newTranslator (register_vendors d s g m c e (newBackendRegistry a t u)) (resolveBackend [] []) = Ok t"
    "newTTS (register_vendors d s g m c e (newBackendRegistry a t u)) (resolveBackend [] []) = Ok u"
    by (simp_all add: resolveBackend_def register_vendors_def newBackendRegistry_def newASR_def newTranslator_def newTTS_def
        registerASR_def registerTranslator_def registerTTS_def BackendMock_def)
  moreover have "resolveBackend (ch # nm) env = ch # nm" by (simp add: resolveBackend_def)
  ultimately show ?thesis by simp
qed

end
