(* ===== verification/Flags.thy ===== *)
theory Flags
  imports Media Metrics
begin

section \<open>Command-line flags (the standard flag package, as cmd/langstream uses it)\<close>

text \<open>
  Every subcommand makes a \<open>flag.FlagSet\<close> with \<open>ContinueOnError\<close>, defines string, uint and int
  flags on it and parses its arguments. This theory translates what that needs of the standard
  library: the syntax of one argument, the loop over the arguments, and
  \<open>strconv.ParseUint\<close>/\<open>ParseInt\<close> with base 0 and 64 bits. No subcommand defines a boolean flag.
\<close>

subsection \<open>Numbers\<close>

datatype num_error = NumSyntax | NumRange

definition digit_val :: "char \<Rightarrow> nat option" where
  "digit_val c = (let n = of_char c :: nat; l = of_char (lower_char c) :: nat
     in if 48 \<le> n \<and> n \<le> 57 then Some (n - 48)
        else if 97 \<le> l \<and> l \<le> 122 then Some (l - 97 + 10) else None)"

definition maxUint64 :: nat where "maxUint64 = 18446744073709551615"

fun parse_digits :: "nat \<Rightarrow> nat \<Rightarrow> string \<Rightarrow> num_error + nat" where
  "parse_digits base n [] = Inr n"
| "parse_digits base n (c # cs) =
     (if c = CHR ''_'' then parse_digits base n cs
      else case digit_val c of
             None \<Rightarrow> Inl NumSyntax
           | Some d \<Rightarrow> if base \<le> d then Inl NumSyntax
                       else if maxUint64 < n * base + d then Inl NumRange
                       else parse_digits base (n * base + d) cs)"

text \<open>The base a prefix selects, and what is left to read.\<close>

definition base_prefix :: "string \<Rightarrow> nat \<times> string" where
  "base_prefix s =
     (case s of
        c0 # c1 # c2 # rest \<Rightarrow>
          if c0 \<noteq> CHR ''0'' then (10, s)
          else if lower_char c1 = CHR ''b'' then (2, c2 # rest)
          else if lower_char c1 = CHR ''o'' then (8, c2 # rest)
          else if lower_char c1 = CHR ''x'' then (16, c2 # rest)
          else (8, tl s)
      | c0 # rest \<Rightarrow> if c0 = CHR ''0'' then (8, rest) else (10, s)
      | [] \<Rightarrow> (10, []))"

text \<open>
  \<open>underscoreOK\<close>: underscores only between digits, or between a base prefix and a digit. The
  state is the kind of the last character.
\<close>

datatype last_char = AtStart | AfterDigit | AfterUnderscore | AfterOther

fun underscore_scan :: "bool \<Rightarrow> last_char \<Rightarrow> string \<Rightarrow> bool" where
  "underscore_scan hex i [] \<longleftrightarrow> i \<noteq> AfterUnderscore"
| "underscore_scan hex i (c # cs) \<longleftrightarrow>
     (let n = of_char c :: nat; l = of_char (lower_char c) :: nat in
      if 48 \<le> n \<and> n \<le> 57 \<or> hex \<and> 97 \<le> l \<and> l \<le> 102 then underscore_scan hex AfterDigit cs
      else if c = CHR ''_'' then i = AfterDigit \<and> underscore_scan hex AfterUnderscore cs
      else i \<noteq> AfterUnderscore \<and> underscore_scan hex AfterOther cs)"

definition underscoreOK :: "string \<Rightarrow> bool" where
  "underscoreOK s0 =
     (let s = (case s0 of c # cs \<Rightarrow> if c = CHR ''-'' \<or> c = CHR ''+'' then cs else s0 | [] \<Rightarrow> [])
      in case s of
           c0 # c1 # rest \<Rightarrow>
             if c0 = CHR ''0'' \<and> lower_char c1 \<in> {CHR ''b'', CHR ''o'', CHR ''x''}
             then underscore_scan (lower_char c1 = CHR ''x'') AfterDigit rest
             else underscore_scan False AtStart s
         | _ \<Rightarrow> underscore_scan False AtStart s)"

definition ParseUint :: "string \<Rightarrow> num_error + nat" where
  "ParseUint s0 =
     (if s0 = [] then Inl NumSyntax
      else let (base, s) = base_prefix s0
           in case parse_digits base 0 s of
                Inl e \<Rightarrow> Inl e
              | Inr n \<Rightarrow> if CHR ''_'' \<in> set s \<and> \<not> underscoreOK s0 then Inl NumSyntax else Inr n)"

definition ParseInt :: "string \<Rightarrow> num_error + int" where
  "ParseInt s0 =
     (case s0 of
        [] \<Rightarrow> Inl NumSyntax
      | c # cs \<Rightarrow>
          (let neg = (c = CHR ''-''); s = (if c = CHR ''+'' \<or> c = CHR ''-'' then cs else s0)
           in case ParseUint s of
                Inl e \<Rightarrow> Inl e
              | Inr un \<Rightarrow> if \<not> neg \<and> 2 ^ 63 \<le> un then Inl NumRange
                          else if neg \<and> 2 ^ 63 < un then Inl NumRange
                          else Inr (if neg then - int un else int un)))"

subsection \<open>Flag sets\<close>

datatype flag_value = StringVal string | UintVal i64 | IntVal i64

text \<open>A flag set: each defined name with its current value (first the default).\<close>

type_synonym flag_set = "(string \<times> flag_value) list"

datatype flag_error =
  ErrHelp | BadSyntax string | NotDefined string | NeedsArgument string | InvalidValue string string num_error

definition set_value :: "flag_value \<Rightarrow> string \<Rightarrow> num_error + flag_value" where
  "set_value old v =
     (case old of
        StringVal _ \<Rightarrow> Inr (StringVal v)
      | UintVal _ \<Rightarrow> (case ParseUint v of Inl e \<Rightarrow> Inl e | Inr n \<Rightarrow> Inr (UintVal (of_nat n)))
      | IntVal _ \<Rightarrow> (case ParseInt v of Inl e \<Rightarrow> Inl e | Inr n \<Rightarrow> Inr (IntVal (of_int n))))"

text \<open>The first equals sign after the first character separates name and value.\<close>

fun cut_equals :: "string \<Rightarrow> string \<times> string option" where
  "cut_equals [] = ([], None)"
| "cut_equals (c # cs) =
     (if c = CHR ''='' then ([], Some cs) else let (n, v) = cut_equals cs in (c # n, v))"

datatype flag_token = NotAFlag | Terminator | Malformed | FlagTok string "string option"

definition name_token :: "string \<Rightarrow> flag_token" where
  "name_token name =
     (case name of [] \<Rightarrow> Malformed
      | c # cs \<Rightarrow> if c = CHR ''-'' \<or> c = CHR ''='' then Malformed
                  else let (n, v) = cut_equals cs in FlagTok (c # n) v)"

definition flag_token :: "string \<Rightarrow> flag_token" where
  "flag_token s =
     (case s of
        c0 # c1 # rest \<Rightarrow>
          if c0 \<noteq> CHR ''-'' then NotAFlag
          else if c1 \<noteq> CHR ''-'' then name_token (c1 # rest)
          else if rest = [] then Terminator else name_token rest
      | _ \<Rightarrow> NotAFlag)"

text \<open>\<open>Parse\<close>: the flag set with the values read, and the arguments that are left.\<close>

fun parse_flags :: "flag_set \<Rightarrow> string list \<Rightarrow> flag_error + flag_set \<times> string list" where
  "parse_flags fs [] = Inr (fs, [])"
| "parse_flags fs (s # args) =
     (case flag_token s of
        NotAFlag \<Rightarrow> Inr (fs, s # args)
      | Terminator \<Rightarrow> Inr (fs, args)
      | Malformed \<Rightarrow> Inl (BadSyntax s)
      | FlagTok name value \<Rightarrow>
          (case map_of fs name of
             None \<Rightarrow> Inl (if name = ''help'' \<or> name = ''h'' then ErrHelp else NotDefined name)
           | Some old \<Rightarrow>
               (case value of
                  Some v \<Rightarrow> (case set_value old v of
                               Inl e \<Rightarrow> Inl (InvalidValue name v e)
                             | Inr new \<Rightarrow> parse_flags (al_put name new fs) args)
                | None \<Rightarrow>
                    (case args of
                       [] \<Rightarrow> Inl (NeedsArgument name)
                     | v # rest \<Rightarrow> (case set_value old v of
                                      Inl e \<Rightarrow> Inl (InvalidValue name v e)
                                    | Inr new \<Rightarrow> parse_flags (al_put name new fs) rest)))))"

definition flag_message :: "flag_error \<Rightarrow> string" where
  "flag_message e =
     (case e of ErrHelp \<Rightarrow> ''flag: help requested''
      | BadSyntax s \<Rightarrow> ''bad flag syntax: '' @ s
      | NotDefined n \<Rightarrow> ''flag provided but not defined: -'' @ n
      | NeedsArgument n \<Rightarrow> ''flag needs an argument: -'' @ n
      | InvalidValue n v ne \<Rightarrow> ''invalid value '' @ fmt_q v @ '' for flag -'' @ n @ '': ''
          @ (case ne of NumSyntax \<Rightarrow> ''parse error'' | NumRange \<Rightarrow> ''value out of range''))"

text \<open>What a subcommand reads through the pointers it got when it defined its flags.\<close>

definition flag_string :: "flag_set \<Rightarrow> string \<Rightarrow> string" where
  "flag_string fs n = (case map_of fs n of Some (StringVal s) \<Rightarrow> s | _ \<Rightarrow> [])"

definition flag_uint :: "flag_set \<Rightarrow> string \<Rightarrow> i64" where
  "flag_uint fs n = (case map_of fs n of Some (UintVal w) \<Rightarrow> w | _ \<Rightarrow> 0)"

definition flag_int :: "flag_set \<Rightarrow> string \<Rightarrow> i64" where
  "flag_int fs n = (case map_of fs n of Some (IntVal w) \<Rightarrow> w | _ \<Rightarrow> 0)"

lemmas number_defs = ParseUint_def ParseInt_def base_prefix_def digit_val_def lower_char_def maxUint64_def
  underscoreOK_def Let_def

lemma flag_examples:
  "ParseUint ''0x1_0'' = Inr 16" "ParseUint ''1__0'' = Inl NumSyntax" "ParseUint ''010'' = Inr 8"
  "ParseUint ''18446744073709551616'' = Inl NumRange" "ParseInt ''-9223372036854775808'' = Inr (- 9223372036854775808)"
  "ParseUint ''-1'' = Inl NumSyntax"
  by (simp_all add: number_defs)

subsection \<open>Flags keep their kind\<close>

datatype flag_kind = StringFlag | UintFlag | IntFlag

fun kind :: "flag_value \<Rightarrow> flag_kind" where
  "kind (StringVal s) = StringFlag"
| "kind (UintVal w) = UintFlag"
| "kind (IntVal w) = IntFlag"

lemma kind_simps [simp]:
  "kind v = StringFlag \<longleftrightarrow> (\<exists>s. v = StringVal s)" "kind v = UintFlag \<longleftrightarrow> (\<exists>w. v = UintVal w)"
  "kind v = IntFlag \<longleftrightarrow> (\<exists>w. v = IntVal w)"
  by (cases v; simp)+

definition flag_types :: "flag_set \<Rightarrow> (string \<times> flag_kind) list" where
  "flag_types fs = map (\<lambda>(n, v). (n, kind v)) fs"

lemma map_of_flag_types: "map_of (flag_types fs) n = map_option kind (map_of fs n)"
  by (induction fs) (auto simp: flag_types_def)

lemma set_value_kind: "set_value old v = Inr new \<Longrightarrow> kind new = kind old"
  by (cases old) (auto simp: set_value_def split: sum.splits)

lemma flag_types_put:
  "map_of fs n = Some old \<Longrightarrow> kind new = kind old \<Longrightarrow> flag_types (al_put n new fs) = flag_types fs"
  by (induction n new fs rule: al_put.induct) (auto simp: flag_types_def split: if_splits)

lemma parse_flags_types:
  "parse_flags fs args = Inr (fs', rest) \<Longrightarrow>
     flag_types fs' = flag_types fs
     \<and> (\<exists>used. args = used @ rest
          \<and> (rest = [] \<or> flag_token (hd rest) = NotAFlag \<or> used \<noteq> [] \<and> flag_token (last used) = Terminator))"
proof (induction fs args rule: parse_flags.induct)
  case (1 fs)
  then show ?case by simp
next
  case (2 fs s args)
  show ?case
  proof (cases "flag_token s")
    case NotAFlag
    with 2(3) show ?thesis by auto
  next
    case Terminator
    with 2(3) show ?thesis by (auto intro: exI [of _ "[s]"])
  next
    case Malformed
    with 2(3) show ?thesis by simp
  next
    case (FlagTok name v0)
    obtain old where old: "map_of fs name = Some old" using 2(3) FlagTok by (auto split: option.splits)
    show ?thesis
    proof (cases v0)
      case (Some v)
      obtain new where new: "set_value old v = Inr new" "parse_flags (al_put name new fs) args = Inr (fs', rest)"
        using 2(3) FlagTok old Some by (auto split: sum.splits)
      from 2(2) [OF FlagTok old Some new(1,2)] obtain used where "flag_types fs' = flag_types (al_put name new fs)" "args = used @ rest"
        "rest = [] \<or> flag_token (hd rest) = NotAFlag \<or> used \<noteq> [] \<and> flag_token (last used) = Terminator" by blast
      then show ?thesis using flag_types_put [OF old set_value_kind [OF new(1)]]
        by (intro conjI exI [of _ "s # used"]) auto
    next
      case None
      then obtain v args' where args: "args = v # args'" using 2(3) FlagTok old by (auto split: list.splits)
      obtain new where new: "set_value old v = Inr new" "parse_flags (al_put name new fs) args' = Inr (fs', rest)"
        using 2(3) FlagTok old None args by (auto split: sum.splits)
      from 2(1) [OF FlagTok old None args new(1,2)] obtain used where "flag_types fs' = flag_types (al_put name new fs)" "args' = used @ rest"
        "rest = [] \<or> flag_token (hd rest) = NotAFlag \<or> used \<noteq> [] \<and> flag_token (last used) = Terminator" by blast
      then show ?thesis using args flag_types_put [OF old set_value_kind [OF new(1)]]
        by (intro conjI exI [of _ "s # v # used"]) auto
    qed
  qed
qed

subsection \<open>Printed values read back\<close>

lemma digit_char:
  assumes "d < 10"
  shows "of_char (char_of (48 + d) :: char) = (48 + d :: nat)" "digit_val (char_of (48 + d)) = Some d"
    "(char_of (48 + d) :: char) \<noteq> CHR ''_''" "(char_of (48 + d) :: char) \<noteq> CHR ''-''" "(char_of (48 + d) :: char) \<noteq> CHR ''+''"
    "(char_of (48 + d) :: char) = CHR ''0'' \<longleftrightarrow> d = 0"
proof -
  show c: "of_char (char_of (48 + d) :: char) = (48 + d :: nat)" using assms by (simp add: of_char_of)
  then show "digit_val (char_of (48 + d)) = Some d" using assms by (simp add: digit_val_def Let_def)
  have ne: "(char_of (48 + d) :: char) = k \<longleftrightarrow> (48 + d :: nat) = of_char k" for k by (metis c char_of_char)
  show "(char_of (48 + d) :: char) \<noteq> CHR ''_''" "(char_of (48 + d) :: char) \<noteq> CHR ''-''" "(char_of (48 + d) :: char) \<noteq> CHR ''+''"
    "(char_of (48 + d) :: char) = CHR ''0'' \<longleftrightarrow> d = 0" using assms unfolding ne by simp_all
qed

definition digits :: "char set" where "digits = (\<lambda>d. char_of (48 + d :: nat)) ` {..<10}"

lemma show_nat_digits: "show_nat n \<noteq> [] \<and> set (show_nat n) \<subseteq> digits \<and> (0 < n \<longrightarrow> hd (show_nat n) \<noteq> CHR ''0'')"
proof (induction n rule: show_nat.induct)
  case (1 n)
  show ?case
  proof (cases "n < 10")
    case True
    then show ?thesis by (subst (1 2 3) show_nat.simps) (auto simp: digits_def digit_char(6))
  next
    case False
    then have "show_nat n = show_nat (n div 10) @ [char_of (48 + n mod 10)]" "0 < n div 10" by (subst show_nat.simps, auto)
    moreover have "char_of (48 + n mod 10) \<in> digits" unfolding digits_def by (rule image_eqI [OF refl]) simp
    ultimately show ?thesis using 1 [OF False] by simp
  qed
qed

lemma digits_not: "c \<in> digits \<Longrightarrow> c \<noteq> CHR ''_'' \<and> c \<noteq> CHR ''-'' \<and> c \<noteq> CHR ''+''"
  by (auto simp: digits_def digit_char)

lemma parse_digits_show_nat:
  "n \<le> maxUint64 \<Longrightarrow> parse_digits 10 0 (show_nat n @ rest) = parse_digits 10 n rest"
proof (induction n arbitrary: rest rule: show_nat.induct)
  case (1 n)
  show ?case
  proof (cases "n < 10")
    case True
    then show ?thesis using 1(2) by (subst show_nat.simps) (simp add: digit_char)
  next
    case False
    have s: "show_nat n = show_nat (n div 10) @ [char_of (48 + n mod 10)]" using False by (subst show_nat.simps) simp
    have "n div 10 \<le> maxUint64" using 1(2) by (meson div_le_dividend le_trans)
    then have "parse_digits 10 0 (show_nat n @ rest) = parse_digits 10 (n div 10) (char_of (48 + n mod 10) # rest)"
      unfolding s append_assoc by (subst 1(1) [OF False]) simp_all
    also have "\<dots> = parse_digits 10 n rest"
      using 1(2) digit_char(2,3) [of "n mod 10"] mod_less_divisor [of 10 n] by (simp del: mod_less_divisor)
    finally show ?thesis .
  qed
qed

lemma base_prefix_decimal: "s \<noteq> [] \<Longrightarrow> hd s \<noteq> CHR ''0'' \<Longrightarrow> base_prefix s = (10, s)"
  by (auto simp: base_prefix_def split: list.splits)

lemma ParseUint_show_nat:
  assumes "n \<le> maxUint64"
  shows "ParseUint (show_nat n) = Inr n"
proof (cases "n = 0")
  case True
  have "show_nat 0 = ''0''" using digit_char(6) [of 0] by (subst show_nat.simps) simp
  then show ?thesis using True by (simp add: number_defs)
next
  case False
  note d = show_nat_digits [of n]
  have "CHR ''_'' \<notin> set (show_nat n)" using d digits_not by blast
  then show ?thesis using d False base_prefix_decimal [of "show_nat n"] parse_digits_show_nat [OF assms, of "[]"]
    by (simp add: ParseUint_def)
qed

lemma ParseInt_show_int:
  assumes "- (2 ^ 63) \<le> i" "i < 2 ^ 63"
  shows "ParseInt (show_int i) = Inr i"
proof (cases "i < 0")
  case True
  have "ParseUint (show_nat (nat (- i))) = Inr (nat (- i))" using assms(1) by (intro ParseUint_show_nat) (simp add: maxUint64_def)
  then show ?thesis using True assms(1) by (simp add: show_int_def ParseInt_def Let_def)
next
  case False
  then have u: "ParseUint (show_nat (nat i)) = Inr (nat i)" using assms(2) by (intro ParseUint_show_nat) (simp add: maxUint64_def)
  obtain c cs where c: "show_nat (nat i) = c # cs" "c \<in> digits" using show_nat_digits [of "nat i"] by (cases "show_nat (nat i)") auto
  have "nat i < 2 ^ 63" using assms(2) False by (simp add: nat_less_iff)
  then show ?thesis using False u c digits_not [OF c(2)] by (simp add: show_int_def ParseInt_def Let_def)
qed

fun show_value :: "flag_value \<Rightarrow> string" where
  "show_value (StringVal s) = s"
| "show_value (UintVal w) = show_nat (unat w)"
| "show_value (IntVal w) = show_int (sint w)"

lemma set_value_show: "kind new = kind old \<Longrightarrow> set_value old (show_value new) = Inr new"
proof (cases new)
  case (UintVal w)
  moreover have "ParseUint (show_nat (unat w)) = Inr (unat w)"
    using unsigned_less [where 'a = nat, of w] by (intro ParseUint_show_nat) (simp add: maxUint64_def)
  ultimately show "kind new = kind old \<Longrightarrow> ?thesis" by (cases old) (simp_all add: set_value_def)
next
  case (IntVal w)
  moreover have "ParseInt (show_int (sint w)) = Inr (sint w)"
    using sint_ge [of w] sint_lt [of w] by (intro ParseInt_show_int) simp_all
  ultimately show "kind new = kind old \<Longrightarrow> ?thesis" by (cases old) (simp_all add: set_value_def)
qed (cases old; simp add: set_value_def)

subsection \<open>A printed command line reads back\<close>

text \<open>A flag can be written as one argument or, with one hyphen or two, as two.\<close>

datatype flag_form = JoinedForm | SplitForm

fun render_flag :: "flag_form \<times> string \<times> flag_value \<Rightarrow> string list" where
  "render_flag (JoinedForm, n, v) = [''--'' @ n @ ''='' @ show_value v]"
| "render_flag (SplitForm, n, v) = [''-'' @ n, show_value v]"

definition flag_name_ok :: "string \<Rightarrow> bool" where
  "flag_name_ok n \<longleftrightarrow> n \<noteq> [] \<and> hd n \<noteq> CHR ''-'' \<and> CHR ''='' \<notin> set n"

lemma cut_equals_append: "CHR ''='' \<notin> set n \<Longrightarrow> cut_equals (n @ CHR ''='' # v) = (n, Some v)"
  "CHR ''='' \<notin> set n \<Longrightarrow> cut_equals n = (n, None)"
  by (induction n) auto

lemma flag_token_render:
  assumes "flag_name_ok n"
  shows "flag_token (''--'' @ n @ ''='' @ v) = FlagTok n (Some v)" "flag_token (''-'' @ n) = FlagTok n None"
proof -
  obtain c cs where n: "n = c # cs" "c \<noteq> CHR ''-''" "c \<noteq> CHR ''=''" "CHR ''='' \<notin> set cs"
    using assms by (cases n) (auto simp: flag_name_ok_def)
  show "flag_token (''--'' @ n @ ''='' @ v) = FlagTok n (Some v)" "flag_token (''-'' @ n) = FlagTok n None"
    using n by (simp_all add: flag_token_def name_token_def cut_equals_append)
qed

definition set_flags :: "flag_set \<Rightarrow> (flag_form \<times> string \<times> flag_value) list \<Rightarrow> flag_set" where
  "set_flags fs xs = foldl (\<lambda>f x. al_put (fst (snd x)) (snd (snd x)) f) fs xs"

definition fits :: "flag_set \<Rightarrow> flag_form \<times> string \<times> flag_value \<Rightarrow> bool" where
  "fits fs x \<longleftrightarrow> flag_name_ok (fst (snd x)) \<and> map_of (flag_types fs) (fst (snd x)) = Some (kind (snd (snd x)))"

lemma parse_flags_render:
  assumes "list_all (fits fs) xs"
  shows "parse_flags fs (concat (map render_flag xs) @ args) = parse_flags (set_flags fs xs) args"
  using assms
proof (induction xs arbitrary: fs)
  case (Cons x xs)
  obtain form n v where x: "x = (form, n, v)" by (cases x)
  then obtain old where old: "flag_name_ok n" "map_of fs n = Some old" "kind v = kind old"
    using Cons.prems by (auto simp: fits_def map_of_flag_types)
  have "fits (al_put n v fs) = fits fs" by (rule ext) (simp add: fits_def flag_types_put [OF old(2,3)])
  then have ih: "parse_flags (al_put n v fs) (concat (map render_flag xs) @ args) = parse_flags (set_flags (al_put n v fs) xs) args"
    using Cons by simp
  show ?case using ih x old flag_token_render [OF old(1)] set_value_show [OF old(3)]
    by (cases form) (simp_all add: set_flags_def)
qed (simp add: set_flags_def)

lemma parse_flags_stops: "args = [] \<or> flag_token (hd args) = NotAFlag \<Longrightarrow> parse_flags fs args = Inr (fs, args)"
  by (cases args) auto

lemma set_flags_simps [simp]: "set_flags fs [] = fs" "set_flags fs (x # xs) = set_flags (al_put (fst (snd x)) (snd (snd x)) fs) xs"
  by (simp_all add: set_flags_def)

lemma flag_get_put [simp]:
  "flag_string (al_put n (StringVal s) fs) m = (if m = n then s else flag_string fs m)"
  "flag_uint (al_put n (UintVal w) fs) m = (if m = n then w else flag_uint fs m)"
  "flag_int (al_put n (IntVal w) fs) m = (if m = n then w else flag_int fs m)"
  "m \<noteq> n \<Longrightarrow> flag_string (al_put n v fs) m = flag_string fs m"
  "m \<noteq> n \<Longrightarrow> flag_uint (al_put n v fs) m = flag_uint fs m"
  "m \<noteq> n \<Longrightarrow> flag_int (al_put n v fs) m = flag_int fs m"
  by (simp_all add: flag_string_def flag_uint_def flag_int_def)

end
