(* ===== verification/Commands.thy ===== *)
theory Commands
  imports Cli Flags Duplex
begin

section \<open>Construction, run and shutdown of the commands (cmd/langstream)\<close>

text \<open>
  The flag sets of the subcommands and \<open>parseDuplexFlags\<close>, \<open>newSession\<close>, \<open>buildDuplexSession\<close>,
  \<open>runDuplexWithContext\<close>, \<open>serveDashboard\<close>, \<open>runServeWithContext\<close> and \<open>serveWebRTC\<close>. The outcomes
  of what they call are inputs; the calls that change state come back in order.
\<close>

subsection \<open>Flags\<close>

fun split_comma :: "string \<Rightarrow> string \<Rightarrow> string list" where
  "split_comma cur [] = [cur]"
| "split_comma cur (c # cs) = (if c = CHR '','' then cur # split_comma [] cs else split_comma (cur @ [c]) cs)"

record ICEServer =
  ice_URL :: string
  ice_Username :: string
  ice_Credential :: string

definition iceServerForURL :: "string \<Rightarrow> string \<Rightarrow> string \<Rightarrow> ICEServer" where
  "iceServerForURL u user cred =
     (let lower = map lower_char u;
          isTURN = has_prefix lower ''turn:'' \<or> has_prefix lower ''turns:''
      in if isTURN \<and> user \<noteq> [] \<and> cred \<noteq> [] then \<lparr>ice_URL = u, ice_Username = user, ice_Credential = cred\<rparr>
         else \<lparr>ice_URL = u, ice_Username = [], ice_Credential = []\<rparr>)"

definition buildICEServers :: "string \<Rightarrow> string \<Rightarrow> string \<Rightarrow> ICEServer list" where
  "buildICEServers stunServers user cred =
     map (\<lambda>u. iceServerForURL u user cred) (filter (\<lambda>u. u \<noteq> []) (map TrimSpace (split_comma [] stunServers)))"

text \<open>The flag sets of the four subcommands, with their defaults.\<close>

definition defaultDashboardAddr :: string where "defaultDashboardAddr = '':8080''"
definition defaultWebRTCAddr :: string where "defaultWebRTCAddr = '':8081''"
definition defaultSTUNServer :: string where "defaultSTUNServer = ''stun:stun.l.google.com:19302''"
definition defaultSuppressorBackend :: string where "defaultSuppressorBackend = ''passthrough''"

definition demo_flag_set :: flag_set where
  "demo_flag_set = [(''backend'', StringVal [])]"

definition serve_flag_set :: flag_set where
  "serve_flag_set = [(''backend'', StringVal []), (''addr'', StringVal defaultDashboardAddr)]"

definition webrtc_flag_set :: flag_set where
  "webrtc_flag_set =
     [(''backend'', StringVal []), (''addr'', StringVal defaultWebRTCAddr), (''caller-lang'', StringVal ''hi''),
      (''agent-lang'', StringVal ''en''), (''stun'', StringVal defaultSTUNServer), (''turn-username'', StringVal []),
      (''turn-credential'', StringVal [])]"

definition duplex_flag_set :: flag_set where
  "duplex_flag_set =
     [(''backend'', StringVal []), (''caller-lang'', StringVal ''hi''), (''agent-lang'', StringVal ''en''),
      (''caller-listen'', StringVal []), (''caller-forward'', StringVal []),
      (''agent-listen'', StringVal []), (''agent-forward'', StringVal []),
      (''caller-payload-type'', UintVal 0), (''agent-payload-type'', UintVal 0),
      (''caller-jitter-depth'', IntVal 0), (''agent-jitter-depth'', IntVal 0),
      (''suppressor'', StringVal defaultSuppressorBackend), (''addr'', StringVal defaultDashboardAddr)]"

definition envASRBackend :: string where "envASRBackend = ''LANGSTREAM_ASR_BACKEND''"
definition envMTBackend :: string where "envMTBackend = ''LANGSTREAM_MT_BACKEND''"
definition envTTSBackend :: string where "envTTSBackend = ''LANGSTREAM_TTS_BACKEND''"

record duplexConfig =
  dc_asrBackend :: string
  dc_mtBackend :: string
  dc_ttsBackend :: string
  dc_callerLang :: language
  dc_agentLang :: language
  dc_callerListen :: string
  dc_callerForward :: string
  dc_agentListen :: string
  dc_agentForward :: string
  dc_callerPayloadType :: i64
  dc_agentPayloadType :: i64
  dc_callerJitterDepth :: i64
  dc_agentJitterDepth :: i64
  dc_suppressorBackend :: string
  dc_dashboardAddr :: string

text \<open>The missing flags are ranged over in a map, so their order in the message is any.\<close>

definition missing_flags :: "flag_set \<Rightarrow> string list" where
  "missing_flags fs =
     map (\<lambda>n. ''--'' @ n) (filter (\<lambda>n. flag_string fs n = []) [''caller-listen'', ''caller-forward'', ''agent-listen'', ''agent-forward''])"

text \<open>\<open>env\<close> is \<open>os.Getenv\<close>. What \<open>Parse\<close> leaves unread is dropped: no subcommand looks at it.\<close>

definition parseDuplexFlags :: "string list \<Rightarrow> (string \<Rightarrow> string) \<Rightarrow> duplexConfig result" where
  "parseDuplexFlags args env =
     (case parse_flags duplex_flag_set args of
        Inl e \<Rightarrow> Err (ErrNew (flag_message e))
      | Inr (fs, rest) \<Rightarrow>
          if missing_flags fs \<noteq> [] then Err (ErrNew (''duplex: missing required flag(s): '' @ show_list (missing_flags fs)))
          else Ok \<lparr>dc_asrBackend = resolveBackend (flag_string fs ''backend'') (env envASRBackend),
                   dc_mtBackend = resolveBackend (flag_string fs ''backend'') (env envMTBackend),
                   dc_ttsBackend = resolveBackend (flag_string fs ''backend'') (env envTTSBackend),
                   dc_callerLang = flag_string fs ''caller-lang'', dc_agentLang = flag_string fs ''agent-lang'',
                   dc_callerListen = flag_string fs ''caller-listen'', dc_callerForward = flag_string fs ''caller-forward'',
                   dc_agentListen = flag_string fs ''agent-listen'', dc_agentForward = flag_string fs ''agent-forward'',
                   dc_callerPayloadType = flag_uint fs ''caller-payload-type'',
                   dc_agentPayloadType = flag_uint fs ''agent-payload-type'',
                   dc_callerJitterDepth = flag_int fs ''caller-jitter-depth'',
                   dc_agentJitterDepth = flag_int fs ''agent-jitter-depth'',
                   dc_suppressorBackend = flag_string fs ''suppressor'', dc_dashboardAddr = flag_string fs ''addr''\<rparr>)"

subsection \<open>Construction\<close>

datatype cmd_call = CreateSession | CloseSession | StartDashboard | StartDuplex | DrainGrace | StopDuplex

text \<open>\<open>mk\<close> is \<open>langstream.NewSession\<close> on the three backends and the two languages.\<close>

definition cli_newSession ::
  "('asr, 'mt, 'tts) backendRegistry \<Rightarrow> ('asr \<Rightarrow> 'mt \<Rightarrow> 'tts \<Rightarrow> language \<Rightarrow> language \<Rightarrow> 's result)
   \<Rightarrow> string \<Rightarrow> string \<Rightarrow> string \<Rightarrow> language \<Rightarrow> language \<Rightarrow> 's result" where
  "cli_newSession reg mk asrName mtName ttsName callerLang agentLang =
     (case newASR reg asrName of
        Inl e \<Rightarrow> Err (ErrWrap ''selecting ASR backend'' e)
      | Inr a \<Rightarrow>
        (case newTranslator reg mtName of
           Inl e \<Rightarrow> Err (ErrWrap ''selecting MT backend'' e)
         | Inr t \<Rightarrow>
           (case newTTS reg ttsName of
              Inl e \<Rightarrow> Err (ErrWrap ''selecting TTS backend'' e)
            | Inr s \<Rightarrow>
              (case mk a t s callerLang agentLang of Inl e \<Rightarrow> Err (ErrWrap ''creating session'' e) | Inr x \<Rightarrow> Ok x))))"

text \<open>The leg configurations the command passes on; the payload types are cut to a byte here.\<close>

definition caller_leg_config :: "duplexConfig \<Rightarrow> 'sup \<Rightarrow> 'log \<Rightarrow> ('sup, 'log) LegConfig" where
  "caller_leg_config cfg noise logger =
     \<lparr>lc_ListenAddr = dc_callerListen cfg, lc_ForwardAddr = dc_callerForward cfg, lc_ForwardAddrs = [],
      lc_PayloadType = ucast (dc_callerPayloadType cfg), lc_JitterDepth = sint (dc_callerJitterDepth cfg),
      lc_Suppressor = Some noise, lc_Logger = Some logger, lc_CleanAudioBufferSize = 0\<rparr>"

definition agent_leg_config :: "duplexConfig \<Rightarrow> 'sup \<Rightarrow> 'log \<Rightarrow> ('sup, 'log) LegConfig" where
  "agent_leg_config cfg noise logger =
     \<lparr>lc_ListenAddr = dc_agentListen cfg, lc_ForwardAddr = dc_agentForward cfg, lc_ForwardAddrs = [],
      lc_PayloadType = ucast (dc_agentPayloadType cfg), lc_JitterDepth = sint (dc_agentJitterDepth cfg),
      lc_Suppressor = Some noise, lc_Logger = Some logger, lc_CleanAudioBufferSize = 0\<rparr>"

text \<open>
  \<open>newSess\<close> is \<open>newSession\<close>, \<open>newSup b n\<close> the \<open>n\<close>-th \<open>model.NewSuppressor\<close> (ClearStream) with
  backend \<open>b\<close>, \<open>newDuplex\<close> is \<open>rtp.NewDuplexSession\<close> on the two legs and the session.
\<close>

definition buildDuplexSession ::
  "(string \<Rightarrow> string \<Rightarrow> string \<Rightarrow> language \<Rightarrow> language \<Rightarrow> 's result) \<Rightarrow> (string \<Rightarrow> nat \<Rightarrow> 'sup result) \<Rightarrow> 'log
   \<Rightarrow> (('sup, 'log) LegConfig \<Rightarrow> ('sup, 'log) LegConfig \<Rightarrow> 's \<Rightarrow> 'd result) \<Rightarrow> duplexConfig
   \<Rightarrow> ('d \<times> 's) result \<times> cmd_call list" where
  "buildDuplexSession newSess newSup logger newDuplex cfg =
     (case newSess (dc_asrBackend cfg) (dc_mtBackend cfg) (dc_ttsBackend cfg) (dc_callerLang cfg) (dc_agentLang cfg) of
        Inl e \<Rightarrow> (Err (ErrWrap ''duplex'' e), [])
      | Inr s \<Rightarrow>
        (case newSup (dc_suppressorBackend cfg) 0 of
           Inl e \<Rightarrow> (Err (ErrWrap (''duplex: constructing caller leg suppressor (backend '' @ fmt_q (dc_suppressorBackend cfg) @ '')'') e), [CreateSession, CloseSession])
         | Inr callerSup \<Rightarrow>
           (case newSup (dc_suppressorBackend cfg) 1 of
              Inl e \<Rightarrow> (Err (ErrWrap (''duplex: constructing agent leg suppressor (backend '' @ fmt_q (dc_suppressorBackend cfg) @ '')'') e), [CreateSession, CloseSession])
            | Inr agentSup \<Rightarrow>
              (case newDuplex (caller_leg_config cfg callerSup logger) (agent_leg_config cfg agentSup logger) s of
                 Inl e \<Rightarrow> (Err (ErrWrap ''duplex: constructing DuplexSession'' e), [CreateSession, CloseSession])
               | Inr d \<Rightarrow> (Ok (d, s), [CreateSession])))))"

subsection \<open>Serving the dashboard\<close>

datatype serve_event = ListenFailed go_error | CtxDone

text \<open>\<open>None\<close>: it has not returned. The events are in the order the goroutine sees them.\<close>

fun serveDashboard :: "serve_event list \<Rightarrow> go_error option \<Rightarrow> go_error option option" where
  "serveDashboard [] shutdownErr = None"
| "serveDashboard (ListenFailed e # es) shutdownErr = Some (Some e)"
| "serveDashboard (CtxDone # es) shutdownErr =
     (case shutdownErr of Some e \<Rightarrow> Some (Some (ErrWrap ''shutting down dashboard server'' e)) | None \<Rightarrow> Some None)"

fun serveWebRTC :: "serve_event list \<Rightarrow> go_error option \<Rightarrow> go_error option option" where
  "serveWebRTC [] shutdownErr = None"
| "serveWebRTC (ListenFailed e # es) shutdownErr = Some (Some e)"
| "serveWebRTC (CtxDone # es) shutdownErr = Some shutdownErr"

definition first_err :: "go_error option \<Rightarrow> go_error option \<Rightarrow> go_error option" where
  "first_err a b = (case a of Some e \<Rightarrow> Some e | None \<Rightarrow> b)"

text \<open>\<open>runServeWithContext\<close> waits for the signal first, whatever the dashboard does.\<close>

definition runServeWithContext ::
  "serve_event list \<Rightarrow> go_error option \<Rightarrow> go_error option \<Rightarrow> (go_error option \<times> cmd_call list) option" where
  "runServeWithContext es closeErr shutdownErr =
     (if CtxDone \<notin> set es then None
      else case serveDashboard es shutdownErr of
             None \<Rightarrow> None
           | Some dash \<Rightarrow>
               Some (first_err (map_option (ErrWrap ''closing session'') closeErr) dash, [StartDashboard, CloseSession]))"

subsection \<open>Running the duplex command\<close>

text \<open>
  \<open>dash\<close>: what the dashboard goroutine reported within the grace period (\<open>None\<close>: nothing).
\<close>

definition runDuplexWithContext ::
  "('d \<times> 's) result \<times> cmd_call list \<Rightarrow> string \<Rightarrow> go_error option \<Rightarrow> go_error option \<Rightarrow> go_error option option
   \<Rightarrow> go_error option \<times> cmd_call list" where
  "runDuplexWithContext built dashboardAddr closeErr stopErr dash =
     (case built of
        (Inl e, calls) \<Rightarrow> (Some e, calls)
      | (Inr _, calls) \<Rightarrow>
          let e1 = map_option (ErrWrap ''closing session'') closeErr;
              e2 = first_err e1 (map_option (ErrWrap ''stopping DuplexSession'') stopErr);
              e3 = (if dashboardAddr = [] then e2
                    else first_err e2 (case dash of Some d \<Rightarrow> map_option (ErrWrap ''shutting down dashboard server'') d
                                       | None \<Rightarrow> Some (ErrNew ''dashboard server did not shut down within 5s'')))
          in (e3, calls @ (if dashboardAddr = [] then [] else [StartDashboard])
                  @ [StartDuplex, CloseSession, DrainGrace, StopDuplex]))"

lemma cli_newSession_ok:
  "is_ok (cli_newSession reg mk a t s l m) \<Longrightarrow> is_ok (newASR reg a) \<and> is_ok (newTranslator reg t) \<and> is_ok (newTTS reg s)"
  by (auto simp: cli_newSession_def split: sum.splits)

lemma build_cases:
  assumes "built = buildDuplexSession newSess newSup logger newDuplex cfg"
  obtains
    (NoSession) e where "built = (Inl e, [])" "\<not> is_ok (newSess (dc_asrBackend cfg) (dc_mtBackend cfg) (dc_ttsBackend cfg)
        (dc_callerLang cfg) (dc_agentLang cfg))"
  | (NoLegs) e where "built = (Inl e, [CreateSession, CloseSession])" "is_ok (newSess (dc_asrBackend cfg) (dc_mtBackend cfg)
        (dc_ttsBackend cfg) (dc_callerLang cfg) (dc_agentLang cfg))"
  | (Built) x where "built = (Inr x, [CreateSession])" "is_ok (newSess (dc_asrBackend cfg) (dc_mtBackend cfg)
        (dc_ttsBackend cfg) (dc_callerLang cfg) (dc_agentLang cfg))"
      "is_ok (newSup (dc_suppressorBackend cfg) 0)" "is_ok (newSup (dc_suppressorBackend cfg) 1)"
  using assms unfolding buildDuplexSession_def by (auto split: sum.splits)

lemma run_built:
  assumes "runDuplexWithContext (Inr x, cs) addr closeErr stopErr dash = (err, calls)"
  shows "calls = cs @ (if addr = [] then [] else [StartDashboard]) @ [StartDuplex, CloseSession, DrainGrace, StopDuplex]"
    "err = None \<longleftrightarrow> closeErr = None \<and> stopErr = None \<and> (addr = [] \<or> dash = Some None)"
    "closeErr = Some e \<Longrightarrow> err = Some (ErrWrap ''closing session'' e)"
    "closeErr = None \<Longrightarrow> stopErr = Some e \<Longrightarrow> err = Some (ErrWrap ''stopping DuplexSession'' e)"
  using assms by (auto simp: runDuplexWithContext_def first_err_def Let_def split: option.splits if_splits)

lemma run_not_built: "runDuplexWithContext (Inl e, cs) addr closeErr stopErr dash = (Some e, cs)"
  by (simp add: runDuplexWithContext_def)

text \<open>
  C33: The duplex command leaves nothing open and hides no failure. Whatever fails, a session that was
  created is closed exactly once; the RTP legs are started if and only if everything was built, and
  then stopped, after the session was closed and had its grace to drain; the dashboard is started if
  and only if it has an address. The command reports success exactly when everything was built, the
  session closed and the legs stopped without an error and the dashboard, if there is one, shut down
  in time without an error; otherwise it reports the first of these failures, in that order. Every
  backend it constructs comes from the registry under the resolved name.
\<close>
theorem duplex_command_cleans_up:
  fixes reg :: "('asr, 'mt, 'tts) backendRegistry"
  assumes "built = buildDuplexSession (cli_newSession reg mk) newSup logger newDuplex cfg"
    "runDuplexWithContext built (dc_dashboardAddr cfg) closeErr stopErr dash = (err, calls)"
  shows "count_list calls CloseSession = count_list calls CreateSession \<and> count_list calls CloseSession \<le> 1
    \<and> (CreateSession \<in> set calls \<longleftrightarrow> is_ok (cli_newSession reg mk (dc_asrBackend cfg) (dc_mtBackend cfg)
         (dc_ttsBackend cfg) (dc_callerLang cfg) (dc_agentLang cfg)))
    \<and> (StartDuplex \<in> set calls \<longleftrightarrow> is_ok (fst built))
    \<and> (is_ok (fst built) \<longrightarrow> calls = [CreateSession] @ (if dc_dashboardAddr cfg = [] then [] else [StartDashboard])
         @ [StartDuplex, CloseSession, DrainGrace, StopDuplex])
    \<and> (err = None \<longleftrightarrow> is_ok (fst built) \<and> closeErr = None \<and> stopErr = None
         \<and> (dc_dashboardAddr cfg = [] \<or> dash = Some None))
    \<and> (\<forall>e. fst built = Inl e \<longrightarrow> err = Some e)
    \<and> (\<forall>e. is_ok (fst built) \<and> closeErr = Some e \<longrightarrow> err = Some (ErrWrap ''closing session'' e))
    \<and> (\<forall>e. is_ok (fst built) \<and> closeErr = None \<and> stopErr = Some e \<longrightarrow> err = Some (ErrWrap ''stopping DuplexSession'' e))
    \<and> (is_ok (fst built) \<longrightarrow> is_ok (newASR reg (dc_asrBackend cfg)) \<and> is_ok (newTranslator reg (dc_mtBackend cfg))
         \<and> is_ok (newTTS reg (dc_ttsBackend cfg)) \<and> is_ok (newSup (dc_suppressorBackend cfg) 0)
         \<and> is_ok (newSup (dc_suppressorBackend cfg) 1))"
  using assms(1)
proof (cases rule: build_cases)
  case (NoSession e)
  then show ?thesis using assms(2) by (auto simp: run_not_built)
next
  case (NoLegs e)
  then show ?thesis using assms(2) by (auto simp: run_not_built)
next
  case (Built x)
  note r = run_built [OF assms(2) [unfolded Built(1)]]
  show ?thesis unfolding r(1) using Built r(2-4) cli_newSession_ok [OF Built(2)] by simp
qed

text \<open>The mock backends, and a suppressor that cannot be constructed.\<close>

definition demo_duplexConfig :: duplexConfig where
  "demo_duplexConfig = \<lparr>dc_asrBackend = ''mock'', dc_mtBackend = ''mock'', dc_ttsBackend = ''mock'', dc_callerLang = ''hi'',
     dc_agentLang = ''en'', dc_callerListen = '':5004'', dc_callerForward = '':5005'', dc_agentListen = '':5006'',
     dc_agentForward = '':5007'', dc_callerPayloadType = 0, dc_agentPayloadType = 0, dc_callerJitterDepth = 0,
     dc_agentJitterDepth = 0, dc_suppressorBackend = ''rnnoise'', dc_dashboardAddr = []\<rparr>"

theorem duplex_command_cleans_up_witness:
  "count_list (snd (runDuplexWithContext (buildDuplexSession
        (cli_newSession (newBackendRegistry () () ()) (\<lambda>a t s l m. Ok ())) (\<lambda>b n. Err (ErrNew b) :: unit result) () (\<lambda>c a s. Ok ()) demo_duplexConfig)
        [] None None None)) CloseSession = 1"
proof -
  let ?n = "cli_newSession (newBackendRegistry () () ()) (\<lambda>a t s l m. Ok ())"
  let ?b = "buildDuplexSession ?n (\<lambda>b n. Err (ErrNew b) :: unit result) () (\<lambda>c a s. Ok ()) demo_duplexConfig"
  have ok: "?n ''mock'' ''mock'' ''mock'' l m = Ok ()" for l m
    by (simp add: cli_newSession_def newBackendRegistry_def newASR_def newTranslator_def newTTS_def registerASR_def
        registerTranslator_def registerTTS_def BackendMock_def)
  have f: "dc_asrBackend demo_duplexConfig = ''mock''" "dc_mtBackend demo_duplexConfig = ''mock''"
    "dc_ttsBackend demo_duplexConfig = ''mock''" "dc_dashboardAddr demo_duplexConfig = []" by (simp_all add: demo_duplexConfig_def)
  obtain err calls where r: "runDuplexWithContext ?b (dc_dashboardAddr demo_duplexConfig) None None None = (err, calls)" by fastforce
  have "CreateSession \<in> set calls" "count_list calls CloseSession = count_list calls CreateSession" "count_list calls CloseSession \<le> 1"
    using duplex_command_cleans_up [OF refl r] unfolding f ok is_ok.simps by blast+
  moreover have "0 < count_list calls CreateSession" using \<open>CreateSession \<in> set calls\<close> by (metis count_list_0_iff gr0I)
  ultimately show ?thesis using r by (simp add: f)
qed

lemma serve_waits_for_signal:
  "CtxDone \<notin> set es \<Longrightarrow> runServeWithContext (ListenFailed e # es) closeErr shutdownErr = None"
  "runServeWithContext (es @ [CtxDone]) closeErr shutdownErr \<noteq> None"
  by (simp_all add: runServeWithContext_def split: option.splits)
    (cases es; simp split: option.splits; cases "hd es"; simp split: option.splits)

lemma ice_credentials_only_for_turn:
  "s \<in> set (buildICEServers urls user cred) \<Longrightarrow> ice_Username s \<noteq> [] \<or> ice_Credential s \<noteq> [] \<Longrightarrow>
     (has_prefix (map lower_char (ice_URL s)) ''turn:'' \<or> has_prefix (map lower_char (ice_URL s)) ''turns:'') \<and> ice_Username s = user \<and> ice_Credential s = cred"
  by (auto simp: buildICEServers_def iceServerForURL_def Let_def split: if_splits)

subsection \<open>The duplex command line\<close>

text \<open>All thirteen duplex flags with the values of a configuration, each in a chosen form.\<close>

definition duplex_arguments :: "(string \<Rightarrow> flag_form) \<Rightarrow> string \<Rightarrow> duplexConfig \<Rightarrow> (flag_form \<times> string \<times> flag_value) list" where
  "duplex_arguments form backend cfg =
     map (\<lambda>(n, v). (form n, n, v))
       [(''agent-jitter-depth'', IntVal (dc_agentJitterDepth cfg)), (''caller-jitter-depth'', IntVal (dc_callerJitterDepth cfg)),
        (''agent-payload-type'', UintVal (dc_agentPayloadType cfg)), (''caller-payload-type'', UintVal (dc_callerPayloadType cfg)),
        (''addr'', StringVal (dc_dashboardAddr cfg)), (''suppressor'', StringVal (dc_suppressorBackend cfg)),
        (''caller-listen'', StringVal (dc_callerListen cfg)), (''caller-forward'', StringVal (dc_callerForward cfg)),
        (''agent-listen'', StringVal (dc_agentListen cfg)), (''agent-forward'', StringVal (dc_agentForward cfg)),
        (''caller-lang'', StringVal (dc_callerLang cfg)), (''agent-lang'', StringVal (dc_agentLang cfg)),
        (''backend'', StringVal backend)]"

lemma duplex_arguments_fit: "list_all (fits duplex_flag_set) (duplex_arguments form backend cfg)"
  by (simp add: duplex_arguments_def fits_def flag_name_ok_def duplex_flag_set_def flag_types_def)

definition resolved :: "string \<Rightarrow> (string \<Rightarrow> string) \<Rightarrow> duplexConfig \<Rightarrow> duplexConfig" where
  "resolved backend env cfg =
     cfg\<lparr>dc_asrBackend := resolveBackend backend (env envASRBackend),
         dc_mtBackend := resolveBackend backend (env envMTBackend), dc_ttsBackend := resolveBackend backend (env envTTSBackend)\<rparr>"

lemma duplex_flags_read:
  assumes "fs = set_flags duplex_flag_set (duplex_arguments form backend cfg)"
  shows "flag_string fs ''backend'' = backend" "flag_string fs ''caller-lang'' = dc_callerLang cfg"
    "flag_string fs ''agent-lang'' = dc_agentLang cfg" "flag_string fs ''caller-listen'' = dc_callerListen cfg"
    "flag_string fs ''caller-forward'' = dc_callerForward cfg" "flag_string fs ''agent-listen'' = dc_agentListen cfg"
    "flag_string fs ''agent-forward'' = dc_agentForward cfg" "flag_uint fs ''caller-payload-type'' = dc_callerPayloadType cfg"
    "flag_uint fs ''agent-payload-type'' = dc_agentPayloadType cfg" "flag_int fs ''caller-jitter-depth'' = dc_callerJitterDepth cfg"
    "flag_int fs ''agent-jitter-depth'' = dc_agentJitterDepth cfg" "flag_string fs ''suppressor'' = dc_suppressorBackend cfg"
    "flag_string fs ''addr'' = dc_dashboardAddr cfg"
  unfolding assms duplex_arguments_def by simp_all

text \<open>
  C32: A duplex command line reads back. All flags written out for a configuration, each in any of
  the accepted forms and with any values, parse to exactly that configuration, with the backends
  resolved against the environment. But whatever follows the first argument that is no flag is
  dropped without an error, further flags included, and a payload type is cut to its last eight bits
  only when the legs are configured.
\<close>
theorem duplex_command_line:
  assumes "\<not> list_ex (\<lambda>a. a = []) [dc_callerListen cfg, dc_callerForward cfg, dc_agentListen cfg, dc_agentForward cfg]"
    and "extra = [] \<or> flag_token (hd extra) = NotAFlag"
  shows "parseDuplexFlags (concat (map render_flag (duplex_arguments form backend cfg)) @ extra) env = Ok (resolved backend env cfg)
    \<and> lc_PayloadType (caller_leg_config (cfg\<lparr>dc_callerPayloadType := dc_callerPayloadType cfg + 256\<rparr>) noise logger)
        = lc_PayloadType (caller_leg_config (resolved backend env cfg) noise logger)"
proof -
  define fs where "fs = set_flags duplex_flag_set (duplex_arguments form backend cfg)"
  note r = duplex_flags_read [OF fs_def]
  have p: "parse_flags duplex_flag_set (concat (map render_flag (duplex_arguments form backend cfg)) @ extra) = Inr (fs, extra)"
    unfolding parse_flags_render [OF duplex_arguments_fit] fs_def by (rule parse_flags_stops [OF assms(2)])
  have m: "missing_flags fs = []" using assms(1) by (simp add: missing_flags_def r)
  have "ucast (w + 256) = (ucast w :: byte)" for w :: i64
    by transfer (simp add: take_bit_eq_mod mod_mod_cancel)
  then show ?thesis
    by (simp add: parseDuplexFlags_def p m r resolved_def caller_leg_config_def del: map_append)
qed

theorem duplex_command_line_witness:
  "parseDuplexFlags (concat (map render_flag (duplex_arguments (\<lambda>n. SplitForm) [] demo_duplexConfig)) @ [''now'', ''--addr='']) (\<lambda>v. ''sarvam'')
     = Ok (resolved [] (\<lambda>v. ''sarvam'') demo_duplexConfig)"
proof -
  have a: "\<not> list_ex (\<lambda>a. a = []) [dc_callerListen demo_duplexConfig, dc_callerForward demo_duplexConfig,
      dc_agentListen demo_duplexConfig, dc_agentForward demo_duplexConfig]" by (simp add: demo_duplexConfig_def)
  have e: "[''now'', ''--addr=''] = [] \<or> flag_token (hd [''now'', ''--addr='']) = NotAFlag" by (simp add: flag_token_def)
  show ?thesis by (rule conjunct1 [OF duplex_command_line [OF a e]])
qed

end
