(* ===== verification/WsFrame.thy ===== *)
theory WsFrame
  imports Media
begin

section \<open>WebSocket framing (pkg/tts/cartesia_ws.go)\<close>

text \<open>
  Frames and messages of RFC 6455 as the client writes and reads them. A reader is the bytes still
  to come; a read past the end is an error. The mask key is an argument (the code draws it), and a
  message reader gives back the frames it wrote in answer. The handshake (HTTP, TLS, SHA-1) is
  external.
\<close>

subsection \<open>Big-endian numbers and masks\<close>

fun be_put :: "nat \<Rightarrow> nat \<Rightarrow> bytes" where
  "be_put 0 n = []"
| "be_put (Suc k) n = of_nat (n div 256 ^ k) # be_put k n"

definition be_get :: "bytes \<Rightarrow> nat" where
  "be_get bs = foldl (\<lambda>a b. a * 256 + unat b) 0 bs"

definition mask_with :: "bytes \<Rightarrow> bytes \<Rightarrow> bytes" where
  "mask_with key payload = map (\<lambda>i. xor (payload ! i) (key ! (i mod 4))) [0..<length payload]"

lemma length_be_put [simp]: "length (be_put k n) = k"
  by (induction k) simp_all

lemma be_get_Cons: "be_get (b # bs) = unat b * 256 ^ length bs + be_get bs"
proof -
  have "foldl (\<lambda>a b. a * 256 + unat b) c bs = c * 256 ^ length bs + foldl (\<lambda>a b. a * 256 + unat b) 0 bs" for c :: nat
  proof (induction bs arbitrary: c)
    case (Cons x bs)
    from Cons [of "c * 256 + unat x"] Cons [of "unat x"] show ?case by (simp add: algebra_simps)
  qed simp
  from this [of "unat b"] show ?thesis by (simp add: be_get_def)
qed

lemma be_get_put: "be_get (be_put k n) = n mod 256 ^ k"
proof (induction k)
  case (Suc k)
  have "unat (of_nat (n div 256 ^ k) :: byte) = n div 256 ^ k mod 256" by (simp add: unat_of_nat)
  then show ?case using Suc unfolding power_Suc2 mod_mult2_eq by (simp add: be_get_Cons mult.commute)
qed (simp add: be_get_def)

lemma mask_with_twice [simp]: "mask_with key (mask_with key payload) = payload"
  by (rule nth_equalityI) (simp_all add: mask_with_def xor.assoc)

lemma length_mask_with [simp]: "length (mask_with key payload) = length payload"
  by (simp add: mask_with_def)

subsection \<open>Frames\<close>

definition wsOpContinuation :: byte where "wsOpContinuation = 0"
definition wsOpText :: byte where "wsOpText = 1"
definition wsOpBinary :: byte where "wsOpBinary = 2"
definition wsOpClose :: byte where "wsOpClose = 8"
definition wsOpPing :: byte where "wsOpPing = 9"
definition wsOpPong :: byte where "wsOpPong = 10"

lemmas ws_ops = wsOpContinuation_def wsOpText_def wsOpBinary_def wsOpClose_def wsOpPing_def wsOpPong_def

definition maxWSFramePayload :: int where "maxWSFramePayload = 16 * 1024 * 1024"

text \<open>The length field with the given mask bit, as client and server write it.\<close>

definition length_field :: "byte \<Rightarrow> nat \<Rightarrow> bytes" where
  "length_field maskBit n =
     (if n \<le> 125 then [or maskBit (of_nat n)]
      else if n \<le> 65535 then or maskBit 126 # be_put 2 n
      else or maskBit 127 # be_put 8 n)"

definition writeWSFrame :: "bytes \<Rightarrow> byte \<Rightarrow> bytes \<Rightarrow> bytes" where
  "writeWSFrame maskKey opcode payload =
     [or 0x80 opcode] @ length_field 0x80 (length payload) @ maskKey
       @ (if length payload = 0 then [] else mask_with maskKey payload)"

definition ReadFull :: "nat \<Rightarrow> bytes \<Rightarrow> (bytes \<times> bytes) result" where
  "ReadFull n bs = (if n \<le> length bs then Ok (take n bs, drop n bs) else Err (ErrNew ''unexpected EOF''))"

definition go_bind :: "'a result \<Rightarrow> ('a \<Rightarrow> 'b result) \<Rightarrow> 'b result" where
  "go_bind r f = (case r of Inl e \<Rightarrow> Err e | Inr x \<Rightarrow> f x)"

lemma go_bind_simps [simp]: "go_bind (Ok x) f = f x" "go_bind (Err e) f = Err e"
  by (simp_all add: go_bind_def)

definition read_length :: "byte \<Rightarrow> bytes \<Rightarrow> (int \<times> bytes) result" where
  "read_length len7 bs =
     (if len7 = 126 then go_bind (ReadFull 2 bs) (\<lambda>(ext, bs1). Ok (int (be_get ext), bs1))
      else if len7 = 127 then go_bind (ReadFull 8 bs) (\<lambda>(ext, bs1). Ok (sint (of_nat (be_get ext) :: i64), bs1))
      else Ok (uint len7, bs))"

definition readWSFrame :: "bytes \<Rightarrow> ((bool \<times> byte \<times> bytes) \<times> bytes) result" where
  "readWSFrame bs =
     go_bind (ReadFull 2 bs) (\<lambda>(head, bs1).
       let fin = (and (head ! 0) 0x80 \<noteq> 0); opcode = and (head ! 0) 0x0F; masked = (and (head ! 1) 0x80 \<noteq> 0)
       in go_bind (read_length (and (head ! 1) 0x7F) bs1) (\<lambda>(len, bs2).
            if len < 0 \<or> len > maxWSFramePayload then Err (ErrNew ''tts/cartesia: websocket frame payload too large'')
            else go_bind (if masked then ReadFull 4 bs2 else Ok ([0, 0, 0, 0], bs2)) (\<lambda>(maskKey, bs3).
              go_bind (ReadFull (nat len) bs3) (\<lambda>(payload, bs4).
                Ok ((fin, opcode, if masked then mask_with maskKey payload else payload), bs4)))))"

subsection \<open>Reading what was written\<close>

lemma ReadFull_append: "length a = n \<Longrightarrow> ReadFull n (a @ b) = Ok (a, b)"
  by (simp add: ReadFull_def)

lemma byte_bits_cases: "n < LENGTH(8) \<Longrightarrow> n = 0 \<or> n = 1 \<or> n = 2 \<or> n = 3 \<or> n = 4 \<or> n = 5 \<or> n = 6 \<or> n = (7::nat)"
  by (simp; presburger)

lemma mask_bit_fields:
  assumes "\<not> bit w 7" "m = 0 \<or> m = 0x80"
  shows "and (or m w) 0x7F = (w :: byte)" "and (or m w) 0x80 = m"
proof -
  show "and (or m w) 0x7F = w"
  proof (rule bit_word_eqI)
    fix n :: nat assume "n < LENGTH(8)"
    from byte_bits_cases [OF this] show "bit (and (or m w) 0x7F) n = bit w n"
      using assms by (elim disjE) (simp_all add: bit_simps)
  qed
  show "and (or m w) 0x80 = m"
  proof (rule bit_word_eqI)
    fix n :: nat assume "n < LENGTH(8)"
    from byte_bits_cases [OF this] show "bit (and (or m w) 0x80) n = bit m n"
      using assms by (elim disjE) (simp_all add: bit_simps)
  qed
qed

lemma bit_small_byte: "n < 128 \<Longrightarrow> \<not> bit (of_nat n :: byte) 7"
proof -
  assume n: "n < 128"
  have "bit (of_nat n :: byte) 7 = bit (unat (of_nat n :: byte)) 7" by (simp only: bit_unsigned_iff) simp
  also have "unat (of_nat n :: byte) = n" using n by (simp add: unat_of_nat)
  finally show ?thesis using n by (simp add: bit_iff_odd)
qed

lemma read_length_field:
  assumes "int n \<le> maxWSFramePayload" "m = 0 \<or> m = 0x80"
  obtains b rest where "length_field m n = b # rest" "and b 0x80 = m" "read_length (and b 0x7F) (rest @ bs) = Ok (int n, bs)"
proof -
  consider "n \<le> 125" | "125 < n" "n \<le> 65535" | "65535 < n" by linarith
  then show thesis
  proof cases
    case 1
    then have "\<not> bit (of_nat n :: byte) 7" by (intro bit_small_byte) simp
    note f = mask_bit_fields [OF this assms(2)]
    have "unat (of_nat n :: byte) = n" using 1 by (simp add: unat_of_nat)
    then have u: "uint (of_nat n :: byte) = int n" by (metis uint_nat)
    then have "(of_nat n :: byte) \<noteq> 126" "(of_nat n :: byte) \<noteq> 127" using 1 by auto
    with 1 f u show thesis by (intro that [of "or m (of_nat n)" "[]"]) (simp_all add: length_field_def read_length_def)
  next
    case 2
    have "\<not> bit (126 :: byte) 7" using bit_small_byte [of 126] by simp
    note f = mask_bit_fields [OF this assms(2)]
    have "be_get (be_put 2 n) = n" using 2 by (simp add: be_get_put)
    then have "read_length 126 (be_put 2 n @ bs) = Ok (int n, bs)" by (simp add: read_length_def ReadFull_append)
    with 2 f show thesis by (intro that [of "or m 126" "be_put 2 n"]) (simp_all add: length_field_def)
  next
    case 3
    have "\<not> bit (127 :: byte) 7" using bit_small_byte [of 127] by simp
    note f = mask_bit_fields [OF this assms(2)]
    have n: "n < 2 ^ 63" using assms(1) by (simp add: maxWSFramePayload_def)
    then have "be_get (be_put 8 n) = n" by (simp add: be_get_put)
    moreover have "sint (of_nat n :: i64) = int n" using n by (simp add: sint_uint uint_nat unat_of_nat signed_take_bit_int_eq_self)
    ultimately have "read_length 127 (be_put 8 n @ bs) = Ok (int n, bs)" by (simp add: read_length_def ReadFull_append)
    with 3 f show thesis by (intro that [of "or m 127" "be_put 8 n"]) (simp_all add: length_field_def)
  qed
qed

text \<open>A frame of either side: with or without FIN, masked by a key or not.\<close>

definition frame_bytes :: "bool \<Rightarrow> byte \<Rightarrow> bytes option \<Rightarrow> bytes \<Rightarrow> bytes" where
  "frame_bytes fin op key payload =
     [or (if fin then 0x80 else 0) op] @ length_field (if key = None then 0 else 0x80) (length payload)
       @ (case key of None \<Rightarrow> payload | Some k \<Rightarrow> k @ mask_with k payload)"

lemma writeWSFrame_bytes: "writeWSFrame k op payload = frame_bytes True op (Some k) payload"
  by (simp add: writeWSFrame_def frame_bytes_def mask_with_def)

lemma opcode_fields:
  assumes "and op 0x0F = (op :: byte)" "m = 0 \<or> m = 0x80"
  shows "and (or m op) 0x0F = op" "and (or m op) 0x80 = m"
proof -
  have b: "bit op n \<Longrightarrow> n < 4" for n
  proof -
    assume "bit op n"
    with assms(1) have "bit (and op 0x0F) n" by simp
    then have n: "bit (0x0F :: byte) n" "n < LENGTH(8)" by (auto simp: bit_and_iff dest: bit_imp_le_length)
    from byte_bits_cases [OF n(2)] n(1) show "n < 4" by (elim disjE) simp_all
  qed
  then have "\<not> bit op 7" by fastforce
  from mask_bit_fields(2) [OF this assms(2)] show "and (or m op) 0x80 = m" .
  show "and (or m op) 0x0F = op"
  proof (rule bit_word_eqI)
    fix n :: nat assume "n < LENGTH(8)"
    from byte_bits_cases [OF this] show "bit (and (or m op) 0x0F) n = bit op n"
      using assms(2) b [of n] by (elim disjE) (auto simp: bit_simps)
  qed
qed

lemma read_frame_bytes:
  assumes "and op 0x0F = op" "int (length payload) \<le> maxWSFramePayload" "\<And>k. key = Some k \<Longrightarrow> length k = 4"
  shows "readWSFrame (frame_bytes fin op key payload @ rest) = Ok ((fin, op, payload), rest)"
proof -
  let ?m = "if key = None then 0 else 0x80 :: byte"
  let ?body = "(case key of None \<Rightarrow> payload | Some k \<Rightarrow> k @ mask_with k payload) @ rest"
  obtain b ext where l: "length_field ?m (length payload) = b # ext" "and b 0x80 = ?m"
    "read_length (and b 0x7F) (ext @ ?body) = Ok (int (length payload), ?body)"
    by (rule read_length_field [OF assms(2), of ?m ?body]) auto
  let ?a = "or (if fin then 0x80 else 0) op"
  have op: "and ?a 0x0F = op" "and ?a 0x80 = (if fin then 0x80 else 0)" using opcode_fields [OF assms(1)] by simp_all
  have "frame_bytes fin op key payload @ rest = [?a, b] @ ext @ ?body" by (simp add: frame_bytes_def l(1))
  then have f: "ReadFull 2 (frame_bytes fin op key payload @ rest) = Ok ([?a, b], ext @ ?body)"
    using ReadFull_append [of "[?a, b]" 2 "ext @ ?body"] by simp
  have sz: "\<not> (int (length payload) < 0 \<or> int (length payload) > maxWSFramePayload)" using assms(2) by simp
  show ?thesis
  proof (cases key)
    case None
    then show ?thesis unfolding readWSFrame_def f go_bind_simps prod.case Let_def using l op sz
      by (simp add: ReadFull_append)
  next
    case (Some k)
    then have "ReadFull 4 ?body = Ok (k, mask_with k payload @ rest)" using assms(3) by (simp add: ReadFull_append)
    moreover have "ReadFull (length payload) (mask_with k payload @ rest) = Ok (mask_with k payload, rest)"
      by (simp add: ReadFull_append)
    ultimately show ?thesis unfolding readWSFrame_def f go_bind_simps prod.case Let_def using l op sz Some by simp
  qed
qed

text \<open>
  C29: What is written can be read. For every opcode of four bits, every mask key and every payload
  of up to 16 MiB, reading the bytes that \<open>writeWSFrame\<close> produced, followed by anything, gives a
  final frame with that opcode and payload and leaves what followed; the three length encodings and
  the mask are inverted, also at 125, 126, 65535 and 65536 bytes.
\<close>
theorem ws_frame_roundtrip:
  assumes "and opcode 0x0F = opcode" "int (length payload) \<le> maxWSFramePayload" "length maskKey = 4"
  shows "readWSFrame (writeWSFrame maskKey opcode payload @ rest) = Ok ((True, opcode, payload), rest)"
  unfolding writeWSFrame_bytes using assms by (intro read_frame_bytes) simp_all

theorem ws_frame_roundtrip_witness:
  "readWSFrame (writeWSFrame [1, 2, 3, 4] wsOpText (replicate 126 7) @ [9]) = Ok ((True, wsOpText, replicate 126 7), [9])"
  by (rule ws_frame_roundtrip) (simp_all add: wsOpText_def maxWSFramePayload_def)

subsection \<open>Messages\<close>

lemma ReadFull_shorter: "ReadFull n bs = Ok (a, b) \<Longrightarrow> length bs = n + length b"
  by (auto simp: ReadFull_def split: if_splits)

lemma read_length_shorter: "read_length l bs = Ok (len, b) \<Longrightarrow> length b \<le> length bs"
  by (auto simp: read_length_def go_bind_def split: if_splits sum.splits dest!: ReadFull_shorter)

lemma readWSFrame_shorter:
  assumes "readWSFrame bs = Ok (f, rest)"
  shows "length rest < length bs"
proof -
  obtain head bs1 where 1: "ReadFull 2 bs = Ok (head, bs1)"
    using assms by (auto simp: readWSFrame_def go_bind_def split: sum.splits)
  obtain len bs2 where 2: "read_length (and (head ! 1) 0x7F) bs1 = Ok (len, bs2)"
    using assms 1 by (auto simp: readWSFrame_def go_bind_def Let_def split: sum.splits)
  obtain key bs3 where 3: "(if and (head ! 1) 0x80 \<noteq> 0 then ReadFull 4 bs2 else Ok ([0, 0, 0, 0], bs2)) = Ok (key, bs3)"
    using assms 1 2 by (auto simp: readWSFrame_def go_bind_def Let_def split: sum.splits if_splits)
  obtain pl where 4: "ReadFull (nat len) bs3 = Ok (pl, rest)"
    using assms 1 2 3 by (auto simp: readWSFrame_def go_bind_def Let_def split: sum.splits if_splits)
  have "length bs3 \<le> length bs2" using 3 by (auto split: if_splits dest!: ReadFull_shorter)
  with ReadFull_shorter [OF 1] read_length_shorter [OF 2] ReadFull_shorter [OF 4] show ?thesis by linarith
qed

definition wsErrClosed :: go_error where "wsErrClosed = ErrNew ''tts/cartesia: websocket connection closed''"

text \<open>
  \<open>writeOk\<close> tells whether writing an answer succeeds. The result comes with the answers written
  (opcode and payload) and what is still to be read.
\<close>

function read_message ::
  "(byte \<times> bytes \<Rightarrow> bool) \<Rightarrow> bool \<Rightarrow> byte \<Rightarrow> bytes \<Rightarrow> bytes \<Rightarrow> (byte \<times> bytes) result \<times> (byte \<times> bytes) list \<times> bytes" where
  "read_message writeOk started msgOpcode assembled bs =
     (case readWSFrame bs of
        Inl e \<Rightarrow> (Err e, [], bs)
      | Inr ((fin, op, data), rest) \<Rightarrow>
          if op = wsOpPing then
            (if writeOk (wsOpPong, data)
             then (let (r, ws, bs') = read_message writeOk started msgOpcode assembled rest in (r, (wsOpPong, data) # ws, bs'))
             else (Err (ErrNew ''write''), [(wsOpPong, data)], rest))
          else if op = wsOpPong then read_message writeOk started msgOpcode assembled rest
          else if op = wsOpClose then (Err wsErrClosed, [(wsOpClose, [])], rest)
          else if op = wsOpContinuation then
            (if \<not> started then (Err (ErrNew ''tts/cartesia: unexpected continuation frame''), [], rest)
             else if fin then (Ok (msgOpcode, assembled @ data), [], rest)
             else read_message writeOk started msgOpcode (assembled @ data) rest)
          else if op = wsOpText \<or> op = wsOpBinary then
            (if fin \<and> \<not> started then (Ok (op, data), [], rest)
             else if fin then (Ok (op, assembled @ data), [], rest)
             else read_message writeOk True op (assembled @ data) rest)
          else (Err (ErrNew ''tts/cartesia: unsupported websocket opcode''), [], rest))"
  by pat_completeness auto
termination
  by (relation "measure (\<lambda>(w, s, m, a, bs). length bs)") (auto dest: readWSFrame_shorter)

definition readWSMessage :: "(byte \<times> bytes \<Rightarrow> bool) \<Rightarrow> bytes \<Rightarrow> (byte \<times> bytes) result \<times> (byte \<times> bytes) list \<times> bytes" where
  "readWSMessage writeOk bs = read_message writeOk False 0 [] bs"

text \<open>
  A message in fragments: each is preceded by control frames (\<open>True\<close> a ping, \<open>False\<close> a pong).
\<close>

fun control_bytes :: "(bool \<times> bytes) list \<Rightarrow> bytes" where
  "control_bytes [] = []"
| "control_bytes ((ping, d) # cs) = frame_bytes True (if ping then wsOpPing else wsOpPong) None d @ control_bytes cs"

fun fragments_bytes :: "byte \<Rightarrow> ((bool \<times> bytes) list \<times> bytes) list \<Rightarrow> bytes" where
  "fragments_bytes op [] = []"
| "fragments_bytes op ((cs, d) # fs) =
     control_bytes cs @ frame_bytes (fs = []) op None d @ fragments_bytes wsOpContinuation fs"

definition pongs :: "(bool \<times> bytes) list \<Rightarrow> (byte \<times> bytes) list" where
  "pongs cs = map (\<lambda>(p, d). (wsOpPong, d)) (filter fst cs)"

definition small :: "bytes \<Rightarrow> bool" where "small d \<longleftrightarrow> int (length d) \<le> maxWSFramePayload"

declare read_message.simps [simp del]

lemma read_control:
  assumes "\<forall>(p, d) \<in> set cs. small d" "\<forall>w. writeOk w"
  shows "read_message writeOk started m a (control_bytes cs @ bs)
     = (let (r, ws, bs') = read_message writeOk started m a bs in (r, pongs cs @ ws, bs'))"
  using assms(1)
proof (induction cs)
  case Nil
  then show ?case by (simp add: pongs_def split: prod.splits)
next
  case (Cons c cs)
  obtain p d where c: "c = (p, d)" by fastforce
  let ?op = "if p then wsOpPing else wsOpPong"
  let ?rest = "control_bytes cs @ bs"
  have "readWSFrame (frame_bytes True ?op None d @ ?rest) = Ok ((True, ?op, d), ?rest)"
    using Cons.prems c by (intro read_frame_bytes) (auto simp: ws_ops small_def)
  then have "read_message writeOk started m a (frame_bytes True ?op None d @ ?rest)
      = (let (r, ws, bs') = read_message writeOk started m a ?rest in (r, pongs [c] @ ws, bs'))"
    using assms(2) c
    by (subst read_message.simps) (auto simp: ws_ops pongs_def split_beta Let_def)
  then show ?case using Cons c by (simp add: pongs_def split_beta Let_def)
qed

lemma read_fragments:
  assumes "fs \<noteq> []" "\<forall>(cs, d) \<in> set fs. small d \<and> (\<forall>(p, e) \<in> set cs. small e)" "\<forall>w. writeOk w"
    and "(op = wsOpText \<or> op = wsOpBinary) \<and> \<not> started \<and> a = [] \<or> op = wsOpContinuation \<and> started"
  shows "read_message writeOk started m a (fragments_bytes op fs @ bs)
     = (Ok (if started then m else op, a @ concat (map snd fs)), pongs (concat (map fst fs)), bs)"
  using assms
proof (induction fs arbitrary: op started m a)
  case (Cons f fs)
  obtain cs d where f: "f = (cs, d)" by fastforce
  let ?bs = "fragments_bytes wsOpContinuation fs @ bs"
  have rd: "readWSFrame (frame_bytes (fs = []) op None d @ ?bs) = Ok ((fs = [], op, d), ?bs)"
    using Cons.prems f by (intro read_frame_bytes) (auto simp: ws_ops small_def)
  have one: "read_message writeOk started m a (fragments_bytes op (f # fs) @ bs)
      = (let (r, ws, bs') = read_message writeOk started m a (frame_bytes (fs = []) op None d @ ?bs) in (r, pongs cs @ ws, bs'))"
    using read_control [of cs writeOk started m a "frame_bytes (fs = []) op None d @ ?bs"] Cons.prems(2,3) f by simp
  show ?case
  proof (cases "fs = []")
    case True
    then have "read_message writeOk started m a (frame_bytes (fs = []) op None d @ ?bs)
        = (Ok (if started then m else op, a @ d), [], bs)"
      using rd Cons.prems(4) by (subst read_message.simps) (auto simp: ws_ops)
    then show ?thesis using one True f by (simp add: pongs_def)
  next
    case False
    have "read_message writeOk True (if started then m else op) (a @ d) ?bs
        = (Ok (if True then (if started then m else op) else wsOpContinuation, (a @ d) @ concat (map snd fs)),
           pongs (concat (map fst fs)), bs)"
      by (rule Cons.IH) (use Cons.prems(2,3) False in auto)
    moreover have "read_message writeOk started m a (frame_bytes (fs = []) op None d @ ?bs)
        = read_message writeOk True (if started then m else op) (a @ d) ?bs"
      using rd False Cons.prems(4) by (subst read_message.simps) (auto simp: ws_ops)
    ultimately show ?thesis using one f by (simp add: pongs_def)
  qed
qed simp

text \<open>
  Fragmented messages are put together. For every text or binary message cut into any number of
  fragments, with any pings and pongs in front of each, reading gives the opcode of the first
  fragment and the joined payload, answers exactly the pings, in order, with their payload, and
  leaves the bytes after the message unread.
\<close>
theorem ws_message_reassembled:
  assumes "fs \<noteq> []" "\<forall>(cs, d) \<in> set fs. small d \<and> (\<forall>(p, e) \<in> set cs. small e)" "\<forall>w. writeOk w"
    and "op = wsOpText \<or> op = wsOpBinary"
  shows "readWSMessage writeOk (fragments_bytes op fs @ rest)
     = (Ok (op, concat (map snd fs)), pongs (concat (map fst fs)), rest)"
  unfolding readWSMessage_def using read_fragments [of fs writeOk op False "[]" 0 rest] assms by simp

theorem ws_message_reassembled_witness:
  "readWSMessage (\<lambda>w. True) (fragments_bytes wsOpText [([], [1, 2]), ([(True, [7]), (False, [])], [3])] @ [9])
     = (Ok (wsOpText, [1, 2, 3]), [(wsOpPong, [7])], [9])"
  using ws_message_reassembled [of "[([], [1, 2]), ([(True, [7]), (False, [])], [3])]" "\<lambda>w. True" wsOpText "[9]"]
  by (simp add: small_def maxWSFramePayload_def pongs_def)

end
