(* ===== verification/Retry.thy ===== *)
theory Retry
  imports Breaker Metrics
begin

section \<open>The retrying calls of the hosted vendors\<close>

text \<open>
  \<open>GPT4oTranslator.Translate\<close>, \<open>GeminiTranslator.Translate\<close> and the connect phase of both
  \<open>SynthesizeStream\<close> methods are one loop around one attempt, inside one breaker protocol; both are
  modelled here once and instantiated in the vendors' theories. What an attempt yields, the
  context and the jitter are arguments (\<open>loop_env\<close>), indexed by the attempt.
\<close>

subsection \<open>The loop\<close>

text \<open>
  One attempt: a value, an error with its classification, or an error the loop returns without
  looking at the context.
\<close>

datatype 'a once = OnceOk 'a | OnceErr bool go_error | OnceAbort go_error

text \<open>
  How the loop ends: a value, the context's error, an error that is not retried, the last error
  when the attempts are used up, or nothing (no attempt allowed at all).
\<close>

datatype 'a verdict = VOk 'a | VCtx | VFailed go_error | VExhausted go_error | VNone

record retry_policy =
  rp_attempts :: nat
  rp_base :: i64
  rp_cap :: i64

record 'a loop_env =
  le_rnd :: "nat \<Rightarrow> int \<Rightarrow> int"
  le_cancelled :: "nat \<Rightarrow> bool"
  le_once :: "nat \<Rightarrow> 'a once"
  le_done :: "nat \<Rightarrow> bool"

text \<open>
  \<open>le_cancelled e i\<close>: the context ends during the wait before attempt \<open>i\<close>; \<open>le_done e i\<close>: it has
  ended when attempt \<open>i\<close> has failed. The loop gives its verdict, the delays it asked for (\<open>None\<close>
  where \<open>rand.Int63n\<close> panics) and the number of attempts.
\<close>

function retry_loop :: "retry_policy \<Rightarrow> 'a loop_env \<Rightarrow> nat \<Rightarrow> 'a verdict \<times> i64 option list \<times> nat" where
  "retry_loop p e i =
     (if rp_attempts p \<le> i then (VNone, [], 0)
      else
        let delays = (if i = 0 then [] else [retryBackoff (le_rnd e i) (int i - 1) (rp_base p) (rp_cap p)])
        in if i \<noteq> 0 \<and> le_cancelled e i then (VCtx, delays, 0)
           else case le_once e i of
               OnceOk x \<Rightarrow> (VOk x, delays, 1)
             | OnceAbort er \<Rightarrow> (VFailed er, delays, 1)
             | OnceErr retryable er \<Rightarrow>
                 if le_done e i then (VCtx, delays, 1)
                 else if \<not> retryable then (VFailed er, delays, 1)
                 else if i = rp_attempts p - 1 then (VExhausted er, delays, 1)
                 else let (v, ds, k) = retry_loop p e (i + 1) in (v, delays @ ds, k + 1))"
  by pat_completeness auto
termination
  by (relation "measure (\<lambda>(p, e, i). rp_attempts p - i)") auto

declare retry_loop.simps [simp del]

text \<open>An attempt that the loop goes on from.\<close>

definition goes_on :: "'a loop_env \<Rightarrow> nat \<Rightarrow> bool" where
  "goes_on e i \<longleftrightarrow> \<not> (i \<noteq> 0 \<and> le_cancelled e i) \<and> (\<exists>er. le_once e i = OnceErr True er) \<and> \<not> le_done e i"

lemma retry_loop_go:
  assumes "i + 1 < rp_attempts p" "goes_on e i"
  shows "retry_loop p e i = (let (v, ds, k) = retry_loop p e (i + 1)
    in (v, (if i = 0 then [] else [retryBackoff (le_rnd e i) (int i - 1) (rp_base p) (rp_cap p)]) @ ds, k + 1))"
  using assms by (subst retry_loop.simps) (auto simp: goes_on_def Let_def split: once.splits)

text \<open>The verdict is decided by the first attempt that the loop does not go on from.\<close>

lemma retry_loop_cases:
  assumes "retry_loop p e i = (v, ds, k)" "i < rp_attempts p"
  obtains j where "i \<le> j" "j < rp_attempts p" "\<forall>m. i \<le> m \<and> m < j \<longrightarrow> goes_on e m" "k \<le> j - i + 1"
    "v = VCtx \<and> (j \<noteq> 0 \<and> le_cancelled e j \<or> le_done e j)
     \<or> (\<exists>x. v = VOk x \<and> le_once e j = OnceOk x)
     \<or> (\<exists>er. v = VFailed er \<and> (le_once e j = OnceAbort er \<or> le_once e j = OnceErr False er))
     \<or> (\<exists>er. v = VExhausted er \<and> le_once e j = OnceErr True er \<and> goes_on e j \<and> j = rp_attempts p - 1 \<and> k = j - i + 1)"
  using assms
proof (induction p e i arbitrary: v ds k thesis rule: retry_loop.induct)
  case (1 p e i)
  show ?case
  proof (cases "goes_on e i \<and> i + 1 < rp_attempts p")
    case True
    obtain ds' k' where rec: "retry_loop p e (i + 1) = (v, ds', k')" and k: "k = k' + 1"
      using 1(3) True by (auto simp: retry_loop_go Let_def split: prod.splits)
    obtain er where er: "le_once e i = OnceErr True er" using True by (auto simp: goes_on_def)
    show ?thesis
    proof (rule 1(1) [OF _ refl _ er _ _ _ _ rec])
      fix j assume j: "i + 1 \<le> j" "j < rp_attempts p" "\<forall>m. i + 1 \<le> m \<and> m < j \<longrightarrow> goes_on e m" "k' \<le> j - (i + 1) + 1"
        "v = VCtx \<and> (j \<noteq> 0 \<and> le_cancelled e j \<or> le_done e j)
         \<or> (\<exists>x. v = VOk x \<and> le_once e j = OnceOk x)
         \<or> (\<exists>er. v = VFailed er \<and> (le_once e j = OnceAbort er \<or> le_once e j = OnceErr False er))
         \<or> (\<exists>er. v = VExhausted er \<and> le_once e j = OnceErr True er \<and> goes_on e j \<and> j = rp_attempts p - 1 \<and> k' = j - (i + 1) + 1)"
      have "\<forall>m. i \<le> m \<and> m < j \<longrightarrow> goes_on e m" using j(3) True by (metis Suc_eq_plus1 Suc_leI le_neq_implies_less)
      with j k show ?thesis by (intro 1(2) [of j]) auto
    qed (use True in \<open>auto simp: goes_on_def\<close>)
  next
    case False
    then show ?thesis using 1(3,4)
      by (intro 1(2) [of i], unfold retry_loop.simps [of p e i])
        (auto simp: goes_on_def Let_def split: if_splits once.splits prod.splits)
  qed
qed

subsection \<open>The breaker protocol around the loop\<close>

text \<open>
  What the calling method is: its package's error prefix and sentinel, the stage and vendor it
  records under, whether a recorder is wired in, its policy, and the cost of a value.
\<close>

record 'a guarded_client =
  gc_package :: package
  gc_prefix :: string
  gc_stage :: string
  gc_vendor :: string
  gc_metrics :: bool
  gc_policy :: retry_policy
  gc_cost :: "'a \<Rightarrow> float64"
  gc_zero :: 'a

definition settle_breaker :: "'a verdict \<Rightarrow> instant \<Rightarrow> circuitBreaker \<Rightarrow> circuitBreaker" where
  "settle_breaker v now b =
     (case v of VOk x \<Rightarrow> cb_recordSuccess b | VExhausted er \<Rightarrow> cb_recordFailure b now | _ \<Rightarrow> cb_abort b)"

definition verdict_result :: "'a \<Rightarrow> 'a verdict \<Rightarrow> 'a result" where
  "verdict_result zero v =
     (case v of VOk x \<Rightarrow> Ok x | VCtx \<Rightarrow> Err ErrContext | VFailed er \<Rightarrow> Err er | VExhausted er \<Rightarrow> Err er | VNone \<Rightarrow> Ok zero)"

text \<open>What a call leaves behind: answer, breaker, calls of the recorder, delays, attempts.\<close>

record 'a call_trace =
  ct_result :: "'a result"
  ct_breaker :: circuitBreaker
  ct_calls :: "rec_call list"
  ct_delays :: "i64 option list"
  ct_attempts :: nat

definition guarded_call ::
  "'a guarded_client \<Rightarrow> instant \<Rightarrow> instant \<Rightarrow> 'a loop_env \<Rightarrow> circuitBreaker \<Rightarrow> 'a call_trace" where
  "guarded_call c t t' e b =
     (let (ok, b1) = cb_allow b t
      in if \<not> ok then
           \<lparr>ct_result = Err (ErrWrap (gc_prefix c) (ErrCircuitOpen (gc_package c))), ct_breaker = b1,
            ct_calls = (if gc_metrics c then [CallError (gc_stage c) (gc_vendor c) ''circuit_open''] else []),
            ct_delays = [], ct_attempts = 0\<rparr>
         else let (v, ds, k) = retry_loop (gc_policy c) e 0
              in \<lparr>ct_result = verdict_result (gc_zero c) v, ct_breaker = settle_breaker v t' b1,
                  ct_calls = (case v of VOk x \<Rightarrow> if gc_metrics c then [CallCost (gc_vendor c) (gc_cost c x)] else [] | _ \<Rightarrow> []),
                  ct_delays = ds, ct_attempts = k\<rparr>)"

text \<open>The policy all four clients have: three attempts, 150 ms doubling up to 1200 ms.\<close>

definition vendor_policy :: retry_policy where
  "vendor_policy = \<lparr>rp_attempts = 3, rp_base = 150 * 1000000, rp_cap = 1200 * 1000000\<rparr>"

lemma settle_settles: "cb.settled b (settle_breaker v t b)"
  by (auto simp: settle_breaker_def cb.settled_def split: verdict.splits)

lemma settle_inv: "cb_inv b \<Longrightarrow> cb_inv (settle_breaker v t b)"
  using cb_step_refines [of b CbSuccess] cb_step_refines [of b "CbFailure t"] cb_step_refines [of b CbAbort]
  by (auto simp: settle_breaker_def split: verdict.splits)

lemma allow_inv: "cb_inv b \<Longrightarrow> cb_inv (snd (cb_allow b t))"
  using cb_step_refines [of b "CbAllow t"] by (simp add: split_beta Let_def)

lemma guarded_call_refused:
  "\<not> fst (cb_allow b t) \<Longrightarrow> ct_breaker (guarded_call c t t' e b) = b \<and> ct_attempts (guarded_call c t t' e b) = 0
     \<and> ct_result (guarded_call c t t' e b) = Err (ErrWrap (gc_prefix c) (ErrCircuitOpen (gc_package c)))
     \<and> ct_calls (guarded_call c t t' e b) =
         (if gc_metrics c then [CallError (gc_stage c) (gc_vendor c) ''circuit_open''] else [])"
  using cb.refuse_frame [of b t] by (cases "cb_allow b t") (simp add: guarded_call_def Let_def)

lemma guarded_call_admitted:
  assumes "fst (cb_allow b t)" "retry_loop (gc_policy c) e 0 = (v, ds, k)"
  shows "guarded_call c t t' e b =
     \<lparr>ct_result = verdict_result (gc_zero c) v, ct_breaker = settle_breaker v t' (snd (cb_allow b t)),
      ct_calls = (case v of VOk x \<Rightarrow> if gc_metrics c then [CallCost (gc_vendor c) (gc_cost c x)] else [] | _ \<Rightarrow> []),
      ct_delays = ds, ct_attempts = k\<rparr>"
  using assms by (cases "cb_allow b t") (simp add: guarded_call_def Let_def)

lemma vendor_delays:
  assumes "\<forall>i n. 0 < n \<longrightarrow> 0 \<le> le_rnd e i n \<and> le_rnd e i n < n"
  obtains d1 d2 where
    "retryBackoff (le_rnd e 1) 0 (rp_base vendor_policy) (rp_cap vendor_policy) = Some d1" "0 \<le> sint d1" "sint d1 \<le> 180 * millisecond"
    "retryBackoff (le_rnd e 2) 1 (rp_base vendor_policy) (rp_cap vendor_policy) = Some d2" "0 \<le> sint d2" "sint d2 \<le> 360 * millisecond"
proof -
  have "\<exists>d. retryBackoff (le_rnd e 1) 0 (rp_base vendor_policy) (rp_cap vendor_policy) = Some d
      \<and> 0 \<le> sint d \<and> sint d \<le> 180 * millisecond"
    using retryBackoff_range [of "150 * 1000000" "1200 * 1000000" "le_rnd e 1" 0] assms
    by (auto simp: vendor_policy_def clamp_attempt_def Let_def)
  moreover have "\<exists>d. retryBackoff (le_rnd e 2) 1 (rp_base vendor_policy) (rp_cap vendor_policy) = Some d
      \<and> 0 \<le> sint d \<and> sint d \<le> 360 * millisecond"
    using retryBackoff_range [of "150 * 1000000" "1200 * 1000000" "le_rnd e 2" 1] assms
    by (auto simp: vendor_policy_def clamp_attempt_def Let_def)
  ultimately show ?thesis using that by blast
qed

lemma vendor_loop_shape:
  assumes "retry_loop vendor_policy e 0 = (v, ds, k)"
  shows "v \<noteq> VNone \<and> k \<le> 3 \<and> (ds = [] \<or>
     ds = [retryBackoff (le_rnd e 1) 0 (rp_base vendor_policy) (rp_cap vendor_policy)] \<or>
     ds = [retryBackoff (le_rnd e 1) 0 (rp_base vendor_policy) (rp_cap vendor_policy),
           retryBackoff (le_rnd e 2) 1 (rp_base vendor_policy) (rp_cap vendor_policy)])"
proof -
  have n: "rp_attempts vendor_policy = 3" by (simp add: vendor_policy_def)
  have unroll: "retry_loop vendor_policy e i = (if 3 \<le> i then (VNone, [], 0)
      else let delays = (if i = 0 then [] else [retryBackoff (le_rnd e i) (int i - 1) (rp_base vendor_policy) (rp_cap vendor_policy)])
        in if i \<noteq> 0 \<and> le_cancelled e i then (VCtx, delays, 0)
           else case le_once e i of
               OnceOk x \<Rightarrow> (VOk x, delays, 1)
             | OnceAbort er \<Rightarrow> (VFailed er, delays, 1)
             | OnceErr retryable er \<Rightarrow>
                 if le_done e i then (VCtx, delays, 1)
                 else if \<not> retryable then (VFailed er, delays, 1)
                 else if i = 2 then (VExhausted er, delays, 1)
                 else let (v, ds, k) = retry_loop vendor_policy e (i + 1) in (v, delays @ ds, k + 1))" for i
  proof -
    have "(3::nat) - 1 = 2" by simp
    then show ?thesis by (subst retry_loop.simps) (simp only: n)
  qed
  obtain v2 ds2 k2 where r2: "retry_loop vendor_policy e 2 = (v2, ds2, k2)" by (cases "retry_loop vendor_policy e 2")
  have s2: "v2 \<noteq> VNone \<and> k2 \<le> 1 \<and> ds2 = [retryBackoff (le_rnd e 2) 1 (rp_base vendor_policy) (rp_cap vendor_policy)]"
    using r2 by (auto simp: unroll [of 2] Let_def split: if_splits once.splits)
  obtain v1 ds1 k1 where r1: "retry_loop vendor_policy e 1 = (v1, ds1, k1)" by (cases "retry_loop vendor_policy e 1")
  have s1: "v1 \<noteq> VNone \<and> k1 \<le> 2 \<and> (ds1 = [retryBackoff (le_rnd e 1) 0 (rp_base vendor_policy) (rp_cap vendor_policy)]
      \<or> ds1 = retryBackoff (le_rnd e 1) 0 (rp_base vendor_policy) (rp_cap vendor_policy) # ds2)"
    using r1 [unfolded unroll [of 1]] s2 by (auto simp: r2 [unfolded numeral_2_eq_2] Let_def split: if_splits once.splits)
  show ?thesis using assms [unfolded unroll [of 0]] s1 s2
    by (auto simp: r1 [unfolded One_nat_def] Let_def split: if_splits once.splits)
qed

text \<open>
  C18: A retried call returns soon. Whatever the vendor does, the loop all four clients run gives a
  verdict after at most three attempts and at most two waits; no wait panics, and the waits add up
  to at most 540 ms: steps of 150 and 300 ms, each with a jitter of up to a fifth.
\<close>
theorem retry_loop_returns:
  assumes "\<forall>i n. 0 < n \<longrightarrow> 0 \<le> le_rnd e i n \<and> le_rnd e i n < n"
  shows "case retry_loop vendor_policy e 0 of (v, ds, k) \<Rightarrow>
    v \<noteq> VNone \<and> k \<le> 3 \<and> length ds \<le> 2 \<and> None \<notin> set ds \<and> sum_list (map (\<lambda>d. sint (the d)) ds) \<le> 540 * millisecond"
proof -
  obtain v ds k where r: "retry_loop vendor_policy e 0 = (v, ds, k)" by (cases "retry_loop vendor_policy e 0")
  from assms obtain d1 d2 where
    "retryBackoff (le_rnd e 1) 0 (rp_base vendor_policy) (rp_cap vendor_policy) = Some d1" "0 \<le> sint d1" "sint d1 \<le> 180 * millisecond"
    "retryBackoff (le_rnd e 2) 1 (rp_base vendor_policy) (rp_cap vendor_policy) = Some d2" "0 \<le> sint d2" "sint d2 \<le> 360 * millisecond"
    by (rule vendor_delays)
  with vendor_loop_shape [OF r] show ?thesis by (auto simp: r)
qed

definition flaky_env :: "nat \<Rightarrow> nat loop_env" where
  "flaky_env n = \<lparr>le_rnd = (\<lambda>i m. m - 1), le_cancelled = (\<lambda>i. False),
     le_once = (\<lambda>i. if i < n then OnceErr True (ErrNew ''503'') else OnceOk i), le_done = (\<lambda>i. False)\<rparr>"

theorem retry_loop_returns_witness:
  "case retry_loop vendor_policy (flaky_env 5) 0 of (v, ds, k) \<Rightarrow>
    v \<noteq> VNone \<and> k \<le> 3 \<and> length ds \<le> 2 \<and> None \<notin> set ds \<and> sum_list (map (\<lambda>d. sint (the d)) ds) \<le> 540 * millisecond"
  by (rule retry_loop_returns) (simp add: flaky_env_def)

text \<open>Attempts that all fail transiently, with nobody cancelling, exhaust the loop.\<close>

definition outage :: "retry_policy \<Rightarrow> 'a loop_env \<Rightarrow> bool" where
  "outage p e \<longleftrightarrow> (\<forall>i < rp_attempts p. goes_on e i)"

lemma outage_exhausts:
  assumes "outage p e" "i < rp_attempts p"
  shows "\<exists>er. fst (retry_loop p e i) = VExhausted er \<and> le_once e (rp_attempts p - 1) = OnceErr True er"
proof -
  obtain v ds k where r: "retry_loop p e i = (v, ds, k)" by (cases "retry_loop p e i")
  show ?thesis
  proof (rule retry_loop_cases [OF r assms(2)])
    fix j assume "j < rp_attempts p"
      "v = VCtx \<and> (j \<noteq> 0 \<and> le_cancelled e j \<or> le_done e j)
       \<or> (\<exists>x. v = VOk x \<and> le_once e j = OnceOk x)
       \<or> (\<exists>er. v = VFailed er \<and> (le_once e j = OnceAbort er \<or> le_once e j = OnceErr False er))
       \<or> (\<exists>er. v = VExhausted er \<and> le_once e j = OnceErr True er \<and> goes_on e j \<and> j = rp_attempts p - 1 \<and> k = j - i + 1)"
    moreover from this(1) have "goes_on e j" using assms(1) by (simp add: outage_def)
    ultimately show ?thesis using r by (auto simp: goes_on_def)
  qed
qed

lemma outage_call:
  assumes "outage (gc_policy c) e" "0 < rp_attempts (gc_policy c)" "\<not> cb_open b"
  shows "ct_breaker (guarded_call c t t' e b) = cb_recordFailure b t'"
proof -
  obtain v ds k where r: "retry_loop (gc_policy c) e 0 = (v, ds, k)" by (cases "retry_loop (gc_policy c) e 0")
  with outage_exhausts [OF assms(1,2)] obtain er where "v = VExhausted er" by auto
  with assms(3) r show ?thesis by (simp add: guarded_call_def cb_allow_def settle_breaker_def)
qed

end
