(* ===== verification/Translators.thy ===== *)
theory Translators
  imports Retry Mocks
begin

section \<open>The hosted translators (pkg/translate/gpt4o.go, gemini.go)\<close>

text \<open>
  Requests, the server-sent-event readers, the classification of failures and \<open>Translate\<close> of both
  vendors. JSON is external: \<open>parse\<close> decodes one chunk, \<open>errorShape\<close> says whether an error body
  decodes to a message. The network is an argument (\<open>http_env\<close>, one per attempt); a response is its
  status, the bytes of its body and the error, if any, that ends the body.
\<close>

subsection \<open>bufio.Scanner with ScanLines\<close>

text \<open>
  A line ends at a newline, one carriage return before it is dropped; the last line needs no
  newline, whatever ends the input (a read error too). A line that does not fit the buffer stops
  the scan.
\<close>

definition maxSSELineSize :: nat where "maxSSELineSize = 1048576"

definition newline :: char where "newline = CHR 0x0A"

definition drop_cr :: "string \<Rightarrow> string" where
  "drop_cr l = (if l \<noteq> [] \<and> last l = CHR 0x0D then butlast l else l)"

function scan_lines :: "nat \<Rightarrow> string \<Rightarrow> string list \<times> bool" where
  "scan_lines limit s =
     (if s = [] then ([], False)
      else let l = takeWhile (\<lambda>c. c \<noteq> newline) s
           in if limit \<le> length l then ([], True)
              else let (ls, tooLong) = scan_lines limit (drop (length l + 1) s) in (drop_cr l # ls, tooLong))"
  by pat_completeness auto
termination
  by (relation "measure (\<lambda>(n, s). length s)") auto

declare scan_lines.simps [simp del]

lemma scan_lines_Nil [simp]: "scan_lines limit [] = ([], False)"
  by (simp add: scan_lines.simps)

lemma scan_lines_line:
  assumes "newline \<notin> set l" "length l < limit"
  shows "scan_lines limit (l @ newline # s) = (let (ls, tooLong) = scan_lines limit s in (drop_cr l # ls, tooLong))"
proof -
  have tw: "takeWhile (\<lambda>c. c \<noteq> newline) (l @ newline # s) = l"
    using assms(1) by (induction l) auto
  show ?thesis using assms(2) by (subst scan_lines.simps) (simp add: tw Let_def)
qed

lemma scan_lines_last:
  assumes "newline \<notin> set l" "length l < limit" "l \<noteq> []"
  shows "scan_lines limit l = ([drop_cr l], False)"
proof -
  have tw: "takeWhile (\<lambda>c. c \<noteq> newline) l = l" using assms(1) by (induction l) auto
  show ?thesis using assms(2,3) by (subst scan_lines.simps) (simp add: tw Let_def)
qed

record http_response =
  hr_Status :: int
  hr_Body :: string
  hr_ReadErr :: "go_error option"

definition scan_body :: "string \<Rightarrow> go_error option \<Rightarrow> string list \<times> go_error option" where
  "scan_body body readErr =
     (let (ls, tooLong) = scan_lines maxSSELineSize body
      in (ls, if tooLong then Some (ErrNew ''bufio.Scanner: token too long'') else readErr))"

subsection \<open>GPT-4o's stream\<close>

record chatCompletionUsage =
  PromptTokens :: int
  CompletionTokens :: int
  TotalTokens :: int

record chunkChoice =
  DeltaContent :: string
  FinishReason :: "string option"

record chatCompletionChunk =
  Choices :: "chunkChoice list"
  Usage :: "chatCompletionUsage option"

text \<open>
  The loop over the lines; \<open>ctxDone i\<close> is the context's state at line \<open>i\<close>. The transient wrapper
  is the flag of \<open>OnceErr\<close>.
\<close>

fun gpt4o_lines ::
  "(string \<Rightarrow> chatCompletionChunk option) \<Rightarrow> (nat \<Rightarrow> bool) \<Rightarrow> nat \<Rightarrow> string list \<Rightarrow> go_error option
     \<Rightarrow> string \<Rightarrow> chatCompletionUsage option \<Rightarrow> (string \<times> chatCompletionUsage option) once" where
  "gpt4o_lines parse ctxDone i [] scanErr out usage =
     (case scanErr of Some e \<Rightarrow> OnceErr True (ErrWrap ''translate/gpt4o: reading stream: '' e) | None \<Rightarrow> OnceOk (out, usage))"
| "gpt4o_lines parse ctxDone i (l # ls) scanErr out usage =
     (if ctxDone i then OnceErr False ErrContext
      else let line = TrimSpace l in
        if line = [] then gpt4o_lines parse ctxDone (i + 1) ls scanErr out usage
        else case CutPrefix line ''data:'' of
            None \<Rightarrow> gpt4o_lines parse ctxDone (i + 1) ls scanErr out usage
          | Some d \<Rightarrow>
              let data = TrimSpace d in
              if data = ''[DONE]'' then OnceOk (out, usage)
              else case parse data of
                  None \<Rightarrow> OnceErr False (ErrNew ''translate/gpt4o: malformed SSE chunk'')
                | Some chunk \<Rightarrow>
                    gpt4o_lines parse ctxDone (i + 1) ls scanErr (out @ concat (map DeltaContent (Choices chunk)))
                      (if Usage chunk \<noteq> None then Usage chunk else usage))"

definition gpt4o_readStream ::
  "(string \<Rightarrow> chatCompletionChunk option) \<Rightarrow> (nat \<Rightarrow> bool) \<Rightarrow> string \<Rightarrow> go_error option
     \<Rightarrow> (string \<times> chatCompletionUsage option) once" where
  "gpt4o_readStream parse ctxDone body readErr =
     (let (ls, scanErr) = scan_body body readErr in gpt4o_lines parse ctxDone 0 ls scanErr [] None)"

subsection \<open>Gemini's stream\<close>

record geminiCandidate =
  Parts :: "string list"
  gc_FinishReason :: string

record geminiResponse =
  Candidates :: "geminiCandidate list"
  BlockReason :: "string option"
  UsageMetadata :: "chatCompletionUsage option"

definition geminiUnsafeFinishReasons :: "string list" where
  "geminiUnsafeFinishReasons = [''SAFETY'', ''RECITATION'', ''BLOCKLIST'', ''PROHIBITED_CONTENT'']"

text \<open>The text of the candidates up to an unsafe one.\<close>

fun gemini_candidates :: "geminiCandidate list \<Rightarrow> string \<Rightarrow> go_error + string" where
  "gemini_candidates [] out = Inr out"
| "gemini_candidates (c # cs) out =
     (if gc_FinishReason c \<in> set geminiUnsafeFinishReasons
      then Inl (ErrNew ''translate/gemini: blocked by content safety: finishReason'')
      else gemini_candidates cs (out @ concat (Parts c)))"

fun gemini_lines ::
  "(string \<Rightarrow> geminiResponse option) \<Rightarrow> (nat \<Rightarrow> bool) \<Rightarrow> nat \<Rightarrow> string list \<Rightarrow> go_error option
     \<Rightarrow> string \<Rightarrow> chatCompletionUsage option \<Rightarrow> (string \<times> chatCompletionUsage option) once" where
  "gemini_lines parse ctxDone i [] scanErr out usage =
     (case scanErr of Some e \<Rightarrow> OnceErr True (ErrWrap ''translate/gemini: reading stream: '' e) | None \<Rightarrow> OnceOk (out, usage))"
| "gemini_lines parse ctxDone i (l # ls) scanErr out usage =
     (if ctxDone i then OnceErr False ErrContext
      else let line = TrimSpace l in
        if line = [] then gemini_lines parse ctxDone (i + 1) ls scanErr out usage
        else case CutPrefix line ''data:'' of
            None \<Rightarrow> gemini_lines parse ctxDone (i + 1) ls scanErr out usage
          | Some d \<Rightarrow>
              case parse (TrimSpace d) of
                None \<Rightarrow> OnceErr False (ErrNew ''translate/gemini: malformed SSE chunk'')
              | Some resp \<Rightarrow>
                  let usage' = (if UsageMetadata resp \<noteq> None then UsageMetadata resp else usage) in
                  if BlockReason resp \<noteq> None \<and> the (BlockReason resp) \<noteq> []
                  then OnceErr False (ErrNew ''translate/gemini: blocked by content safety: prompt blocked'')
                  else case gemini_candidates (Candidates resp) out of
                      Inl e \<Rightarrow> OnceErr False e
                    | Inr out' \<Rightarrow> gemini_lines parse ctxDone (i + 1) ls scanErr out' usage')"

definition gemini_readStream ::
  "(string \<Rightarrow> geminiResponse option) \<Rightarrow> (nat \<Rightarrow> bool) \<Rightarrow> string \<Rightarrow> go_error option
     \<Rightarrow> (string \<times> chatCompletionUsage option) once" where
  "gemini_readStream parse ctxDone body readErr =
     (let (ls, scanErr) = scan_body body readErr in gemini_lines parse ctxDone 0 ls scanErr [] None)"

subsection \<open>Requests\<close>

definition languageName :: "language \<Rightarrow> string" where
  "languageName l = (if l = ''hi'' then ''Hindi'' else if l = ''en'' then ''English'' else l)"

definition gpt4oSystemPrompt :: "string \<Rightarrow> string \<Rightarrow> string" where
  "gpt4oSystemPrompt source target =
     ''You are a real-time speech translation engine embedded in a call-center voice platform. Translate every message you receive from ''
     @ source @ '' to '' @ target @ ''.'' @ [newline, newline]
     @ ''Rules:'' @ [newline]
     @ ''- Output ONLY the translation. No explanations, no notes, no quotation marks, no language labels, no restating the source text.'' @ [newline]
     @ ''- Preserve the speaker's meaning, tone, and register (formal/informal, polite/urgent) exactly as spoken.'' @ [newline]
     @ ''- Callers frequently code-switch between Hindi and English (\"Hinglish\") mid-sentence. Understand the intended meaning across both languages and produce one natural, fluent translation in the target language.'' @ [newline]
     @ ''- Do not translate proper nouns, names, order/ticket numbers, OTPs, phone numbers, or other numeric identifiers; keep them verbatim.'' @ [newline]
     @ ''- The input may be a partial, still-being-spoken utterance rather than a complete sentence, in which case translate only the words given as naturally as possible without inventing words that have not been said yet. Later calls will refine this translation as more of the utterance arrives.''"

record hosted_translator =
  ht_apiKey :: string
  ht_baseURL :: string
  ht_model :: string
  ht_pairs :: "(language \<times> language) list"
  ht_metrics :: bool
  ht_breaker :: circuitBreaker

record chatMessage =
  Role :: string
  Content :: string

record chatCompletionRequest =
  Model :: string
  Messages :: "chatMessage list"
  Stream :: bool
  Temperature :: float64
  IncludeUsage :: bool

record geminiRequest =
  SystemInstruction :: string
  Contents :: string

record 'body http_request =
  rq_URL :: string
  rq_Headers :: "(string \<times> string) list"
  rq_Body :: 'body

definition gpt4o_request :: "hosted_translator \<Rightarrow> string \<Rightarrow> language \<Rightarrow> language \<Rightarrow> chatCompletionRequest http_request" where
  "gpt4o_request g txt source target =
     \<lparr>rq_URL = ht_baseURL g @ ''/chat/completions'',
      rq_Headers = [(''Content-Type'', ''application/json''), (''Accept'', ''text/event-stream''),
                    (''Authorization'', ''Bearer '' @ ht_apiKey g)],
      rq_Body = \<lparr>Model = ht_model g,
        Messages = [\<lparr>Role = ''system'', Content = gpt4oSystemPrompt (languageName source) (languageName target)\<rparr>,
                    \<lparr>Role = ''user'', Content = txt\<rparr>],
        Stream = True, Temperature = 1 / 5, IncludeUsage = True\<rparr>\<rparr>"

definition gemini_request :: "hosted_translator \<Rightarrow> string \<Rightarrow> language \<Rightarrow> language \<Rightarrow> geminiRequest http_request" where
  "gemini_request g txt source target =
     \<lparr>rq_URL = ht_baseURL g @ ''/models/'' @ ht_model g @ '':streamGenerateContent?alt=sse&key='' @ ht_apiKey g,
      rq_Headers = [(''Content-Type'', ''application/json''), (''Accept'', ''text/event-stream'')],
      rq_Body = \<lparr>SystemInstruction = gpt4oSystemPrompt (languageName source) (languageName target), Contents = txt\<rparr>\<rparr>"

subsection \<open>One attempt\<close>

text \<open>
  The network as one attempt sees it: whether the request can be built, what \<open>Do\<close> answers (an error
  or a response), whether the context has ended when \<open>Do\<close> has failed, and its state at each line.
\<close>

record 'body http_env =
  he_buildErr :: "go_error option"
  he_do :: "'body http_request \<Rightarrow> http_response result"
  he_doneAtDo :: bool
  he_doneAtLine :: "nat \<Rightarrow> bool"

text \<open>\<open>name\<close> is \<open>translate/gpt4o\<close> or \<open>translate/gemini\<close>; the two bodies differ in request and reader.\<close>

definition http_once ::
  "string \<Rightarrow> (string \<Rightarrow> bool) \<Rightarrow> 'body http_request \<Rightarrow> ((nat \<Rightarrow> bool) \<Rightarrow> string \<Rightarrow> go_error option \<Rightarrow> 'a once)
     \<Rightarrow> 'body http_env \<Rightarrow> 'a once" where
  "http_once name errorShape request readStream h =
     (case he_buildErr h of
        Some e \<Rightarrow> OnceErr False (ErrWrap (name @ '': build request: '') e)
      | None \<Rightarrow>
          case he_do h request of
            Inl e \<Rightarrow> if he_doneAtDo h then OnceErr False ErrContext
                     else OnceErr True (ErrWrap (name @ '': request failed: '') e)
          | Inr resp \<Rightarrow>
              if hr_Status resp \<noteq> 200 then
                let errOut = ErrNew (name @ (if errorShape (take 65536 (hr_Body resp)) then '': API error'' else '': unexpected status''))
                in OnceErr (hr_Status resp = 429 \<or> hr_Status resp \<ge> 500) errOut
              else readStream (he_doneAtLine h) (hr_Body resp) (hr_ReadErr resp))"

definition gpt4o_translateOnce ::
  "(string \<Rightarrow> chatCompletionChunk option) \<Rightarrow> (string \<Rightarrow> bool) \<Rightarrow> hosted_translator \<Rightarrow> string \<Rightarrow> language \<Rightarrow> language
     \<Rightarrow> chatCompletionRequest http_env \<Rightarrow> (string \<times> chatCompletionUsage option) once" where
  "gpt4o_translateOnce parse errorShape g txt source target h =
     http_once ''translate/gpt4o'' errorShape (gpt4o_request g txt source target) (gpt4o_readStream parse) h"

definition gemini_translateOnce ::
  "(string \<Rightarrow> geminiResponse option) \<Rightarrow> (string \<Rightarrow> bool) \<Rightarrow> hosted_translator \<Rightarrow> string \<Rightarrow> language \<Rightarrow> language
     \<Rightarrow> geminiRequest http_env \<Rightarrow> (string \<times> chatCompletionUsage option) once" where
  "gemini_translateOnce parse errorShape g txt source target h =
     http_once ''translate/gemini'' errorShape (gemini_request g txt source target) (gemini_readStream parse) h"

subsection \<open>Cost\<close>

definition gpt4oInputCostPerTokenUSD :: float64 where "gpt4oInputCostPerTokenUSD = 25 / 10 / 1000000"
definition gpt4oOutputCostPerTokenUSD :: float64 where "gpt4oOutputCostPerTokenUSD = 10 / 1000000"
definition geminiInputCostPerTokenUSD :: float64 where "geminiInputCostPerTokenUSD = 1 / 10 / 1000000"
definition geminiOutputCostPerTokenUSD :: float64 where "geminiOutputCostPerTokenUSD = 4 / 10 / 1000000"
definition gpt4oApproxCharsPerToken :: float64 where "gpt4oApproxCharsPerToken = 4"

definition token_cost :: "float64 \<Rightarrow> float64 \<Rightarrow> string \<Rightarrow> string \<Rightarrow> chatCompletionUsage option \<Rightarrow> float64" where
  "token_cost inPrice outPrice input output usage =
     (let (prompt, completion) = (case usage of
            Some u \<Rightarrow> (real_of_int (PromptTokens u), real_of_int (CompletionTokens u))
          | None \<Rightarrow> (real (rune_count input) / gpt4oApproxCharsPerToken, real (rune_count output) / gpt4oApproxCharsPerToken))
      in prompt * inPrice + completion * outPrice)"

subsection \<open>Translate\<close>

text \<open>What surrounds one call: the context at its start, the clock at \<open>allow\<close> and at the verdict, the jitter,
  the context during the waits and after each failed attempt, and the network of each attempt.\<close>

record 'body translate_env =
  te_ctxDone :: bool
  te_allowAt :: instant
  te_settleAt :: instant
  te_rnd :: "nat \<Rightarrow> int \<Rightarrow> int"
  te_cancelled :: "nat \<Rightarrow> bool"
  te_done :: "nat \<Rightarrow> bool"
  te_http :: "nat \<Rightarrow> 'body http_env"

fun map_once :: "('a \<Rightarrow> 'b) \<Rightarrow> 'a once \<Rightarrow> 'b once" where
  "map_once f (OnceOk x) = OnceOk (f x)"
| "map_once f (OnceErr r e) = OnceErr r e"
| "map_once f (OnceAbort e) = OnceAbort e"

type_synonym translation = "MTChunk \<times> chatCompletionUsage option"

definition translate_client :: "string \<Rightarrow> string \<Rightarrow> float64 \<Rightarrow> float64 \<Rightarrow> hosted_translator \<Rightarrow> string \<Rightarrow> translation guarded_client" where
  "translate_client vendor name inPrice outPrice g txt =
     \<lparr>gc_package = PkgTranslate, gc_prefix = name @ '': '', gc_stage = ''translate'', gc_vendor = vendor,
      gc_metrics = ht_metrics g, gc_policy = vendor_policy,
      gc_cost = (\<lambda>(chunk, usage). token_cost inPrice outPrice txt (mt_Text chunk) usage),
      gc_zero = (\<lparr>mt_Text = [], mt_SourceLang = [], mt_TargetLang = [], mt_IsFinal = False\<rparr>, None)\<rparr>"

definition translate_loop ::
  "('body http_env \<Rightarrow> (string \<times> chatCompletionUsage option) once) \<Rightarrow> language \<Rightarrow> language \<Rightarrow> bool
     \<Rightarrow> 'body translate_env \<Rightarrow> translation loop_env" where
  "translate_loop once source target isFinal e =
     \<lparr>le_rnd = te_rnd e, le_cancelled = te_cancelled e,
      le_once = (\<lambda>i. map_once (\<lambda>(translated, usage).
        (\<lparr>mt_Text = translated, mt_SourceLang = source, mt_TargetLang = target, mt_IsFinal = isFinal\<rparr>, usage))
        (once (te_http e i))),
      le_done = te_done e\<rparr>"

definition early_exit :: "go_error \<Rightarrow> circuitBreaker \<Rightarrow> 'a call_trace" where
  "early_exit err b = \<lparr>ct_result = Err err, ct_breaker = b, ct_calls = [], ct_delays = [], ct_attempts = 0\<rparr>"

definition gpt4o_Translate ::
  "(string \<Rightarrow> chatCompletionChunk option) \<Rightarrow> (string \<Rightarrow> bool) \<Rightarrow> hosted_translator \<Rightarrow> chatCompletionRequest translate_env
     \<Rightarrow> string \<Rightarrow> language \<Rightarrow> language \<Rightarrow> bool \<Rightarrow> translation call_trace" where
  "gpt4o_Translate parse errorShape g e txt source target isFinal =
     (if te_ctxDone e then early_exit ErrContext (ht_breaker g)
      else if \<not> mt_supports (ht_pairs g) source target
      then early_exit (ErrNew ''translate/gpt4o: unsupported pair'') (ht_breaker g)
      else guarded_call (translate_client ''gpt-4o'' ''translate/gpt4o'' gpt4oInputCostPerTokenUSD gpt4oOutputCostPerTokenUSD g txt)
             (te_allowAt e) (te_settleAt e)
             (translate_loop (gpt4o_translateOnce parse errorShape g txt source target) source target isFinal e) (ht_breaker g))"

definition gemini_Translate ::
  "(string \<Rightarrow> geminiResponse option) \<Rightarrow> (string \<Rightarrow> bool) \<Rightarrow> hosted_translator \<Rightarrow> geminiRequest translate_env
     \<Rightarrow> string \<Rightarrow> language \<Rightarrow> language \<Rightarrow> bool \<Rightarrow> translation call_trace" where
  "gemini_Translate parse errorShape g e txt source target isFinal =
     (if te_ctxDone e then early_exit ErrContext (ht_breaker g)
      else if \<not> mt_supports (ht_pairs g) source target
      then early_exit (ErrNew ''translate/gemini: unsupported pair'') (ht_breaker g)
      else guarded_call (translate_client ''gemini'' ''translate/gemini'' geminiInputCostPerTokenUSD geminiOutputCostPerTokenUSD g txt)
             (te_allowAt e) (te_settleAt e)
             (translate_loop (gemini_translateOnce parse errorShape g txt source target) source target isFinal e) (ht_breaker g))"

subsection \<open>Construction\<close>

text \<open>The functional options (a custom HTTP client is part of the network); the last one wins.\<close>

datatype translator_option =
    WithBaseURL string | WithAPIKey string | WithModel string | WithMetrics bool
  | WithSupportedPairs "(language \<times> language) list" | WithCircuitBreaker int duration

fun apply_option :: "hosted_translator \<Rightarrow> translator_option \<Rightarrow> hosted_translator" where
  "apply_option g (WithBaseURL u) = g\<lparr>ht_baseURL := trim_right (CHR ''/'') u\<rparr>"
| "apply_option g (WithAPIKey k) = g\<lparr>ht_apiKey := k\<rparr>"
| "apply_option g (WithModel m) = g\<lparr>ht_model := m\<rparr>"
| "apply_option g (WithMetrics wired) = g\<lparr>ht_metrics := wired\<rparr>"
| "apply_option g (WithSupportedPairs ps) = g\<lparr>ht_pairs := ps\<rparr>"
| "apply_option g (WithCircuitBreaker th cd) = g\<lparr>ht_breaker := newCircuitBreaker th cd\<rparr>"

definition default_pairs :: "(language \<times> language) list" where
  "default_pairs = [(''hi'', ''en''), (''en'', ''hi'')]"

definition NewGPT4oTranslator :: "string \<Rightarrow> translator_option list \<Rightarrow> hosted_translator result" where
  "NewGPT4oTranslator envKey opts =
     (let g = foldl apply_option
         \<lparr>ht_apiKey = envKey, ht_baseURL = ''https://api.openai.com/v1'', ht_model = ''gpt-4o'', ht_pairs = default_pairs,
          ht_metrics = False, ht_breaker = newCircuitBreaker 0 0\<rparr> opts
      in if ht_apiKey g = [] then Err (ErrNew ''translate/gpt4o: no API key: set OPENAI_API_KEY or use WithAPIKey'') else Ok g)"

definition NewGeminiTranslator :: "string \<Rightarrow> translator_option list \<Rightarrow> hosted_translator result" where
  "NewGeminiTranslator envKey opts =
     (let g = foldl apply_option
         \<lparr>ht_apiKey = envKey, ht_baseURL = ''https://generativelanguage.googleapis.com/v1'', ht_model = ''gemini-2.0-flash'',
          ht_pairs = default_pairs, ht_metrics = False, ht_breaker = newCircuitBreaker 0 0\<rparr> opts
      in if ht_apiKey g = [] then Err (ErrNew ''translate/gemini: no API key: set GEMINI_API_KEY or use WithGeminiAPIKey'') else Ok g)"

lemma apply_option_inv: "cb_inv (ht_breaker g) \<Longrightarrow> cb_inv (ht_breaker (apply_option g p))"
  by (cases p) simp_all

lemma apply_options_inv: "cb_inv (ht_breaker g) \<Longrightarrow> cb_inv (ht_breaker (foldl apply_option g opts))"
  by (induction opts arbitrary: g) (simp_all add: apply_option_inv)

lemma New_breaker_ok: "NewGPT4oTranslator k opts = Ok g \<or> NewGeminiTranslator k opts = Ok g \<Longrightarrow> cb_inv (ht_breaker g)"
  by (auto simp: NewGPT4oTranslator_def NewGeminiTranslator_def Let_def apply_options_inv split: if_splits)

subsection \<open>What one call leaves behind\<close>

text \<open>
  The contract of an admitted call, over the generic protocol: it is settled once, it costs exactly
  when it succeeds, and its value comes from the attempt that ended it.
\<close>

lemma guarded_call_contract:
  assumes "fst (cb_allow b t)" "0 < rp_attempts (gc_policy c)"
  shows "let r = guarded_call c t t' e b in
     cb.settled (snd (cb_allow b t)) (ct_breaker r)
     \<and> (is_ok (ct_result r) \<longleftrightarrow> (\<exists>x. ct_result r = Ok x \<and> (\<exists>j < rp_attempts (gc_policy c). le_once e j = OnceOk x \<and> (\<forall>m < j. goes_on e m))))
     \<and> ct_calls r = (case ct_result r of Inr x \<Rightarrow> if gc_metrics c then [CallCost (gc_vendor c) (gc_cost c x)] else [] | Inl er \<Rightarrow> [])
     \<and> ct_attempts r \<le> rp_attempts (gc_policy c)"
proof -
  obtain v ds k where r: "retry_loop (gc_policy c) e 0 = (v, ds, k)" by (cases "retry_loop (gc_policy c) e 0")
  show ?thesis
  proof (rule retry_loop_cases [OF r assms(2)])
    fix j assume j: "j < rp_attempts (gc_policy c)" "\<forall>m. 0 \<le> m \<and> m < j \<longrightarrow> goes_on e m" "k \<le> j - 0 + 1"
      "v = VCtx \<and> (j \<noteq> 0 \<and> le_cancelled e j \<or> le_done e j)
       \<or> (\<exists>x. v = VOk x \<and> le_once e j = OnceOk x)
       \<or> (\<exists>er. v = VFailed er \<and> (le_once e j = OnceAbort er \<or> le_once e j = OnceErr False er))
       \<or> (\<exists>er. v = VExhausted er \<and> le_once e j = OnceErr True er \<and> goes_on e j \<and> j = rp_attempts (gc_policy c) - 1 \<and> k = j - 0 + 1)"
    have n: "v \<noteq> VNone" using j(4) by auto
    have ok: "\<exists>j < rp_attempts (gc_policy c). le_once e j = OnceOk x \<and> (\<forall>m < j. goes_on e m)" if "v = VOk x" for x
      using j that by auto
    have "k \<le> rp_attempts (gc_policy c)" using j(1,3) by linarith
    with n ok show ?thesis
      by (simp add: settle_settles guarded_call_admitted [OF assms(1) r] verdict_result_def Let_def split: verdict.splits)
  qed
qed

text \<open>
  What a call of \<open>Translate\<close> promises, for a vendor name, its attempt and its cost: a call that
  is cancelled or unsupported at once touches nothing; a refused one makes no attempt, leaves the
  breaker alone and is counted as \<open>circuit_open\<close>; an admitted one settles the breaker once, makes
  at most three attempts, and answers with the text of an attempt, costing once, or with an error
  and no cost.
\<close>

definition translate_promise ::
  "string \<Rightarrow> string \<Rightarrow> hosted_translator \<Rightarrow> 'body translate_env \<Rightarrow> ('body http_env \<Rightarrow> (string \<times> chatCompletionUsage option) once)
     \<Rightarrow> (string \<Rightarrow> chatCompletionUsage option \<Rightarrow> float64) \<Rightarrow> language \<Rightarrow> language \<Rightarrow> bool \<Rightarrow> translation call_trace \<Rightarrow> bool" where
  "translate_promise vendor name g e once cost source target isFinal r \<longleftrightarrow>
     (if te_ctxDone e \<or> \<not> mt_supports (ht_pairs g) source target then
        \<not> is_ok (ct_result r) \<and> ct_breaker r = ht_breaker g \<and> ct_calls r = [] \<and> ct_attempts r = 0
      else if \<not> fst (cb_allow (ht_breaker g) (te_allowAt e)) then
        ct_result r = Err (ErrWrap (name @ '': '') (ErrCircuitOpen PkgTranslate)) \<and> ct_breaker r = ht_breaker g \<and> ct_attempts r = 0
        \<and> ct_calls r = (if ht_metrics g then [CallError ''translate'' vendor ''circuit_open''] else [])
      else
        cb.settled (snd (cb_allow (ht_breaker g) (te_allowAt e))) (ct_breaker r) \<and> ct_attempts r \<le> 3
        \<and> (case ct_result r of
             Inl er \<Rightarrow> ct_calls r = []
           | Inr (chunk, usage) \<Rightarrow>
               (\<exists>j < 3. once (te_http e j) = OnceOk (mt_Text chunk, usage))
               \<and> mt_SourceLang chunk = source \<and> mt_TargetLang chunk = target \<and> mt_IsFinal chunk = isFinal
               \<and> ct_calls r = (if ht_metrics g then [CallCost vendor (cost (mt_Text chunk) usage)] else [])))"

lemma map_once_Ok: "map_once f o1 = OnceOk y \<longleftrightarrow> (\<exists>x. o1 = OnceOk x \<and> f x = y)"
  by (cases o1) auto

lemma guarded_translate_promise:
  assumes "\<not> te_ctxDone e" "mt_supports (ht_pairs g) source target"
  shows "translate_promise vendor name g e once (token_cost inP outP txt) source target isFinal
    (guarded_call (translate_client vendor name inP outP g txt) (te_allowAt e) (te_settleAt e)
       (translate_loop once source target isFinal e) (ht_breaker g))"
proof (cases "fst (cb_allow (ht_breaker g) (te_allowAt e))")
  case True
  let ?r = "guarded_call (translate_client vendor name inP outP g txt) (te_allowAt e) (te_settleAt e)
       (translate_loop once source target isFinal e) (ht_breaker g)"
  have "0 < rp_attempts (gc_policy (translate_client vendor name inP outP g txt))"
    by (simp add: translate_client_def vendor_policy_def)
  note contract = guarded_call_contract [OF True this, of "te_settleAt e" "translate_loop once source target isFinal e"]
  show ?thesis
  proof (cases "ct_result ?r")
    case (Inl er)
    with contract assms True show ?thesis
      by (simp add: translate_promise_def Let_def translate_client_def vendor_policy_def)
  next
    case (Inr y)
    with contract obtain j where "j < 3" "le_once (translate_loop once source target isFinal e) j = OnceOk y"
      by (auto simp: Let_def translate_client_def vendor_policy_def)
    then obtain t u where j: "j < 3" "once (te_http e j) = OnceOk (t, u)"
      "y = (\<lparr>mt_Text = t, mt_SourceLang = source, mt_TargetLang = target, mt_IsFinal = isFinal\<rparr>, u)"
      by (auto simp: translate_loop_def map_once_Ok)
    with Inr contract assms True show ?thesis
      by (auto simp: translate_promise_def Let_def translate_client_def vendor_policy_def)
  qed
next
  case False
  with guarded_call_refused [OF this, of "translate_client vendor name inP outP g txt"] assms show ?thesis
    by (simp add: translate_promise_def translate_client_def)
qed

lemma early_exit_simps [simp]:
  "ct_result (early_exit er b) = Err er" "ct_breaker (early_exit er b) = b" "ct_calls (early_exit er b) = []"
  "ct_attempts (early_exit er b) = 0"
  by (simp_all add: early_exit_def)

text \<open>
  C8: Every call of \<open>Translate\<close> keeps its promise. For both vendors, any texts, languages,
  breaker states and network behaviour: a call cancelled at once or for an unsupported pair
  touches nothing; a call the breaker refuses makes no attempt and is counted as \<open>circuit_open\<close>;
  an admitted call settles the breaker by exactly one verdict, makes at most three attempts, and
  either gives the text one of them streamed, with the caller's languages and finality, and one
  cost record, or an error and no cost.
\<close>
theorem translate_contract:
  "translate_promise ''gpt-4o'' ''translate/gpt4o'' g e (gpt4o_translateOnce parse errorShape g txt source target)
     (token_cost gpt4oInputCostPerTokenUSD gpt4oOutputCostPerTokenUSD txt) source target isFinal
     (gpt4o_Translate parse errorShape g e txt source target isFinal)
   \<and> translate_promise ''gemini'' ''translate/gemini'' g e' (gemini_translateOnce parse' errorShape g txt source target)
     (token_cost geminiInputCostPerTokenUSD geminiOutputCostPerTokenUSD txt) source target isFinal
     (gemini_Translate parse' errorShape g e' txt source target isFinal)"
proof (intro conjI)
  show "translate_promise ''gpt-4o'' ''translate/gpt4o'' g e (gpt4o_translateOnce parse errorShape g txt source target)
     (token_cost gpt4oInputCostPerTokenUSD gpt4oOutputCostPerTokenUSD txt) source target isFinal
     (gpt4o_Translate parse errorShape g e txt source target isFinal)"
    by (auto simp: gpt4o_Translate_def guarded_translate_promise) (simp_all add: translate_promise_def)
  show "translate_promise ''gemini'' ''translate/gemini'' g e' (gemini_translateOnce parse' errorShape g txt source target)
     (token_cost geminiInputCostPerTokenUSD geminiOutputCostPerTokenUSD txt) source target isFinal
     (gemini_Translate parse' errorShape g e' txt source target isFinal)"
    by (auto simp: gemini_Translate_def guarded_translate_promise) (simp_all add: translate_promise_def)
qed

subsection \<open>Reading what a server streams\<close>

text \<open>The server's side of a stream: blank lines, comments and chunks, rendered by \<open>r\<close>.\<close>

datatype 'c sse_item = SseBlank | SseComment string | SseData 'c

fun sse_line :: "('c \<Rightarrow> string) \<Rightarrow> 'c sse_item \<Rightarrow> string" where
  "sse_line r SseBlank = []"
| "sse_line r (SseComment s) = CHR '':'' # s"
| "sse_line r (SseData c) = ''data: '' @ r c"

definition sse_body :: "('c \<Rightarrow> string) \<Rightarrow> 'c sse_item list \<Rightarrow> string" where
  "sse_body r items = concat (map (\<lambda>x. sse_line r x @ [newline]) items)"

text \<open>A piece of data that survives trimming, fits a line and is not the sentinel.\<close>

definition sse_data_ok :: "string \<Rightarrow> bool" where
  "sse_data_ok d \<longleftrightarrow> d \<noteq> [] \<and> \<not> trim_char (hd d) \<and> \<not> trim_char (last d) \<and> newline \<notin> set d
     \<and> length d + 6 < maxSSELineSize \<and> d \<noteq> ''[DONE]''"

fun sse_ok :: "('c \<Rightarrow> string) \<Rightarrow> (string \<Rightarrow> 'c option) \<Rightarrow> 'c sse_item \<Rightarrow> bool" where
  "sse_ok r parse SseBlank \<longleftrightarrow> True"
| "sse_ok r parse (SseComment s) \<longleftrightarrow> newline \<notin> set s \<and> length s + 1 < maxSSELineSize"
| "sse_ok r parse (SseData c) \<longleftrightarrow> parse (r c) = Some c \<and> sse_data_ok (r c)"

fun sse_chunk :: "'c sse_item \<Rightarrow> 'c list" where
  "sse_chunk (SseData c) = [c]"
| "sse_chunk x = []"

definition chunk_text :: "chatCompletionChunk \<Rightarrow> string" where
  "chunk_text c = concat (map DeltaContent (Choices c))"

definition last_usage :: "chatCompletionUsage option \<Rightarrow> chatCompletionChunk list \<Rightarrow> chatCompletionUsage option" where
  "last_usage = foldl (\<lambda>u c. if Usage c \<noteq> None then Usage c else u)"

lemma newline_not_data [simp]: "newline \<notin> set ''data: ''" "newline \<noteq> CHR '':''"
  by (simp_all add: newline_def)

lemma drop_cr_last: "l \<noteq> [] \<Longrightarrow> \<not> trim_char (last l) \<Longrightarrow> drop_cr l = l"
  by (auto simp: drop_cr_def trim_char_def)

lemma data_line:
  assumes "d \<noteq> []" "\<not> trim_char (hd d)" "\<not> trim_char (last d)"
  shows "drop_cr (''data: '' @ d) = ''data: '' @ d" "TrimSpace (''data: '' @ d) = ''data: '' @ d" "TrimSpace ('' '' @ d) = d"
proof -
  show "drop_cr (''data: '' @ d) = ''data: '' @ d" using assms by (intro drop_cr_last) simp_all
  have "\<not> trim_char (CHR ''d'')" by (simp add: trim_char_def)
  then show "TrimSpace (''data: '' @ d) = ''data: '' @ d" using assms by (intro TrimSpace_id) simp
  have "TrimSpace ('' '' @ d) = TrimSpace d" by (simp add: TrimSpace_def trim_char_def)
  also have "\<dots> = d" using assms by (intro TrimSpace_id) simp
  finally show "TrimSpace ('' '' @ d) = d" .
qed

lemma CutPrefix_data: "CutPrefix (''data: '' @ d) ''data:'' = Some ('' '' @ d)"
  by (simp add: CutPrefix_def has_prefix_def)

lemma comment_line: "TrimSpace (drop_cr (CHR '':'' # s)) \<noteq> [] \<and> CutPrefix (TrimSpace (drop_cr (CHR '':'' # s))) ''data:'' = None"
proof -
  have colon: "\<not> trim_char (CHR '':'')" by (simp add: trim_char_def)
  obtain s' where s': "drop_cr (CHR '':'' # s) = CHR '':'' # s'"
    by (rule that [of "if s \<noteq> [] \<and> last s = CHR 0x0D then butlast s else s"]) (simp add: drop_cr_def)
  have "TrimSpace (CHR '':'' # s') = rev (dropWhile trim_char (rev s' @ [CHR '':'']))" using colon by (simp add: TrimSpace_def)
  also have "\<dots> = CHR '':'' # rev (dropWhile trim_char (rev s'))" using colon by (simp add: dropWhile_append3)
  finally show ?thesis by (auto simp: s' CutPrefix_def has_prefix_def)
qed

lemma scan_sse:
  assumes "list_all (sse_ok r parse) items"
  shows "scan_lines maxSSELineSize (sse_body r items @ s) =
     (map (\<lambda>x. drop_cr (sse_line r x)) items @ fst (scan_lines maxSSELineSize s), snd (scan_lines maxSSELineSize s))"
  using assms
proof (induction items)
  case Nil
  then show ?case by (simp add: sse_body_def)
next
  case (Cons x items)
  have "newline \<notin> set (sse_line r x)" "length (sse_line r x) < maxSSELineSize"
    using Cons.prems by (cases x; simp add: sse_data_ok_def newline_def maxSSELineSize_def)+
  then have "scan_lines maxSSELineSize (sse_line r x @ newline # (sse_body r items @ s)) =
     (drop_cr (sse_line r x) # map (\<lambda>x. drop_cr (sse_line r x)) items @ fst (scan_lines maxSSELineSize s),
      snd (scan_lines maxSSELineSize s))"
    using Cons.IH Cons.prems by (simp add: scan_lines_line)
  then show ?case by (simp add: sse_body_def)
qed

lemma gpt4o_data_step:
  assumes "sse_data_ok d"
  shows "gpt4o_lines parse (\<lambda>i. False) i (drop_cr (''data: '' @ d) # ls) scanErr out usage =
     (case parse d of None \<Rightarrow> OnceErr False (ErrNew ''translate/gpt4o: malformed SSE chunk'')
      | Some c \<Rightarrow> gpt4o_lines parse (\<lambda>i. False) (i + 1) ls scanErr (out @ chunk_text c) (if Usage c \<noteq> None then Usage c else usage))"
proof -
  have d: "d \<noteq> []" "\<not> trim_char (hd d)" "\<not> trim_char (last d)" "d \<noteq> ''[DONE]''" using assms by (simp_all add: sse_data_ok_def)
  then have "''data: '' @ d \<noteq> []" by simp
  with d(4) show ?thesis
    by (simp only: gpt4o_lines.simps data_line [OF d(1-3)] CutPrefix_data Let_def option.case if_False chunk_text_def)
qed

lemma gpt4o_lines_sse:
  assumes "list_all (sse_ok r parse) items"
  shows "gpt4o_lines parse (\<lambda>i. False) i (map (\<lambda>x. drop_cr (sse_line r x)) items @ rest) scanErr out usage =
     gpt4o_lines parse (\<lambda>i. False) (i + length items) rest scanErr
       (out @ concat (map chunk_text (concat (map sse_chunk items)))) (last_usage usage (concat (map sse_chunk items)))"
  using assms
proof (induction items arbitrary: i out usage)
  case Nil
  then show ?case by (simp add: last_usage_def)
next
  case (Cons x items)
  show ?case
  proof (cases x)
    case SseBlank
    then show ?thesis using Cons by (simp add: drop_cr_def TrimSpace_def)
  next
    case (SseComment s)
    then show ?thesis using Cons comment_line [of s] by simp
  next
    case (SseData c)
    then have ok: "parse (r c) = Some c" "sse_data_ok (r c)" using Cons.prems by auto
    have "map (\<lambda>x. drop_cr (sse_line r x)) (x # items) @ rest =
        drop_cr (''data: '' @ r c) # map (\<lambda>x. drop_cr (sse_line r x)) items @ rest" using SseData by simp
    then show ?thesis using Cons.IH [of "i + 1"] Cons.prems SseData
      by (simp only: gpt4o_data_step [OF ok(2)] ok(1)) (simp add: last_usage_def)
  qed
qed

lemma readStream_sse:
  assumes "list_all (sse_ok r parse) items"
  shows "gpt4o_readStream parse (\<lambda>i. False) (sse_body r items @ s) readErr =
     (let (ls, scanErr) = scan_body s readErr
      in gpt4o_lines parse (\<lambda>i. False) (length items) ls scanErr
           (concat (map chunk_text (concat (map sse_chunk items)))) (last_usage None (concat (map sse_chunk items))))"
  using assms gpt4o_lines_sse [OF assms, of 0]
  by (simp add: gpt4o_readStream_def scan_body_def scan_sse Let_def split_beta)

lemma done_line: "scan_body (''data: [DONE]'' @ newline # s) readErr =
   (''data: [DONE]'' # fst (scan_body s readErr), snd (scan_body s readErr))"
proof -
  have "scan_lines maxSSELineSize (''data: [DONE]'' @ newline # s) =
     (''data: [DONE]'' # fst (scan_lines maxSSELineSize s), snd (scan_lines maxSSELineSize s))"
    by (subst scan_lines_line) (simp_all add: newline_def maxSSELineSize_def drop_cr_def split_beta Let_def)
  then show ?thesis by (simp add: scan_body_def split_beta Let_def)
qed

lemma done_answer: "gpt4o_lines parse (\<lambda>i. False) i (''data: [DONE]'' # ls) scanErr out usage = OnceOk (out, usage)"
  by (simp add: TrimSpace_def trim_char_def CutPrefix_def has_prefix_def)

text \<open>
  C30: A GPT-4o stream is read whole. For any sequence of blank lines, comments and chunks whose
  rendering decodes back and fits one line, ended by \<open>[DONE]\<close> or by the end of the body, the
  reader gives the texts of all chunks in order and the last usage; nothing after \<open>[DONE]\<close> matters,
  not even a read error.
\<close>
theorem gpt4o_stream_read:
  assumes "list_all (sse_ok r parse) items"
  shows "gpt4o_readStream parse (\<lambda>i. False) (sse_body r items @ ''data: [DONE]'' @ newline # s) readErr =
      OnceOk (concat (map chunk_text (concat (map sse_chunk items))), last_usage None (concat (map sse_chunk items)))
    \<and> gpt4o_readStream parse (\<lambda>i. False) (sse_body r items) None =
      OnceOk (concat (map chunk_text (concat (map sse_chunk items))), last_usage None (concat (map sse_chunk items)))"
proof
  show "gpt4o_readStream parse (\<lambda>i. False) (sse_body r items @ ''data: [DONE]'' @ newline # s) readErr =
      OnceOk (concat (map chunk_text (concat (map sse_chunk items))), last_usage None (concat (map sse_chunk items)))"
    unfolding readStream_sse [OF assms] done_line by (simp only: Let_def prod.case done_answer)
  show "gpt4o_readStream parse (\<lambda>i. False) (sse_body r items) None =
      OnceOk (concat (map chunk_text (concat (map sse_chunk items))), last_usage None (concat (map sse_chunk items)))"
    using readStream_sse [OF assms, of "[]" None] by (simp add: scan_body_def)
qed

text \<open>Chunks with one choice, rendered as their text in brackets.\<close>

definition demo_chunk :: "string \<Rightarrow> chatCompletionChunk" where
  "demo_chunk s = \<lparr>Choices = [\<lparr>DeltaContent = s, FinishReason = None\<rparr>], Usage = None\<rparr>"

definition demo_render :: "chatCompletionChunk \<Rightarrow> string" where
  "demo_render c = ''{'' @ chunk_text c @ ''}''"

definition demo_parse :: "string \<Rightarrow> chatCompletionChunk option" where
  "demo_parse s = (if s \<noteq> [] \<and> hd s = CHR ''{'' \<and> last s = CHR ''}'' then Some (demo_chunk (butlast (tl s))) else None)"

lemma demo_sse_ok: "newline \<notin> set s \<Longrightarrow> length s < 100 \<Longrightarrow> sse_ok demo_render demo_parse (SseData (demo_chunk s))"
  by (simp add: sse_data_ok_def demo_render_def demo_parse_def demo_chunk_def chunk_text_def trim_char_def
      newline_def maxSSELineSize_def)

theorem gpt4o_stream_read_witness:
  "gpt4o_readStream demo_parse (\<lambda>i. False)
     (sse_body demo_render [SseData (demo_chunk ''Hel''), SseBlank, SseComment ''ping'', SseData (demo_chunk ''lo'')]
        @ ''data: [DONE]'' @ newline # ''data: {'') (Some (ErrNew ''reset'')) = OnceOk (''Hello'', None)"
proof -
  have "list_all (sse_ok demo_render demo_parse)
      [SseData (demo_chunk ''Hel''), SseBlank, SseComment ''ping'', SseData (demo_chunk ''lo'')]"
    using demo_sse_ok [of "''Hel''"] demo_sse_ok [of "''lo''"] by (simp add: newline_def maxSSELineSize_def)
  from gpt4o_stream_read [OF this, THEN conjunct1, of "''data: {''" "Some (ErrNew ''reset'')"]
  show ?thesis by (simp add: demo_chunk_def chunk_text_def last_usage_def)
qed

text \<open>
  Where a connection breaks decides how the failure counts. If the body ends with a read error
  between lines, the attempt fails as transient, is retried and counts for the breaker; if the same
  error comes inside a data line whose first part does not decode, the scanner still hands out the
  partial line and the attempt fails as permanent, a malformed chunk: no retry, no count. Text
  already streamed is lost either way.
\<close>
theorem broken_stream_verdict:
  assumes "list_all (sse_ok r parse) items" "sse_data_ok part" "parse part = None"
  shows "gpt4o_readStream parse (\<lambda>i. False) (sse_body r items) (Some er) =
      OnceErr True (ErrWrap ''translate/gpt4o: reading stream: '' er)
    \<and> gpt4o_readStream parse (\<lambda>i. False) (sse_body r items @ ''data: '' @ part) (Some er) =
      OnceErr False (ErrNew ''translate/gpt4o: malformed SSE chunk'')"
proof
  show "gpt4o_readStream parse (\<lambda>i. False) (sse_body r items) (Some er) =
      OnceErr True (ErrWrap ''translate/gpt4o: reading stream: '' er)"
    using readStream_sse [OF assms(1), of "[]" "Some er"] by (simp add: scan_body_def)
  have l: "newline \<notin> set (''data: '' @ part)" "length (''data: '' @ part) < maxSSELineSize" "''data: '' @ part \<noteq> []"
    using assms(2) unfolding set_append by (simp_all add: sse_data_ok_def newline_def)
  have "scan_body (''data: '' @ part) (Some er) = ([drop_cr (''data: '' @ part)], Some er)"
    unfolding scan_body_def by (simp only: scan_lines_last [OF l] Let_def prod.case if_False)
  then show "gpt4o_readStream parse (\<lambda>i. False) (sse_body r items @ ''data: '' @ part) (Some er) =
      OnceErr False (ErrNew ''translate/gpt4o: malformed SSE chunk'')"
    unfolding readStream_sse [OF assms(1)] using gpt4o_data_step [OF assms(2)] assms(3)
    by (simp only: Let_def prod.case option.case)
qed

theorem broken_stream_verdict_witness:
  "gpt4o_readStream demo_parse (\<lambda>i. False) (sse_body demo_render [SseData (demo_chunk ''Hel'')]) (Some (ErrNew ''reset'')) =
     OnceErr True (ErrWrap ''translate/gpt4o: reading stream: '' (ErrNew ''reset''))
   \<and> gpt4o_readStream demo_parse (\<lambda>i. False) (sse_body demo_render [SseData (demo_chunk ''Hel'')] @ ''data: '' @ ''{lo'') (Some (ErrNew ''reset'')) =
     OnceErr False (ErrNew ''translate/gpt4o: malformed SSE chunk'')"
proof (rule broken_stream_verdict)
  show "list_all (sse_ok demo_render demo_parse) [SseData (demo_chunk ''Hel'')]"
    using demo_sse_ok [of "''Hel''"] by (simp only: list.pred_inject) (simp add: newline_def)
qed (simp_all add: newline_def sse_data_ok_def trim_char_def maxSSELineSize_def demo_parse_def)

subsection \<open>An outage of the vendor\<close>

text \<open>Every attempt gets no response, a 429 or a server error, and nobody cancels.\<close>

definition vendor_down :: "'body translate_env \<Rightarrow> bool" where
  "vendor_down e \<longleftrightarrow> \<not> te_ctxDone e \<and> (\<forall>i < 3. \<not> te_cancelled e i \<and> \<not> te_done e i
     \<and> he_buildErr (te_http e i) = None \<and> \<not> he_doneAtDo (te_http e i)
     \<and> (\<forall>rq. case he_do (te_http e i) rq of Inl er \<Rightarrow> True | Inr resp \<Rightarrow> hr_Status resp = 429 \<or> hr_Status resp \<ge> 500))"

type_synonym gpt4o_call = "chatCompletionRequest translate_env \<times> string \<times> language \<times> language \<times> bool"

definition gpt4o_step ::
  "(string \<Rightarrow> chatCompletionChunk option) \<Rightarrow> (string \<Rightarrow> bool) \<Rightarrow> hosted_translator \<Rightarrow> gpt4o_call \<Rightarrow> hosted_translator" where
  "gpt4o_step parse errorShape g x =
     (case x of (e, txt, source, target, isFinal) \<Rightarrow>
        g\<lparr>ht_breaker := ct_breaker (gpt4o_Translate parse errorShape g e txt source target isFinal)\<rparr>)"

lemma http_once_down:
  assumes "he_buildErr h = None" "\<not> he_doneAtDo h"
    "case he_do h rq of Inl er \<Rightarrow> True | Inr resp \<Rightarrow> hr_Status resp = 429 \<or> hr_Status resp \<ge> 500"
  shows "\<exists>er. http_once name errorShape rq rd h = OnceErr True er"
  using assms by (auto simp: http_once_def Let_def split: sum.splits)

lemma down_outage:
  assumes "vendor_down e"
  shows "outage vendor_policy (translate_loop (gpt4o_translateOnce parse errorShape g txt source target) source target isFinal e)"
  unfolding outage_def
proof (intro allI impI)
  fix i assume "i < rp_attempts vendor_policy"
  then have i: "i < 3" by (simp add: vendor_policy_def)
  with assms have "\<exists>er. gpt4o_translateOnce parse errorShape g txt source target (te_http e i) = OnceErr True er"
    unfolding gpt4o_translateOnce_def vendor_down_def by (intro http_once_down) auto
  with assms i show "goes_on (translate_loop (gpt4o_translateOnce parse errorShape g txt source target) source target isFinal e) i"
    by (auto simp: goes_on_def translate_loop_def vendor_down_def)
qed

lemma down_step:
  assumes "vendor_down e" "mt_supports (ht_pairs g) source target" "\<not> cb_open (ht_breaker g)"
  shows "gpt4o_step parse errorShape g (e, txt, source, target, isFinal) =
    g\<lparr>ht_breaker := cb_recordFailure (ht_breaker g) (te_settleAt e)\<rparr>"
proof -
  let ?c = "translate_client ''gpt-4o'' ''translate/gpt4o'' gpt4oInputCostPerTokenUSD gpt4oOutputCostPerTokenUSD g txt"
  have "\<not> te_ctxDone e" using assms(1) by (simp add: vendor_down_def)
  moreover have "gc_policy ?c = vendor_policy" "0 < rp_attempts (gc_policy ?c)" by (simp_all add: translate_client_def vendor_policy_def)
  ultimately show ?thesis using assms down_outage [OF assms(1)] by (simp add: gpt4o_step_def gpt4o_Translate_def outage_call)
qed

lemma down_steps:
  assumes "\<forall>(e, txt, source, target, isFinal) \<in> set xs. vendor_down e \<and> mt_supports (ht_pairs g) source target"
    "cb_inv (ht_breaker g)" "\<not> cb_open (ht_breaker g)"
    "consecutiveFails (ht_breaker g) + int (length xs) < threshold (ht_breaker g)"
  shows "foldl (gpt4o_step parse errorShape) g xs =
    g\<lparr>ht_breaker := foldl cb_recordFailure (ht_breaker g) (map (\<lambda>(e, txt, source, target, isFinal). te_settleAt e) xs)\<rparr>"
  using assms
proof (induction xs arbitrary: g)
  case (Cons x xs)
  obtain e tx source target isFinal where x: "x = (e, tx, source, target, isFinal)" by (metis prod_cases5)
  let ?g = "g\<lparr>ht_breaker := cb_recordFailure (ht_breaker g) (te_settleAt e)\<rparr>"
  have "gpt4o_step parse errorShape g x = ?g" using Cons.prems x by (simp add: down_step)
  moreover have "\<not> cb_open (ht_breaker ?g) \<and> consecutiveFails (ht_breaker ?g) = consecutiveFails (ht_breaker g) + 1
      \<and> threshold (ht_breaker ?g) = threshold (ht_breaker g)"
    using failures_below_threshold [of "ht_breaker g" "[te_settleAt e]"] Cons.prems by simp
  moreover have "cb_inv (ht_breaker ?g)"
    using cb_step_refines [OF Cons.prems(2), of "CbFailure (te_settleAt e)"] by simp
  ultimately show ?case using Cons.IH [of ?g] Cons.prems x by simp
qed simp

lemma attempts_positive: "0 < rp_attempts p \<Longrightarrow> 0 < snd (snd (retry_loop p e 0))"
  by (subst retry_loop.simps) (simp add: Let_def split_beta split: once.split)

text \<open>A new translator's breaker is closed and has counted nothing.\<close>

lemma apply_option_fresh:
  "\<not> cb_open (ht_breaker g) \<and> consecutiveFails (ht_breaker g) = 0 \<Longrightarrow>
     \<not> cb_open (ht_breaker (apply_option g p)) \<and> consecutiveFails (ht_breaker (apply_option g p)) = 0"
  by (cases p) (simp_all add: newCircuitBreaker_def)

lemma apply_options_fresh:
  "\<not> cb_open (ht_breaker g) \<and> consecutiveFails (ht_breaker g) = 0 \<Longrightarrow>
     \<not> cb_open (ht_breaker (foldl apply_option g opts)) \<and> consecutiveFails (ht_breaker (foldl apply_option g opts)) = 0"
  by (induction opts arbitrary: g) (simp_all add: apply_option_fresh)

lemma NewGPT4o_fresh:
  "NewGPT4oTranslator k opts = Ok g \<Longrightarrow> \<not> cb_open (ht_breaker g) \<and> consecutiveFails (ht_breaker g) = 0"
  unfolding NewGPT4oTranslator_def Let_def
  by (simp split: if_splits) (metis apply_options_fresh circuitBreaker.select_convs(3,4) hosted_translator.select_convs(6) newCircuitBreaker_def)

lemma admitted_attempts:
  assumes "\<not> te_ctxDone e" "mt_supports (ht_pairs g) source target" "fst (cb_allow (ht_breaker g) (te_allowAt e))"
  shows "0 < ct_attempts (gpt4o_Translate parse errorShape g e txt source target isFinal)"
proof -
  let ?c = "translate_client ''gpt-4o'' ''translate/gpt4o'' gpt4oInputCostPerTokenUSD gpt4oOutputCostPerTokenUSD g txt"
  let ?l = "translate_loop (gpt4o_translateOnce parse errorShape g txt source target) source target isFinal e"
  obtain v ds k where r: "retry_loop (gc_policy ?c) ?l 0 = (v, ds, k)" by (cases "retry_loop (gc_policy ?c) ?l 0")
  have "0 < rp_attempts (gc_policy ?c)" by (simp add: translate_client_def vendor_policy_def)
  from attempts_positive [OF this, of ?l] r have "0 < k" by simp
  with assms guarded_call_admitted [OF assms(3) r] show ?thesis by (simp add: gpt4o_Translate_def)
qed

text \<open>
  C16: An outage trips the translator, and only an outage. From a new translator, while fewer calls
  than the threshold have run into an outage its breaker admits everything; the call that reaches
  the threshold shuts it: until its cooldown is over a call is refused without a single attempt and
  without changing the breaker, and from then on a call is attempted again.
\<close>
theorem outage_trips_translator:
  assumes "NewGPT4oTranslator key opts = Ok g"
    and "\<forall>(e, txt, source, target, isFinal) \<in> set (xs @ [(e0, txt0, src0, tgt0, fin0)]). vendor_down e \<and> mt_supports (ht_pairs g) source target"
    and "int (length xs) + 1 = threshold (ht_breaker g)"
    and "\<not> te_ctxDone e" "mt_supports (ht_pairs g) source target"
  shows "let g1 = foldl (gpt4o_step parse errorShape) g xs; g2 = gpt4o_step parse errorShape g1 (e0, txt0, src0, tgt0, fin0);
             r = gpt4o_Translate parse errorShape g2 e txt source target isFinal; until = te_settleAt e0 + cooldown (ht_breaker g)
    in (\<forall>t. fst (cb_allow (ht_breaker g1) t))
       \<and> (te_allowAt e < until \<longrightarrow> ct_attempts r = 0 \<and> ct_breaker r = ht_breaker g2
            \<and> ct_result r = Err (ErrWrap ''translate/gpt4o: '' (ErrCircuitOpen PkgTranslate)))
       \<and> (until \<le> te_allowAt e \<longrightarrow> 0 < ct_attempts r)"
proof -
  define b1 where "b1 = foldl cb_recordFailure (ht_breaker g) (map (\<lambda>(e, txt, source, target, isFinal). te_settleAt e) xs)"
  have inv: "cb_inv (ht_breaker g)" using New_breaker_ok assms(1) by blast
  note fresh = NewGPT4o_fresh [OF assms(1)]
  define g1 where "g1 = foldl (gpt4o_step parse errorShape) g xs"
  have g1: "g1 = g\<lparr>ht_breaker := b1\<rparr>" unfolding g1_def b1_def using assms(2,3) inv fresh by (intro down_steps) auto
  have b1: "\<not> cb_open b1" "consecutiveFails b1 = int (length xs)" "threshold b1 = threshold (ht_breaker g)" "cooldown b1 = cooldown (ht_breaker g)"
    using failures_below_threshold [OF inv, of "map (\<lambda>(e, txt, source, target, isFinal). te_settleAt e) xs"] fresh assms(3)
    by (simp_all add: b1_def)
  define g2 where "g2 = gpt4o_step parse errorShape g1 (e0, txt0, src0, tgt0, fin0)"
  have g2: "g2 = g\<lparr>ht_breaker := cb_recordFailure b1 (te_settleAt e0)\<rparr>"
    unfolding g2_def using assms(2) b1 by (subst down_step) (simp_all add: g1)
  have b2: "cb_open (ht_breaker g2)" "openUntil (ht_breaker g2) = te_settleAt e0 + cooldown (ht_breaker g)" "\<not> probeInFlight (ht_breaker g2)"
    using b1 assms(3) by (simp_all add: g2 cb_recordFailure_def Let_def)
  let ?r = "gpt4o_Translate parse errorShape g2 e txt source target isFinal"
  have sup: "mt_supports (ht_pairs g2) source target" using assms(5) by (simp add: g2)
  have "ct_attempts ?r = 0 \<and> ct_breaker ?r = ht_breaker g2 \<and> ct_result ?r = Err (ErrWrap ''translate/gpt4o: '' (ErrCircuitOpen PkgTranslate))"
    if "te_allowAt e < te_settleAt e0 + cooldown (ht_breaker g)"
  proof -
    have "\<not> fst (cb_allow (ht_breaker g2) (te_allowAt e))" using that b2 by (simp add: cb_allow_def)
    note refused = guarded_call_refused [OF this]
    show ?thesis using assms(4) sup by (simp add: gpt4o_Translate_def refused) (simp add: translate_client_def)
  qed
  moreover have "0 < ct_attempts ?r" if "te_settleAt e0 + cooldown (ht_breaker g) \<le> te_allowAt e"
    using that b2 by (intro admitted_attempts assms(4) sup) (simp add: cb_allow_def)
  moreover have "\<forall>t. fst (cb_allow (ht_breaker g1) t)" using b1(1) by (simp add: g1 cb_allow_def)
  ultimately show ?thesis unfolding g2_def g1_def Let_def by blast
qed

definition down_env :: "instant \<Rightarrow> chatCompletionRequest translate_env" where
  "down_env t = \<lparr>te_ctxDone = False, te_allowAt = t, te_settleAt = t + 1, te_rnd = (\<lambda>i n. 0), te_cancelled = (\<lambda>i. False),
     te_done = (\<lambda>i. False), te_http = (\<lambda>i. \<lparr>he_buildErr = None,
        he_do = (\<lambda>rq. Inr \<lparr>hr_Status = 503, hr_Body = [], hr_ReadErr = None\<rparr>), he_doneAtDo = False, he_doneAtLine = (\<lambda>i. False)\<rparr>)\<rparr>"

theorem outage_trips_translator_witness:
  "\<exists>g. NewGPT4oTranslator ''k'' [WithCircuitBreaker 2 10] = Ok g \<and>
     ct_attempts (gpt4o_Translate (\<lambda>d. None) (\<lambda>b. False)
       (gpt4o_step (\<lambda>d. None) (\<lambda>b. False) (foldl (gpt4o_step (\<lambda>d. None) (\<lambda>b. False)) g [(down_env 0, ''a'', ''en'', ''hi'', True)])
          (down_env 1, ''b'', ''hi'', ''en'', True)) (down_env 5) ''c'' ''en'' ''hi'' True) = 0"
proof -
  obtain g where g: "NewGPT4oTranslator ''k'' [WithCircuitBreaker 2 10] = Ok g"
    "ht_pairs g = default_pairs" "threshold (ht_breaker g) = 2" "cooldown (ht_breaker g) = 10"
    by (simp add: NewGPT4oTranslator_def newCircuitBreaker_def)
  have down: "vendor_down (down_env t)" "\<not> te_ctxDone (down_env t)" for t by (simp_all add: vendor_down_def down_env_def)
  have sup: "mt_supports (ht_pairs g) ''en'' ''hi''" "mt_supports (ht_pairs g) ''hi'' ''en''"
    by (simp_all add: g(2) default_pairs_def mt_supports_def)
  note run = outage_trips_translator [OF g(1), of "[(down_env 0, ''a'', ''en'', ''hi'', True)]" "down_env 1" "''b''" "''hi''" "''en''" True
      "down_env 5" "''en''" "''hi''" "\<lambda>d. None" "\<lambda>b. False" "''c''" True]
  have "te_allowAt (down_env 5) < te_settleAt (down_env 1) + cooldown (ht_breaker g)" by (simp add: down_env_def g(4))
  with run g(1) show ?thesis using down sup g(3) by (auto simp: Let_def)
qed

end
