(* ===== verification/Synthesizers.thy ===== *)
theory Synthesizers
  imports Retry WsFrame Cli
begin

section \<open>The hosted synthesizers (pkg/tts/cartesia.go, elevenlabs.go, the handshake of cartesia_ws.go)\<close>

text \<open>
  The WebSocket handshake, the connect phase of both vendors inside the retry and breaker protocol
  of theory \<open>Retry\<close>, and both read loops. URL parsing, dialling, TLS, JSON, base64 and SHA-1 are
  arguments. A channel send succeeds while the context lives (\<open>send\<close>).
\<close>

subsection \<open>Connection failures\<close>

text \<open>An error that carries a status code (\<open>errors.As\<close> finds it) or one that does not.\<close>

datatype conn_failure = StatusFail int go_error | ConnFail go_error

fun failure_error :: "conn_failure \<Rightarrow> go_error" where
  "failure_error (StatusFail code e) = e"
| "failure_error (ConnFail e) = e"

fun isRetryableDialErr :: "conn_failure \<Rightarrow> bool" where
  "isRetryableDialErr (StatusFail code e) = isRetryableStatusCode code"
| "isRetryableDialErr (ConnFail e) = isRetryableConnErr (Some e)"

fun wrap_failure :: "string \<Rightarrow> conn_failure \<Rightarrow> conn_failure" where
  "wrap_failure s (StatusFail code e) = StatusFail code (ErrWrap s e)"
| "wrap_failure s (ConnFail e) = ConnFail (ErrWrap s e)"

lemma wrap_failure_retryable [simp]: "isRetryableDialErr (wrap_failure s f) = isRetryableDialErr f"
  by (cases f) (simp_all add: isRetryableConnErr_def)

subsection \<open>The handshake\<close>

record ws_url =
  wu_scheme :: string
  wu_host :: string
  wu_hasPort :: bool
  wu_requestURI :: string

record ws_response =
  wr_Status :: int
  wr_Upgrade :: string
  wr_Accept :: string

record dial_env =
  de_parse :: "string \<Rightarrow> ws_url result"
  de_dial :: "string \<Rightarrow> unit result"
  de_tls :: "unit result"
  de_key :: "string result"
  de_write :: "string \<Rightarrow> unit result"
  de_response :: "ws_response result"
  de_acceptKey :: "string \<Rightarrow> string"

definition JoinHostPort :: "string \<Rightarrow> string \<Rightarrow> string" where
  "JoinHostPort host port = (if CHR '':'' \<in> set host then ''['' @ host @ '']:'' @ port else host @ '':'' @ port)"

definition crlf :: string where "crlf = [CHR 0x0D, CHR 0x0A]"

definition handshake_request :: "ws_url \<Rightarrow> string \<Rightarrow> (string \<times> string list) list \<Rightarrow> string" where
  "handshake_request u key header =
     ''GET '' @ (if wu_requestURI u = [] then ''/'' else wu_requestURI u) @ '' HTTP/1.1'' @ crlf
     @ ''Host: '' @ wu_host u @ crlf @ ''Upgrade: websocket'' @ crlf @ ''Connection: Upgrade'' @ crlf
     @ ''Sec-WebSocket-Key: '' @ key @ crlf @ ''Sec-WebSocket-Version: 13'' @ crlf
     @ concat (map (\<lambda>(name, values). concat (map (\<lambda>v. name @ '': '' @ v @ crlf) values)) header) @ crlf"

text \<open>
  The result, and whether the raw connection was opened and closed again. Every step after the dial
  closes the connection when it fails.
\<close>

record dial_trace =
  dt_opened :: bool
  dt_closed :: bool

definition dialWS :: "dial_env \<Rightarrow> string \<Rightarrow> (string \<times> string list) list \<Rightarrow> (conn_failure + unit) \<times> dial_trace" where
  "dialWS d rawURL header =
     (let not_opened = \<lparr>dt_opened = False, dt_closed = False\<rparr>; live = \<lparr>dt_opened = True, dt_closed = False\<rparr>;
          closed = \<lparr>dt_opened = True, dt_closed = True\<rparr>
      in case de_parse d rawURL of
          Inl e \<Rightarrow> (Inl (ConnFail (ErrWrap ''tts/cartesia: invalid websocket url: '' e)), not_opened)
        | Inr u \<Rightarrow>
            if wu_scheme u \<noteq> ''ws'' \<and> wu_scheme u \<noteq> ''wss''
            then (Inl (ConnFail (ErrNew ''tts/cartesia: unsupported websocket scheme'')), not_opened)
            else
              let useTLS = (wu_scheme u = ''wss'');
                  host = (if wu_hasPort u then wu_host u else JoinHostPort (wu_host u) (if useTLS then ''443'' else ''80''))
              in case de_dial d host of
                  Inl e \<Rightarrow> (Inl (ConnFail (ErrWrap ''tts/cartesia: dialing: '' e)), not_opened)
                | Inr x \<Rightarrow>
                    case (if useTLS then de_tls d else Ok ()) of
                      Inl e \<Rightarrow> (Inl (ConnFail (ErrWrap ''tts/cartesia: tls handshake: '' e)), closed)
                    | Inr x \<Rightarrow>
                        case de_key d of
                          Inl e \<Rightarrow> (Inl (ConnFail (ErrWrap ''tts/cartesia: generating websocket key: '' e)), closed)
                        | Inr key \<Rightarrow>
                            case de_write d (handshake_request u key header) of
                              Inl e \<Rightarrow> (Inl (ConnFail (ErrWrap ''tts/cartesia: sending websocket handshake: '' e)), closed)
                            | Inr x \<Rightarrow>
                                case de_response d of
                                  Inl e \<Rightarrow> (Inl (ConnFail (ErrWrap ''tts/cartesia: reading websocket handshake response: '' e)), closed)
                                | Inr r \<Rightarrow>
                                    if wr_Status r \<noteq> 101
                                    then (Inl (StatusFail (wr_Status r) (ErrNew ''tts/cartesia: websocket handshake rejected: status'')), closed)
                                    else if map lower_char (wr_Upgrade r) \<noteq> ''websocket''
                                    then (Inl (ConnFail (ErrNew ''tts/cartesia: websocket handshake rejected: unexpected Upgrade header'')), closed)
                                    else if wr_Accept r \<noteq> de_acceptKey d key
                                    then (Inl (ConnFail (ErrNew ''tts/cartesia: websocket handshake rejected: invalid Sec-WebSocket-Accept'')), closed)
                                    else (Inr (), live))"

lemma dialWS_closes:
  "case dialWS d u h of (Inl f, t) \<Rightarrow> dt_closed t = dt_opened t | (Inr x, t) \<Rightarrow> dt_opened t \<and> \<not> dt_closed t"
  by (simp add: dialWS_def Let_def split: sum.split if_split)

subsection \<open>Cartesia: one attempt\<close>

record CartesiaSynthesizer =
  ca_apiKey :: string
  ca_baseURL :: string
  ca_apiVersion :: string
  ca_modelID :: string
  ca_sampleRate :: int
  ca_dialTimeout :: duration
  ca_metrics :: bool
  ca_breaker :: circuitBreaker

record cartesiaGenerationRequest =
  cr_ModelID :: string
  cr_Transcript :: string
  cr_VoiceID :: string
  cr_Language :: string
  cr_ContextID :: string
  cr_SampleRate :: int
  cr_Continue :: bool

text \<open>
  \<open>newCartesiaContextID\<close>: 16 random bytes, the version and variant bits set, in the groups 4-2-2-2-6.
\<close>

definition hex_digit :: "nat \<Rightarrow> char" where
  "hex_digit n = char_of (if n < 10 then 48 + n else 87 + n)"

definition hex_bytes :: "bytes \<Rightarrow> string" where
  "hex_bytes bs = concat (map (\<lambda>b. [hex_digit (unat b div 16), hex_digit (unat b mod 16)]) bs)"

definition newCartesiaContextID :: "bytes result \<Rightarrow> string result" where
  "newCartesiaContextID rnd =
     go_bind rnd (\<lambda>b0.
       let b1 = b0[6 := or (and (b0 ! 6) 0x0f) 0x40]; b = b1[8 := or (and (b1 ! 8) 0x3f) 0x80]
       in Ok (hex_bytes (take 4 b) @ ''-'' @ hex_bytes (take 2 (drop 4 b)) @ ''-'' @ hex_bytes (take 2 (drop 6 b)) @ ''-''
              @ hex_bytes (take 2 (drop 8 b)) @ ''-'' @ hex_bytes (take 6 (drop 10 b))))"

text \<open>
  One attempt's world: the random bytes, the dial under the derived context, and the result of
  encoding the request and of writing the frame.
\<close>

record cartesia_env =
  cv_rand :: "bytes result"
  cv_dial :: dial_env
  cv_encode :: "cartesiaGenerationRequest \<Rightarrow> bytes result"
  cv_write :: "bytes \<Rightarrow> unit result"

definition connectAndSend ::
  "cartesia_env \<Rightarrow> string \<Rightarrow> (string \<times> string list) list \<Rightarrow> cartesiaGenerationRequest \<Rightarrow> (conn_failure + unit) \<times> dial_trace" where
  "connectAndSend v wsURL header req =
     (case dialWS (cv_dial v) wsURL header of
        (Inl f, t) \<Rightarrow> (Inl (wrap_failure ''tts/cartesia: connecting: '' f), t)
      | (Inr x, t) \<Rightarrow>
          case cv_encode v req of
            Inl e \<Rightarrow> (Inl (ConnFail (ErrWrap ''tts/cartesia: encoding generation request: '' e)), t\<lparr>dt_closed := True\<rparr>)
          | Inr payload \<Rightarrow>
              case cv_write v payload of
                Inl e \<Rightarrow> (Inl (ConnFail (ErrWrap ''tts/cartesia: sending generation request: '' e)), t\<lparr>dt_closed := True\<rparr>)
              | Inr x \<Rightarrow> (Inr (), t))"

lemma connectAndSend_closes:
  "case connectAndSend v u h req of (Inl f, t) \<Rightarrow> dt_closed t = dt_opened t | (Inr x, t) \<Rightarrow> dt_opened t \<and> \<not> dt_closed t"
  using dialWS_closes [of "cv_dial v" u h]
  by (auto simp: connectAndSend_def split: sum.splits prod.splits)

subsection \<open>SynthesizeStream\<close>

text \<open>What surrounds one call, with the vendor's world of each attempt.\<close>

record 'v synth_env =
  se_allowAt :: instant
  se_settleAt :: instant
  se_rnd :: "nat \<Rightarrow> int \<Rightarrow> int"
  se_cancelled :: "nat \<Rightarrow> bool"
  se_done :: "nat \<Rightarrow> bool"
  se_vendor :: "nat \<Rightarrow> 'v"

definition tts_languages :: "language list" where "tts_languages = [LanguageEnglish, LanguageHindi]"

definition tts_supports :: "language \<Rightarrow> bool" where "tts_supports lang = list_ex (\<lambda>l. l = lang) tts_languages"

definition persona_lang :: "Persona \<Rightarrow> language" where
  "persona_lang persona = (if persona_Language persona = [] then LanguageEnglish else persona_Language persona)"

definition cartesiaCostPerCharUSD :: float64 where "cartesiaCostPerCharUSD = 4 / 100000"
definition elevenlabsCostPerCharUSD :: float64 where "elevenlabsCostPerCharUSD = 18 / 100000"

definition synth_client :: "string \<Rightarrow> bool \<Rightarrow> float64 \<Rightarrow> string \<Rightarrow> 'a \<Rightarrow> 'a guarded_client" where
  "synth_client vendor metrics perChar txt zero =
     \<lparr>gc_package = PkgTTS, gc_prefix = ''tts/'' @ vendor @ '': '', gc_stage = ''tts'', gc_vendor = vendor,
      gc_metrics = metrics, gc_policy = vendor_policy, gc_cost = (\<lambda>x. real (rune_count txt) * perChar), gc_zero = zero\<rparr>"

definition synth_exit :: "string \<Rightarrow> circuitBreaker \<Rightarrow> 'a call_trace" where
  "synth_exit msg b = \<lparr>ct_result = Err (ErrNew msg), ct_breaker = b, ct_calls = [], ct_delays = [], ct_attempts = 0\<rparr>"

definition cartesia_wsURL :: "CartesiaSynthesizer \<Rightarrow> string" where
  "cartesia_wsURL c = trim_right (CHR ''/'') (ca_baseURL c) @ ''/tts/websocket?cartesia_version='' @ ca_apiVersion c"

definition cartesia_header :: "CartesiaSynthesizer \<Rightarrow> (string \<times> string list) list" where
  "cartesia_header c = [(''X-Api-Key'', [ca_apiKey c]), (''Cartesia-Version'', [ca_apiVersion c])]"

definition cartesia_request :: "CartesiaSynthesizer \<Rightarrow> string \<Rightarrow> Persona \<Rightarrow> string \<Rightarrow> cartesiaGenerationRequest" where
  "cartesia_request c txt persona cid =
     \<lparr>cr_ModelID = ca_modelID c, cr_Transcript = txt, cr_VoiceID = cartesia_voiceFor persona,
      cr_Language = persona_lang persona, cr_ContextID = cid, cr_SampleRate = ca_sampleRate c, cr_Continue = False\<rparr>"

definition cartesia_once :: "CartesiaSynthesizer \<Rightarrow> string \<Rightarrow> Persona \<Rightarrow> cartesia_env \<Rightarrow> string once" where
  "cartesia_once c txt persona v =
     (case newCartesiaContextID (cv_rand v) of
        Inl e \<Rightarrow> OnceAbort (ErrWrap ''tts/cartesia: generating context id: '' e)
      | Inr cid \<Rightarrow>
          case fst (connectAndSend v (cartesia_wsURL c) (cartesia_header c) (cartesia_request c txt persona cid)) of
            Inl f \<Rightarrow> OnceErr (isRetryableDialErr f) (failure_error f)
          | Inr x \<Rightarrow> OnceOk cid)"

text \<open>The value of a successful call is the context id the read loop is started with.\<close>

definition cartesia_SynthesizeStream ::
  "CartesiaSynthesizer \<Rightarrow> cartesia_env synth_env \<Rightarrow> string \<Rightarrow> Persona \<Rightarrow> string call_trace" where
  "cartesia_SynthesizeStream c e txt persona =
     (if txt = [] then synth_exit ''tts/cartesia: empty text'' (ca_breaker c)
      else if \<not> tts_supports (persona_lang persona) then synth_exit ''tts/cartesia: unsupported language'' (ca_breaker c)
      else guarded_call (synth_client ''cartesia'' (ca_metrics c) cartesiaCostPerCharUSD txt []) (se_allowAt e) (se_settleAt e)
             \<lparr>le_rnd = se_rnd e, le_cancelled = se_cancelled e,
              le_once = (\<lambda>i. cartesia_once c txt persona (se_vendor e i)), le_done = se_done e\<rparr> (ca_breaker c))"

record ElevenLabsSynthesizer =
  el_apiKey :: string
  el_baseURL :: string
  el_modelID :: string
  el_sampleRate :: int
  el_dialTimeout :: duration
  el_metrics :: bool
  el_breaker :: circuitBreaker

record elevenlabsRequest =
  er_URL :: string
  er_Headers :: "(string \<times> string) list"
  er_Text :: string
  er_ModelID :: string
  er_LanguageCode :: string

text \<open>The world of one request: building it, and what \<open>Do\<close> answers: an error or a status and body.\<close>

record elevenlabs_env =
  ev_build :: "unit result"
  ev_do :: "elevenlabsRequest \<Rightarrow> (int \<times> bytes) result"

definition elevenlabs_url :: "ElevenLabsSynthesizer \<Rightarrow> Persona \<Rightarrow> string" where
  "elevenlabs_url el persona = el_baseURL el @ ''/v1/text-to-speech/'' @ elevenlabs_voiceFor persona
     @ ''/stream?output_format=pcm_'' @ show_int (el_sampleRate el)"

definition elevenlabs_request :: "ElevenLabsSynthesizer \<Rightarrow> string \<Rightarrow> Persona \<Rightarrow> elevenlabsRequest" where
  "elevenlabs_request el txt persona =
     \<lparr>er_URL = elevenlabs_url el persona, er_Headers = [(''xi-api-key'', el_apiKey el), (''Content-Type'', ''application/json'')],
      er_Text = txt, er_ModelID = el_modelID el,
      er_LanguageCode = (if persona_Language persona \<noteq> [] then persona_lang persona else [])\<rparr>"

definition requestOnce :: "elevenlabs_env \<Rightarrow> elevenlabsRequest \<Rightarrow> conn_failure + bytes" where
  "requestOnce v rq =
     (case ev_build v of
        Inl e \<Rightarrow> Inl (ConnFail (ErrWrap ''tts/elevenlabs: building request: '' e))
      | Inr x \<Rightarrow>
          case ev_do v rq of
            Inl e \<Rightarrow> Inl (ConnFail (ErrWrap ''tts/elevenlabs: connecting: '' e))
          | Inr (status, body) \<Rightarrow>
              if status \<noteq> 200 then Inl (StatusFail status (ErrNew ''tts/elevenlabs: unexpected status'')) else Inr body)"

definition elevenlabs_once :: "ElevenLabsSynthesizer \<Rightarrow> string \<Rightarrow> Persona \<Rightarrow> elevenlabs_env \<Rightarrow> bytes once" where
  "elevenlabs_once el txt persona v =
     (case requestOnce v (elevenlabs_request el txt persona) of
        Inl f \<Rightarrow> OnceErr (isRetryableDialErr f) (failure_error f)
      | Inr body \<Rightarrow> OnceOk body)"

definition elevenlabs_SynthesizeStream ::
  "ElevenLabsSynthesizer \<Rightarrow> elevenlabs_env synth_env \<Rightarrow> string \<Rightarrow> Persona \<Rightarrow> bytes call_trace" where
  "elevenlabs_SynthesizeStream el e txt persona =
     (if txt = [] then synth_exit ''tts/elevenlabs: empty text'' (el_breaker el)
      else if \<not> tts_supports (persona_lang persona) then synth_exit ''tts/elevenlabs: unsupported language'' (el_breaker el)
      else guarded_call (synth_client ''elevenlabs'' (el_metrics el) elevenlabsCostPerCharUSD txt []) (se_allowAt e) (se_settleAt e)
             \<lparr>le_rnd = se_rnd e, le_cancelled = se_cancelled e,
              le_once = (\<lambda>i. elevenlabs_once el txt persona (se_vendor e i)), le_done = se_done e\<rparr> (el_breaker el))"

subsection \<open>Construction\<close>

datatype cartesia_option =
    CaBaseURL string | CaAPIVersion string | CaModel string | CaSampleRate int | CaDialTimeout duration
  | CaMetrics bool | CaCircuitBreaker int duration

fun cartesia_apply :: "CartesiaSynthesizer \<Rightarrow> cartesia_option \<Rightarrow> CartesiaSynthesizer" where
  "cartesia_apply c (CaBaseURL u) = c\<lparr>ca_baseURL := u\<rparr>"
| "cartesia_apply c (CaAPIVersion v) = c\<lparr>ca_apiVersion := v\<rparr>"
| "cartesia_apply c (CaModel m) = c\<lparr>ca_modelID := m\<rparr>"
| "cartesia_apply c (CaSampleRate hz) = c\<lparr>ca_sampleRate := hz\<rparr>"
| "cartesia_apply c (CaDialTimeout d) = c\<lparr>ca_dialTimeout := d\<rparr>"
| "cartesia_apply c (CaMetrics wired) = c\<lparr>ca_metrics := wired\<rparr>"
| "cartesia_apply c (CaCircuitBreaker th cd) = c\<lparr>ca_breaker := newCircuitBreaker th cd\<rparr>"

definition NewCartesiaSynthesizer :: "string \<Rightarrow> cartesia_option list \<Rightarrow> CartesiaSynthesizer result" where
  "NewCartesiaSynthesizer envKey opts =
     (if envKey = [] then Err (ErrNew ''tts/cartesia: CARTESIA_API_KEY environment variable is not set'')
      else Ok (foldl cartesia_apply
         \<lparr>ca_apiKey = envKey, ca_baseURL = ''wss://api.cartesia.ai'', ca_apiVersion = ''2025-04-16'', ca_modelID = ''sonic-2'',
          ca_sampleRate = 8000, ca_dialTimeout = 10 * second, ca_metrics = False, ca_breaker = newCircuitBreaker 0 0\<rparr> opts))"

datatype elevenlabs_option =
    ElBaseURL string | ElModel string | ElSampleRate int | ElDialTimeout duration | ElMetrics bool | ElCircuitBreaker int duration

fun elevenlabs_apply :: "ElevenLabsSynthesizer \<Rightarrow> elevenlabs_option \<Rightarrow> ElevenLabsSynthesizer" where
  "elevenlabs_apply el (ElBaseURL u) = el\<lparr>el_baseURL := trim_right (CHR ''/'') u\<rparr>"
| "elevenlabs_apply el (ElModel m) = el\<lparr>el_modelID := m\<rparr>"
| "elevenlabs_apply el (ElSampleRate hz) = el\<lparr>el_sampleRate := hz\<rparr>"
| "elevenlabs_apply el (ElDialTimeout d) = el\<lparr>el_dialTimeout := d\<rparr>"
| "elevenlabs_apply el (ElMetrics wired) = el\<lparr>el_metrics := wired\<rparr>"
| "elevenlabs_apply el (ElCircuitBreaker th cd) = el\<lparr>el_breaker := newCircuitBreaker th cd\<rparr>"

definition NewElevenLabsSynthesizer :: "string \<Rightarrow> elevenlabs_option list \<Rightarrow> ElevenLabsSynthesizer result" where
  "NewElevenLabsSynthesizer envKey opts =
     (if envKey = [] then Err (ErrNew ''tts/elevenlabs: ELEVENLABS_API_KEY environment variable is not set'')
      else Ok (foldl elevenlabs_apply
         \<lparr>el_apiKey = envKey, el_baseURL = ''https://api.elevenlabs.io'', el_modelID = ''eleven_multilingual_v2'',
          el_sampleRate = 8000, el_dialTimeout = 10 * second, el_metrics = False, el_breaker = newCircuitBreaker 0 0\<rparr> opts))"

subsection \<open>ElevenLabs: the body to chunks\<close>

text \<open>
  One \<open>Read\<close>: up to 3200 bytes with nothing, end of file or an error; \<open>ctxDone i\<close> and \<open>send i\<close> are
  the context before the \<open>i\<close>-th read and the outcome of sending after it.
\<close>

definition elevenlabsReadBufBytes :: nat where "elevenlabsReadBufBytes = 3200"

datatype read_end = ReadMore | ReadEOF | ReadFail

fun elevenlabs_readLoop ::
  "int \<Rightarrow> (nat \<Rightarrow> bool) \<Rightarrow> (nat \<Rightarrow> bool) \<Rightarrow> nat \<Rightarrow> (bytes \<times> read_end) list \<Rightarrow> AudioChunk list" where
  "elevenlabs_readLoop rate ctxDone send i [] = []"
| "elevenlabs_readLoop rate ctxDone send i ((data, err) # rs) =
     (if ctxDone i then []
      else
        let sent = (if data \<noteq> [] then [\<lparr>ac_PCM = data, ac_SampleRate = rate, ac_IsFinal = (err = ReadEOF)\<rparr>] else [])
        in if data \<noteq> [] \<and> \<not> send i then []
           else case err of
               ReadMore \<Rightarrow> sent @ elevenlabs_readLoop rate ctxDone send (i + 1) rs
             | ReadEOF \<Rightarrow> (if data = [] \<and> send i then [\<lparr>ac_PCM = [], ac_SampleRate = rate, ac_IsFinal = True\<rparr>] else sent)
             | ReadFail \<Rightarrow> sent)"

lemma readLoop_more:
  "elevenlabs_readLoop rate (\<lambda>i. False) (\<lambda>i. True) i (map (\<lambda>d. (d, ReadMore)) ds @ rs) =
     map (\<lambda>d. \<lparr>ac_PCM = d, ac_SampleRate = rate, ac_IsFinal = False\<rparr>) (filter (\<lambda>d. d \<noteq> []) ds)
       @ elevenlabs_readLoop rate (\<lambda>i. False) (\<lambda>i. True) (i + length ds) rs"
  by (induction ds arbitrary: i) simp_all

lemma concat_nonempty: "concat (filter (\<lambda>d. d \<noteq> []) ds) = concat ds"
  by (induction ds) simp_all

text \<open>
  An ElevenLabs stream marks its end exactly when it is complete. While the context lives, for
  any reads: if the body reaches end of file, with or without data in the last read, the audio sent
  is the whole body in order, exactly one chunk is final, and it is the last; if a read fails, the
  audio up to it is sent and no chunk is final.
\<close>
theorem elevenlabs_stream_marks_end:
  "let ok = elevenlabs_readLoop rate (\<lambda>i. False) (\<lambda>i. True) 0 (map (\<lambda>d. (d, ReadMore)) ds @ (d', ReadEOF) # rs);
       bad = elevenlabs_readLoop rate (\<lambda>i. False) (\<lambda>i. True) 0 (map (\<lambda>d. (d, ReadMore)) ds @ (d', ReadFail) # rs)
   in concat (map ac_PCM ok) = concat ds @ d' \<and> ok \<noteq> [] \<and> ac_IsFinal (last ok)
      \<and> list_all (\<lambda>c. \<not> ac_IsFinal c) (butlast ok)
      \<and> concat (map ac_PCM bad) = concat ds @ d' \<and> list_all (\<lambda>c. \<not> ac_IsFinal c) bad"
  by (simp add: readLoop_more Let_def o_def concat_nonempty list_all_iff butlast_append)

subsection \<open>Cartesia: messages to chunks\<close>

record cartesiaMessage =
  cm_Type :: string
  cm_Data :: string
  cm_Done :: bool
  cm_ContextID :: string

lemma read_message_shorter:
  "read_message writeOk started m a bs = (Ok r, ws, rest) \<Longrightarrow> length rest < length bs"
proof (induction "length bs" arbitrary: started m a bs r ws rest rule: less_induct)
  case less
  show ?case
  proof (cases "readWSFrame bs")
    case (Inl e)
    with less.prems show ?thesis by (simp add: read_message.simps [of writeOk started m a bs])
  next
    case (Inr x)
    obtain fin op data rest1 where x: "x = ((fin, op, data), rest1)" by (metis prod.exhaust)
    have l: "length rest1 < length bs" using readWSFrame_shorter Inr x by blast
    have step: "length rest < length bs" if "read_message writeOk s m' a' rest1 = (Ok r, ws', rest)" for s m' a' ws'
      using less.hyps [OF l that] l by simp
    show ?thesis
      using less.prems [unfolded read_message.simps [of writeOk started m a bs]] Inr x l step
      by (auto split: if_splits prod.splits)
  qed
qed

text \<open>
  The loop on the bytes of the connection: \<open>parse\<close> and \<open>decode\<close> are JSON and base64, \<open>cid\<close> the
  context id of the request. A message that is not text, or of another context, is skipped.
\<close>

function cartesia_readLoop ::
  "(bytes \<Rightarrow> cartesiaMessage option) \<Rightarrow> (string \<Rightarrow> bytes option) \<Rightarrow> (byte \<times> bytes \<Rightarrow> bool) \<Rightarrow> (nat \<Rightarrow> bool) \<Rightarrow> (nat \<Rightarrow> bool)
     \<Rightarrow> int \<Rightarrow> string \<Rightarrow> nat \<Rightarrow> bytes \<Rightarrow> AudioChunk list" where
  "cartesia_readLoop parse decode writeOk ctxDone send rate cid i bs =
     (if ctxDone i then []
      else case readWSMessage writeOk bs of
          (Inl e, ws, rest) \<Rightarrow> []
        | (Inr (opcode, data), ws, rest) \<Rightarrow>
            if opcode \<noteq> wsOpText then cartesia_readLoop parse decode writeOk ctxDone send rate cid (i + 1) rest
            else case parse data of
                None \<Rightarrow> []
              | Some msg \<Rightarrow>
                  if cm_ContextID msg \<noteq> [] \<and> cm_ContextID msg \<noteq> cid
                  then cartesia_readLoop parse decode writeOk ctxDone send rate cid (i + 1) rest
                  else if cm_Type msg = ''chunk'' then
                    (case decode (cm_Data msg) of
                       None \<Rightarrow> []
                     | Some pcm \<Rightarrow>
                         if \<not> send i then []
                         else \<lparr>ac_PCM = pcm, ac_SampleRate = rate, ac_IsFinal = cm_Done msg\<rparr>
                              # (if cm_Done msg then []
                                 else cartesia_readLoop parse decode writeOk ctxDone send rate cid (i + 1) rest))
                  else if cm_Type msg = ''done'' \<or> cm_Type msg = ''error'' then []
                  else cartesia_readLoop parse decode writeOk ctxDone send rate cid (i + 1) rest)"
  by pat_completeness auto
termination
  by (relation "measure (\<lambda>(p, d, w, c, s, r, cid, i, bs). length bs)")
    (auto simp: readWSMessage_def dest!: read_message_shorter [OF sym])

declare cartesia_readLoop.simps [simp del]

text \<open>The server's side: text messages in one frame each, and what the chunks among them carry.\<close>

definition text_frames :: "bytes list \<Rightarrow> bytes" where
  "text_frames ms = concat (map (frame_bytes True wsOpText None) ms)"

lemma read_text_frame:
  "small d \<Longrightarrow> readWSMessage writeOk (frame_bytes True wsOpText None d @ rest) = (Ok (wsOpText, d), [], rest)"
proof -
  assume "small d"
  then have f: "readWSFrame (frame_bytes True wsOpText None d @ rest) = Ok ((True, wsOpText, d), rest)"
    by (intro read_frame_bytes) (auto simp: ws_ops small_def)
  show ?thesis unfolding readWSMessage_def by (subst read_message.simps, subst f) (simp add: ws_ops)
qed

definition plays :: "(bytes \<Rightarrow> cartesiaMessage option) \<Rightarrow> (string \<Rightarrow> bytes option) \<Rightarrow> string \<Rightarrow> bytes \<Rightarrow> bytes list" where
  "plays parse decode cid d =
     (case parse d of None \<Rightarrow> []
      | Some msg \<Rightarrow> if cm_Type msg = ''chunk'' \<and> (cm_ContextID msg = [] \<or> cm_ContextID msg = cid)
                    then (case decode (cm_Data msg) of None \<Rightarrow> [] | Some pcm \<Rightarrow> [pcm]) else [])"

text \<open>A message the loop goes on after: it decodes and is no last chunk, no end and no error.\<close>

definition continues :: "(bytes \<Rightarrow> cartesiaMessage option) \<Rightarrow> (string \<Rightarrow> bytes option) \<Rightarrow> string \<Rightarrow> bytes \<Rightarrow> bool" where
  "continues parse decode cid d \<longleftrightarrow> small d \<and>
     (case parse d of None \<Rightarrow> False
      | Some msg \<Rightarrow> cm_ContextID msg \<noteq> [] \<and> cm_ContextID msg \<noteq> cid
          \<or> (if cm_Type msg = ''chunk'' then decode (cm_Data msg) \<noteq> None \<and> \<not> cm_Done msg
             else cm_Type msg \<noteq> ''done'' \<and> cm_Type msg \<noteq> ''error''))"

lemma cartesia_step:
  assumes "continues parse decode cid d"
  shows "cartesia_readLoop parse decode writeOk (\<lambda>i. False) (\<lambda>i. True) rate cid i (frame_bytes True wsOpText None d @ rest) =
     map (\<lambda>pcm. \<lparr>ac_PCM = pcm, ac_SampleRate = rate, ac_IsFinal = False\<rparr>) (plays parse decode cid d)
     @ cartesia_readLoop parse decode writeOk (\<lambda>i. False) (\<lambda>i. True) rate cid (i + 1) rest"
proof -
  obtain msg where d: "small d" "parse d = Some msg" using assms by (auto simp: continues_def split: option.splits)
  show ?thesis using assms d read_text_frame [OF d(1), of writeOk rest]
    by (subst cartesia_readLoop.simps) (auto simp: continues_def plays_def split: option.split if_splits)
qed

lemma cartesia_continues:
  assumes "list_all (continues parse decode cid) ms"
  shows "cartesia_readLoop parse decode writeOk (\<lambda>i. False) (\<lambda>i. True) rate cid i (text_frames ms @ rest) =
     map (\<lambda>pcm. \<lparr>ac_PCM = pcm, ac_SampleRate = rate, ac_IsFinal = False\<rparr>) (concat (map (plays parse decode cid) ms))
     @ cartesia_readLoop parse decode writeOk (\<lambda>i. False) (\<lambda>i. True) rate cid (i + length ms) rest"
  using assms
proof (induction ms arbitrary: i)
  case (Cons d ms)
  have "text_frames (d # ms) @ rest = frame_bytes True wsOpText None d @ text_frames ms @ rest" by (simp add: text_frames_def)
  then show ?case using Cons.IH [of "i + 1"] Cons.prems by (simp add: cartesia_step)
qed (simp add: text_frames_def)

lemma cartesia_last:
  assumes "small d" "parse d = Some msg" "cm_ContextID msg = [] \<or> cm_ContextID msg = cid"
  shows "cm_Type msg = ''done'' \<or> cm_Type msg = ''error'' \<Longrightarrow>
      cartesia_readLoop parse decode writeOk (\<lambda>i. False) (\<lambda>i. True) rate cid i (frame_bytes True wsOpText None d @ rest) = []"
    and "cm_Type msg = ''chunk'' \<Longrightarrow> cm_Done msg \<Longrightarrow> decode (cm_Data msg) = Some pcm \<Longrightarrow>
      cartesia_readLoop parse decode writeOk (\<lambda>i. False) (\<lambda>i. True) rate cid i (frame_bytes True wsOpText None d @ rest)
        = [\<lparr>ac_PCM = pcm, ac_SampleRate = rate, ac_IsFinal = True\<rparr>]"
  using assms read_text_frame [OF assms(1), of writeOk rest]
  by (subst cartesia_readLoop.simps; auto)+

text \<open>
  A Cartesia stream keeps the audio, but only a flagged last chunk marks its end. While the
  context lives, for any decodable messages of this or another context in text frames: the audio of
  this context's chunks is sent in order; if the last message is a chunk with \<open>done\<close> set, exactly
  that chunk is final; if the context is completed by a \<open>done\<close> message, no chunk is final, just as
  after an \<open>error\<close> message: a reader that follows the documented rule takes it for a failure.
\<close>
theorem cartesia_stream_end:
  assumes "list_all (continues parse decode cid) ms" "small d" "parse d = Some msg"
    and "cm_ContextID msg = [] \<or> cm_ContextID msg = cid"
  shows "let out = cartesia_readLoop parse decode writeOk (\<lambda>i. False) (\<lambda>i. True) rate cid 0 (text_frames (ms @ [d]) @ rest);
             audio = concat (map (plays parse decode cid) ms)
    in (cm_Type msg = ''chunk'' \<and> cm_Done msg \<and> decode (cm_Data msg) = Some pcm \<longrightarrow>
          map ac_PCM out = audio @ [pcm] \<and> map ac_IsFinal out = map (\<lambda>p. False) audio @ [True])
       \<and> (cm_Type msg = ''done'' \<or> cm_Type msg = ''error'' \<longrightarrow>
          map ac_PCM out = audio \<and> list_all (\<lambda>c. \<not> ac_IsFinal c) out)"
proof -
  have "text_frames (ms @ [d]) @ rest = text_frames ms @ frame_bytes True wsOpText None d @ rest" by (simp add: text_frames_def)
  then show ?thesis using cartesia_last [of d parse msg cid, OF assms(2-4)]
    by (simp add: cartesia_continues [OF assms(1)] Let_def o_def list_all_iff)
qed

definition demo_msg :: "bytes \<Rightarrow> cartesiaMessage option" where
  "demo_msg d = (case d of [] \<Rightarrow> None
     | b # bs \<Rightarrow> Some \<lparr>cm_Type = (if b = 0 then ''done'' else ''chunk''), cm_Data = map (char_of \<circ> unat) bs,
                      cm_Done = (b = 2), cm_ContextID = []\<rparr>)"

theorem cartesia_stream_end_witness:
  "map ac_IsFinal (cartesia_readLoop demo_msg (\<lambda>s. Some (map of_char s)) (\<lambda>w. True) (\<lambda>i. False) (\<lambda>i. True) 8000 ''c'' 0
     (text_frames [[1, 65, 66], [1, 67]] @ frame_bytes True wsOpText None [0])) = [False, False]"
proof -
  have s: "list_all (continues demo_msg (\<lambda>s. Some (map of_char s)) ''c'') [[1, 65, 66], [1, 67]]" "small [0]"
    "demo_msg [0] = Some \<lparr>cm_Type = ''done'', cm_Data = [], cm_Done = False, cm_ContextID = []\<rparr>"
    by (simp_all add: continues_def demo_msg_def small_def maxWSFramePayload_def)
  have b: "text_frames ([[1, 65, 66], [1, 67]] @ [[0]]) @ [] = text_frames [[1, 65, 66], [1, 67]] @ frame_bytes True wsOpText None [0]"
    by (simp add: text_frames_def)
  have flags: "map ac_IsFinal out = replicate (length (map ac_PCM out)) False"
    if "list_all (\<lambda>c. \<not> ac_IsFinal c) out" for out using that by (induction out) simp_all
  let ?out = "cartesia_readLoop demo_msg (\<lambda>s. Some (map of_char s)) (\<lambda>w. True) (\<lambda>i. False) (\<lambda>i. True) 8000 ''c'' 0
     (text_frames [[1, 65, 66], [1, 67]] @ frame_bytes True wsOpText None [0])"
  note run = cartesia_stream_end [OF s, of "\<lambda>w. True" 8000 "[]", unfolded Let_def b]
  then have pcm: "list_all (\<lambda>c. \<not> ac_IsFinal c) ?out"
    "map ac_PCM ?out = concat (map (plays demo_msg (\<lambda>s. Some (map of_char s)) ''c'') [[1, 65, 66], [1, 67]])" by simp_all
  have "length (concat (map (plays demo_msg (\<lambda>s. Some (map of_char s)) ''c'') [[1, 65, 66], [1, 67]])) = 2"
    by (simp add: plays_def demo_msg_def)
  with flags [OF pcm(1)] show ?thesis unfolding pcm(2) by (simp add: numeral_2_eq_2)
qed

subsection \<open>Timeouts of the connect phase\<close>

text \<open>
  A dial that runs into the client's own timeout fails with an error that \<open>errors.Is\<close> matches with
  \<open>context.DeadlineExceeded\<close> (the derived context's, and \<open>net\<close>'s timeout error), here a context
  error, while the caller's context lives.
\<close>

definition cartesia_dial_timeout :: "CartesiaSynthesizer \<Rightarrow> cartesia_env \<Rightarrow> bool" where
  "cartesia_dial_timeout c v \<longleftrightarrow> is_ok (cv_rand v) \<and>
     (case de_parse (cv_dial v) (cartesia_wsURL c) of Inl e \<Rightarrow> False
      | Inr u \<Rightarrow> (wu_scheme u = ''ws'' \<or> wu_scheme u = ''wss'')
          \<and> (\<forall>host. case de_dial (cv_dial v) host of Inl e \<Rightarrow> is_context_error e | Inr x \<Rightarrow> False))"

definition elevenlabs_timeout :: "elevenlabs_env \<Rightarrow> bool" where
  "elevenlabs_timeout v \<longleftrightarrow> is_ok (ev_build v) \<and> (\<forall>rq. case ev_do v rq of Inl e \<Rightarrow> is_context_error e | Inr x \<Rightarrow> False)"

lemma cartesia_timeout_once:
  assumes "cartesia_dial_timeout c v"
  shows "\<exists>er. cartesia_once c txt persona v = OnceErr False er"
proof -
  obtain b0 where rnd: "cv_rand v = Inr b0" using assms by (cases "cv_rand v") (simp_all add: cartesia_dial_timeout_def)
  obtain u where u: "de_parse (cv_dial v) (cartesia_wsURL c) = Inr u"
    using assms by (cases "de_parse (cv_dial v) (cartesia_wsURL c)") (simp_all add: cartesia_dial_timeout_def)
  have dial: "\<exists>e. de_dial (cv_dial v) host = Inl e \<and> is_context_error e" for host
    using assms u by (cases "de_dial (cv_dial v) host") (auto simp: cartesia_dial_timeout_def dest: spec [of _ host])
  have "wu_scheme u = ''ws'' \<or> wu_scheme u = ''wss''" using assms u by (simp add: cartesia_dial_timeout_def)
  note v = rnd u this dial
  obtain cid where cid: "newCartesiaContextID (cv_rand v) = Inr cid" by (simp add: newCartesiaContextID_def v(1) Let_def)
  have "\<exists>e. fst (dialWS (cv_dial v) (cartesia_wsURL c) (cartesia_header c)) = Inl (ConnFail e) \<and> is_context_error e"
  proof -
    obtain e where "de_dial (cv_dial v) (if wu_hasPort u then wu_host u
        else JoinHostPort (wu_host u) (if wu_scheme u = ''wss'' then ''443'' else ''80'')) = Inl e" "is_context_error e"
      using v(4) by blast
    then show ?thesis using v(2,3) by (auto simp: dialWS_def Let_def)
  qed
  then obtain e t where d: "dialWS (cv_dial v) (cartesia_wsURL c) (cartesia_header c) = (Inl (ConnFail e), t)" "is_context_error e"
    by (cases "dialWS (cv_dial v) (cartesia_wsURL c) (cartesia_header c)") auto
  then show ?thesis by (simp add: cartesia_once_def cid connectAndSend_def isRetryableConnErr_def)
qed

lemma elevenlabs_timeout_once:
  assumes "elevenlabs_timeout v"
  shows "\<exists>er. elevenlabs_once el txt persona v = OnceErr False er"
proof -
  obtain e where "ev_do v (elevenlabs_request el txt persona) = Inl e" "is_context_error e"
    using assms unfolding elevenlabs_timeout_def
    by (cases "ev_do v (elevenlabs_request el txt persona)") (auto dest: spec [of _ "elevenlabs_request el txt persona"])
  then show ?thesis using assms
    by (cases "ev_build v") (auto simp: elevenlabs_timeout_def elevenlabs_once_def requestOnce_def isRetryableConnErr_def)
qed

text \<open>A first attempt that fails for good leaves a closed breaker as it was.\<close>

lemma guarded_call_fails_fast:
  assumes "le_once e 0 = OnceErr False er" "\<not> le_done e 0" "0 < rp_attempts (gc_policy c)" "\<not> cb_open b" "cb_inv b"
  shows "let r = guarded_call c t t' e b in ct_breaker r = b \<and> ct_attempts r = 1 \<and> ct_delays r = [] \<and> ct_calls r = [] \<and> \<not> is_ok (ct_result r)"
proof -
  have r: "retry_loop (gc_policy c) e 0 = (VFailed er, [], 1)" using assms(1-3) by (subst retry_loop.simps) simp
  have "\<not> probeInFlight b" using assms(4,5) by (simp add: cb_inv_def)
  then show ?thesis using assms(4)
    by (simp add: guarded_call_def r cb_allow_def settle_breaker_def cb_abort_def verdict_result_def)
qed

lemma cartesia_timeout_call:
  assumes "txt \<noteq> []" "tts_supports (persona_lang persona)" "\<not> cb_open (ca_breaker c)" "cb_inv (ca_breaker c)"
    "cartesia_dial_timeout c (se_vendor e 0)" "\<not> se_done e 0"
  shows "let r = cartesia_SynthesizeStream c e txt persona
    in ct_breaker r = ca_breaker c \<and> ct_attempts r = 1 \<and> ct_delays r = [] \<and> ct_calls r = [] \<and> \<not> is_ok (ct_result r)"
proof -
  obtain er where er: "cartesia_once c txt persona (se_vendor e 0) = OnceErr False er"
    using cartesia_timeout_once [OF assms(5)] by blast
  show ?thesis
    unfolding cartesia_SynthesizeStream_def using assms(1,2)
    by (simp only: if_False not_True_eq_False if_not_P) (rule guarded_call_fails_fast; simp add: assms er synth_client_def vendor_policy_def)
qed

lemma elevenlabs_timeout_call:
  assumes "txt \<noteq> []" "tts_supports (persona_lang persona)" "\<not> cb_open (el_breaker el)" "cb_inv (el_breaker el)"
    "elevenlabs_timeout (se_vendor e 0)" "\<not> se_done e 0"
  shows "let r = elevenlabs_SynthesizeStream el e txt persona
    in ct_breaker r = el_breaker el \<and> ct_attempts r = 1 \<and> ct_delays r = [] \<and> ct_calls r = [] \<and> \<not> is_ok (ct_result r)"
proof -
  obtain er where er: "elevenlabs_once el txt persona (se_vendor e 0) = OnceErr False er"
    using elevenlabs_timeout_once [OF assms(5)] by blast
  show ?thesis
    unfolding elevenlabs_SynthesizeStream_def using assms(1,2)
    by (simp only: if_False not_True_eq_False if_not_P) (rule guarded_call_fails_fast; simp add: assms er synth_client_def vendor_policy_def)
qed

lemma foldl_fixed: "list_all (\<lambda>e. f c e = c) es \<Longrightarrow> foldl f c es = c"
  by (induction es) simp_all

text \<open>
  C39: A vendor that cannot be reached within the dial timeout never trips the breaker. However many
  calls are made one after the other on a client with a closed breaker, if the first dial (or request)
  of each ends in the client's own timeout while the caller's context lives, every one of them fails
  after that single attempt, without a retry or a report to the metrics, and the client is in the end
  exactly as before: the breaker has counted nothing, so the next call pays the full timeout again.
\<close>
theorem connect_timeout_never_trips:
  assumes "txt \<noteq> []" "tts_supports (persona_lang persona)"
    and "\<not> cb_open (ca_breaker c)" "cb_inv (ca_breaker c)"
    and "list_all (\<lambda>e. cartesia_dial_timeout c (se_vendor e 0) \<and> \<not> se_done e 0) es"
    and "\<not> cb_open (el_breaker el)" "cb_inv (el_breaker el)"
    and "list_all (\<lambda>e. elevenlabs_timeout (se_vendor e 0) \<and> \<not> se_done e 0) es'"
  shows "foldl (\<lambda>c e. c\<lparr>ca_breaker := ct_breaker (cartesia_SynthesizeStream c e txt persona)\<rparr>) c es = c
    \<and> foldl (\<lambda>el e. el\<lparr>el_breaker := ct_breaker (elevenlabs_SynthesizeStream el e txt persona)\<rparr>) el es' = el
    \<and> list_all (\<lambda>e. let r = cartesia_SynthesizeStream c e txt persona
         in ct_attempts r = 1 \<and> ct_delays r = [] \<and> ct_calls r = [] \<and> \<not> is_ok (ct_result r)) es
    \<and> list_all (\<lambda>e. let r = elevenlabs_SynthesizeStream el e txt persona
         in ct_attempts r = 1 \<and> ct_delays r = [] \<and> ct_calls r = [] \<and> \<not> is_ok (ct_result r)) es'"
  using assms(5,8) cartesia_timeout_call [OF assms(1-4)] elevenlabs_timeout_call [OF assms(1,2,6,7)]
  by (intro conjI foldl_fixed) (simp_all add: list_all_iff Let_def)

definition timeout_dial :: dial_env where
  "timeout_dial = \<lparr>de_parse = (\<lambda>u. Ok \<lparr>wu_scheme = ''wss'', wu_host = ''h'', wu_hasPort = False, wu_requestURI = []\<rparr>),
     de_dial = (\<lambda>h. Err (ErrWrap ''i/o timeout'' ErrContext)), de_tls = Ok (), de_key = Ok ''k'', de_write = (\<lambda>s. Ok ()),
     de_response = Ok \<lparr>wr_Status = 101, wr_Upgrade = ''websocket'', wr_Accept = ''k''\<rparr>, de_acceptKey = id\<rparr>"

definition timeout_env :: "'v \<Rightarrow> 'v synth_env" where
  "timeout_env v = \<lparr>se_allowAt = 0, se_settleAt = 1, se_rnd = (\<lambda>i n. 0), se_cancelled = (\<lambda>i. False), se_done = (\<lambda>i. False), se_vendor = (\<lambda>i. v)\<rparr>"

theorem connect_timeout_never_trips_witness:
  "\<exists>c el. NewCartesiaSynthesizer ''k'' [] = Ok c \<and> NewElevenLabsSynthesizer ''k'' [] = Ok el \<and>
     foldl (\<lambda>c e. c\<lparr>ca_breaker := ct_breaker (cartesia_SynthesizeStream c e ''hi'' \<lparr>VoiceID = [], persona_Language = [], Gender = [], ClonedFrom = []\<rparr>)\<rparr>)
       c (replicate 9 (timeout_env \<lparr>cv_rand = Ok (replicate 16 0), cv_dial = timeout_dial, cv_encode = (\<lambda>r. Ok []), cv_write = (\<lambda>b. Ok ())\<rparr>)) = c \<and>
     foldl (\<lambda>el e. el\<lparr>el_breaker := ct_breaker (elevenlabs_SynthesizeStream el e ''hi'' \<lparr>VoiceID = [], persona_Language = [], Gender = [], ClonedFrom = []\<rparr>)\<rparr>)
       el (replicate 9 (timeout_env \<lparr>ev_build = Ok (), ev_do = (\<lambda>r. Err ErrContext)\<rparr>)) = el"
proof -
  obtain c where c: "NewCartesiaSynthesizer ''k'' [] = Ok c" "ca_breaker c = newCircuitBreaker 0 0" by (simp add: NewCartesiaSynthesizer_def)
  obtain el where el: "NewElevenLabsSynthesizer ''k'' [] = Ok el" "el_breaker el = newCircuitBreaker 0 0" by (simp add: NewElevenLabsSynthesizer_def)
  let ?p = "\<lparr>VoiceID = [], persona_Language = [], Gender = [], ClonedFrom = []\<rparr>"
  let ?v = "\<lparr>cv_rand = Ok (replicate 16 0), cv_dial = timeout_dial, cv_encode = (\<lambda>r. Ok []), cv_write = (\<lambda>b. Ok ())\<rparr>"
  let ?w = "\<lparr>ev_build = Ok (), ev_do = (\<lambda>r. Err ErrContext)\<rparr>"
  have "''hi'' \<noteq> []" "tts_supports (persona_lang ?p)" by (simp_all add: tts_supports_def persona_lang_def tts_languages_def)
  moreover have "\<not> cb_open (ca_breaker c)" "cb_inv (ca_breaker c)" "\<not> cb_open (el_breaker el)" "cb_inv (el_breaker el)"
    unfolding c(2) el(2) by (simp_all only: cb_inv_new) (simp_all add: newCircuitBreaker_def)
  moreover have "list_all (\<lambda>e. cartesia_dial_timeout c (se_vendor e 0) \<and> \<not> se_done e 0) (replicate 9 (timeout_env ?v))"
    "list_all (\<lambda>e. elevenlabs_timeout (se_vendor e 0) \<and> \<not> se_done e 0) (replicate 9 (timeout_env ?w))"
    by (simp_all add: list_all_iff cartesia_dial_timeout_def elevenlabs_timeout_def timeout_env_def timeout_dial_def)
  ultimately show ?thesis using c(1) el(1) connect_timeout_never_trips [of "''hi''" ?p c "replicate 9 (timeout_env ?v)" el "replicate 9 (timeout_env ?w)"]
    by blast
qed

end
