(* ===== verification/AsrSession.thy ===== *)
theory AsrSession
  imports Breaker
begin

section \<open>The life of a streaming recognizer session (pkg/asr/deepgram.go, sarvam.go)\<close>

text \<open>
  \<open>deepgramSession\<close> and \<open>sarvamSession\<close> are one concurrent object: a writer in \<open>PushAudio\<close>, readers
  and keep-alive loops of current and superseded connections, callers of \<open>Close\<close>, and the teardown
  that \<open>Close\<close> or \<open>failAndClose\<close> starts. A state machine over events: every section under \<open>mu\<close> is
  one step, so is every blocking call; what the network answers is in the event. An event that
  cannot happen in a state has no successor.
\<close>

subsection \<open>Threads\<close>

text \<open>
  What a reader makes of a message: nothing, the end of the session, or a transcript; Sarvam dates it
  with the audio pushed so far (milliseconds), read when the message is handled.
\<close>

datatype incoming = MsgIgnore | MsgFatal go_error | MsgTranscript "int \<Rightarrow> Transcript"

text \<open>
  The writer. The flag tells the second round, after a failed write. \<open>PushFail e r\<close> is about to call
  \<open>failAndClose(e)\<close> and return \<open>r\<close>; \<open>PushFailing r\<close> is inside it.
\<close>

datatype push_pc =
    PushIdle | PushCheck | PushEnsure bool | PushWait bool | PushDial bool | PushAttach bool nat
  | PushSpawn bool nat nat | PushWrite bool | PushFail go_error go_error | PushFailing go_error

datatype reader_pc = ReaderRead | ReaderHandle "int \<Rightarrow> Transcript" | ReaderSend Transcript | ReaderFail go_error | ReaderFailing

text \<open>Workers with their connection and generation.\<close>

datatype worker = Reader nat nat reader_pc | KeepAlive nat nat

text \<open>The teardown: settle the breaker, close the connection, cancel, wait for workers and sends, close \<open>out\<close>.\<close>

datatype teardown =
    TdNone | TdSettle "go_error option" "nat option" | TdDisconnect "nat option" | TdCancel
  | TdWaitWorkers | TdWaitSends | TdCloseOut | TdFinished

datatype verdict_mark = MarkSuccess | MarkFailure | MarkAbort

text \<open>
  The session: the fields under \<open>mu\<close>, then the breaker verdicts it has reported, the session context,
  the connections dialled and not closed, their number, the workers, what \<open>out\<close> got and how often
  it was closed, a send on the closed channel (a panic), the teardown, the writer with its frame, and
  the results of its calls (\<open>None\<close> is nil).
\<close>

record asr_session =
  as_conn :: "nat option"
  as_gen :: nat
  as_closed :: bool
  as_attempts :: int
  as_fatal :: "go_error option"
  as_totalMS :: int
  as_connectedOnce :: bool
  as_settled :: bool
  as_marks :: "verdict_mark list"
  as_cancelled :: bool
  as_open :: "nat list"
  as_dials :: nat
  as_workers :: "worker list"
  as_out :: "Transcript list"
  as_outClosed :: nat
  as_panic :: bool
  as_teardown :: teardown
  as_push :: push_pc
  as_frameMS :: int
  as_results :: "go_error option list"

definition new_session :: asr_session where
  "new_session = \<lparr>as_conn = None, as_gen = 0, as_closed = False, as_attempts = 0, as_fatal = None, as_totalMS = 0,
     as_connectedOnce = False, as_settled = False, as_marks = [], as_cancelled = False, as_open = [], as_dials = 0,
     as_workers = [], as_out = [], as_outClosed = 0, as_panic = False, as_teardown = TdNone, as_push = PushIdle,
     as_frameMS = 0, as_results = []\<rparr>"

subsection \<open>Operations under the lock\<close>

text \<open>The locked part of \<open>failAndClose\<close> (an error) and of \<open>Close\<close> (none): it returns whether it closed.\<close>

definition begin_close :: "go_error option \<Rightarrow> asr_session \<Rightarrow> bool \<times> asr_session" where
  "begin_close err s =
     (if as_closed s then (False, s)
      else (True, s\<lparr>as_closed := True, as_fatal := err, as_conn := None, as_teardown := TdSettle err (as_conn s)\<rparr>))"

definition settleBreaker :: "go_error option \<Rightarrow> asr_session \<Rightarrow> asr_session" where
  "settleBreaker err s =
     (if as_settled s then s
      else let s1 = s\<lparr>as_settled := True\<rparr>
           in if as_connectedOnce s then s1
              else if (case err of None \<Rightarrow> True | Some e \<Rightarrow> is_context_error e)
                   then s1\<lparr>as_marks := as_marks s @ [MarkAbort]\<rparr>
                   else s1\<lparr>as_marks := as_marks s @ [MarkFailure]\<rparr>)"

definition attach :: "nat \<Rightarrow> asr_session \<Rightarrow> asr_session" where
  "attach conn s =
     (let s1 = s\<lparr>as_conn := Some conn, as_gen := as_gen s + 1\<rparr>
      in if \<not> as_connectedOnce s \<and> \<not> as_settled s
         then s1\<lparr>as_connectedOnce := True, as_settled := True, as_marks := as_marks s @ [MarkSuccess]\<rparr> else s1)"

definition onConnLost :: "nat \<Rightarrow> asr_session \<Rightarrow> asr_session" where
  "onConnLost gen s = (if as_closed s \<or> gen \<noteq> as_gen s then s else s\<lparr>as_conn := None\<rparr>)"

text \<open>The start of \<open>ensureConnected\<close>, with the configured maximum of attempts.\<close>

definition ensure_start :: "int \<Rightarrow> bool \<Rightarrow> asr_session \<Rightarrow> push_pc" where
  "ensure_start maxAttempts again s =
     (if as_conn s \<noteq> None then PushWrite again
      else if as_closed s then PushFail (ErrNew ''asr: session closed'') (ErrNew ''asr: session closed'')
      else if as_attempts s \<ge> maxAttempts
      then PushFail (ErrNew ''asr: exceeded max reconnect attempts'') (ErrNew ''asr: exceeded max reconnect attempts'')
      else if as_attempts s > 0 then PushWait again else PushDial again)"

definition push_return :: "go_error option \<Rightarrow> asr_session \<Rightarrow> asr_session" where
  "push_return r s = s\<lparr>as_push := PushIdle, as_results := as_results s @ [r]\<rparr>"

fun set_reader :: "reader_pc \<Rightarrow> worker \<Rightarrow> worker" where
  "set_reader pc (Reader c g p) = Reader c g pc"
| "set_reader pc w = w"

definition put_worker :: "nat \<Rightarrow> reader_pc \<Rightarrow> asr_session \<Rightarrow> asr_session" where
  "put_worker k pc s = s\<lparr>as_workers := (as_workers s)[k := set_reader pc (as_workers s ! k)]\<rparr>"

definition drop_worker :: "nat \<Rightarrow> asr_session \<Rightarrow> asr_session" where
  "drop_worker k s = s\<lparr>as_workers := take k (as_workers s) @ drop (k + 1) (as_workers s)\<rparr>"

fun sending :: "worker \<Rightarrow> bool" where
  "sending (Reader c g (ReaderSend t)) = True"
| "sending w = False"

text \<open>\<open>failAndClose\<close> returns to its caller once the context is cancelled.\<close>

fun fail_returned :: "teardown \<Rightarrow> bool" where
  "fail_returned (TdSettle e c) = False"
| "fail_returned (TdDisconnect c) = False"
| "fail_returned TdCancel = False"
| "fail_returned t = True"

subsection \<open>Steps\<close>

datatype asr_event =
    EvPush int bool | EvCheck | EvEnsure | EvTimer | EvWaitCancelled | EvBadURL go_error | EvDial "go_error option"
  | EvAttach | EvSpawn | EvWrite "go_error option" | EvFail | EvFailReturn
  | EvClose | EvTeardown
  | EvRead nat incoming | EvReadError nat | EvHandle nat | EvSend nat | EvSendDropped nat
  | EvReaderFail nat | EvReaderBack nat | EvKeepAliveEnd nat

text \<open>
  The writer. \<open>EvPush ms done\<close> calls \<open>PushAudio\<close> with a frame of \<open>ms\<close> milliseconds and a context that
  may be done; \<open>EvDial\<close> and \<open>EvWrite\<close> carry the network's answer: a dial succeeds only while the
  session's context lives, a write only on a connection that was not closed.
\<close>

fun push_step :: "int \<Rightarrow> bool \<Rightarrow> asr_session \<Rightarrow> asr_event \<Rightarrow> asr_session option" where
  "push_step maxAttempts keepAlive s (EvPush ms ctxDone) =
     (if as_push s \<noteq> PushIdle then None
      else Some (if ctxDone then push_return (Some ErrContext) s else s\<lparr>as_push := PushCheck, as_frameMS := ms\<rparr>))"
| "push_step maxAttempts keepAlive s EvCheck =
     (if as_push s \<noteq> PushCheck then None
      else Some (if as_closed s
                 then push_return (Some (case as_fatal s of Some e \<Rightarrow> ErrWrap ''asr: session closed: '' e
                                         | None \<Rightarrow> ErrNew ''asr: session closed'')) s
                 else s\<lparr>as_push := (if as_conn s = None then PushEnsure False else PushWrite False)\<rparr>))"
| "push_step maxAttempts keepAlive s EvEnsure =
     (case as_push s of PushEnsure again \<Rightarrow> Some (s\<lparr>as_push := ensure_start maxAttempts again s\<rparr>) | _ \<Rightarrow> None)"
| "push_step maxAttempts keepAlive s EvTimer =
     (case as_push s of PushWait again \<Rightarrow> Some (s\<lparr>as_push := PushDial again\<rparr>) | _ \<Rightarrow> None)"
| "push_step maxAttempts keepAlive s EvWaitCancelled =
     (case as_push s of PushWait again \<Rightarrow> if as_cancelled s then Some (s\<lparr>as_push := PushFail ErrContext ErrContext\<rparr>) else None | _ \<Rightarrow> None)"
| "push_step maxAttempts keepAlive s (EvBadURL e) =
     (case as_push s of PushDial again \<Rightarrow>
        let e' = ErrWrap ''asr: build connect URL: '' e in Some (s\<lparr>as_push := PushFail e' e'\<rparr>) | _ \<Rightarrow> None)"
| "push_step maxAttempts keepAlive s (EvDial r) =
     (case as_push s of
        PushDial again \<Rightarrow>
          (case r of
             Some e \<Rightarrow> let e' = ErrWrap ''asr: connect: '' e
                       in Some (s\<lparr>as_attempts := as_attempts s + 1, as_push := PushFail e' e'\<rparr>)
           | None \<Rightarrow> if as_cancelled s then None
                     else Some (s\<lparr>as_dials := as_dials s + 1, as_open := (as_dials s + 1) # as_open s,
                                  as_push := PushAttach again (as_dials s + 1)\<rparr>))
      | _ \<Rightarrow> None)"
| "push_step maxAttempts keepAlive s EvAttach =
     (case as_push s of
        PushAttach again c \<Rightarrow> let s1 = attach c s in Some (s1\<lparr>as_push := PushSpawn again c (as_gen s1)\<rparr>) | _ \<Rightarrow> None)"
| "push_step maxAttempts keepAlive s EvSpawn =
     (case as_push s of
        PushSpawn again c g \<Rightarrow>
          Some (s\<lparr>as_workers := as_workers s @ Reader c g ReaderRead # (if keepAlive then [KeepAlive c g] else []),
                  as_push := PushWrite again\<rparr>)
      | _ \<Rightarrow> None)"
| "push_step maxAttempts keepAlive s (EvWrite r) =
     (case as_push s of
        PushWrite again \<Rightarrow>
          (case r of
             None \<Rightarrow> (case as_conn s of
                        Some c \<Rightarrow> if c \<in> set (as_open s)
                                  then Some (push_return None (s\<lparr>as_totalMS := as_totalMS s + as_frameMS s\<rparr>)) else None
                      | None \<Rightarrow> None)
           | Some e \<Rightarrow> Some (s\<lparr>as_push := (if again then PushFail e (ErrWrap ''asr: write audio after reconnect: '' e)
                                           else PushEnsure True)\<rparr>))
      | _ \<Rightarrow> None)"
| "push_step maxAttempts keepAlive s EvFail =
     (case as_push s of
        PushFail e r \<Rightarrow> (case begin_close (Some e) s of
                           (True, s1) \<Rightarrow> Some (s1\<lparr>as_push := PushFailing r\<rparr>)
                         | (False, s1) \<Rightarrow> Some (push_return (Some r) s1))
      | _ \<Rightarrow> None)"
| "push_step maxAttempts keepAlive s EvFailReturn =
     (case as_push s of
        PushFailing r \<Rightarrow> if fail_returned (as_teardown s) then Some (push_return (Some r) s) else None
      | _ \<Rightarrow> None)"
| "push_step maxAttempts keepAlive s _ = None"

text \<open>\<open>Close\<close>, and the teardown that it or a failure has started.\<close>

definition teardown_step :: "asr_session \<Rightarrow> asr_session option" where
  "teardown_step s =
     (case as_teardown s of
        TdSettle err c \<Rightarrow> Some ((settleBreaker err s)\<lparr>as_teardown := TdDisconnect c\<rparr>)
      | TdDisconnect c \<Rightarrow> Some (s\<lparr>as_open := (case c of None \<Rightarrow> as_open s | Some i \<Rightarrow> removeAll i (as_open s)), as_teardown := TdCancel\<rparr>)
      | TdCancel \<Rightarrow> Some (s\<lparr>as_cancelled := True, as_teardown := TdWaitWorkers\<rparr>)
      | TdWaitWorkers \<Rightarrow> if as_workers s = [] then Some (s\<lparr>as_teardown := TdWaitSends\<rparr>) else None
      | TdWaitSends \<Rightarrow> if list_ex sending (as_workers s) then None else Some (s\<lparr>as_teardown := TdCloseOut\<rparr>)
      | TdCloseOut \<Rightarrow> Some (s\<lparr>as_outClosed := as_outClosed s + 1, as_teardown := TdFinished\<rparr>)
      | _ \<Rightarrow> None)"

text \<open>The reader \<open>k\<close>.\<close>

definition reader_of :: "nat \<Rightarrow> asr_session \<Rightarrow> (nat \<times> nat \<times> reader_pc) option" where
  "reader_of k s = (if k < length (as_workers s) then (case as_workers s ! k of Reader c g pc \<Rightarrow> Some (c, g, pc) | KeepAlive c g \<Rightarrow> None) else None)"

fun reader_step :: "asr_session \<Rightarrow> asr_event \<Rightarrow> asr_session option" where
  "reader_step s (EvRead k m) =
     (case reader_of k s of
        Some (c, g, ReaderRead) \<Rightarrow>
          if c \<notin> set (as_open s) then None
          else Some (case m of MsgIgnore \<Rightarrow> s | MsgFatal e \<Rightarrow> put_worker k (ReaderFail e) s
                     | MsgTranscript f \<Rightarrow> put_worker k (ReaderHandle f) s)
      | _ \<Rightarrow> None)"
| "reader_step s (EvReadError k) =
     (case reader_of k s of Some (c, g, ReaderRead) \<Rightarrow> Some (drop_worker k (onConnLost g s)) | _ \<Rightarrow> None)"
| "reader_step s (EvHandle k) =
     (case reader_of k s of
        Some (c, g, ReaderHandle f) \<Rightarrow>
          Some (if as_closed s \<or> g \<noteq> as_gen s then put_worker k ReaderRead s else put_worker k (ReaderSend (f (as_totalMS s))) s)
      | _ \<Rightarrow> None)"
| "reader_step s (EvSend k) =
     (case reader_of k s of
        Some (c, g, ReaderSend t) \<Rightarrow>
          Some (put_worker k ReaderRead (if as_outClosed s > 0 then s\<lparr>as_panic := True\<rparr> else s\<lparr>as_out := as_out s @ [t]\<rparr>))
      | _ \<Rightarrow> None)"
| "reader_step s (EvSendDropped k) =
     (case reader_of k s of
        Some (c, g, ReaderSend t) \<Rightarrow> if as_cancelled s then Some (put_worker k ReaderRead s) else None | _ \<Rightarrow> None)"
| "reader_step s (EvReaderFail k) =
     (case reader_of k s of
        Some (c, g, ReaderFail e) \<Rightarrow>
          (case begin_close (Some e) s of (True, s1) \<Rightarrow> Some (put_worker k ReaderFailing s1) | (False, s1) \<Rightarrow> Some (put_worker k ReaderRead s1))
      | _ \<Rightarrow> None)"
| "reader_step s (EvReaderBack k) =
     (case reader_of k s of
        Some (c, g, ReaderFailing) \<Rightarrow> if fail_returned (as_teardown s) then Some (put_worker k ReaderRead s) else None | _ \<Rightarrow> None)"
| "reader_step s (EvKeepAliveEnd k) =
     (if k < length (as_workers s)
      then (case as_workers s ! k of KeepAlive c g \<Rightarrow> Some (drop_worker k s) | _ \<Rightarrow> None) else None)"
| "reader_step s _ = None"

definition asr_step :: "int \<Rightarrow> bool \<Rightarrow> asr_session \<Rightarrow> asr_event \<Rightarrow> asr_session option" where
  "asr_step maxAttempts keepAlive s ev =
     (case ev of
        EvClose \<Rightarrow> Some (snd (begin_close None s))
      | EvTeardown \<Rightarrow> teardown_step s
      | _ \<Rightarrow> (case push_step maxAttempts keepAlive s ev of Some s' \<Rightarrow> Some s' | None \<Rightarrow> reader_step s ev))"

fun asr_run :: "int \<Rightarrow> bool \<Rightarrow> asr_session \<Rightarrow> asr_event list \<Rightarrow> asr_session option" where
  "asr_run m ka s [] = Some s"
| "asr_run m ka s (ev # evs) = (case asr_step m ka s ev of None \<Rightarrow> None | Some s' \<Rightarrow> asr_run m ka s' evs)"

subsection \<open>Invariants\<close>

text \<open>The marks say what the session has reported; the teardown says how far a closed session is.\<close>

definition marks_ok :: "asr_session \<Rightarrow> bool" where
  "marks_ok s \<longleftrightarrow>
     (if as_connectedOnce s then as_settled s \<and> as_marks s = [MarkSuccess]
      else if as_settled s then as_marks s = [MarkFailure] \<or> as_marks s = [MarkAbort] else as_marks s = [])"

fun past_settle :: "teardown \<Rightarrow> bool" where
  "past_settle TdNone = False"
| "past_settle (TdSettle e c) = False"
| "past_settle t = True"

definition teardown_ok :: "asr_session \<Rightarrow> bool" where
  "teardown_ok s \<longleftrightarrow>
     (as_closed s \<longleftrightarrow> as_teardown s \<noteq> TdNone) \<and> (past_settle (as_teardown s) \<longrightarrow> as_settled s)
     \<and> as_outClosed s = (if as_teardown s = TdFinished then 1 else 0)
     \<and> (as_teardown s = TdCloseOut \<or> as_teardown s = TdFinished \<longrightarrow> \<not> list_ex sending (as_workers s))
     \<and> \<not> as_panic s"

definition attempts_ok :: "asr_session \<Rightarrow> bool" where
  "attempts_ok s \<longleftrightarrow>
     (as_attempts s = 0 \<or> as_attempts s = 1 \<and> (as_closed s \<or> (\<exists>e r. as_push s = PushFail e r)))
     \<and> (\<forall>b. as_push s \<noteq> PushWait b) \<and> (\<forall>b. as_push s = PushDial b \<longrightarrow> as_attempts s = 0)"

definition asr_inv :: "asr_session \<Rightarrow> bool" where
  "asr_inv s \<longleftrightarrow> marks_ok s \<and> teardown_ok s \<and> attempts_ok s"

lemmas asr_inv_defs = asr_inv_def marks_ok_def teardown_ok_def attempts_ok_def

lemma asr_inv_new: "asr_inv new_session"
  by (simp add: asr_inv_defs new_session_def)

text \<open>The fields each part does not look at.\<close>

lemma marks_frame [simp]:
  "marks_ok (s\<lparr>as_push := p\<rparr>) = marks_ok s" "marks_ok (s\<lparr>as_results := rs\<rparr>) = marks_ok s" "marks_ok (s\<lparr>as_frameMS := i\<rparr>) = marks_ok s"
  "marks_ok (s\<lparr>as_attempts := i\<rparr>) = marks_ok s" "marks_ok (s\<lparr>as_dials := n\<rparr>) = marks_ok s" "marks_ok (s\<lparr>as_open := os\<rparr>) = marks_ok s"
  "marks_ok (s\<lparr>as_workers := ws\<rparr>) = marks_ok s" "marks_ok (s\<lparr>as_totalMS := i\<rparr>) = marks_ok s" "marks_ok (s\<lparr>as_conn := c\<rparr>) = marks_ok s"
  "marks_ok (s\<lparr>as_closed := b\<rparr>) = marks_ok s" "marks_ok (s\<lparr>as_fatal := f\<rparr>) = marks_ok s" "marks_ok (s\<lparr>as_teardown := t\<rparr>) = marks_ok s"
  "marks_ok (s\<lparr>as_cancelled := b\<rparr>) = marks_ok s" "marks_ok (s\<lparr>as_out := ts\<rparr>) = marks_ok s" "marks_ok (s\<lparr>as_panic := b\<rparr>) = marks_ok s"
  "marks_ok (s\<lparr>as_outClosed := n\<rparr>) = marks_ok s" "marks_ok (s\<lparr>as_gen := n\<rparr>) = marks_ok s"
  by (simp_all add: marks_ok_def)

lemma teardown_frame [simp]:
  "teardown_ok (s\<lparr>as_push := p\<rparr>) = teardown_ok s" "teardown_ok (s\<lparr>as_results := rs\<rparr>) = teardown_ok s" "teardown_ok (s\<lparr>as_frameMS := i\<rparr>) = teardown_ok s"
  "teardown_ok (s\<lparr>as_attempts := i\<rparr>) = teardown_ok s" "teardown_ok (s\<lparr>as_dials := n\<rparr>) = teardown_ok s" "teardown_ok (s\<lparr>as_open := os\<rparr>) = teardown_ok s"
  "teardown_ok (s\<lparr>as_totalMS := i\<rparr>) = teardown_ok s" "teardown_ok (s\<lparr>as_conn := c\<rparr>) = teardown_ok s" "teardown_ok (s\<lparr>as_fatal := f\<rparr>) = teardown_ok s"
  "teardown_ok (s\<lparr>as_cancelled := b\<rparr>) = teardown_ok s" "teardown_ok (s\<lparr>as_out := ts\<rparr>) = teardown_ok s" "teardown_ok (s\<lparr>as_gen := n\<rparr>) = teardown_ok s"
  "teardown_ok (s\<lparr>as_marks := ms\<rparr>) = teardown_ok s" "teardown_ok (s\<lparr>as_connectedOnce := b\<rparr>) = teardown_ok s"
  by (simp_all add: teardown_ok_def)

lemma attempts_frame [simp]:
  "attempts_ok (s\<lparr>as_workers := ws\<rparr>) = attempts_ok s" "attempts_ok (s\<lparr>as_conn := c\<rparr>) = attempts_ok s" "attempts_ok (s\<lparr>as_out := ts\<rparr>) = attempts_ok s"
  "attempts_ok (s\<lparr>as_panic := b\<rparr>) = attempts_ok s" "attempts_ok (s\<lparr>as_teardown := t\<rparr>) = attempts_ok s" "attempts_ok (s\<lparr>as_cancelled := b\<rparr>) = attempts_ok s"
  "attempts_ok (s\<lparr>as_open := os\<rparr>) = attempts_ok s" "attempts_ok (s\<lparr>as_outClosed := n\<rparr>) = attempts_ok s" "attempts_ok (s\<lparr>as_settled := b\<rparr>) = attempts_ok s"
  "attempts_ok (s\<lparr>as_marks := ms\<rparr>) = attempts_ok s" "attempts_ok (s\<lparr>as_fatal := f\<rparr>) = attempts_ok s"
  by (simp_all add: attempts_ok_def)

text \<open>The locked sections.\<close>

lemma begin_close_marks [simp]: "marks_ok (snd (begin_close e s)) = marks_ok s"
  by (simp add: begin_close_def)

lemma begin_close_teardown: "teardown_ok s \<Longrightarrow> teardown_ok (snd (begin_close e s))"
  by (simp add: begin_close_def teardown_ok_def)

lemma begin_close_attempts: "attempts_ok s \<Longrightarrow> attempts_ok (snd (begin_close e s))"
  by (auto simp: begin_close_def attempts_ok_def)

lemma begin_close_closed: "as_closed (snd (begin_close e s))"
  by (simp add: begin_close_def)

lemma attach_parts: "marks_ok s \<Longrightarrow> marks_ok (attach c s)" "teardown_ok s \<Longrightarrow> teardown_ok (attach c s)"
  "as_attempts (attach c s) = as_attempts s" "as_closed (attach c s) = as_closed s"
  by (simp_all add: attach_def Let_def marks_ok_def teardown_ok_def split: if_splits)

lemma settle_parts: "marks_ok s \<Longrightarrow> marks_ok (settleBreaker e s) \<and> as_settled (settleBreaker e s)"
  "attempts_ok (settleBreaker e s) = attempts_ok s" "as_teardown (settleBreaker e s) = as_teardown s"
  "as_closed (settleBreaker e s) = as_closed s" "as_outClosed (settleBreaker e s) = as_outClosed s"
  "as_workers (settleBreaker e s) = as_workers s" "as_panic (settleBreaker e s) = as_panic s"
  by (auto simp: settleBreaker_def Let_def marks_ok_def split: option.split)

lemma list_ex_update: "list_ex P (xs[k := x]) \<Longrightarrow> list_ex P xs \<or> P x"
  by (auto simp: list_ex_iff dest: set_update_subset_insert [THEN subsetD])

lemma list_ex_dropped: "list_ex P (take k xs @ drop (k + 1) xs) \<Longrightarrow> list_ex P xs"
  by (auto simp: list_ex_iff dest: in_set_takeD in_set_dropD)

text \<open>The writer.\<close>

lemma push_step_marks: "push_step m ka s ev = Some s' \<Longrightarrow> marks_ok s \<Longrightarrow> marks_ok s'"
  by (induction m ka s ev rule: push_step.induct)
    (auto simp: push_return_def Let_def attach_parts begin_close_def split: if_splits push_pc.splits option.splits)

lemma push_step_teardown: "push_step m ka s ev = Some s' \<Longrightarrow> teardown_ok s \<Longrightarrow> teardown_ok s'"
  by (induction m ka s ev rule: push_step.induct)
    (auto simp: push_return_def Let_def attach_parts begin_close_def teardown_ok_def [of "_\<lparr>as_workers := _\<rparr>"]
        teardown_ok_def [of "_\<lparr>as_closed := _\<rparr>"] split: if_splits push_pc.splits option.splits, auto simp: teardown_ok_def)

lemma push_step_attempts: "push_step m ka s ev = Some s' \<Longrightarrow> attempts_ok s \<Longrightarrow> attempts_ok s'"
  by (induction m ka s ev rule: push_step.induct)
    (auto simp: push_return_def Let_def attach_parts begin_close_def attempts_ok_def ensure_start_def split: if_splits push_pc.splits option.splits)

text \<open>The teardown.\<close>

lemma teardown_step_inv:
  assumes "asr_inv s" "teardown_step s = Some s'"
  shows "asr_inv s'"
proof -
  have inv: "marks_ok s" "teardown_ok s" "attempts_ok s" using assms(1) by (simp_all add: asr_inv_def)
  show ?thesis
  proof (cases "as_teardown s")
    case (TdSettle e c)
    let ?s = "settleBreaker e s"
    have s': "s' = ?s\<lparr>as_teardown := TdDisconnect c\<rparr>" using assms(2) TdSettle by (simp add: teardown_step_def)
    then show ?thesis using inv TdSettle settle_parts [where e = e and s = s] by (simp add: asr_inv_def teardown_ok_def)
  next
    case TdWaitSends
    then have "\<not> list_ex sending (as_workers s)" "s' = s\<lparr>as_teardown := TdCloseOut\<rparr>"
      using assms(2) by (auto simp: teardown_step_def split: if_splits)
    then show ?thesis using inv TdWaitSends by (simp add: asr_inv_def teardown_ok_def)
  qed (use assms(2) inv in \<open>auto simp: teardown_step_def asr_inv_def teardown_ok_def split: if_splits\<close>)
qed

text \<open>The readers.\<close>

lemma put_worker_teardown:
  assumes "teardown_ok s" "sending (set_reader pc (as_workers s ! k)) \<Longrightarrow> \<not> as_closed s"
  shows "teardown_ok (put_worker k pc s)"
proof -
  have "\<not> list_ex sending (as_workers (put_worker k pc s))" if "as_teardown s = TdCloseOut \<or> as_teardown s = TdFinished"
  proof
    assume "list_ex sending (as_workers (put_worker k pc s))"
    then have "list_ex sending (as_workers s) \<or> sending (set_reader pc (as_workers s ! k))"
      by (auto simp: put_worker_def dest: list_ex_update)
    then show False using assms that by (auto simp: teardown_ok_def)
  qed
  then show ?thesis using assms(1) by (simp add: teardown_ok_def put_worker_def)
qed

lemma drop_worker_teardown: "teardown_ok s \<Longrightarrow> teardown_ok (drop_worker k s)"
  using list_ex_dropped [of sending k "as_workers s"] by (auto simp: teardown_ok_def drop_worker_def)

lemma not_sending: "\<not> sending (set_reader pc w)" if "\<And>t. pc \<noteq> ReaderSend t"
  using that by (cases w; cases pc) auto

lemma put_quiet [simp]:
  assumes "teardown_ok s"
  shows "teardown_ok (put_worker k ReaderRead s)" "teardown_ok (put_worker k (ReaderHandle f) s)"
    "teardown_ok (put_worker k (ReaderFail e) s)" "teardown_ok (put_worker k ReaderFailing s)"
    "\<not> as_closed s \<Longrightarrow> teardown_ok (put_worker k (ReaderSend t) s)"
  by (rule put_worker_teardown [OF assms]; simp add: not_sending)+

lemma onConnLost_inv [simp]: "marks_ok (onConnLost g s) = marks_ok s" "teardown_ok (onConnLost g s) = teardown_ok s"
  "attempts_ok (onConnLost g s) = attempts_ok s"
  by (simp_all add: onConnLost_def)

lemma worker_frames [simp]:
  "marks_ok (put_worker k pc s) = marks_ok s" "attempts_ok (put_worker k pc s) = attempts_ok s"
  "marks_ok (drop_worker k s) = marks_ok s" "attempts_ok (drop_worker k s) = attempts_ok s"
  by (simp_all add: put_worker_def drop_worker_def)

lemma reader_sending: "reader_of k s = Some (c, g, ReaderSend t) \<Longrightarrow> list_ex sending (as_workers s)"
proof -
  assume "reader_of k s = Some (c, g, ReaderSend t)"
  then have "k < length (as_workers s)" "as_workers s ! k = Reader c g (ReaderSend t)"
    by (simp_all add: reader_of_def split: if_splits worker.splits)
  then show ?thesis by (auto simp: list_ex_length intro!: exI [of _ k])
qed

lemma reader_step_inv:
  assumes "asr_inv s" "reader_step s ev = Some s'"
  shows "asr_inv s'"
proof -
  have inv: "marks_ok s" "teardown_ok s" "attempts_ok s" using assms(1) by (simp_all add: asr_inv_def)
  have marks: "marks_ok s'" and attempts: "attempts_ok s'"
    using assms(2) inv begin_close_attempts [OF inv(3)]
    by (cases ev; auto simp: begin_close_def split: option.splits reader_pc.splits if_splits incoming.splits worker.splits prod.splits)+
  have "teardown_ok s'"
  proof (cases ev)
    case (EvSend k)
    then obtain c g t where r: "reader_of k s = Some (c, g, ReaderSend t)"
      and s': "s' = put_worker k ReaderRead (if as_outClosed s > 0 then s\<lparr>as_panic := True\<rparr> else s\<lparr>as_out := as_out s @ [t]\<rparr>)"
      using assms(2) by (auto split: option.splits reader_pc.splits)
    have "as_outClosed s = 0" using inv(2) reader_sending [OF r] by (auto simp: teardown_ok_def split: if_splits)
    then have s': "s' = put_worker k ReaderRead (s\<lparr>as_out := as_out s @ [t]\<rparr>)" using s' by simp
    show ?thesis unfolding s' using inv(2) by simp
  next
    case (EvReaderFail k)
    then obtain c g e where s': "s' = put_worker k (if as_closed s then ReaderRead else ReaderFailing) (snd (begin_close (Some e) s))"
      using assms(2) by (auto simp: begin_close_def split: option.splits reader_pc.splits if_splits)
    show ?thesis unfolding s' using begin_close_teardown [OF inv(2)] by simp
  qed (use assms(2) inv drop_worker_teardown in \<open>auto split: option.splits reader_pc.splits if_splits incoming.splits worker.splits\<close>)
  with marks attempts show ?thesis by (simp add: asr_inv_def)
qed

lemma asr_step_other:
  "ev \<noteq> EvClose \<Longrightarrow> ev \<noteq> EvTeardown \<Longrightarrow>
     asr_step m ka s ev = (case push_step m ka s ev of Some s' \<Rightarrow> Some s' | None \<Rightarrow> reader_step s ev)"
  by (induct ev) (simp_all add: asr_step_def)

lemma asr_step_inv:
  assumes "asr_inv s" "asr_step m ka s ev = Some s'"
  shows "asr_inv s'"
proof -
  have inv: "marks_ok s" "teardown_ok s" "attempts_ok s" using assms(1) by (simp_all add: asr_inv_def)
  show ?thesis
  proof (cases "ev = EvClose \<or> ev = EvTeardown")
    case True
    then show ?thesis
    proof
      assume "ev = EvClose"
      then have "s' = snd (begin_close None s)" using assms(2) by (simp add: asr_step_def)
      then show ?thesis using inv begin_close_teardown [OF inv(2)] begin_close_attempts [OF inv(3)] by (simp add: asr_inv_def)
    next
      assume "ev = EvTeardown"
      then show ?thesis using assms by (simp add: asr_step_def teardown_step_inv)
    qed
  next
    case False
    show ?thesis
    proof (cases "push_step m ka s ev")
      case None
      with False assms show ?thesis by (simp add: asr_step_other reader_step_inv)
    next
      case (Some s1)
      with False assms(2) have "push_step m ka s ev = Some s'" by (simp add: asr_step_other)
      then show ?thesis using inv push_step_marks push_step_teardown push_step_attempts by (auto simp: asr_inv_def)
    qed
  qed
qed

lemma asr_run_inv: "asr_inv s \<Longrightarrow> asr_run m ka s evs = Some s' \<Longrightarrow> asr_inv s'"
  by (induction m ka s evs rule: asr_run.induct) (auto split: option.splits dest: asr_step_inv)

subsection \<open>What every session does\<close>

text \<open>
  C9: A recognizer session ends cleanly and reports once. In every interleaving of the writer, the
  readers, any calls of \<open>Close\<close>, failures and the teardown, with any network: nothing is ever sent on
  the closed channel, the channel is closed at most once, and the breaker gets at most one verdict:
  success if and only if the session attached a connection before it was settled; when the teardown
  is finished there is exactly one.
\<close>
theorem asr_session_reports_once:
  assumes "asr_run m ka new_session evs = Some s"
  shows "\<not> as_panic s \<and> as_outClosed s \<le> 1 \<and> length (as_marks s) \<le> 1
    \<and> (as_connectedOnce s \<longleftrightarrow> as_marks s = [MarkSuccess])
    \<and> (as_teardown s = TdFinished \<longrightarrow> length (as_marks s) = 1 \<and> as_outClosed s = 1 \<and> as_closed s)"
proof -
  have inv: "marks_ok s" "teardown_ok s" using asr_run_inv [OF asr_inv_new assms] by (simp_all add: asr_inv_def)
  have "as_teardown s = TdFinished \<Longrightarrow> as_settled s" using inv(2) by (simp add: teardown_ok_def)
  with inv show ?thesis by (auto simp: marks_ok_def teardown_ok_def split: if_splits)
qed

text \<open>A session that connects, gets a transcript and is closed.\<close>

definition normal_events :: "Transcript \<Rightarrow> asr_event list" where
  "normal_events t =
     [EvPush 20 False, EvCheck, EvEnsure, EvDial None, EvAttach, EvSpawn, EvWrite None,
      EvRead 0 (MsgTranscript (\<lambda>ms. t)), EvHandle 0, EvSend 0, EvClose, EvTeardown, EvTeardown, EvTeardown,
      EvReadError 0, EvKeepAliveEnd 0, EvTeardown, EvTeardown, EvTeardown]"

lemmas asr_eval = new_session_def asr_step_def push_return_def ensure_start_def attach_def begin_close_def settleBreaker_def
  teardown_step_def reader_of_def put_worker_def drop_worker_def onConnLost_def Let_def

theorem asr_session_reports_once_witness:
  "\<forall>t. \<exists>s. asr_run 3 True new_session (normal_events t) = Some s \<and> as_teardown s = TdFinished \<and> length (as_marks s) = 1 \<and> as_outClosed s = 1"
proof
  fix t
  obtain s where s: "asr_run 3 True new_session (normal_events t) = Some s" "as_teardown s = TdFinished"
    by (simp add: normal_events_def asr_eval)
  with asr_session_reports_once [OF s(1)]
  show "\<exists>s. asr_run 3 True new_session (normal_events t) = Some s \<and> as_teardown s = TdFinished \<and> length (as_marks s) = 1 \<and> as_outClosed s = 1"
    by blast
qed

text \<open>
  A failed dial or write ends the session; the reconnect budget is never used. Whatever the
  maximum of attempts, a reachable session has at most one failed dial, never waits for a backoff,
  and after a failed dial is closed or about to close itself; and when two writes in a row fail
  while no reader has noticed the loss, the session closes without dialling again.
\<close>
theorem asr_reconnect_budget_unused:
  assumes "asr_run m ka new_session evs = Some s"
  shows "0 \<le> as_attempts s \<and> as_attempts s \<le> 1 \<and> (\<forall>again. as_push s \<noteq> PushWait again)
    \<and> (as_attempts s = 1 \<longrightarrow> as_closed s \<or> (\<exists>e r. as_push s = PushFail e r))
    \<and> (as_push s = PushWrite False \<and> as_conn s \<noteq> None \<and> \<not> as_closed s \<longrightarrow>
         (\<exists>s'. asr_run m ka s [EvWrite (Some e), EvEnsure, EvWrite (Some e'), EvFail] = Some s' \<and> as_closed s' \<and> as_dials s' = as_dials s))"
  using asr_run_inv [OF asr_inv_new assms]
  by (auto simp: asr_inv_def attempts_ok_def asr_step_def ensure_start_def begin_close_def)

definition refused_events :: "asr_event list" where
  "refused_events = [EvPush 20 False, EvCheck, EvEnsure, EvDial (Some (ErrNew ''refused'')), EvFail]"

theorem asr_reconnect_budget_unused_witness:
  "\<exists>s. asr_run 3 True new_session refused_events = Some s \<and> as_attempts s = 1 \<and> as_closed s \<and> as_dials s = 0"
proof -
  obtain s where s: "asr_run 3 True new_session refused_events = Some s" "as_attempts s = 1" "as_push s = PushFailing (ErrWrap ''asr: connect: '' (ErrNew ''refused''))"
    "as_dials s = 0"
    by (simp add: refused_events_def asr_eval)
  with asr_reconnect_budget_unused [OF s(1)] show ?thesis by auto
qed

subsection \<open>After Close\<close>

text \<open>What has been delivered or is being sent.\<close>

definition in_flight :: "worker list \<Rightarrow> Transcript set" where
  "in_flight ws = {t. \<exists>c g. Reader c g (ReaderSend t) \<in> set ws}"

definition delivered :: "asr_session \<Rightarrow> Transcript set" where
  "delivered s = set (as_out s) \<union> in_flight (as_workers s)"

lemma in_flight_update: "in_flight (ws[k := set_reader pc w]) \<subseteq> in_flight ws \<union> {t. pc = ReaderSend t}"
  by (cases w) (auto simp: in_flight_def dest!: set_update_subset_insert [THEN subsetD])

lemma in_flight_append [simp]: "in_flight (ws @ [w]) = in_flight ws \<union> in_flight [w]" "in_flight (ws @ [w, v]) = in_flight ws \<union> in_flight [w, v]"
  by (auto simp: in_flight_def)

lemma in_flight_spawn [simp]: "in_flight [Reader c g ReaderRead] = {}" "in_flight [Reader c g ReaderRead, KeepAlive c g] = {}"
  by (auto simp: in_flight_def)

lemma push_step_delivered:
  "push_step m ka s ev = Some s' \<Longrightarrow> (as_closed s \<longrightarrow> as_closed s') \<and> delivered s' = delivered s"
  by (induction m ka s ev rule: push_step.induct)
    (auto simp: push_return_def attach_def begin_close_def Let_def delivered_def split: if_splits push_pc.splits option.splits)

lemma teardown_step_delivered:
  "teardown_step s = Some s' \<Longrightarrow> as_closed s' = as_closed s \<and> delivered s' = delivered s"
  by (auto simp: teardown_step_def settleBreaker_def Let_def delivered_def split: teardown.splits if_splits option.splits)

lemma put_delivered:
  "delivered (put_worker k pc s) \<subseteq> delivered s \<union> {t. pc = ReaderSend t}" "as_closed (put_worker k pc s) = as_closed s"
  using in_flight_update by (fastforce simp: delivered_def put_worker_def)+

lemma drop_delivered: "delivered (drop_worker k s) \<subseteq> delivered s" "as_closed (drop_worker k s) = as_closed s"
  by (auto simp: delivered_def in_flight_def drop_worker_def dest: in_set_takeD in_set_dropD)

lemma quiet_delivered:
  "t \<in> delivered (put_worker k ReaderRead s) \<Longrightarrow> t \<in> delivered s" "t \<in> delivered (put_worker k (ReaderHandle f) s) \<Longrightarrow> t \<in> delivered s"
  "t \<in> delivered (put_worker k (ReaderFail e) s) \<Longrightarrow> t \<in> delivered s" "t \<in> delivered (put_worker k ReaderFailing s) \<Longrightarrow> t \<in> delivered s"
  "t \<in> delivered (drop_worker k s) \<Longrightarrow> t \<in> delivered s"
  using put_delivered(1) drop_delivered(1) by fastforce+

lemma lost_delivered [simp]: "delivered (onConnLost g s) = delivered s" "as_closed (onConnLost g s) = as_closed s"
  by (simp_all add: onConnLost_def delivered_def)

lemma sending_delivered: "reader_of k s = Some (c, g, ReaderSend t) \<Longrightarrow> t \<in> delivered s"
proof -
  assume "reader_of k s = Some (c, g, ReaderSend t)"
  then have "k < length (as_workers s)" "as_workers s ! k = Reader c g (ReaderSend t)"
    by (simp_all add: reader_of_def split: if_splits worker.splits)
  then have "Reader c g (ReaderSend t) \<in> set (as_workers s)" by (metis nth_mem)
  then show ?thesis by (auto simp: delivered_def in_flight_def)
qed

lemma reader_step_delivered:
  assumes "reader_step s ev = Some s'" "as_closed s"
  shows "as_closed s' \<and> delivered s' \<subseteq> delivered s"
proof (cases ev)
  case (EvSend k)
  then obtain c g t where r: "reader_of k s = Some (c, g, ReaderSend t)"
    and s': "s' = put_worker k ReaderRead (if as_outClosed s > 0 then s\<lparr>as_panic := True\<rparr> else s\<lparr>as_out := as_out s @ [t]\<rparr>)"
    using assms(1) by (auto split: option.splits reader_pc.splits)
  let ?s = "if as_outClosed s > 0 then s\<lparr>as_panic := True\<rparr> else s\<lparr>as_out := as_out s @ [t]\<rparr>"
  have "delivered ?s \<subseteq> delivered s" "as_closed ?s" using sending_delivered [OF r] assms(2) by (auto simp: delivered_def)
  then show ?thesis using s' put_delivered [of k ReaderRead ?s] by auto
qed (use assms in
  \<open>auto simp: begin_close_def put_delivered(2) drop_delivered(2) split: option.splits reader_pc.splits if_splits incoming.splits worker.splits
     dest: quiet_delivered dest!: quiet_delivered(5)\<close>)

lemma asr_step_delivered:
  assumes "as_closed s" "asr_step m ka s ev = Some s'"
  shows "as_closed s' \<and> delivered s' \<subseteq> delivered s"
proof (cases "ev = EvClose \<or> ev = EvTeardown")
  case True
  then show ?thesis
  proof
    assume "ev = EvClose"
    with assms show ?thesis by (simp add: asr_step_def begin_close_def)
  next
    assume "ev = EvTeardown"
    with assms have "teardown_step s = Some s'" by (simp add: asr_step_def)
    with assms(1) show ?thesis using teardown_step_delivered by blast
  qed
next
  case False
  show ?thesis
  proof (cases "push_step m ka s ev")
    case None
    with False assms have "reader_step s ev = Some s'" by (simp add: asr_step_other)
    then show ?thesis using assms(1) by (rule reader_step_delivered)
  next
    case (Some s1)
    with False assms have "push_step m ka s ev = Some s'" by (simp add: asr_step_other)
    with assms(1) show ?thesis using push_step_delivered by blast
  qed
qed

lemma asr_run_delivered: "as_closed s \<Longrightarrow> asr_run m ka s evs = Some s' \<Longrightarrow> as_closed s' \<and> delivered s' \<subseteq> delivered s"
proof (induction evs arbitrary: s)
  case (Cons ev evs)
  obtain s1 where s1: "asr_step m ka s ev = Some s1" "asr_run m ka s1 evs = Some s'"
    using Cons.prems(2) by (cases "asr_step m ka s ev") simp_all
  note step = asr_step_delivered [OF Cons.prems(1) s1(1)]
  then have "as_closed s' \<and> delivered s' \<subseteq> delivered s1" using s1(2) by (intro Cons.IH) simp
  with step show ?case by blast
qed simp

text \<open>
  Results that the vendor flushes at the end are lost. Once \<open>Close\<close> (or a failure) has marked the
  session closed, every transcript that comes out afterwards was already being sent then: whatever
  the vendor answers to the flush request that \<open>Close\<close> sends, no run delivers it.
\<close>
theorem asr_close_drops_flushed_results:
  assumes "asr_run m ka new_session evs = Some s" "asr_run m ka (snd (begin_close err s)) evs' = Some s'"
    and "t \<in> set (as_out s')"
  shows "t \<in> set (as_out s) \<or> (\<exists>c g. Reader c g (ReaderSend t) \<in> set (as_workers s))"
proof -
  have "delivered s' \<subseteq> delivered (snd (begin_close err s))"
    using asr_run_delivered [OF begin_close_closed assms(2)] by blast
  moreover have "delivered (snd (begin_close err s)) = delivered s" by (simp add: begin_close_def delivered_def)
  ultimately show ?thesis using assms(3) by (auto simp: delivered_def in_flight_def)
qed

theorem asr_close_drops_flushed_results_witness:
  "\<forall>t. \<exists>s s'. asr_run 3 True new_session [EvPush 20 False, EvCheck, EvEnsure, EvDial None, EvAttach, EvSpawn, EvWrite None] = Some s
     \<and> asr_run 3 True (snd (begin_close None s)) [EvTeardown, EvRead 0 (MsgTranscript (\<lambda>ms. t)), EvHandle 0] = Some s'
     \<and> t \<notin> set (as_out s')"
proof
  fix t
  obtain s where s: "asr_run 3 True new_session [EvPush 20 False, EvCheck, EvEnsure, EvDial None, EvAttach, EvSpawn, EvWrite None] = Some s"
    "as_workers s = [Reader 1 1 ReaderRead, KeepAlive 1 1]" "as_out s = []" "as_open s = [1]" "\<not> as_closed s" "as_settled s" "as_conn s = Some 1"
    by (simp add: asr_eval)
  obtain s' where s': "asr_run 3 True (snd (begin_close None s)) [EvTeardown, EvRead 0 (MsgTranscript (\<lambda>ms. t)), EvHandle 0] = Some s'"
    using s(2-) by (simp add: asr_eval)
  have "t \<notin> set (as_out s')" using asr_close_drops_flushed_results [OF s(1) s', of t] s(2,3) by auto
  with s(1) s' show "\<exists>s s'. asr_run 3 True new_session [EvPush 20 False, EvCheck, EvEnsure, EvDial None, EvAttach, EvSpawn, EvWrite None] = Some s
     \<and> asr_run 3 True (snd (begin_close None s)) [EvTeardown, EvRead 0 (MsgTranscript (\<lambda>ms. t)), EvHandle 0] = Some s'
     \<and> t \<notin> set (as_out s')"
    by blast
qed

subsection \<open>A connection that Close does not see\<close>

text \<open>Past this point the teardown closes no connection any more.\<close>

fun past_disconnect :: "teardown \<Rightarrow> bool" where
  "past_disconnect TdNone = False"
| "past_disconnect (TdSettle e c) = False"
| "past_disconnect (TdDisconnect c) = False"
| "past_disconnect t = True"

definition keeps_open :: "asr_session \<Rightarrow> asr_session \<Rightarrow> bool" where
  "keeps_open s s' \<longleftrightarrow> past_disconnect (as_teardown s') \<and> as_closed s' \<and> set (as_open s) \<subseteq> set (as_open s')"

lemma push_step_open:
  assumes "push_step m ka s ev = Some s'" "past_disconnect (as_teardown s)" "as_closed s"
  shows "keeps_open s s'"
  using assms
  by (induction m ka s ev rule: push_step.induct)
    (auto simp: push_return_def attach_def begin_close_def Let_def keeps_open_def split: if_splits push_pc.splits option.splits)

lemma teardown_step_open: "teardown_step s = Some s' \<Longrightarrow> past_disconnect (as_teardown s) \<Longrightarrow> as_closed s \<Longrightarrow> keeps_open s s'"
  by (auto simp: teardown_step_def keeps_open_def split: teardown.splits if_splits)

lemma worker_fields [simp]:
  "as_open (put_worker k pc s) = as_open s" "as_teardown (put_worker k pc s) = as_teardown s" "as_closed (put_worker k pc s) = as_closed s"
  "as_open (drop_worker k s) = as_open s" "as_teardown (drop_worker k s) = as_teardown s" "as_closed (drop_worker k s) = as_closed s"
  "as_open (onConnLost g s) = as_open s" "as_teardown (onConnLost g s) = as_teardown s"
  by (simp_all add: put_worker_def drop_worker_def onConnLost_def)

lemma reader_step_open:
  assumes "reader_step s ev = Some s'" "past_disconnect (as_teardown s)" "as_closed s"
  shows "keeps_open s s'"
  using assms
  by (cases ev)
    (auto simp: keeps_open_def begin_close_def split: option.splits reader_pc.splits if_splits incoming.splits worker.splits)

lemma asr_step_open:
  assumes "asr_step m ka s ev = Some s'" "past_disconnect (as_teardown s)" "as_closed s"
  shows "keeps_open s s'"
proof (cases "ev = EvClose \<or> ev = EvTeardown")
  case True
  then show ?thesis
  proof
    assume "ev = EvClose"
    with assms show ?thesis by (simp add: asr_step_def begin_close_def keeps_open_def)
  next
    assume "ev = EvTeardown"
    with assms have "teardown_step s = Some s'" by (simp add: asr_step_def)
    then show ?thesis using assms(2,3) by (rule teardown_step_open)
  qed
next
  case False
  show ?thesis
  proof (cases "push_step m ka s ev")
    case None
    with False assms have "reader_step s ev = Some s'" by (simp add: asr_step_other)
    then show ?thesis using assms(2,3) by (rule reader_step_open)
  next
    case (Some s1)
    with False assms have "push_step m ka s ev = Some s'" by (simp add: asr_step_other)
    then show ?thesis using assms(2,3) by (rule push_step_open)
  qed
qed

lemma asr_run_open:
  "asr_run m ka s evs = Some s' \<Longrightarrow> past_disconnect (as_teardown s) \<Longrightarrow> as_closed s \<Longrightarrow> set (as_open s) \<subseteq> set (as_open s')"
proof (induction evs arbitrary: s)
  case (Cons ev evs)
  obtain s1 where s1: "asr_step m ka s ev = Some s1" "asr_run m ka s1 evs = Some s'"
    using Cons.prems(1) by (cases "asr_step m ka s ev") simp_all
  have "keeps_open s s1" using s1(1) Cons.prems(2,3) by (rule asr_step_open)
  then show ?case using Cons.IH [OF s1(2)] by (auto simp: keeps_open_def)
qed simp

definition close_race_events :: "asr_event list" where
  "close_race_events = [EvPush 20 False, EvCheck, EvEnsure, EvDial None, EvClose, EvTeardown, EvTeardown, EvTeardown,
     EvAttach, EvSpawn, EvWrite None]"

text \<open>
  A \<open>Close\<close> between a dial and its attachment leaks the connection. There is a run in which
  \<open>Close\<close> comes after the first dial has succeeded and before \<open>ensureConnected\<close> takes the lock again:
  \<open>PushAudio\<close> then attaches the connection to the closed session and returns nil, the breaker has got
  an abort although the vendor was reached, \<open>Close\<close> waits for the reader of that connection, and in no
  continuation does the session ever close it.
\<close>
theorem asr_close_race_leaks:
  "\<exists>s. asr_run 3 True new_session close_race_events = Some s \<and> as_closed s \<and> as_results s = [None] \<and> as_marks s = [MarkAbort]
     \<and> as_teardown s = TdWaitWorkers \<and> teardown_step s = None \<and> reader_of 0 s = Some (1, 1, ReaderRead)
     \<and> {s'. \<exists>evs. asr_run 3 True s evs = Some s'} \<subseteq> {s'. 1 \<in> set (as_open s')}"
proof -
  obtain s where s: "asr_run 3 True new_session close_race_events = Some s" "as_closed s" "as_results s = [None]" "as_marks s = [MarkAbort]"
    "as_teardown s = TdWaitWorkers" "teardown_step s = None" "reader_of 0 s = Some (1, 1, ReaderRead)" "as_open s = [1]"
    by (simp add: close_race_events_def asr_eval)
  have "1 \<in> set (as_open s')" if "asr_run 3 True s evs = Some s'" for s' evs
    using asr_run_open [OF that] s(2,5,8) by simp
  with s show ?thesis by blast
qed

end
