(* ===== verification/AsrVendors.thy ===== *)
theory AsrVendors
  imports AsrSession Metrics
begin

section \<open>The hosted recognizers (pkg/asr/deepgram.go, sarvam.go)\<close>

text \<open>
  What the two vendors put around the session of theory \<open>AsrSession\<close>: options, \<open>StartStream\<close> with
  its breaker gate, connect parameters, the audio they send, what they make of a message, and cost.
  JSON decoding, base64 and the URL parser are arguments; query parameters are an association list
  (\<open>q.Set\<close> is \<open>al_put\<close>).
\<close>

subsection \<open>Shared pieces\<close>

text \<open>Go's conversion of a float to an integer truncates towards zero.\<close>

definition go_int64 :: "float64 \<Rightarrow> int" where
  "go_int64 x = (if 0 \<le> x then \<lfloor>x\<rfloor> else \<lceil>x\<rceil>)"

lemma go_int64_mono: "x \<le> y \<Longrightarrow> go_int64 x \<le> go_int64 y"
proof -
  assume le: "x \<le> y"
  show ?thesis
  proof (cases "0 \<le> x")
    case True
    with le show ?thesis by (simp add: go_int64_def floor_mono)
  next
    case neg: False
    show ?thesis
    proof (cases "0 \<le> y")
      case True
      have "\<lceil>x\<rceil> \<le> 0" using neg by (simp add: ceiling_le_zero)
      also have "0 \<le> \<lfloor>y\<rfloor>" using True by simp
      finally show ?thesis using neg True by (simp add: go_int64_def)
    next
      case False
      with neg le show ?thesis by (simp add: go_int64_def ceiling_mono)
    qed
  qed
qed

text \<open>The session a successful \<open>StartStream\<close> gives: its language and what it connects with.\<close>

record stream_params =
  sp_lang :: language
  sp_model :: string
  sp_wire :: string

text \<open>\<open>StartStream\<close>'s breaker gate: the answer, the breaker after it and what the recorder gets.\<close>

definition start_gate ::
  "string \<Rightarrow> string \<Rightarrow> bool \<Rightarrow> instant \<Rightarrow> stream_params \<Rightarrow> circuitBreaker \<Rightarrow> stream_params result \<times> circuitBreaker \<times> rec_call list" where
  "start_gate prefix vendor metrics now params b =
     (let (ok, b1) = cb_allow b now
      in if \<not> ok then (Err (ErrWrap prefix (ErrCircuitOpen PkgASR)), b1,
                       if metrics then [CallError ''asr_connect'' vendor ''circuit_open''] else [])
         else (Ok params, b1, []))"

subsection \<open>Deepgram\<close>

record DeepgramRecognizer =
  dg_apiKey :: string
  dg_baseURL :: string
  dg_model :: string
  dg_hindiModel :: string
  dg_maxReconnectAttempts :: int
  dg_metrics :: bool
  dg_breaker :: circuitBreaker

datatype deepgram_option =
    DgBaseURL string | DgModel string | DgHindiModel string | DgMaxReconnectAttempts int | DgMetrics bool | DgCircuitBreaker int duration

fun deepgram_apply :: "DeepgramRecognizer \<Rightarrow> deepgram_option \<Rightarrow> DeepgramRecognizer" where
  "deepgram_apply r (DgBaseURL u) = r\<lparr>dg_baseURL := u\<rparr>"
| "deepgram_apply r (DgModel m) = r\<lparr>dg_model := m\<rparr>"
| "deepgram_apply r (DgHindiModel m) = r\<lparr>dg_hindiModel := m\<rparr>"
| "deepgram_apply r (DgMaxReconnectAttempts n) = r\<lparr>dg_maxReconnectAttempts := n\<rparr>"
| "deepgram_apply r (DgMetrics wired) = r\<lparr>dg_metrics := wired\<rparr>"
| "deepgram_apply r (DgCircuitBreaker th cd) = r\<lparr>dg_breaker := newCircuitBreaker th cd\<rparr>"

definition NewDeepgramRecognizer :: "string \<Rightarrow> deepgram_option list \<Rightarrow> DeepgramRecognizer result" where
  "NewDeepgramRecognizer envKey opts =
     (if envKey = [] then Err (ErrNew ''asr/deepgram: DEEPGRAM_API_KEY environment variable is not set'')
      else Ok (foldl deepgram_apply
         \<lparr>dg_apiKey = envKey, dg_baseURL = ''wss://api.deepgram.com/v1/listen'', dg_model = ''nova-2'', dg_hindiModel = ''nova-3'',
          dg_maxReconnectAttempts = 3, dg_metrics = False, dg_breaker = newCircuitBreaker 0 0\<rparr> opts))"

definition deepgram_StartStream ::
  "DeepgramRecognizer \<Rightarrow> instant \<Rightarrow> language \<Rightarrow> stream_params result \<times> circuitBreaker \<times> rec_call list" where
  "deepgram_StartStream r now languageHint =
     (let lang = (if languageHint = [] then ''en'' else languageHint)
      in if lang = ''en'' then start_gate ''asr/deepgram: '' ''deepgram'' (dg_metrics r) now
              \<lparr>sp_lang = lang, sp_model = dg_model r, sp_wire = ''en''\<rparr> (dg_breaker r)
         else if lang = ''hi'' then start_gate ''asr/deepgram: '' ''deepgram'' (dg_metrics r) now
              \<lparr>sp_lang = lang, sp_model = dg_hindiModel r, sp_wire = ''multi''\<rparr> (dg_breaker r)
         else (Err (ErrNew ''asr/deepgram: unsupported language''), dg_breaker r, []))"

definition dgCodeSwitchEndpointingMS :: string where "dgCodeSwitchEndpointingMS = ''100''"

definition deepgram_query :: "stream_params \<Rightarrow> int \<Rightarrow> (string \<times> string) list \<Rightarrow> (string \<times> string) list" where
  "deepgram_query p sampleRate q0 =
     (let q = foldl (\<lambda>q (k, v). al_put k v q) q0
         [(''encoding'', ''linear16''), (''sample_rate'', show_int sampleRate), (''channels'', ''1''), (''language'', sp_wire p),
          (''model'', sp_model p), (''interim_results'', ''true''), (''punctuate'', ''true''), (''vad_events'', ''true'')]
      in if sp_wire p = ''multi'' then al_put ''endpointing'' dgCodeSwitchEndpointingMS q else q)"

record dgAlternative =
  dga_Transcript :: string
  dga_Confidence :: float64

record dgResultsMessage =
  dgm_Type :: string
  dgm_IsFinal :: bool
  dgm_Start :: float64
  dgm_Duration :: float64
  dgm_Alternatives :: "dgAlternative list"

text \<open>
  \<open>handleMessage\<close> up to its lock: \<open>parseErr\<close> gives code and message of an error body, \<open>parseResults\<close>
  the results message. The transcript does not depend on the pushed audio.
\<close>

definition deepgram_results :: "(bytes \<Rightarrow> dgResultsMessage option) \<Rightarrow> language \<Rightarrow> bytes \<Rightarrow> incoming" where
  "deepgram_results parseResults lang data =
     (case parseResults data of
        None \<Rightarrow> MsgIgnore
      | Some msg \<Rightarrow>
          if dgm_Type msg \<noteq> ''Results'' then MsgIgnore
          else case dgm_Alternatives msg of
              [] \<Rightarrow> MsgIgnore
            | alt # alts \<Rightarrow>
                if dga_Transcript alt = [] then MsgIgnore
                else MsgTranscript (\<lambda>totalMS.
                  \<lparr>tr_Text = dga_Transcript alt, tr_Language = lang, tr_IsFinal = dgm_IsFinal msg, tr_Confidence = dga_Confidence alt,
                   tr_StartMS = go_int64 (dgm_Start msg * 1000), tr_EndMS = go_int64 ((dgm_Start msg + dgm_Duration msg) * 1000)\<rparr>))"

definition deepgram_message ::
  "(bytes \<Rightarrow> (string \<times> string) option) \<Rightarrow> (bytes \<Rightarrow> dgResultsMessage option) \<Rightarrow> language \<Rightarrow> bytes \<Rightarrow> incoming" where
  "deepgram_message parseErr parseResults lang data =
     (case parseErr data of
        Some (code, m) \<Rightarrow> if code \<noteq> [] then MsgFatal (ErrNew (''asr/deepgram: '' @ code @ '': '' @ m))
                          else deepgram_results parseResults lang data
      | None \<Rightarrow> deepgram_results parseResults lang data)"

definition deepgramCostPerMinuteUSD :: float64 where "deepgramCostPerMinuteUSD = 59 / 10000"
definition deepgramHindiCostPerMinuteUSD :: float64 where "deepgramHindiCostPerMinuteUSD = 58 / 10000"

definition deepgram_recordAudioCost :: "bool \<Rightarrow> string \<Rightarrow> AudioFrame \<Rightarrow> rec_call list" where
  "deepgram_recordAudioCost metrics wire frame =
     (if \<not> metrics \<or> af_SampleRate frame \<le> 0 then []
      else let rate = (if wire = ''multi'' then deepgramHindiCostPerMinuteUSD else deepgramCostPerMinuteUSD);
               minutes = real (length (af_PCM frame) div 2) / real_of_int (af_SampleRate frame) / 60
           in [CallCost ''deepgram'' (minutes * rate)])"

subsection \<open>Sarvam\<close>

record SarvamRecognizer =
  sv_apiKey :: string
  sv_baseURL :: string
  sv_model :: string
  sv_maxReconnectAttempts :: int
  sv_metrics :: bool
  sv_breaker :: circuitBreaker

datatype sarvam_option =
    SvBaseURL string | SvModel string | SvMaxReconnectAttempts int | SvMetrics bool | SvCircuitBreaker int duration

fun sarvam_apply :: "SarvamRecognizer \<Rightarrow> sarvam_option \<Rightarrow> SarvamRecognizer" where
  "sarvam_apply r (SvBaseURL u) = r\<lparr>sv_baseURL := u\<rparr>"
| "sarvam_apply r (SvModel m) = r\<lparr>sv_model := m\<rparr>"
| "sarvam_apply r (SvMaxReconnectAttempts n) = r\<lparr>sv_maxReconnectAttempts := n\<rparr>"
| "sarvam_apply r (SvMetrics wired) = r\<lparr>sv_metrics := wired\<rparr>"
| "sarvam_apply r (SvCircuitBreaker th cd) = r\<lparr>sv_breaker := newCircuitBreaker th cd\<rparr>"

definition NewSarvamRecognizer :: "string \<Rightarrow> sarvam_option list \<Rightarrow> SarvamRecognizer result" where
  "NewSarvamRecognizer envKey opts =
     (if envKey = [] then Err (ErrNew ''asr/sarvam: SARVAM_API_KEY environment variable is not set'')
      else Ok (foldl sarvam_apply
         \<lparr>sv_apiKey = envKey, sv_baseURL = ''wss://api.sarvam.ai/speech-to-text/ws'', sv_model = ''saaras:v3'',
          sv_maxReconnectAttempts = 3, sv_metrics = False, sv_breaker = newCircuitBreaker 0 0\<rparr> opts))"

definition sarvamLanguageCodes :: "(language \<times> string) list" where
  "sarvamLanguageCodes = [(''hi'', ''hi-IN''), (''en'', ''en-IN'')]"

definition sarvam_StartStream ::
  "SarvamRecognizer \<Rightarrow> instant \<Rightarrow> language \<Rightarrow> stream_params result \<times> circuitBreaker \<times> rec_call list" where
  "sarvam_StartStream r now languageHint =
     (let lang = (if languageHint = [] then ''hi'' else languageHint)
      in case map_of sarvamLanguageCodes lang of
          None \<Rightarrow> (Err (ErrNew ''asr/sarvam: unsupported language''), sv_breaker r, [])
        | Some code \<Rightarrow> start_gate ''asr/sarvam: '' ''sarvam'' (sv_metrics r) now
            \<lparr>sp_lang = lang, sp_model = sv_model r, sp_wire = code\<rparr> (sv_breaker r))"

definition sarvam_query :: "stream_params \<Rightarrow> int \<Rightarrow> (string \<times> string) list \<Rightarrow> (string \<times> string) list" where
  "sarvam_query p sampleRate q0 =
     foldl (\<lambda>q (k, v). al_put k v q) q0
       [(''language-code'', sp_wire p), (''model'', sp_model p), (''mode'', ''codemix''), (''sample_rate'', show_int sampleRate),
        (''input_audio_codec'', ''pcm_s16le''), (''vad_signals'', ''true'')]"

text \<open>The WAV file around a frame.\<close>

definition ascii :: "string \<Rightarrow> bytes" where "ascii s = map (\<lambda>c. of_nat (of_char c)) s"

definition le16 :: "int \<Rightarrow> bytes" where "le16 v = [word_of_int v, word_of_int (v div 256)]"

definition le32 :: "u32 \<Rightarrow> bytes" where
  "le32 v = [ucast v, ucast (drop_bit 8 v), ucast (drop_bit 16 v), ucast (drop_bit 24 v)]"

definition pcm16MonoToWAV :: "bytes \<Rightarrow> int \<Rightarrow> bytes" where
  "pcm16MonoToWAV pcm sampleRate =
     (let byteRate = go_div (sampleRate * 1 * 16) 8; blockAlign = 2; dataLen = length pcm
      in ascii ''RIFF'' @ le32 (of_nat (36 + dataLen)) @ ascii ''WAVE'' @ ascii ''fmt '' @ le32 16 @ le16 1 @ le16 1
         @ le32 (word_of_int sampleRate) @ le32 (word_of_int byteRate) @ le16 blockAlign @ le16 16
         @ ascii ''data'' @ le32 (of_nat dataLen) @ pcm)"

record sarvamAudioMessage =
  sam_Data :: string
  sam_SampleRate :: string
  sam_Encoding :: string

definition sarvam_audio :: "(bytes \<Rightarrow> string) \<Rightarrow> AudioFrame \<Rightarrow> sarvamAudioMessage" where
  "sarvam_audio base64 frame =
     \<lparr>sam_Data = base64 (pcm16MonoToWAV (af_PCM frame) (af_SampleRate frame)),
      sam_SampleRate = show_int (af_SampleRate frame), sam_Encoding = ''audio/wav''\<rparr>"

definition sarvam_frameMS :: "AudioFrame \<Rightarrow> int" where
  "sarvam_frameMS frame =
     (if af_SampleRate frame > 0 then int (length (af_PCM frame) div 2) * 1000 div af_SampleRate frame else 0)"

record sarvamResponseMessage =
  srm_Type :: string
  srm_Transcript :: string
  srm_AudioDurationSec :: float64
  srm_Error :: string
  srm_Message :: string

definition sarvam_message :: "(bytes \<Rightarrow> sarvamResponseMessage option) \<Rightarrow> language \<Rightarrow> bytes \<Rightarrow> incoming" where
  "sarvam_message parse lang data =
     (case parse data of
        None \<Rightarrow> MsgIgnore
      | Some msg \<Rightarrow>
          if srm_Type msg = ''error'' \<or> srm_Error msg \<noteq> [] \<or> srm_Message msg \<noteq> [] then
            let reason = (if srm_Error msg \<noteq> [] then srm_Error msg
                          else if srm_Message msg \<noteq> [] then srm_Message msg else ''unspecified error'')
            in MsgFatal (ErrNew (''asr/sarvam: '' @ reason))
          else if srm_Type msg = ''events'' then MsgIgnore
          else if srm_Type msg \<noteq> ''data'' \<or> srm_Transcript msg = [] then MsgIgnore
          else MsgTranscript (\<lambda>totalMS.
            \<lparr>tr_Text = srm_Transcript msg, tr_Language = lang, tr_IsFinal = True, tr_Confidence = 1, tr_StartMS = totalMS,
             tr_EndMS = (if srm_AudioDurationSec msg > 0 then totalMS + go_int64 (srm_AudioDurationSec msg * 1000) else totalMS)\<rparr>))"

definition sarvamCostPerMinuteUSD :: float64 where "sarvamCostPerMinuteUSD = 6 / 1000"

definition sarvam_recordAudioCost :: "bool \<Rightarrow> int \<Rightarrow> rec_call list" where
  "sarvam_recordAudioCost metrics frameMS =
     (if \<not> metrics \<or> frameMS \<le> 0 then []
      else [CallCost ''sarvam'' (real_of_int frameMS / 1000 / 60 * sarvamCostPerMinuteUSD)])"

subsection \<open>What Sarvam is sent\<close>

fun le_value :: "bytes \<Rightarrow> nat" where
  "le_value [] = 0"
| "le_value (b # bs) = unat b + 256 * le_value bs"

lemma le_value_le32: "le_value (le32 v) = unat v"
proof -
  have lt: "unat v < 4294967296" using unsigned_less [of v] by simp
  have u: "unat (ucast (drop_bit k v) :: byte) = unat v div 2 ^ k mod 256" for k
    by (simp only: unsigned_ucast_eq unsigned_drop_bit_eq) (simp add: drop_bit_eq_div take_bit_eq_mod lt)
  have last: "unat v div 16777216 mod 256 = unat v div 16777216" using lt by (simp add: less_mult_imp_div_less)
  have d: "unat v div 65536 = unat v div 256 div 256" "unat v div 16777216 = unat v div 256 div 256 div 256"
    by (simp_all flip: div_mult2_eq)
  have "unat v = unat v mod 256 + 256 * (unat v div 256 mod 256 + 256 * (unat v div 65536 mod 256 + 256 * (unat v div 16777216 mod 256)))"
    unfolding last unfolding d by simp
  then show ?thesis using u [of 0] u [of 8] u [of 16] u [of 24] by (simp add: le32_def)
qed

lemma length_le [simp]: "length (le32 v) = 4" "length (le16 i) = 2" "length (ascii s) = length s"
  by (simp_all add: le32_def le16_def ascii_def)

text \<open>
  The WAV header tells the truth. For any audio and any sampling rate whose sizes fit 32 bits, the
  file is a 44-byte header and the audio unchanged; its tags and its sizes, format, rate, byte rate,
  channels and sample width, read back as little-endian numbers, are those of 16-bit mono PCM audio of that length.
\<close>
theorem sarvam_wav_header:
  assumes "36 + length pcm < 2 ^ 32" "0 \<le> sampleRate" "sampleRate * 2 < 2 ^ 32"
  shows "let w = pcm16MonoToWAV pcm sampleRate; field = \<lambda>i n. le_value (take n (drop i w))
    in length w = 44 + length pcm \<and> drop 44 w = pcm
       \<and> take 4 w = ascii ''RIFF'' \<and> field 4 4 = length w - 8 \<and> take 4 (drop 8 w) = ascii ''WAVE''
       \<and> take 4 (drop 12 w) = ascii ''fmt '' \<and> field 16 4 = 16 \<and> field 20 2 = 1 \<and> field 22 2 = 1 \<and> field 24 4 = nat sampleRate \<and> field 28 4 = 2 * nat sampleRate
       \<and> field 32 2 = 2 \<and> field 34 2 = 16
       \<and> take 4 (drop 36 w) = ascii ''data'' \<and> field 40 4 = length pcm"
proof -
  let ?n = "length pcm"
  have div: "go_div (sampleRate * 1 * 16) 8 = sampleRate * 2" using assms(2) by (simp add: go_div_nonneg)
  have sizes: "unat (of_nat (36 + ?n) :: u32) = 36 + ?n" "unat (of_nat ?n :: u32) = ?n"
    using assms(1) by (simp_all only: unat_of_nat take_bit_eq_mod, simp_all)
  have word: "unat (word_of_int k :: u32) = nat k" if "0 \<le> k" "k < 2 ^ 32" for k
    using that by (simp add: unsigned_of_int take_bit_eq_mod)
  have "unat (word_of_int (sampleRate * 2) :: u32) = nat (sampleRate * 2)" by (rule word) (use assms(2,3) in simp_all)
  then have rate: "unat (word_of_int sampleRate :: u32) = nat sampleRate" "unat (word_of_int (sampleRate * 2) :: u32) = 2 * nat sampleRate"
    using assms(2,3) word [of sampleRate] by (simp_all only: nat_mult_distrib) simp_all
  have w: "pcm16MonoToWAV pcm sampleRate = ascii ''RIFF'' @ le32 (of_nat (36 + ?n)) @ ascii ''WAVE'' @ ascii ''fmt '' @ le32 16 @ le16 1 @ le16 1
     @ le32 (word_of_int sampleRate) @ le32 (word_of_int (sampleRate * 2)) @ le16 2 @ le16 16 @ ascii ''data'' @ le32 (of_nat ?n) @ pcm"
    unfolding pcm16MonoToWAV_def div Let_def by simp
  have small: "le_value (le16 1) = 1" "le_value (le16 2) = 2" "le_value (le16 16) = 16" by (simp_all add: le16_def)
  show ?thesis unfolding w Let_def
    by (simp add: le_value_le32 sizes [simplified] rate rate [simplified] small del: le_value.simps)
qed

theorem sarvam_wav_header_witness:
  "let w = pcm16MonoToWAV [1, 2, 3, 4] 8000 in length w = 48 \<and> le_value (take 4 (drop 24 w)) = 8000 \<and> le_value (take 4 (drop 28 w)) = 16000"
  using sarvam_wav_header [of "[1, 2, 3, 4]" 8000] by (simp add: Let_def)

subsection \<open>The sessions\<close>

text \<open>
  The two sessions are the machine of theory \<open>AsrSession\<close> with the recognizer's maximum of attempts;
  only Deepgram's connections have a keep-alive loop. Their teardown is the same.
\<close>

definition deepgram_session_step :: "DeepgramRecognizer \<Rightarrow> asr_session \<Rightarrow> asr_event \<Rightarrow> asr_session option" where
  "deepgram_session_step r = asr_step (dg_maxReconnectAttempts r) True"

definition sarvam_session_step :: "SarvamRecognizer \<Rightarrow> asr_session \<Rightarrow> asr_event \<Rightarrow> asr_session option" where
  "sarvam_session_step r = asr_step (sv_maxReconnectAttempts r) False"

definition sarvam_teardown :: "asr_session \<Rightarrow> asr_session option" where
  "sarvam_teardown = teardown_step"

subsection \<open>The times of a transcript\<close>

lemma deepgram_times_ordered:
  assumes "deepgram_results parse lang data = MsgTranscript f" "parse data = Some msg" "0 \<le> dgm_Duration msg"
  shows "tr_StartMS (f ms) \<le> tr_EndMS (f ms)" "tr_Text (f ms) \<noteq> []" "tr_Language (f ms) = lang"
  using assms by (auto simp: deepgram_results_def intro!: go_int64_mono split: if_splits list.splits)

text \<open>Sarvam's segments begin where the audio pushed so far ends, although they describe audio before it.\<close>

lemma sarvam_segment_after_audio:
  assumes "sarvam_message parse lang data = MsgTranscript f"
  shows "tr_StartMS (f ms) = ms" "ms \<le> tr_EndMS (f ms)" "tr_IsFinal (f ms)"
proof -
  show "tr_StartMS (f ms) = ms" "tr_IsFinal (f ms)"
    using assms by (auto simp: sarvam_message_def Let_def split: if_splits option.splits)
  show "ms \<le> tr_EndMS (f ms)"
    using assms go_int64_mono [of 0] by (auto simp: sarvam_message_def Let_def go_int64_def split: if_splits option.splits)
qed

end
