(* ===== verification/AsrBreaker.thy ===== *)
theory AsrBreaker
  imports AsrVendors Session
begin

section \<open>Sessions on a recognizer whose breaker is open\<close>

text \<open>
  The composition of \<open>langstream.NewSession\<close>, which starts one stream per leg on the same
  recognizer, with \<open>StartStream\<close>'s breaker gate and with the verdict that a stream reports when it
  is closed. The breaker is threaded through the calls that \<open>NewSession\<close> makes.
\<close>

subsection \<open>Verdicts and gates\<close>

fun apply_mark :: "instant \<Rightarrow> circuitBreaker \<Rightarrow> verdict_mark \<Rightarrow> circuitBreaker" where
  "apply_mark t b MarkSuccess = cb_recordSuccess b"
| "apply_mark t b MarkFailure = cb_recordFailure b t"
| "apply_mark t b MarkAbort = cb_abort b"

text \<open>\<open>StartStream\<close> on a recognizer with the breaker \<open>b\<close>: the answer and the breaker after it.\<close>

type_synonym gate = "circuitBreaker \<Rightarrow> instant \<Rightarrow> language \<Rightarrow> stream_params result \<times> circuitBreaker"

definition deepgram_gate :: "DeepgramRecognizer \<Rightarrow> gate" where
  "deepgram_gate r b t hint = (let (res, b1, calls) = deepgram_StartStream (r\<lparr>dg_breaker := b\<rparr>) t hint in (res, b1))"

definition sarvam_gate :: "SarvamRecognizer \<Rightarrow> gate" where
  "sarvam_gate r b t hint = (let (res, b1, calls) = sarvam_StartStream (r\<lparr>sv_breaker := b\<rparr>) t hint in (res, b1))"

subsection \<open>A session on the recognizer\<close>

text \<open>
  \<open>Close\<close> of a stream that never dialled settles its breaker with no error. \<open>t\<close> and \<open>t'\<close> are the
  times of the two \<open>StartStream\<close> calls.
\<close>

fun calls_breaker :: "gate \<Rightarrow> instant list \<Rightarrow> circuitBreaker \<Rightarrow> sess_call list \<Rightarrow> circuitBreaker" where
  "calls_breaker g ts b [] = b"
| "calls_breaker g ts b (StartStream h # cs) =
     (case ts of [] \<Rightarrow> b | t # ts' \<Rightarrow> calls_breaker g ts' (snd (g b t h)) cs)"
| "calls_breaker g ts b (CloseCallerASR # cs) =
     calls_breaker g ts (foldl (apply_mark 0) b (as_marks (settleBreaker None (snd (begin_close None new_session))))) cs"
| "calls_breaker g ts b (CancelCtx # cs) = calls_breaker g ts b cs"

definition open_session ::
  "gate \<Rightarrow> circuitBreaker \<Rightarrow> unit SessionConfig \<times> instant \<times> instant \<Rightarrow> stream_params session_parts result \<times> circuitBreaker" where
  "open_session g b x =
     (let (cfg, t, t') = x;
          hint = (if sc_CodeSwitching cfg then [] else sc_CallerLanguage cfg);
          b1 = snd (g b t hint);
          start = (\<lambda>a h n. if n = 0 then fst (g b t h) else fst (g b1 t' h));
          (res, calls) = NewSession start cfg
      in (res, calls_breaker g [t, t'] b calls))"

fun open_sessions ::
  "gate \<Rightarrow> circuitBreaker \<Rightarrow> (unit SessionConfig \<times> instant \<times> instant) list \<Rightarrow> stream_params session_parts result list \<times> circuitBreaker" where
  "open_sessions g b [] = ([], b)"
| "open_sessions g b (x # xs) =
     (let (res, b1) = open_session g b x; (rest, b2) = open_sessions g b1 xs in (res # rest, b2))"

subsection \<open>An outage\<close>

text \<open>The events of a stream whose first dial is refused, up to the verdict it reports.\<close>

definition refused_stream :: "asr_session option" where
  "refused_stream = asr_run 3 True new_session (refused_events @ [EvTeardown])"

definition stream_refused :: "circuitBreaker \<Rightarrow> instant \<Rightarrow> circuitBreaker" where
  "stream_refused b t = (case refused_stream of None \<Rightarrow> b | Some s \<Rightarrow> foldl (apply_mark t) b (as_marks s))"

lemma refused_stream_fails: "\<exists>s. refused_stream = Some s \<and> as_marks s = [MarkFailure] \<and> as_dials s = 0"
  by (simp add: refused_stream_def refused_events_def asr_eval is_context_error.simps)

lemma stream_refused_failure: "stream_refused = cb_recordFailure"
proof (intro ext)
  fix b t
  obtain s where s: "refused_stream = Some s" "as_marks s = [MarkFailure]" using refused_stream_fails by blast
  show "stream_refused b t = cb_recordFailure b t" unfolding stream_refused_def s option.case by simp
qed

lemma closed_stream_aborts: "as_marks (settleBreaker None (snd (begin_close None new_session))) = [MarkAbort]"
  by (simp add: settleBreaker_def begin_close_def new_session_def)

lemma failure_fields [simp]:
  "consecutiveFails (cb_recordFailure b t) = consecutiveFails b + 1" "threshold (cb_recordFailure b t) = threshold b"
  "\<not> probeInFlight (cb_recordFailure b t)"
  "threshold b \<le> consecutiveFails b + 1 \<Longrightarrow> cb_open (cb_recordFailure b t)"
  by (simp_all add: cb_recordFailure_def Let_def)

lemma failures_fields:
  "consecutiveFails (foldl cb_recordFailure b ts) = consecutiveFails b + int (length ts) \<and> threshold (foldl cb_recordFailure b ts) = threshold b"
  by (induction ts arbitrary: b) simp_all

lemma outage_opens:
  assumes "threshold b \<le> consecutiveFails b + int (length ts)" "ts \<noteq> []"
  shows "cb_open (foldl stream_refused b ts) \<and> \<not> probeInFlight (foldl stream_refused b ts)"
proof -
  obtain ts' t where ts: "ts = ts' @ [t]" using assms(2) by (metis rev_exhaust)
  have "threshold (foldl cb_recordFailure b ts') \<le> consecutiveFails (foldl cb_recordFailure b ts') + 1"
    using assms(1) ts by (simp add: failures_fields)
  then show ?thesis by (simp add: stream_refused_failure ts)
qed

subsection \<open>What an open breaker lets through\<close>

text \<open>A gate grants at most one probe of an open breaker, and a refusal changes nothing.\<close>

locale stream_gate =
  fixes sg :: gate
  assumes granted: "cb_open b \<Longrightarrow> is_ok (fst (sg b t h)) \<Longrightarrow> \<not> probeInFlight b \<and> snd (sg b t h) = b\<lparr>probeInFlight := True\<rparr>"
    and refused: "cb_open b \<Longrightarrow> \<not> is_ok (fst (sg b t h)) \<Longrightarrow> snd (sg b t h) = b"
begin

lemma second_refused: "cb_open b \<Longrightarrow> is_ok (fst (sg b t h)) \<Longrightarrow> \<not> is_ok (fst (sg (snd (sg b t h)) t' h'))"
  using granted [of b t h] granted [of "snd (sg b t h)" t' h'] by auto

lemma open_session_fails:
  assumes "cb_open b" "\<not> probeInFlight b"
  shows "\<not> is_ok (fst (open_session sg b x)) \<and> snd (open_session sg b x) = b"
proof -
  obtain cfg t t' where x: "x = (cfg, t, t')" by (cases x)
  let ?h = "if sc_CodeSwitching cfg then [] else sc_CallerLanguage cfg"
  let ?h' = "if sc_CodeSwitching cfg then [] else sc_AgentLanguage cfg"
  show ?thesis
  proof (cases "is_ok (fst (sg b t ?h))")
    case True
    then obtain y where y: "sg b t ?h = (Inr y, b\<lparr>probeInFlight := True\<rparr>)"
      using granted [OF assms(1) True] by (cases "sg b t ?h"; cases "fst (sg b t ?h)") auto
    have no: "\<not> is_ok (fst (sg (b\<lparr>probeInFlight := True\<rparr>) t' ?h'))" using second_refused [OF assms(1) True] y by simp
    then obtain e where e: "sg (b\<lparr>probeInFlight := True\<rparr>) t' ?h' = (Inl e, b\<lparr>probeInFlight := True\<rparr>)"
      using refused [OF _ no] assms(1)
      by (cases "sg (b\<lparr>probeInFlight := True\<rparr>) t' ?h'"; cases "fst (sg (b\<lparr>probeInFlight := True\<rparr>) t' ?h')") auto
    show ?thesis using x y e assms
      by (cases "session_validate cfg")
        (simp_all add: open_session_def NewSession_def Let_def closed_stream_aborts cb_abort_def)
  next
    case False
    then obtain e where "sg b t ?h = (Inl e, b)"
      using refused [OF assms(1) False] by (cases "sg b t ?h"; cases "fst (sg b t ?h)") auto
    then show ?thesis using x by (cases "session_validate cfg") (simp_all add: open_session_def NewSession_def Let_def)
  qed
qed

lemma open_sessions_fail:
  assumes "cb_open b" "\<not> probeInFlight b"
  shows "list_all (\<lambda>r. \<not> is_ok r) (fst (open_sessions sg b xs)) \<and> snd (open_sessions sg b xs) = b"
  using open_session_fails [OF assms] by (induction xs) (simp_all add: split_beta)

end

lemma start_gate_cases:
  "start_gate pre v m t p b = (if fst (cb_allow b t) then (Ok p, snd (cb_allow b t), [])
     else (Err (ErrWrap pre (ErrCircuitOpen PkgASR)), snd (cb_allow b t), if m then [CallError ''asr_connect'' v ''circuit_open''] else []))"
  by (simp add: start_gate_def split_beta Let_def)

interpretation dgg: stream_gate "deepgram_gate r"
  by unfold_locales (auto simp: deepgram_gate_def deepgram_StartStream_def start_gate_cases cb_allow_def Let_def split: if_splits)

interpretation svg: stream_gate "sarvam_gate r"
  by unfold_locales (auto simp: sarvam_gate_def sarvam_StartStream_def start_gate_cases cb_allow_def Let_def split: if_splits option.splits)

subsection \<open>No session after an outage\<close>

text \<open>
  C15: Once the breaker of a shared recognizer has tripped, no session can be opened on it again. After
  as many refused streams in a row as the threshold, every \<open>NewSession\<close> on the recognizer fails,
  however many are tried, with whatever languages, however much later, and although the vendor may
  long be back: the first leg's stream takes the only probe, the second leg's is refused, and the
  clean-up gives the probe back unused, so the breaker stays as it was. A single stream would be let
  through from some time on.
\<close>
theorem asr_breaker_locks_out_sessions:
  fixes xs :: "(unit SessionConfig \<times> instant \<times> instant) list"
  assumes "threshold (newCircuitBreaker th cd) \<le> int (length ts)"
  shows "let b = foldl stream_refused (newCircuitBreaker th cd) ts
    in list_all (\<lambda>res. \<not> is_ok res) (fst (open_sessions (deepgram_gate r) b xs))
       \<and> snd (open_sessions (deepgram_gate r) b xs) = b
       \<and> list_all (\<lambda>res. \<not> is_ok res) (fst (open_sessions (sarvam_gate r') b xs))
       \<and> snd (open_sessions (sarvam_gate r') b xs) = b
       \<and> is_ok (fst (deepgram_gate r b (openUntil b) ''en'')) \<and> is_ok (fst (sarvam_gate r' b (openUntil b) ''en''))"
proof -
  define b where "b = foldl stream_refused (newCircuitBreaker th cd) ts"
  have "0 < threshold (newCircuitBreaker th cd)" by (simp add: newCircuitBreaker_def defaultBreakerFailureThreshold_def)
  then have "ts \<noteq> []" using assms by auto
  then have b: "cb_open b" "\<not> probeInFlight b"
    unfolding b_def using outage_opens [of "newCircuitBreaker th cd" ts] assms by (simp_all add: newCircuitBreaker_def)
  have "is_ok (fst (deepgram_gate r b (openUntil b) ''en''))" "is_ok (fst (sarvam_gate r' b (openUntil b) ''en''))"
    using b by (simp_all add: deepgram_gate_def deepgram_StartStream_def sarvam_gate_def sarvam_StartStream_def
        sarvamLanguageCodes_def start_gate_cases cb_allow_def Let_def)
  with dgg.open_sessions_fail [OF b] svg.open_sessions_fail [OF b] show ?thesis by (simp add: b_def [symmetric] Let_def)
qed

definition outage_config :: "unit SessionConfig" where
  "outage_config = \<lparr>sc_CallerLanguage = ''hi'', sc_AgentLanguage = ''en'', sc_ASR = Some (), sc_hasTranslator = True,
     sc_hasTTS = True, sc_VoicePersona = None, sc_CodeSwitching = False, sc_Fallback = zero_FallbackConfig, sc_sharedMetrics = False\<rparr>"

text \<open>One refused stream with threshold one; a day later a session is still refused.\<close>

theorem asr_breaker_locks_out_sessions_witness:
  "\<not> is_ok (fst (open_session (deepgram_gate \<lparr>dg_apiKey = ''k'', dg_baseURL = [], dg_model = [], dg_hindiModel = [],
      dg_maxReconnectAttempts = 3, dg_metrics = False, dg_breaker = newCircuitBreaker 1 10\<rparr>)
      (stream_refused (newCircuitBreaker 1 10) 0) (outage_config, 86400 * second, 86400 * second)))"
proof -
  have "threshold (newCircuitBreaker 1 10) \<le> int (length [0 :: instant])" by (simp add: newCircuitBreaker_def)
  from asr_breaker_locks_out_sessions [OF this, of _ "[(outage_config, 86400 * second, 86400 * second)]"] show ?thesis
    by (simp add: Let_def split_beta)
qed

end
