(* ===== verification/Dashboard.thy ===== *)
theory Dashboard
  imports MetricsProps
begin

section \<open>The dashboard's pages (pkg/observability/dashboard.go)\<close>

text \<open>
  The HTML page, the handler's three routes and the server's limits. \<open>html/template\<close> escapes the
  value of every action for the text between tags; the template is written out piece by piece. The
  time stamp's format and the JSON encoder are arguments. Paths are clean (the multiplexer
  redirects others), and a response that can no longer be written is not modelled.
\<close>

subsection \<open>Escaping\<close>

definition escape_char :: "char \<Rightarrow> string" where
  "escape_char c =
     (if c = CHR 0x00 then [CHR 0xEF, CHR 0xBF, CHR 0xBD]
      else if c = CHR 0x22 then ''&#34;''
      else if c = CHR 0x26 then ''&amp;''
      else if c = CHR 0x27 then ''&#39;''
      else if c = CHR 0x2B then ''&#43;''
      else if c = CHR 0x3C then ''&lt;''
      else if c = CHR 0x3E then ''&gt;''
      else [c])"

definition html_escape :: "string \<Rightarrow> string" where
  "html_escape s = concat (map escape_char s)"

text \<open>\<open>printf "%.pf"\<close>, and the template text with \<open>~\<close> for a double quote, line by line.\<close>

definition fmt_fixed :: "nat \<Rightarrow> float64 \<Rightarrow> string" where
  "fmt_fixed p x =
     (let n = nat (round_half_even (\<bar>x\<bar> * 10 ^ p)); frac = show_nat (n mod 10 ^ p)
      in (if x < 0 then ''-'' else []) @ show_nat (n div 10 ^ p) @ ''.'' @ replicate (p - length frac) (CHR ''0'') @ frac)"

definition tpl :: "string list \<Rightarrow> string" where
  "tpl ls = concat (map (\<lambda>l. text_line (map (\<lambda>c. if c = CHR ''~'' then CHR 0x22 else c) l)) ls)"

definition cell :: "string \<Rightarrow> string" where
  "cell v = ''<td>'' @ html_escape v @ ''</td>''"

definition table_row :: "string list \<Rightarrow> string" where
  "table_row vs = tpl [[]] @ ''<tr>'' @ concat (map cell vs) @ tpl [''</tr>'']"

text \<open>A section: the table when there are rows, else the note.\<close>

definition section_html :: "string \<Rightarrow> string \<Rightarrow> string list list \<Rightarrow> string \<Rightarrow> string" where
  "section_html title header rows note =
     tpl [title]
     @ (if rows \<noteq> [] then tpl [[], ''<table>'', header] @ concat (map table_row rows) @ tpl [[], ''</table>'']
        else tpl [[], note])
     @ tpl [[], []]"

definition page_head :: string where
  "page_head = tpl
     [''<!DOCTYPE html>'', ''<html>'', ''<head>'', ''<meta charset=~utf-8~>'',
      ''<title>LangStream Observability Dashboard</title>'', ''<style>'',
      ''body { font-family: -apple-system, Helvetica, Arial, sans-serif; margin: 2rem; color: #1a1a1a; }'',
      ''h1 { font-size: 1.4rem; }'', ''h2 { font-size: 1.1rem; margin-top: 2rem; }'',
      ''table { border-collapse: collapse; width: 100%; max-width: 900px; margin-top: 0.5rem; }'',
      ''th, td { border: 1px solid #ddd; padding: 0.4rem 0.7rem; text-align: right; font-size: 0.9rem; }'',
      ''th, td:first-child { text-align: left; }'', ''th { background: #f4f4f4; }'',
      ''caption { text-align: left; color: #666; font-size: 0.8rem; margin-bottom: 0.3rem; }'',
      ''.empty { color: #888; font-style: italic; }'', ''</style>'', ''</head>'', ''<body>'',
      ''<h1>LangStream Observability Dashboard</h1>'']"

definition latency_row :: "StageLatencySummary \<Rightarrow> string list" where
  "latency_row s = [sl_Stage s, show_int (sl_Count s), fmt_fixed 2 (sl_P50 s), fmt_fixed 2 (sl_P90 s),
     fmt_fixed 2 (sl_P95 s), fmt_fixed 2 (sl_P99 s)]"

definition error_row :: "ErrorStats \<Rightarrow> string list" where
  "error_row s = [es_Stage s, es_Vendor s, show_int (es_Errors s), show_int (es_Total s), formatPercent (es_Rate s)]"

definition reason_row :: "ReasonStats \<Rightarrow> string list" where
  "reason_row s = [rs_Stage s, rs_Vendor s, rs_Reason s, show_int (rs_Count s)]"

definition cost_row :: "CostStats \<Rightarrow> string list" where
  "cost_row s = [cs_Vendor s, fmt_fixed 4 (cs_TotalUSD s), show_int (cs_Events s), fmt_fixed 4 (cs_PerMinuteUSD s)]"

definition dashboardTemplate :: "(instant \<Rightarrow> string) \<Rightarrow> DashboardData \<Rightarrow> string" where
  "dashboardTemplate stamp d =
     page_head @ ''<p>Generated at '' @ html_escape (stamp (dd_GeneratedAt d)) @ tpl [''</p>'', []]
     @ section_html ''<h2>Latency percentiles (ms)</h2>''
         ''<tr><th>Stage</th><th>Count</th><th>p50</th><th>p90</th><th>p95</th><th>p99</th></tr>''
         (map latency_row (dd_Latency d)) ''<p class=~empty~>No latency samples recorded yet.</p>''
     @ section_html ''<h2>Error rates by stage/vendor</h2>''
         ''<tr><th>Stage</th><th>Vendor</th><th>Errors</th><th>Total</th><th>Rate</th></tr>''
         (map error_row (dd_Errors d)) ''<p class=~empty~>No error/event data recorded yet.</p>''
     @ section_html ''<h2>Error reasons (e.g. circuit-breaker fast-fails)</h2>''
         ''<tr><th>Stage</th><th>Vendor</th><th>Reason</th><th>Count</th></tr>''
         (map reason_row (dd_Reasons d))
         ''<p class=~empty~>No classified error reasons recorded yet (all errors so far are untagged -- see RecordErrorReason).</p>''
     @ section_html ''<h2>Per-vendor cost</h2>''
         ''<tr><th>Vendor</th><th>Total (USD)</th><th>Cost events</th><th>USD/minute</th></tr>''
         (map cost_row (dd_Costs d)) ''<p class=~empty~>No cost data recorded yet.</p>''
     @ tpl [''</body>'', ''</html>'']"

subsection \<open>The handler and the server\<close>

record http_response =
  hr_status :: int
  hr_contentType :: string
  hr_body :: string

definition NotFound :: http_response where
  "NotFound = \<lparr>hr_status = 404, hr_contentType = ''text/plain; charset=utf-8'', hr_body = text_line ''404 page not found''\<rparr>"

text \<open>
  \<open>stamp\<close> formats the time, \<open>json\<close> is the encoder with its indent. A failed encoding leaves the
  content type that \<open>http.Error\<close> sets.
\<close>

definition NewDashboardHandler ::
  "(instant \<Rightarrow> string) \<Rightarrow> (DashboardData \<Rightarrow> string + string) \<Rightarrow> LatencyRecorder \<Rightarrow> instant \<Rightarrow> string \<Rightarrow> http_response" where
  "NewDashboardHandler stamp json r now path =
     (if path = ''/dashboard.json'' then
        (case json (BuildDashboardData r now) of
           Inr body \<Rightarrow> \<lparr>hr_status = 200, hr_contentType = ''application/json; charset=utf-8'', hr_body = body\<rparr>
         | Inl e \<Rightarrow> \<lparr>hr_status = 500, hr_contentType = ''text/plain; charset=utf-8'', hr_body = text_line e\<rparr>)
      else if path = ''/metrics'' then
        \<lparr>hr_status = 200, hr_contentType = ''text/plain; version=0.0.4; charset=utf-8'', hr_body = WriteText r r r r now\<rparr>
      else if path \<noteq> ''/'' then NotFound
      else \<lparr>hr_status = 200, hr_contentType = ''text/html; charset=utf-8'',
             hr_body = dashboardTemplate stamp (BuildDashboardData r now)\<rparr>)"

record 'h http_server =
  hs_Addr :: string
  hs_Handler :: 'h
  hs_ReadHeaderTimeout :: duration
  hs_ReadTimeout :: duration
  hs_WriteTimeout :: duration
  hs_IdleTimeout :: duration

definition NewDashboardServer ::
  "(instant \<Rightarrow> string) \<Rightarrow> (DashboardData \<Rightarrow> string + string) \<Rightarrow> string \<Rightarrow> LatencyRecorder
   \<Rightarrow> (instant \<Rightarrow> string \<Rightarrow> http_response) http_server" where
  "NewDashboardServer stamp json addr r =
     \<lparr>hs_Addr = addr, hs_Handler = NewDashboardHandler stamp json r, hs_ReadHeaderTimeout = 5 * second,
      hs_ReadTimeout = 10 * second, hs_WriteTimeout = 10 * second, hs_IdleTimeout = 60 * second\<rparr>"

subsection \<open>Names cannot change the markup\<close>

text \<open>The text inside angle brackets, with whether the end of the string is inside a pair.\<close>

fun markup :: "bool \<Rightarrow> string \<Rightarrow> string \<times> bool" where
  "markup b [] = ([], b)"
| "markup b (c # cs) =
     (if c = CHR 0x3C then map_prod (Cons c) id (markup True cs)
      else if c = CHR 0x3E then map_prod (Cons c) id (markup False cs)
      else if b then map_prod (Cons c) id (markup b cs) else markup b cs)"

lemma markup_append: "markup b (xs @ ys) = (case markup b xs of (m, b') \<Rightarrow> map_prod ((@) m) id (markup b' ys))"
proof (induction xs arbitrary: b)
  case (Cons c xs)
  show ?case by (auto simp: Cons split_beta map_prod_def)
qed (simp add: map_prod_def split_beta)

definition plain :: "string \<Rightarrow> bool" where
  "plain s \<longleftrightarrow> CHR 0x3C \<notin> set s \<and> CHR 0x3E \<notin> set s"

lemma markup_plain: "plain s \<Longrightarrow> markup False s = ([], False)"
  by (induction s) (auto simp: plain_def)

lemma plain_escape: "plain (html_escape s)"
proof -
  have "CHR 0x3C \<notin> set (escape_char c) \<and> CHR 0x3E \<notin> set (escape_char c)" for c by (simp add: escape_char_def)
  then show ?thesis by (auto simp: plain_def html_escape_def)
qed

text \<open>Strings that end outside the brackets, and the markup of their concatenation.\<close>

definition tags :: "string \<Rightarrow> string" where "tags s = fst (markup False s)"
definition closed_tags :: "string \<Rightarrow> bool" where "closed_tags s \<longleftrightarrow> \<not> snd (markup False s)"

lemma tags_append [simp]: "closed_tags xs \<Longrightarrow> tags (xs @ ys) = tags xs @ tags ys"
  by (cases "markup False xs"; cases "markup False ys") (simp add: tags_def closed_tags_def markup_append map_prod_def)

lemma closed_append [simp]: "closed_tags xs \<Longrightarrow> closed_tags ys \<Longrightarrow> closed_tags (xs @ ys)"
  by (cases "markup False xs"; cases "markup False ys") (simp add: closed_tags_def markup_append map_prod_def)

lemma tags_escape [simp]: "tags (html_escape s) = []" "closed_tags (html_escape s)"
  using markup_plain [OF plain_escape] by (simp_all add: tags_def closed_tags_def)

lemma closed_concat [simp]: "list_all closed_tags xs \<Longrightarrow> closed_tags (concat xs) \<and> tags (concat xs) = concat (map tags xs)"
  by (induction xs) (simp_all, simp add: tags_def closed_tags_def)

lemma static_text: "closed_tags ''<td>''" "closed_tags ''</td>''" "closed_tags ''<tr>''" "closed_tags ''<p>Generated at ''"
  by (simp_all add: closed_tags_def)

lemma tags_tpl: "list_all (\<lambda>l. closed_tags (map (\<lambda>c. if c = CHR ''~'' then CHR 0x22 else c) l)) ls \<Longrightarrow> closed_tags (tpl ls)"
proof -
  assume a: "list_all (\<lambda>l. closed_tags (map (\<lambda>c. if c = CHR ''~'' then CHR 0x22 else c) l)) ls"
  have "closed_tags (text_line x)" if "closed_tags x" for x
    unfolding text_line_def by (intro closed_append that) (simp add: closed_tags_def)
  with a have "list_all closed_tags (map (\<lambda>l. text_line (map (\<lambda>c. if c = CHR ''~'' then CHR 0x22 else c) l)) ls)"
    by (simp add: list_all_iff)
  then show ?thesis unfolding tpl_def by simp
qed

lemma cell_tags: "closed_tags (cell v)" "tags (cell v) = tags (cell [])"
  unfolding cell_def by (intro closed_append static_text tags_escape)
    (simp only: tags_append static_text tags_escape closed_append)

lemma row_tags: "closed_tags (table_row vs)" "tags (table_row vs) = tags (table_row (replicate (length vs) []))"
proof -
  have t: "closed_tags (tpl [[]])" "closed_tags (tpl [''</tr>''])" by (intro tags_tpl; simp add: closed_tags_def)+
  have c: "list_all closed_tags (map cell vs)" for vs by (simp add: list_all_iff cell_tags(1))
  show "closed_tags (table_row vs)" unfolding table_row_def using t c closed_concat by (intro closed_append static_text) blast+
  have "map tags (map cell ws) = replicate (length ws) (tags (cell []))" for ws
    by (induction ws) (simp_all, rule cell_tags(2))
  then show "tags (table_row vs) = tags (table_row (replicate (length vs) []))"
    by (simp only: table_row_def tags_append closed_append static_text t c closed_concat length_replicate)
qed

lemma section_tags:
  assumes "closed_tags (tpl [title])" "closed_tags (tpl [[], ''<table>'', header])" "closed_tags (tpl [[], note])"
  shows "closed_tags (section_html title header rows note)"
    "map length rows = map length rows' \<Longrightarrow> tags (section_html title header rows note) = tags (section_html title header rows' note)"
proof -
  have t: "closed_tags (tpl [[], ''</table>''])" "closed_tags (tpl [[], []])" by (intro tags_tpl; simp add: closed_tags_def)+
  have r: "list_all closed_tags (map table_row rows)" for rows by (simp add: list_all_iff row_tags(1))
  show "closed_tags (section_html title header rows note)"
    unfolding section_html_def using assms t r closed_concat by (intro closed_append) (auto simp del: append.simps)
  have m: "map tags (map table_row rows) = map (\<lambda>n. tags (table_row (replicate n []))) (map length rows)" for rows
    by (induction rows) (simp_all, rule row_tags(2))
  assume l: "map length rows = map length rows'"
  then have "rows = [] \<longleftrightarrow> rows' = []" by (metis length_0_conv length_map)
  moreover have "tags (concat (map table_row rows)) = tags (concat (map table_row rows'))"
    using closed_concat [OF r] m [of rows] m [of rows'] l by metis
  ultimately show "tags (section_html title header rows note) = tags (section_html title header rows' note)"
    unfolding section_html_def using assms t closed_concat [OF r]
    by (cases "rows = []") (simp_all only: tags_append closed_append if_True if_False simp_thms)
qed

lemma page_pieces:
  "closed_tags page_head" "closed_tags (tpl [''</p>'', []])" "closed_tags (tpl [''</body>'', ''</html>''])"
  "closed_tags (tpl [''<h2>Latency percentiles (ms)</h2>''])" "closed_tags (tpl [''<h2>Error rates by stage/vendor</h2>''])"
  "closed_tags (tpl [''<h2>Error reasons (e.g. circuit-breaker fast-fails)</h2>''])" "closed_tags (tpl [''<h2>Per-vendor cost</h2>''])"
  "closed_tags (tpl [[], ''<table>'', ''<tr><th>Stage</th><th>Count</th><th>p50</th><th>p90</th><th>p95</th><th>p99</th></tr>''])"
  "closed_tags (tpl [[], ''<table>'', ''<tr><th>Stage</th><th>Vendor</th><th>Errors</th><th>Total</th><th>Rate</th></tr>''])"
  "closed_tags (tpl [[], ''<table>'', ''<tr><th>Stage</th><th>Vendor</th><th>Reason</th><th>Count</th></tr>''])"
  "closed_tags (tpl [[], ''<table>'', ''<tr><th>Vendor</th><th>Total (USD)</th><th>Cost events</th><th>USD/minute</th></tr>''])"
  "closed_tags (tpl [[], ''<p class=~empty~>No latency samples recorded yet.</p>''])"
  "closed_tags (tpl [[], ''<p class=~empty~>No error/event data recorded yet.</p>''])"
  "closed_tags (tpl [[], ''<p class=~empty~>No classified error reasons recorded yet (all errors so far are untagged -- see RecordErrorReason).</p>''])"
  "closed_tags (tpl [[], ''<p class=~empty~>No cost data recorded yet.</p>''])"
  unfolding page_head_def by (intro tags_tpl; simp add: closed_tags_def)+

lemmas page_sections =
  section_tags [OF page_pieces(4,8,12)] section_tags [OF page_pieces(5,9,13)]
  section_tags [OF page_pieces(6,10,14)] section_tags [OF page_pieces(7,11,15)]

text \<open>The text a browser shows for escaped text.\<close>

fun html_text :: "string \<Rightarrow> string" where
  "html_text [] = []"
| "html_text (c # cs) =
     (if c \<noteq> CHR 0x26 then c # html_text cs
      else if take 4 cs = ''#34;'' then CHR 0x22 # html_text (drop 4 cs)
      else if take 4 cs = ''#39;'' then CHR 0x27 # html_text (drop 4 cs)
      else if take 4 cs = ''#43;'' then CHR 0x2B # html_text (drop 4 cs)
      else if take 4 cs = ''amp;'' then CHR 0x26 # html_text (drop 4 cs)
      else if take 3 cs = ''lt;'' then CHR 0x3C # html_text (drop 3 cs)
      else if take 3 cs = ''gt;'' then CHR 0x3E # html_text (drop 3 cs)
      else c # html_text cs)"

lemma html_text_escape: "CHR 0x00 \<notin> set s \<Longrightarrow> html_text (html_escape s) = s"
proof (induction s)
  case (Cons c s)
  have "html_text (escape_char c @ rest) = c # html_text rest" if "c \<noteq> CHR 0x00" for rest
    using that by (simp add: escape_char_def)
  with Cons show ?case by (auto simp: html_escape_def)
qed (simp add: html_escape_def)

text \<open>
  C36: Names cannot change the page. The sequence of tags of the dashboard depends only on how many
  rows its tables have, not on the stage, vendor and reason names, the numbers or the time stamp, and
  the page never ends inside a tag; and every name (without a zero byte) is shown exactly as it was
  recorded.
\<close>
theorem dashboard_markup_fixed:
  assumes "length (dd_Latency d) = length (dd_Latency d')" "length (dd_Errors d) = length (dd_Errors d')"
    "length (dd_Reasons d) = length (dd_Reasons d')" "length (dd_Costs d) = length (dd_Costs d')"
  shows "tags (dashboardTemplate stamp d) = tags (dashboardTemplate stamp' d') \<and> closed_tags (dashboardTemplate stamp d)
    \<and> (CHR 0x00 \<notin> set name \<longrightarrow> html_text (html_escape name) = name)"
proof -
  have l: "map length (map latency_row (dd_Latency d)) = map length (map latency_row (dd_Latency d'))"
    "map length (map error_row (dd_Errors d)) = map length (map error_row (dd_Errors d'))"
    "map length (map reason_row (dd_Reasons d)) = map length (map reason_row (dd_Reasons d'))"
    "map length (map cost_row (dd_Costs d)) = map length (map cost_row (dd_Costs d'))"
    using assms by (simp_all add: o_def latency_row_def error_row_def reason_row_def cost_row_def map_replicate_const)
  have "closed_tags (dashboardTemplate stamp d)"
    unfolding dashboardTemplate_def by (intro closed_append page_pieces page_sections static_text tags_escape)
  moreover have "tags (dashboardTemplate stamp d) = tags (dashboardTemplate stamp' d')"
    unfolding dashboardTemplate_def
    by (simp only: tags_append closed_append page_pieces page_sections(1,3,5,7) static_text tags_escape
        page_sections(2) [OF l(1)] page_sections(4) [OF l(2)] page_sections(6) [OF l(3)] page_sections(8) [OF l(4)])
  ultimately show ?thesis using html_text_escape by blast
qed

definition demo_data :: "string \<Rightarrow> DashboardData" where
  "demo_data vendor = \<lparr>dd_GeneratedAt = 0, dd_Latency = [],
     dd_Errors = [\<lparr>es_Stage = ''translate'', es_Vendor = vendor, es_Errors = 1, es_Total = 2, es_Rate = 1 / 2\<rparr>],
     dd_Reasons = [], dd_Costs = []\<rparr>"

theorem dashboard_markup_fixed_witness:
  "tags (dashboardTemplate (\<lambda>t. []) (demo_data ''<script>alert(1)</script>'')) = tags (dashboardTemplate (\<lambda>t. []) (demo_data ''mock''))"
  using dashboard_markup_fixed [of "demo_data ''<script>alert(1)</script>''" "demo_data ''mock''"] by (simp add: demo_data_def)

subsection \<open>Rows and routes\<close>

lemma latency_rows_ordered:
  "s \<in> set (dd_Latency (BuildDashboardData r now)) \<Longrightarrow>
     sl_P50 s \<le> sl_P90 s \<and> sl_P90 s \<le> sl_P95 s \<and> sl_P95 s \<le> sl_P99 s \<and> sl_Stage s \<in> keys (lr_samples r)"
  by (auto simp: BuildDashboardData_def Percentile_def Stages_def intro!: percentile_mono intro: rev_image_eqI)

lemma error_rows_in_range:
  "es \<in> set (dd_Errors (BuildDashboardData (foldl rec_apply (NewLatencyRecorder t) cs) now)) \<Longrightarrow>
     0 \<le> es_Errors es \<and> es_Errors es \<le> es_Total es"
  using ErrorSnapshot_entry [of "foldl rec_apply (NewLatencyRecorder t) cs" es] lr_inv_run [OF lr_inv_new, of t cs]
    lr.errors_le_events [of "NewLatencyRecorder t" "es_Stage es" "es_Vendor es" cs]
  by (simp add: BuildDashboardData_def lr.fold_errors)

lemma handler_status:
  "hr_status (NewDashboardHandler stamp json r now path) =
     (if path = ''/dashboard.json'' \<and> (\<exists>e. json (BuildDashboardData r now) = Inl e) then 500
      else if path \<in> {''/'', ''/dashboard.json'', ''/metrics''} then 200 else 404)"
  by (auto simp: NewDashboardHandler_def NotFound_def split: sum.split)

text \<open>The percentage of an eighth, which the code's comment gives as 12.50%.\<close>

lemma percent_eighth: "formatPercent (1 / 8) = ''12.5%''"
proof -
  have r: "round_half_even 12500000 = 12500000" by (simp add: round_half_even_def Let_def)
  have ch: "char_of (48 :: nat) = CHR ''0''" "char_of (49 :: nat) = CHR ''1''" "char_of (50 :: nat) = CHR ''2''" "char_of (53 :: nat) = CHR ''5''"
    by (simp_all add: char_of_eq_iff)
  have n: "show_nat 12 = ''12''" "show_nat 500000 = ''500000''"
    by (simp_all add: show_nat.simps ch)
  show ?thesis by (simp add: formatPercent_def formatFloat_def fmt_6f_def r n pad6_def trim_right_def Let_def)
qed

end
