(* ===== verification/EndToEnd.thy ===== *)
theory EndToEnd
  imports Session SessionLegProps Mocks Commands Dashboard
begin

section \<open>A call from end to end (cmd/langstream demo, tools/latency_benchmark, examples)\<close>

text \<open>
  The session that the mock backends make, composed of the recognizer streams, the two legs and
  the translator and synthesizer the legs call; and the programs that drive a session: the
  \<open>demo\<close> subcommand, the dispatch of \<open>main\<close>, the latency benchmark and the call adapter of the
  vSIP example. The programs are written over the operations of a session; the locale
  \<open>call_session\<close> says what they need of them, and the mock session provides it.
\<close>

subsection \<open>The session of the mock backends\<close>

record mock_backends =
  mb_asr :: "language list"
  mb_mt :: "(language \<times> language) list"
  mb_tts :: "language list"

text \<open>The backends registered under the name \<open>mock\<close>, and those of the benchmark.\<close>

definition NewMockSynthesizer :: "language list \<Rightarrow> language list" where
  "NewMockSynthesizer langs = (if langs = [] then [''en'', ''hi''] else langs)"

definition registered_mocks :: mock_backends where
  "registered_mocks = \<lparr>mb_asr = NewMockRecognizer [], mb_mt = NewMockTranslator [], mb_tts = NewMockSynthesizer []\<rparr>"

definition benchmark_mocks :: "language \<Rightarrow> language \<Rightarrow> mock_backends" where
  "benchmark_mocks callerLang agentLang =
     \<lparr>mb_asr = NewMockRecognizer [callerLang, agentLang], mb_mt = NewMockTranslator [],
      mb_tts = NewMockSynthesizer [callerLang, agentLang]\<rparr>"

record mock_session =
  mk_backends :: mock_backends
  mk_callerCfg :: leg_cfg
  mk_agentCfg :: leg_cfg
  mk_callerLeg :: leg_sys
  mk_agentLeg :: leg_sys
  mk_callerASR :: mockStreamSession
  mk_agentASR :: mockStreamSession
  mk_closed :: bool

definition session_config :: "'asr \<Rightarrow> language \<Rightarrow> language \<Rightarrow> 'asr SessionConfig" where
  "session_config a callerLang agentLang =
     \<lparr>sc_CallerLanguage = callerLang, sc_AgentLanguage = agentLang, sc_ASR = Some a, sc_hasTranslator = True,
      sc_hasTTS = True, sc_VoicePersona = None, sc_CodeSwitching = False, sc_Fallback = zero_FallbackConfig,
      sc_sharedMetrics = False\<rparr>"

definition session_leg_cfg :: "'st session_parts \<Rightarrow> language \<Rightarrow> language \<Rightarrow> leg_cfg" where
  "session_leg_cfg parts src dst =
     \<lparr>lg_fallback = sp_fallback parts, lg_srcLang = src, lg_dstLang = dst, lg_personas = sp_personas parts,
      lg_ASRName = ''mock'', lg_MTName = ''mock'', lg_TTSName = ''mock''\<rparr>"

definition new_mock_session :: "mock_backends \<Rightarrow> language \<Rightarrow> language \<Rightarrow> mock_session result" where
  "new_mock_session b callerLang agentLang =
     (case fst (NewSession (\<lambda>langs hint n. mock_StartStream langs hint) (session_config (mb_asr b) callerLang agentLang)) of
        Inl e \<Rightarrow> Err e
      | Inr parts \<Rightarrow>
          Ok \<lparr>mk_backends = b, mk_callerCfg = session_leg_cfg parts callerLang agentLang,
              mk_agentCfg = session_leg_cfg parts agentLang callerLang,
              mk_callerLeg = new_leg ''caller'', mk_agentLeg = new_leg ''agent'',
              mk_callerASR = sp_callerASR parts, mk_agentASR = sp_agentASR parts, mk_closed = False\<rparr>)"

text \<open>
  What the legs see of the mocks. The session's context does not end before \<open>Close\<close> has waited for
  the legs, and the mocks answer within the session's timeouts; the clock reads \<open>t\<close> throughout.
\<close>

definition mock_env :: "mock_backends \<Rightarrow> instant \<Rightarrow> utt_env" where
  "mock_env b t =
     \<lparr>ue_translate = mock_Translate (mb_mt b) False,
      ue_synth = (\<lambda>txt p. map_sum id Delivers (mock_SynthesizeStream (mb_tts b) txt p None)),
      ue_budget = None, ue_at = t, ue_mt_start = t, ue_mt_end = t, ue_tts_start = t, ue_first_chunk = t, ue_done = t\<rparr>"

definition hear_transcripts :: "mock_backends \<Rightarrow> leg_cfg \<Rightarrow> instant \<Rightarrow> leg_sys \<Rightarrow> Transcript list \<Rightarrow> leg_sys" where
  "hear_transcripts b c t s trs = leg_run c s (map (\<lambda>tr. FinalOrPartial tr (mock_env b t)) trs)"

definition push_leg ::
  "mock_backends \<Rightarrow> leg_cfg \<Rightarrow> instant \<Rightarrow> AudioFrame \<Rightarrow> leg_sys \<times> mockStreamSession \<Rightarrow> unit result \<times> leg_sys \<times> mockStreamSession" where
  "push_leg b c t frame x =
     (let leg = leg_step c (fst x) (PushAudio (af_PCM frame) (af_SampleRate frame) t);
          (r, trs, asr) = mock_PushAudio False frame (snd x)
      in (r, hear_transcripts b c t leg trs, asr))"

definition mock_pushCaller :: "instant \<Rightarrow> mock_session \<Rightarrow> AudioFrame \<Rightarrow> unit result \<times> mock_session" where
  "mock_pushCaller t m frame =
     (let (r, leg, asr) = push_leg (mk_backends m) (mk_callerCfg m) t frame (mk_callerLeg m, mk_callerASR m)
      in (r, m\<lparr>mk_callerLeg := leg, mk_callerASR := asr\<rparr>))"

definition mock_pushAgent :: "instant \<Rightarrow> mock_session \<Rightarrow> AudioFrame \<Rightarrow> unit result \<times> mock_session" where
  "mock_pushAgent t m frame =
     (let (r, leg, asr) = push_leg (mk_backends m) (mk_agentCfg m) t frame (mk_agentLeg m, mk_agentASR m)
      in (r, m\<lparr>mk_agentLeg := leg, mk_agentASR := asr\<rparr>))"

text \<open>\<open>Close\<close> closes both streams, and each leg handles what its stream still emits.\<close>

definition close_leg ::
  "mock_backends \<Rightarrow> leg_cfg \<Rightarrow> instant \<Rightarrow> leg_sys \<times> mockStreamSession \<Rightarrow> leg_sys \<times> mockStreamSession" where
  "close_leg b c t x =
     (let (trs, asr) = mock_Close (snd x)
      in (leg_step c (hear_transcripts b c t (fst x) trs) (TranscriptsClosed True None t), asr))"

definition mock_session_Close :: "instant \<Rightarrow> mock_session \<Rightarrow> go_error option \<times> mock_session" where
  "mock_session_Close t m =
     (if mk_closed m then (None, m)
      else let (cl, ca) = close_leg (mk_backends m) (mk_callerCfg m) t (mk_callerLeg m, mk_callerASR m);
               (al, aa) = close_leg (mk_backends m) (mk_agentCfg m) t (mk_agentLeg m, mk_agentASR m)
           in (None, m\<lparr>mk_callerLeg := cl, mk_callerASR := ca, mk_agentLeg := al, mk_agentASR := aa, mk_closed := True\<rparr>))"

text \<open>What waits in the outbound channels, and whether they are closed.\<close>

definition mock_AgentHears :: "mock_session \<Rightarrow> AudioChunk list \<times> bool" where
  "mock_AgentHears m = (ls_out (mk_callerLeg m), mk_closed m)"

definition mock_CallerHears :: "mock_session \<Rightarrow> AudioChunk list \<times> bool" where
  "mock_CallerHears m = (ls_out (mk_agentLeg m), mk_closed m)"

subsection \<open>The demo subcommand\<close>

definition demo_frame :: AudioFrame where
  "demo_frame = \<lparr>af_PCM = replicate 320 0, af_SampleRate = 8000, af_TimestampMS = 0\<rparr>"

text \<open>The error it returns, or the chunk it prints; a session that was made is closed once.\<close>

definition runDemo ::
  "(string \<Rightarrow> string \<Rightarrow> string \<Rightarrow> language \<Rightarrow> language \<Rightarrow> 's result) \<Rightarrow> ('s \<Rightarrow> AudioFrame \<Rightarrow> unit result \<times> 's)
   \<Rightarrow> ('s \<Rightarrow> go_error option \<times> 's) \<Rightarrow> ('s \<Rightarrow> AudioChunk list \<times> bool) \<Rightarrow> (string \<Rightarrow> string) \<Rightarrow> string list \<Rightarrow> AudioChunk result" where
  "runDemo newSess push close hears env args =
     (case parse_flags demo_flag_set args of
        Inl e \<Rightarrow> Err (ErrNew (flag_message e))
      | Inr (fs, rest) \<Rightarrow>
        (let backend = flag_string fs ''backend''
         in case newSess (resolveBackend backend (env envASRBackend)) (resolveBackend backend (env envMTBackend))
                   (resolveBackend backend (env envTTSBackend)) ''hi'' ''en'' of
              Inl e \<Rightarrow> Err e
            | Inr s \<Rightarrow>
              (case push s demo_frame of
                 (Inl e, s1) \<Rightarrow> Err (ErrWrap ''pushing caller audio'' e)
               | (Inr _, s1) \<Rightarrow>
                 (case close s1 of
                    (Some e, s2) \<Rightarrow> Err (ErrWrap ''closing session'' e)
                  | (None, s2) \<Rightarrow>
                    (case hears s2 of
                       (c # cs, _) \<Rightarrow> Ok c
                     | ([], True) \<Rightarrow> Err (ErrNew ''agent audio channel closed before producing output'')
                     | ([], False) \<Rightarrow> Err (ErrNew ''no synthesized audio was produced''))))))"

subsection \<open>serve, webrtc and the dispatch of main\<close>

text \<open>\<open>None\<close>: it has not returned. The calls are those of \<open>runServeWithContext\<close>.\<close>

definition buildServeSession ::
  "(string \<Rightarrow> string \<Rightarrow> string \<Rightarrow> language \<Rightarrow> language \<Rightarrow> 's result) \<Rightarrow> (string \<Rightarrow> 's \<Rightarrow> 'srv) \<Rightarrow> string \<Rightarrow> string \<Rightarrow> string \<Rightarrow> string
   \<Rightarrow> ('s \<times> 'srv) result" where
  "buildServeSession newSess newServer asrName mtName ttsName addr =
     (case newSess asrName mtName ttsName ''hi'' ''en'' of Inl e \<Rightarrow> Err e | Inr s \<Rightarrow> Ok (s, newServer addr s))"

text \<open>The dashboard server of a session whose recorder is \<open>metricsOf s\<close>.\<close>

definition dashboard_of ::
  "(instant \<Rightarrow> string) \<Rightarrow> (DashboardData \<Rightarrow> string + string) \<Rightarrow> ('s \<Rightarrow> LatencyRecorder) \<Rightarrow> string \<Rightarrow> 's
   \<Rightarrow> (instant \<Rightarrow> string \<Rightarrow> http_response) http_server" where
  "dashboard_of stamp json metricsOf addr s = NewDashboardServer stamp json addr (metricsOf s)"

definition runServe ::
  "(string \<Rightarrow> string \<Rightarrow> string \<Rightarrow> language \<Rightarrow> language \<Rightarrow> 's result) \<Rightarrow> (string \<Rightarrow> 's \<Rightarrow> 'srv) \<Rightarrow> serve_event list
   \<Rightarrow> go_error option \<Rightarrow> go_error option \<Rightarrow> (string \<Rightarrow> string) \<Rightarrow> string list \<Rightarrow> (go_error option \<times> cmd_call list) option" where
  "runServe newSess newServer es closeErr shutdownErr env args =
     (case parse_flags serve_flag_set args of
        Inl e \<Rightarrow> Some (Some (ErrNew (flag_message e)), [])
      | Inr (fs, rest) \<Rightarrow>
        (let backend = flag_string fs ''backend''
         in case buildServeSession newSess newServer (resolveBackend backend (env envASRBackend)) (resolveBackend backend (env envMTBackend))
                   (resolveBackend backend (env envTTSBackend)) (flag_string fs ''addr'') of
              Inl e \<Rightarrow> Some (Some e, [])
            | Inr (s, srv) \<Rightarrow> runServeWithContext es closeErr shutdownErr))"

text \<open>The gateway's server has the limits of the dashboard's.\<close>

definition newWebRTCServer :: "string \<Rightarrow> 'h \<Rightarrow> 'h http_server" where
  "newWebRTCServer addr handler =
     \<lparr>hs_Addr = addr, hs_Handler = handler, hs_ReadHeaderTimeout = 5 * second, hs_ReadTimeout = 10 * second,
      hs_WriteTimeout = 10 * second, hs_IdleTimeout = 60 * second\<rparr>"

record 's webrtc_setup =
  ws_addr :: string
  ws_ice :: "ICEServer list"
  ws_factory :: "'s result"

definition runWebRTC ::
  "(string \<Rightarrow> string \<Rightarrow> string \<Rightarrow> language \<Rightarrow> language \<Rightarrow> 's result) \<Rightarrow> (string \<Rightarrow> string) \<Rightarrow> string list \<Rightarrow> 's webrtc_setup result" where
  "runWebRTC newSess env args =
     (case parse_flags webrtc_flag_set args of
        Inl e \<Rightarrow> Err (ErrNew (flag_message e))
      | Inr (fs, rest) \<Rightarrow>
        (let backend = flag_string fs ''backend''
         in Ok \<lparr>ws_addr = flag_string fs ''addr'',
                ws_ice = buildICEServers (flag_string fs ''stun'') (flag_string fs ''turn-username'') (flag_string fs ''turn-credential''),
                ws_factory = newSess (resolveBackend backend (env envASRBackend)) (resolveBackend backend (env envMTBackend))
                   (resolveBackend backend (env envTTSBackend)) (flag_string fs ''caller-lang'') (flag_string fs ''agent-lang'')\<rparr>))"

datatype main_output = PrintVersion | PrintUsage | PrintFailed string go_error | PrintUnknown string

text \<open>
  \<open>run sub args\<close> is the subcommand's function (\<open>None\<close>: it has not returned). The result is what
  \<open>main\<close> itself prints and the exit code.
\<close>

definition cli_main :: "(string \<Rightarrow> string list \<Rightarrow> go_error option option) \<Rightarrow> string list \<Rightarrow> (main_output list \<times> int) option" where
  "cli_main run os_args =
     (case os_args of
        prog # sub # args \<Rightarrow>
          if sub = ''version'' then Some ([PrintVersion], 0)
          else if sub = ''demo'' \<or> sub = ''serve'' \<or> sub = ''duplex'' \<or> sub = ''webrtc'' then
            (case run sub args of
               None \<Rightarrow> None
             | Some None \<Rightarrow> Some ([], 0)
             | Some (Some e) \<Rightarrow> Some ([PrintFailed sub e], 1))
          else if sub = ''help'' \<or> sub = ''-h'' \<or> sub = ''--help'' then Some ([PrintUsage], 0)
          else Some ([PrintUnknown sub, PrintUsage], 1)
      | _ \<Rightarrow> Some ([PrintUsage], 1))"

subsection \<open>The latency benchmark\<close>

text \<open>
  One iteration: \<open>in_time\<close> says that the audio that the session ever makes available before
  \<open>Close\<close> comes before the timeout. The deferred \<open>Close\<close> runs after the select and is recorded last.
\<close>

record iteration_times =
  it_setup :: float64
  it_glass :: float64
  it_close :: float64
  it_inTime :: bool

definition benchmark_frame :: "int \<Rightarrow> nat \<Rightarrow> AudioFrame" where
  "benchmark_frame rate pcmBytes = \<lparr>af_PCM = replicate pcmBytes 0, af_SampleRate = rate, af_TimestampMS = 0\<rparr>"

definition run_iteration ::
  "int \<Rightarrow> 's result \<Rightarrow> ('s \<Rightarrow> AudioFrame \<Rightarrow> unit result \<times> 's) \<Rightarrow> ('s \<Rightarrow> AudioChunk list \<times> bool) \<Rightarrow> nat \<Rightarrow> iteration_times
   \<Rightarrow> (bool \<times> go_error option) \<times> rec_call list" where
  "run_iteration rate newSess push hears pcmBytes ts =
     (let setup = CallRecord ''session_setup_ms'' (it_setup ts); closing = CallRecord ''session_close_ms'' (it_close ts)
      in case newSess of
           Inl e \<Rightarrow> ((False, Some (ErrWrap ''NewSession'' e)), [setup])
         | Inr s \<Rightarrow>
           (case push s (benchmark_frame rate pcmBytes) of
              (Inl e, s1) \<Rightarrow> ((False, Some (ErrWrap ''PushCallerAudio'' e)), [setup, closing])
            | (Inr _, s1) \<Rightarrow>
              if it_inTime ts \<and> fst (hears s1) \<noteq> []
              then ((True, None), [setup, CallRecord ''glass_to_glass_ms'' (it_glass ts), closing])
              else ((False, None), [setup, closing])))"

text \<open>The iteration with the mocks, and the one with shared vendor clients: only the sampling rate differs.\<close>

definition runIteration ::
  "'s result \<Rightarrow> ('s \<Rightarrow> AudioFrame \<Rightarrow> unit result \<times> 's) \<Rightarrow> ('s \<Rightarrow> AudioChunk list \<times> bool) \<Rightarrow> nat \<Rightarrow> iteration_times
   \<Rightarrow> (bool \<times> go_error option) \<times> rec_call list" where
  "runIteration = run_iteration 8000"

definition runIterationWithBackends ::
  "'s result \<Rightarrow> ('s \<Rightarrow> AudioFrame \<Rightarrow> unit result \<times> 's) \<Rightarrow> ('s \<Rightarrow> AudioChunk list \<times> bool) \<Rightarrow> nat \<Rightarrow> iteration_times
   \<Rightarrow> (bool \<times> go_error option) \<times> rec_call list" where
  "runIterationWithBackends = run_iteration 16000"

record benchmark =
  bm_hits :: int
  bm_misses :: int
  bm_errs :: int
  bm_rec :: LatencyRecorder

definition count_iteration :: "benchmark \<Rightarrow> (bool \<times> go_error option) \<times> rec_call list \<Rightarrow> benchmark" where
  "count_iteration b x =
     (let ((hit, err), calls) = x; b1 = b\<lparr>bm_rec := foldl rec_apply (bm_rec b) calls\<rparr>
      in if err \<noteq> None then b1\<lparr>bm_errs := bm_errs b1 + 1\<rparr>
         else if hit then b1\<lparr>bm_hits := bm_hits b1 + 1\<rparr>
         else b1\<lparr>bm_misses := bm_misses b1 + 1\<rparr>)"

definition run_benchmark :: "instant \<Rightarrow> ((bool \<times> go_error option) \<times> rec_call list) list \<Rightarrow> benchmark" where
  "run_benchmark t xs = foldl count_iteration \<lparr>bm_hits = 0, bm_misses = 0, bm_errs = 0, bm_rec = NewLatencyRecorder t\<rparr> xs"

text \<open>\<open>printReport\<close>'s rows (\<open>None\<close>: no samples collected) and whether the closing note is printed.\<close>

definition report_row :: "LatencyRecorder \<Rightarrow> string \<Rightarrow> (int \<times> float64 \<times> float64 \<times> float64) option" where
  "report_row r stage =
     (let n = SampleCount r stage
      in if n = 0 then None else Some (n, Percentile r stage 50, Percentile r stage 95, Percentile r stage 99))"

definition printReport :: "LatencyRecorder \<Rightarrow> (string \<times> (int \<times> float64 \<times> float64 \<times> float64) option) list \<times> bool" where
  "printReport r =
     (map (\<lambda>stage. (stage, report_row r stage)) [''glass_to_glass_ms'', ''session_setup_ms'', ''session_close_ms''],
      SampleCount r ''glass_to_glass_ms'' = 0)"

subsection \<open>The call adapter of the vSIP example\<close>

text \<open>
  \<open>pump\<close> over what its select receives: the end of the context, a frame, or the closed channel.
  \<open>None\<close>: it still waits. \<open>playback\<close> likewise, over the chunks.
\<close>

datatype 'a pump_event = PumpCtxDone | PumpItem 'a | PumpClosed

fun pump ::
  "('s \<Rightarrow> AudioFrame \<Rightarrow> unit result \<times> 's) \<Rightarrow> int \<Rightarrow> nat \<Rightarrow> 's \<Rightarrow> bytes pump_event list \<Rightarrow> (nat \<times> go_error option) option \<times> 's" where
  "pump push rate pushed s [] = (None, s)"
| "pump push rate pushed s (PumpCtxDone # evs) = (Some (pushed, Some ErrContext), s)"
| "pump push rate pushed s (PumpClosed # evs) = (Some (pushed, None), s)"
| "pump push rate pushed s (PumpItem pcm # evs) =
     (case push s \<lparr>af_PCM = pcm, af_SampleRate = rate, af_TimestampMS = 0\<rparr> of
        (Inl e, s1) \<Rightarrow> (Some (pushed, Some (ErrWrap (''pushing audio frame '' @ show_nat pushed) e)), s1)
      | (Inr _, s1) \<Rightarrow> pump push rate (Suc pushed) s1 evs)"

fun playback ::
  "(AudioChunk \<Rightarrow> go_error option) \<Rightarrow> nat \<Rightarrow> AudioChunk pump_event list \<Rightarrow> (nat \<times> go_error option) option \<times> AudioChunk list" where
  "playback out n_out [] = (None, [])"
| "playback out n_out (PumpCtxDone # evs) = (Some (n_out, Some ErrContext), [])"
| "playback out n_out (PumpClosed # evs) = (Some (n_out, None), [])"
| "playback out n_out (PumpItem chunk # evs) =
     (case out chunk of
        Some e \<Rightarrow> (Some (n_out, Some (ErrWrap (''delivering playback chunk '' @ show_nat n_out) e)), [])
      | None \<Rightarrow> (let (r, cs) = playback out (Suc n_out) evs in (r, chunk # cs)))"

text \<open>The example's RTP packets: version 2, payload type 0, big-endian fields.\<close>

definition be16 :: "u16 \<Rightarrow> bytes" where "be16 w = [hi8 w, lo8 w]"
definition be32 :: "u32 \<Rightarrow> bytes" where
  "be32 w = [ucast (drop_bit 24 w), ucast (drop_bit 16 w), ucast (drop_bit 8 w), ucast w]"

definition buildRawRTPPacket :: "u16 \<Rightarrow> u32 \<Rightarrow> u32 \<Rightarrow> bytes \<Rightarrow> bytes" where
  "buildRawRTPPacket seq ts ssrc payload = [0x80, 0x00] @ be16 seq @ be32 ts @ be32 ssrc @ payload"

lemma raw_packet_fields:
  "let p = buildRawRTPPacket seq ts ssrc payload
   in length p = 12 + length payload \<and> drop 12 p = payload \<and> u16_le (p ! 3) (p ! 2) = seq \<and> drop_bit 6 (p ! 0) = 2"
  by (simp add: buildRawRTPPacket_def be16_def be32_def Let_def)

subsection \<open>What the programs need of a session\<close>

locale call_session =
  fixes push :: "'s \<Rightarrow> AudioFrame \<Rightarrow> unit result \<times> 's"
    and close :: "'s \<Rightarrow> go_error option \<times> 's"
    and hears :: "'s \<Rightarrow> AudioChunk list \<times> bool"
    and live :: "'s \<Rightarrow> bool"
  assumes live_push: "live s \<Longrightarrow> fst (push s f) = Ok () \<and> live (snd (push s f))"
    and live_silent: "live s \<Longrightarrow> fst (hears s) = []"
    and live_close: "live s \<Longrightarrow> fst (close s) = None \<and> fst (hears (snd (close s))) \<noteq> []"
begin

lemma push_cases: "live s \<Longrightarrow> \<exists>s'. push s f = (Ok (), s') \<and> live s'"
  using live_push by (metis prod.collapse)

lemma demo_speaks:
  assumes "parse_flags demo_flag_set args = Inr (fs, rest)"
    and "newSess (resolveBackend (flag_string fs ''backend'') (env envASRBackend)) (resolveBackend (flag_string fs ''backend'') (env envMTBackend))
           (resolveBackend (flag_string fs ''backend'') (env envTTSBackend)) ''hi'' ''en'' = Ok s" "live s"
  shows "\<exists>c. runDemo newSess push close hears env args = Ok c"
proof -
  obtain s1 where p: "push s demo_frame = (Ok (), s1)" "live s1" using push_cases [OF assms(3)] by blast
  obtain s2 where c: "close s1 = (None, s2)" "fst (hears s2) \<noteq> []" using live_close [OF p(2)] by (metis prod.collapse)
  obtain ch chs x where "hears s2 = (ch # chs, x)" using c(2) by (metis list.exhaust prod.collapse)
  then show ?thesis using assms(1,2) p c by (simp add: runDemo_def)
qed

lemma iteration_misses:
  assumes "case newSess of Inl e \<Rightarrow> True | Inr s \<Rightarrow> live s"
  shows "\<exists>err calls. run_iteration rate newSess push hears n ts = ((False, err), calls) \<and> (err = None \<longleftrightarrow> is_ok newSess)
    \<and> list_all (\<lambda>c. \<forall>v. c \<noteq> CallRecord ''glass_to_glass_ms'' v) calls
    \<and> count_list (map (\<lambda>c. \<exists>v. c = CallRecord ''session_setup_ms'' v) calls) True = 1"
proof (cases newSess)
  case (Inr s)
  then obtain s1 where "push s (benchmark_frame rate n) = (Ok (), s1)" "live s1" using push_cases assms by force
  then show ?thesis using Inr live_silent by (simp add: run_iteration_def Let_def)
qed (simp add: run_iteration_def Let_def)

lemma pump_pushes_all:
  "live s \<Longrightarrow> fst (pump push rate n s (map PumpItem pcms @ PumpClosed # evs)) = Some (n + length pcms, None)
     \<and> live (snd (pump push rate n s (map PumpItem pcms @ PumpClosed # evs)))"
proof (induction pcms arbitrary: n s)
  case (Cons pcm pcms)
  obtain s1 where "push s \<lparr>af_PCM = pcm, af_SampleRate = rate, af_TimestampMS = 0\<rparr> = (Ok (), s1)" "live s1"
    using push_cases [OF Cons.prems] by blast
  then show ?case using Cons.IH [of s1 "Suc n"] by simp
qed simp

end

subsection \<open>The mock session provides it\<close>

definition leg_live :: "leg_sys \<times> mockStreamSession \<Rightarrow> bool" where
  "leg_live x \<longleftrightarrow> ls_phase (fst x) = LegRunning \<and> ls_out (fst x) = [] \<and> \<not> ms_closed (snd x)"

definition mock_live :: "mock_session \<Rightarrow> bool" where
  "mock_live m \<longleftrightarrow> leg_live (mk_callerLeg m, mk_callerASR m) \<and> leg_live (mk_agentLeg m, mk_agentASR m) \<and> \<not> mk_closed m"

lemma hear_partials [simp]: "list_all (\<lambda>tr. \<not> tr_IsFinal tr) trs \<Longrightarrow> hear_transcripts b c t s trs = s"
  by (induction trs) (simp_all add: hear_transcripts_def leg_run_def)

lemma push_leg_live:
  assumes "leg_live x"
  shows "\<exists>leg asr. push_leg b c t f x = (Ok (), leg, asr) \<and> leg_live (leg, asr)"
proof -
  obtain r trs asr where p: "mock_PushAudio False f (snd x) = (r, trs, asr)" by (cases "mock_PushAudio False f (snd x)")
  then have "r = Ok ()" "list_all (\<lambda>tr. \<not> tr_IsFinal tr) trs" "\<not> ms_closed asr"
    using assms by (auto simp: mock_PushAudio_def leg_live_def buildTranscript_def Let_def split: if_splits)
  then show ?thesis using assms p by (simp add: push_leg_def leg_live_def)
qed

lemma mock_env_heard: "heard c (mock_env b t) tr leg \<noteq> []"
  by (auto simp: heard_def mock_env_def mock_Translate_def mock_SynthesizeStream_def up_to_first_final_def Let_def
      split: sum.split list.split)

lemma close_leg_speaks:
  assumes "leg_live x"
  shows "ls_out (fst (close_leg b c t x)) \<noteq> []"
proof -
  obtain tr asr where m: "mock_Close (snd x) = ([tr], asr)" "tr_IsFinal tr"
    using assms by (auto simp: mock_Close_def leg_live_def buildTranscript_def Let_def)
  define s where "s = hear_transcripts b c t (fst x) [tr]"
  have e: "ue_budget (mock_env b t) = None" by (simp add: mock_env_def)
  have "ls_out s = heard c (mock_env b t) tr (ls_leg (fst x)) \<and> ls_phase s = LegRunning"
    using assms m(2) handle_final_None [OF e, of c tr "fst x"]
    by (simp add: s_def hear_transcripts_def leg_run_def leg_live_def split_beta)
  then have "ls_out (leg_step c s (TranscriptsClosed True None t)) \<noteq> []" using mock_env_heard by (simp add: asr_stream_closed_def)
  then show ?thesis using m by (simp add: close_leg_def s_def)
qed

interpretation mks: call_session "mock_pushCaller t" "mock_session_Close t" mock_AgentHears mock_live
proof
  fix s f assume l: "mock_live s"
  obtain leg asr where "push_leg (mk_backends s) (mk_callerCfg s) t f (mk_callerLeg s, mk_callerASR s) = (Ok (), leg, asr)" "leg_live (leg, asr)"
    using push_leg_live [of "(mk_callerLeg s, mk_callerASR s)" "mk_backends s" "mk_callerCfg s" t f] l
    unfolding mock_live_def by blast
  then show "fst (mock_pushCaller t s f) = Ok () \<and> mock_live (snd (mock_pushCaller t s f))"
    using l by (simp add: mock_pushCaller_def mock_live_def)
next
  fix s assume l: "mock_live s"
  then show "fst (mock_AgentHears s) = []" by (simp add: mock_live_def leg_live_def mock_AgentHears_def)
  have "ls_out (fst (close_leg (mk_backends s) (mk_callerCfg s) t (mk_callerLeg s, mk_callerASR s))) \<noteq> []"
    using l by (intro close_leg_speaks) (simp add: mock_live_def)
  then show "fst (mock_session_Close t s) = None \<and> fst (mock_AgentHears (snd (mock_session_Close t s))) \<noteq> []"
    using l by (simp add: mock_session_Close_def mock_live_def mock_AgentHears_def split_beta)
qed

lemma new_mock_session_live: "new_mock_session b cl al = Ok m \<Longrightarrow> mock_live m"
  by (auto simp: new_mock_session_def NewSession_def session_config_def session_validate_def mock_StartStream_def
      mock_live_def leg_live_def new_leg_def Let_def split: if_splits)

subsection \<open>The demo and the benchmark with the mocks\<close>

text \<open>The subcommand functions \<open>main\<close> calls; the demo is the one with the mocks in the registry.\<close>

definition mock_newSess ::
  "(language list, (language \<times> language) list, language list) backendRegistry
   \<Rightarrow> string \<Rightarrow> string \<Rightarrow> string \<Rightarrow> language \<Rightarrow> language \<Rightarrow> mock_session result" where
  "mock_newSess reg = cli_newSession reg (\<lambda>a t s. new_mock_session \<lparr>mb_asr = a, mb_mt = t, mb_tts = s\<rparr>)"

definition registered_registry :: "(language list, (language \<times> language) list, language list) backendRegistry" where
  "registered_registry = newBackendRegistry (mb_asr registered_mocks) (mb_mt registered_mocks) (mb_tts registered_mocks)"

definition mock_subcommands ::
  "(language list, (language \<times> language) list, language list) backendRegistry \<Rightarrow> (string \<Rightarrow> string) \<Rightarrow> instant
   \<Rightarrow> (string \<Rightarrow> string list \<Rightarrow> go_error option option) \<Rightarrow> string \<Rightarrow> string list \<Rightarrow> go_error option option" where
  "mock_subcommands reg env t others sub args =
     (if sub = ''demo''
      then Some (case runDemo (mock_newSess reg) (mock_pushCaller t) (mock_session_Close t) mock_AgentHears env args of
                   Inl e \<Rightarrow> Some e | Inr c \<Rightarrow> None)
      else others sub args)"

lemma mock_newSess_mock:
  "mock_newSess (register_vendors d s g m c e registered_registry) BackendMock BackendMock BackendMock cl al
     = map_sum (ErrWrap ''creating session'') id (new_mock_session registered_mocks cl al)"
  by (auto simp: mock_newSess_def cli_newSession_def registered_registry_def register_vendors_def newBackendRegistry_def
      newASR_def newTranslator_def newTTS_def registerASR_def registerTranslator_def registerTTS_def BackendMock_def
      registered_mocks_def split: sum.split)

lemma mock_session_hi_en: "\<exists>m. new_mock_session registered_mocks ''hi'' ''en'' = Ok m"
  by (simp add: new_mock_session_def NewSession_def session_config_def session_validate_def mock_StartStream_def
      registered_mocks_def NewMockRecognizer_def default_langs_def mock_supports_def Let_def)

text \<open>
  C28: The demo works out of the box. When flag and environment leave the choice of the three backends
  at the mocks, \<open>langstream demo\<close> hears audio and exits with 0, whatever the vendor backends would
  do; but asking a subcommand for help is reported as its failure, with exit code 1, while
  \<open>langstream help\<close> exits with 0.
\<close>
theorem demo_hears_audio:
  assumes "parse_flags demo_flag_set args = Inr (fs, rest)"
    and "map (\<lambda>v. resolveBackend (flag_string fs ''backend'') (env v)) [envASRBackend, envMTBackend, envTTSBackend]
           = [BackendMock, BackendMock, BackendMock]"
  shows "cli_main (mock_subcommands (register_vendors d s g m c e registered_registry) env t others) (prog # ''demo'' # args) = Some ([], 0)
    \<and> cli_main (mock_subcommands (register_vendors d s g m c e registered_registry) env t others) [prog, ''demo'', ''--help'']
        = Some ([PrintFailed ''demo'' (ErrNew ''flag: help requested'')], 1)
    \<and> cli_main (mock_subcommands (register_vendors d s g m c e registered_registry) env t others) [prog, ''help''] = Some ([PrintUsage], 0)"
proof -
  let ?n = "mock_newSess (register_vendors d s g m c e registered_registry)"
  obtain ms where ms: "new_mock_session registered_mocks ''hi'' ''en'' = Ok ms" using mock_session_hi_en by blast
  then have "?n (resolveBackend (flag_string fs ''backend'') (env envASRBackend)) (resolveBackend (flag_string fs ''backend'') (env envMTBackend))
      (resolveBackend (flag_string fs ''backend'') (env envTTSBackend)) ''hi'' ''en'' = Ok ms"
    using assms(2) by (simp add: mock_newSess_mock)
  from mks.demo_speaks [where newSess = ?n and env = env and t = t, OF assms(1) this new_mock_session_live [OF ms]]
  obtain ch where "runDemo ?n (mock_pushCaller t) (mock_session_Close t) mock_AgentHears env args = Ok ch" by blast
  moreover have "runDemo ?n (mock_pushCaller t) (mock_session_Close t) mock_AgentHears env [''--help''] = Err (ErrNew ''flag: help requested'')"
    by (simp add: runDemo_def demo_flag_set_def flag_token_def name_token_def flag_message_def)
  ultimately show ?thesis by (simp add: cli_main_def mock_subcommands_def)
qed

theorem demo_hears_audio_witness:
  "cli_main (mock_subcommands (register_vendors (Err ErrContext) (Err ErrContext) (Err ErrContext) (Err ErrContext) (Err ErrContext)
      (Err ErrContext) registered_registry) (\<lambda>v. []) 0 (\<lambda>s a. None)) [''langstream'', ''demo''] = Some ([], 0)"
proof -
  have "parse_flags demo_flag_set [] = Inr (demo_flag_set, [])" by simp
  from demo_hears_audio [OF this, of "\<lambda>v. []"] show ?thesis
    by (simp add: resolveBackend_def demo_flag_set_def flag_string_def)
qed

subsection \<open>The benchmark\<close>

fun records_stage :: "string \<Rightarrow> rec_call \<Rightarrow> bool" where
  "records_stage s (CallRecord s' v) \<longleftrightarrow> s = s'"
| "records_stage s _ \<longleftrightarrow> False"

lemma SampleCount_run: "SampleCount (foldl rec_apply r cs) s = SampleCount r s + count_calls (records_stage s) cs"
proof (induction cs arbitrary: r)
  case (Cons c cs)
  have "SampleCount (rec_apply r c) s = SampleCount r s + (if records_stage s c then 1 else 0)"
    by (cases c) (auto simp: rec_defs SampleCount_def)
  with Cons show ?case by simp
qed simp

definition silent_iteration :: "(bool \<times> go_error option) \<times> rec_call list \<Rightarrow> bool" where
  "silent_iteration x \<longleftrightarrow> \<not> fst (fst x) \<and> count_calls (records_stage ''glass_to_glass_ms'') (snd x) = 0
     \<and> count_calls (records_stage ''session_setup_ms'') (snd x) = 1"

lemma count_iteration_silent:
  "list_all silent_iteration xs \<Longrightarrow>
     (let b' = foldl count_iteration b xs
      in bm_hits b' = bm_hits b \<and> bm_misses b' + bm_errs b' = bm_misses b + bm_errs b + int (length xs)
         \<and> SampleCount (bm_rec b') ''glass_to_glass_ms'' = SampleCount (bm_rec b) ''glass_to_glass_ms''
         \<and> SampleCount (bm_rec b') ''session_setup_ms'' = SampleCount (bm_rec b) ''session_setup_ms'' + int (length xs))"
proof (induction xs arbitrary: b)
  case (Cons x xs)
  have one: "bm_hits (count_iteration b x) = bm_hits b
      \<and> bm_misses (count_iteration b x) + bm_errs (count_iteration b x) = bm_misses b + bm_errs b + 1
      \<and> SampleCount (bm_rec (count_iteration b x)) ''glass_to_glass_ms'' = SampleCount (bm_rec b) ''glass_to_glass_ms''
      \<and> SampleCount (bm_rec (count_iteration b x)) ''session_setup_ms'' = SampleCount (bm_rec b) ''session_setup_ms'' + 1"
    using Cons.prems by (auto simp: count_iteration_def silent_iteration_def SampleCount_run Let_def split_beta)
  show ?case using Cons.IH [of "count_iteration b x"] Cons.prems one by (simp add: Let_def)
qed (simp add: Let_def)

lemma iteration_silent:
  assumes "case newSess of Inl e \<Rightarrow> True | Inr s \<Rightarrow> mock_live s"
  shows "silent_iteration (run_iteration rate newSess (mock_pushCaller t) mock_AgentHears n ts)"
proof -
  have "count_calls (records_stage ''glass_to_glass_ms'') calls = 0"
    if "list_all (\<lambda>c. \<forall>v. c \<noteq> CallRecord ''glass_to_glass_ms'' v) calls" for calls
    using that by (induction calls) (auto elim: records_stage.elims)
  moreover have "count_calls (records_stage ''session_setup_ms'') calls
      = int (count_list (map (\<lambda>c. \<exists>v. c = CallRecord ''session_setup_ms'' v) calls) True)" for calls
    by (induction calls) (auto elim: records_stage.elims)
  ultimately show ?thesis using mks.iteration_misses [OF assms, where rate = rate and n = n and ts = ts and t = t] by (auto simp: silent_iteration_def)
qed

text \<open>
  C38: The benchmark never measures its main figure. With the mock backends, for any number of
  iterations, frame sizes, languages and timeouts, no iteration is a hit and no end-to-end sample is
  recorded, although every iteration that gets a session records its setup; the same session makes
  the audio available once it is closed, which each iteration does only after it has given up.
\<close>
theorem benchmark_never_hits:
  "let sess = new_mock_session (benchmark_mocks callerLang agentLang) callerLang agentLang;
       b = run_benchmark t0 (map (\<lambda>i. runIteration sess (mock_pushCaller t) mock_AgentHears (pcmBytes i) (ts i)) [0..<n])
   in bm_hits b = 0 \<and> bm_misses b + bm_errs b = int n
      \<and> SampleCount (bm_rec b) ''glass_to_glass_ms'' = 0 \<and> SampleCount (bm_rec b) ''session_setup_ms'' = int n
      \<and> snd (printReport (bm_rec b))
      \<and> (case sess of Inl e \<Rightarrow> True | Inr m \<Rightarrow> fst (mock_AgentHears (snd (mock_session_Close t m))) \<noteq> [])"
proof -
  let ?sess = "new_mock_session (benchmark_mocks callerLang agentLang) callerLang agentLang"
  have live: "case ?sess of Inl e \<Rightarrow> True | Inr s \<Rightarrow> mock_live s" using new_mock_session_live by (auto split: sum.split)
  have "list_all silent_iteration (map (\<lambda>i. runIteration ?sess (mock_pushCaller t) mock_AgentHears (pcmBytes i) (ts i)) [0..<n])"
    using iteration_silent [OF live] by (simp add: list_all_iff runIteration_def)
  from count_iteration_silent [OF this, of "\<lparr>bm_hits = 0, bm_misses = 0, bm_errs = 0, bm_rec = NewLatencyRecorder t0\<rparr>"]
  have c: "bm_hits b = 0 \<and> bm_misses b + bm_errs b = int n \<and> SampleCount (bm_rec b) ''glass_to_glass_ms'' = 0
      \<and> SampleCount (bm_rec b) ''session_setup_ms'' = int n"
    if "b = run_benchmark t0 (map (\<lambda>i. runIteration ?sess (mock_pushCaller t) mock_AgentHears (pcmBytes i) (ts i)) [0..<n])" for b
    using that by (simp add: run_benchmark_def Let_def SampleCount_def NewLatencyRecorder_def al_get_def)
  moreover have "case ?sess of Inl e \<Rightarrow> True | Inr m \<Rightarrow> fst (mock_AgentHears (snd (mock_session_Close t m))) \<noteq> []"
    using live mks.live_close [of _ t] by (auto split: sum.split)
  ultimately show ?thesis by (simp add: Let_def printReport_def)
qed

end
