(* ===== verification/Examples.thy ===== *)
theory Examples
  imports EndToEnd
begin

section \<open>Calls in both directions (examples/backend_selection, examples/vsip_example)\<close>

text \<open>
  The two example programs that talk on both legs of a session: the one that selects its backends
  from the environment, and the in-process part of the vSIP example with its pumps. A line that the
  program logs before it exits is its error.
\<close>

subsection \<open>Selection from the environment\<close>

definition backendFromEnv :: "(string \<Rightarrow> string) \<Rightarrow> string \<Rightarrow> string" where
  "backendFromEnv env envVar = (if env envVar \<noteq> [] then env envVar else BackendMock)"

lemma backendFromEnv_resolves: "backendFromEnv env v = resolveBackend [] (env v)"
  by (simp add: backendFromEnv_def resolveBackend_def)

definition first_chunk :: "string \<Rightarrow> AudioChunk list \<times> bool \<Rightarrow> AudioChunk result" where
  "first_chunk leg x =
     (case x of (c # cs, _) \<Rightarrow> Ok c
      | ([], True) \<Rightarrow> Err (ErrNew (leg @ '' audio channel closed with no output''))
      | ([], False) \<Rightarrow> Err (ErrNew (''no audio produced for the '' @ leg @ '' leg'')))"

text \<open>\<open>newSess\<close> looks the three names up and makes the session; the result is what each leg hears.\<close>

definition backend_selection ::
  "(string \<Rightarrow> string \<Rightarrow> string \<Rightarrow> language \<Rightarrow> language \<Rightarrow> 's result)
   \<Rightarrow> ('s \<Rightarrow> AudioFrame \<Rightarrow> unit result \<times> 's) \<Rightarrow> ('s \<Rightarrow> AudioFrame \<Rightarrow> unit result \<times> 's) \<Rightarrow> ('s \<Rightarrow> go_error option \<times> 's)
   \<Rightarrow> ('s \<Rightarrow> AudioChunk list \<times> bool) \<Rightarrow> ('s \<Rightarrow> AudioChunk list \<times> bool) \<Rightarrow> (string \<Rightarrow> string) \<Rightarrow> (AudioChunk \<times> AudioChunk) result" where
  "backend_selection newSess pushCaller pushAgent close agentHears callerHears env =
     (case newSess (backendFromEnv env envASRBackend) (backendFromEnv env envMTBackend) (backendFromEnv env envTTSBackend) ''hi'' ''en'' of
        Inl e \<Rightarrow> Err e
      | Inr s \<Rightarrow>
        (case pushCaller s demo_frame of
           (Inl e, s1) \<Rightarrow> Err (ErrWrap ''pushing caller audio'' e)
         | (Inr _, s1) \<Rightarrow>
           (case pushAgent s1 demo_frame of
              (Inl e, s2) \<Rightarrow> Err (ErrWrap ''pushing agent audio'' e)
            | (Inr _, s2) \<Rightarrow>
              (case close s2 of
                 (Some e, s3) \<Rightarrow> Err (ErrWrap ''closing session'' e)
               | (None, s3) \<Rightarrow>
                 (case first_chunk ''agent'' (agentHears s3) of
                    Inl e \<Rightarrow> Err e
                  | Inr c \<Rightarrow>
                    (case first_chunk ''caller'' (callerHears s3) of Inl e \<Rightarrow> Err e | Inr c' \<Rightarrow> Ok (c, c')))))))"

subsection \<open>The vSIP example\<close>

definition newDemoSession ::
  "('asr, 'mt, 'tts) backendRegistry \<Rightarrow> ('asr \<Rightarrow> 'mt \<Rightarrow> 'tts \<Rightarrow> language \<Rightarrow> language \<Rightarrow> 's result) \<Rightarrow> 's result" where
  "newDemoSession reg mk =
     (case newASR reg BackendMock of
        Inl e \<Rightarrow> Err (ErrWrap ''selecting ASR backend'' e)
      | Inr a \<Rightarrow>
        (case newTranslator reg BackendMock of
           Inl e \<Rightarrow> Err (ErrWrap ''selecting MT backend'' e)
         | Inr t \<Rightarrow>
           (case newTTS reg BackendMock of
              Inl e \<Rightarrow> Err (ErrWrap ''selecting TTS backend'' e)
            | Inr s \<Rightarrow> mk a t s ''hi'' ''en'')))"

text \<open>What the channel of the simulated source delivers.\<close>

definition fakeAudioSource :: "nat \<Rightarrow> bytes pump_event list" where
  "fakeAudioSource n = map PumpItem (replicate n (replicate 320 0)) @ [PumpClosed]"

text \<open>
  The in-process part of \<open>main\<close>: both pumps, \<open>Close\<close>, and the two playback loops, which by then see
  what the legs hear and the closed channels. The result has the frames pushed and the chunks
  delivered on each side. The context is not cancelled before.
\<close>

record vsip_report =
  vr_pushedCaller :: nat
  vr_pushedAgent :: nat
  vr_agentDelivered :: nat
  vr_callerDelivered :: nat

definition drained :: "(AudioChunk \<Rightarrow> go_error option) \<Rightarrow> AudioChunk list \<Rightarrow> nat" where
  "drained out cs = (case fst (playback out 0 (map PumpItem cs @ [PumpClosed])) of None \<Rightarrow> 0 | Some (n, _) \<Rightarrow> n)"

definition vsip_shape ::
  "'s result \<Rightarrow> ('s \<Rightarrow> AudioFrame \<Rightarrow> unit result \<times> 's) \<Rightarrow> ('s \<Rightarrow> AudioFrame \<Rightarrow> unit result \<times> 's) \<Rightarrow> ('s \<Rightarrow> go_error option \<times> 's)
   \<Rightarrow> ('s \<Rightarrow> AudioChunk list \<times> bool) \<Rightarrow> ('s \<Rightarrow> AudioChunk list \<times> bool) \<Rightarrow> vsip_report result" where
  "vsip_shape newSess pushCaller pushAgent close agentHears callerHears =
     (case newSess of
        Inl e \<Rightarrow> Err (ErrWrap ''creating session'' e)
      | Inr s \<Rightarrow>
        (case pump pushCaller 8000 0 s (fakeAudioSource 1) of
           (Some (n, None), s1) \<Rightarrow>
             (case pump pushAgent 8000 0 s1 (fakeAudioSource 1) of
                (Some (n', None), s2) \<Rightarrow>
                  (case close s2 of
                     (Some e, s3) \<Rightarrow> Err (ErrWrap ''closing session'' e)
                   | (None, s3) \<Rightarrow>
                       Ok \<lparr>vr_pushedCaller = n, vr_pushedAgent = n',
                           vr_agentDelivered = drained (\<lambda>c. None) (fst (agentHears s3)),
                           vr_callerDelivered = drained (\<lambda>c. None) (fst (callerHears s3))\<rparr>)
              | (Some (n', Some e), s2) \<Rightarrow> Err (ErrWrap ''pumping agent audio'' e)
              | (None, s2) \<Rightarrow> Err ErrContext)
         | (Some (n, Some e), s1) \<Rightarrow> Err (ErrWrap ''pumping caller audio'' e)
         | (None, s1) \<Rightarrow> Err ErrContext))"

lemma playback_all: "fst (playback (\<lambda>c. None) n (map PumpItem cs @ [PumpClosed])) = Some (n + length cs, None)"
  by (induction cs arbitrary: n) (simp_all add: Let_def split_beta)

lemma drained_all [simp]: "drained (\<lambda>c. None) cs = length cs"
  by (simp add: drained_def playback_all)

text \<open>Playback delivers a prefix of the chunks, in order, and stops at the first that fails.\<close>

lemma playback_prefix:
  "playback out n (map PumpItem cs @ [PumpClosed]) = (res, ds) \<Longrightarrow>
     (\<exists>rest. cs = ds @ rest \<and> (rest = [] \<or> out (hd rest) \<noteq> None)) \<and> list_all (\<lambda>c. out c = None) ds
     \<and> (\<exists>err. res = Some (n + length ds, err) \<and> (err = None \<longleftrightarrow> length ds = length cs))"
proof (induction cs arbitrary: n res ds)
  case (Cons c cs)
  show ?case
  proof (cases "out c")
    case None
    obtain r ds' where p: "playback out (Suc n) (map PumpItem cs @ [PumpClosed]) = (r, ds')" by fastforce
    with Cons.prems None have "res = r" "ds = c # ds'" by simp_all
    with Cons.IH [OF p] None show ?thesis by auto
  qed (use Cons.prems in auto)
qed simp

subsection \<open>Both directions at once\<close>

text \<open>One session, with a live pipeline from each side to the other.\<close>

locale duplex_call = clr: call_session pushCaller close agentHears live + agt: call_session pushAgent close callerHears live
  for pushCaller pushAgent :: "'s \<Rightarrow> AudioFrame \<Rightarrow> unit result \<times> 's"
    and close :: "'s \<Rightarrow> go_error option \<times> 's"
    and agentHears callerHears :: "'s \<Rightarrow> AudioChunk list \<times> bool"
    and live :: "'s \<Rightarrow> bool"
begin

lemma heard_after_close:
  "live s \<Longrightarrow> \<exists>s' c cs x c' cs' x'. close s = (None, s') \<and> agentHears s' = (c # cs, x) \<and> callerHears s' = (c' # cs', x')"
  using clr.live_close [of s] agt.live_close [of s] by (metis list.exhaust prod.collapse)

lemma selection_speaks:
  assumes "newSess (backendFromEnv env envASRBackend) (backendFromEnv env envMTBackend) (backendFromEnv env envTTSBackend) ''hi'' ''en'' = Ok s"
    and "live s"
  shows "is_ok (backend_selection newSess pushCaller pushAgent close agentHears callerHears env)"
proof -
  obtain s1 where p: "pushCaller s demo_frame = (Ok (), s1)" "live s1" using clr.push_cases [OF assms(2)] by blast
  obtain s2 where q: "pushAgent s1 demo_frame = (Ok (), s2)" "live s2" using agt.push_cases [OF p(2)] by blast
  from heard_after_close [OF q(2)] p q assms(1) show ?thesis by (auto simp: backend_selection_def first_chunk_def)
qed

lemma vsip_both_legs:
  assumes "newSess = Ok s" "live s"
  shows "\<exists>r. vsip_shape newSess pushCaller pushAgent close agentHears callerHears = Ok r
    \<and> vr_pushedCaller r = 1 \<and> vr_pushedAgent r = 1 \<and> 0 < vr_agentDelivered r \<and> 0 < vr_callerDelivered r"
proof -
  obtain s1 where p: "pump pushCaller 8000 0 s (fakeAudioSource 1) = (Some (1, None), s1)" "live s1"
    using clr.pump_pushes_all [OF assms(2), of 8000 0 "[replicate 320 0]" "[]"] unfolding fakeAudioSource_def
    by (metis One_nat_def add_0 length_Cons length_replicate list.size(3) prod.collapse replicate_0 replicate_Suc)
  obtain s2 where q: "pump pushAgent 8000 0 s1 (fakeAudioSource 1) = (Some (1, None), s2)" "live s2"
    using agt.pump_pushes_all [OF p(2), of 8000 0 "[replicate 320 0]" "[]"] unfolding fakeAudioSource_def
    by (metis One_nat_def add_0 length_Cons length_replicate list.size(3) prod.collapse replicate_0 replicate_Suc)
  from heard_after_close [OF q(2)] p q assms(1) show ?thesis by (auto simp: vsip_shape_def)
qed

end

interpretation mkd: duplex_call "mock_pushCaller t" "mock_pushAgent t" "mock_session_Close t" mock_AgentHears mock_CallerHears mock_live
proof
  fix s f assume l: "mock_live s"
  obtain leg asr where "push_leg (mk_backends s) (mk_agentCfg s) t f (mk_agentLeg s, mk_agentASR s) = (Ok (), leg, asr)" "leg_live (leg, asr)"
    using push_leg_live [of "(mk_agentLeg s, mk_agentASR s)" "mk_backends s" "mk_agentCfg s" t f] l
    unfolding mock_live_def by blast
  then show "fst (mock_pushAgent t s f) = Ok () \<and> mock_live (snd (mock_pushAgent t s f))"
    using l by (simp add: mock_pushAgent_def mock_live_def)
next
  fix s assume l: "mock_live s"
  then show "fst (mock_CallerHears s) = []" by (simp add: mock_live_def leg_live_def mock_CallerHears_def)
  have "ls_out (fst (close_leg (mk_backends s) (mk_agentCfg s) t (mk_agentLeg s, mk_agentASR s))) \<noteq> []"
    using l by (intro close_leg_speaks) (simp add: mock_live_def)
  then show "fst (mock_session_Close t s) = None \<and> fst (mock_CallerHears (snd (mock_session_Close t s))) \<noteq> []"
    using l by (simp add: mock_session_Close_def mock_live_def mock_CallerHears_def split_beta)
qed

text \<open>
  Both example programs work out of the box, whatever the vendor backends would do. With no
  backend named in the environment each leg of \<open>backend_selection\<close> hears audio, and the vSIP example
  pushes one frame on each leg and delivers at least one chunk to each.
\<close>
theorem examples_heard_on_both_legs:
  "is_ok (backend_selection (mock_newSess (register_vendors d s g m c e registered_registry)) (mock_pushCaller t) (mock_pushAgent t)
      (mock_session_Close t) mock_AgentHears mock_CallerHears (\<lambda>v. []))
   \<and> (\<exists>r. vsip_shape (newDemoSession (register_vendors d s g m c e registered_registry)
              (\<lambda>a t s. new_mock_session \<lparr>mb_asr = a, mb_mt = t, mb_tts = s\<rparr>))
            (mock_pushCaller t) (mock_pushAgent t) (mock_session_Close t) mock_AgentHears mock_CallerHears = Ok r
        \<and> vr_pushedCaller r = 1 \<and> vr_pushedAgent r = 1 \<and> 0 < vr_agentDelivered r \<and> 0 < vr_callerDelivered r)"
proof -
  obtain ms where ms: "new_mock_session registered_mocks ''hi'' ''en'' = Ok ms" using mock_session_hi_en by blast
  note live = new_mock_session_live [OF ms]
  have "mock_newSess (register_vendors d s g m c e registered_registry) (backendFromEnv (\<lambda>v. []) envASRBackend)
      (backendFromEnv (\<lambda>v. []) envMTBackend) (backendFromEnv (\<lambda>v. []) envTTSBackend) ''hi'' ''en'' = Ok ms"
    by (simp add: backendFromEnv_def mock_newSess_mock ms)
  note a = mkd.selection_speaks [where env = "\<lambda>v. []" and newSess = "mock_newSess (register_vendors d s g m c e registered_registry)" and t = t, OF this live]
  have "newDemoSession (register_vendors d s g m c e registered_registry) (\<lambda>a t s. new_mock_session \<lparr>mb_asr = a, mb_mt = t, mb_tts = s\<rparr>) = Ok ms"
    using ms by (simp add: newDemoSession_def registered_registry_def register_vendors_def newBackendRegistry_def
        newASR_def newTranslator_def newTTS_def registerASR_def registerTranslator_def registerTTS_def BackendMock_def registered_mocks_def)
  from mkd.vsip_both_legs [OF this live] have b: "\<exists>r. vsip_shape (newDemoSession (register_vendors d s g m c e registered_registry)
              (\<lambda>a t s. new_mock_session \<lparr>mb_asr = a, mb_mt = t, mb_tts = s\<rparr>))
            (mock_pushCaller t) (mock_pushAgent t) (mock_session_Close t) mock_AgentHears mock_CallerHears = Ok r
        \<and> vr_pushedCaller r = 1 \<and> vr_pushedAgent r = 1 \<and> 0 < vr_agentDelivered r \<and> 0 < vr_callerDelivered r" .
  show ?thesis using a b by blast
qed

end
