(* ===== verification/Corpus.thy ===== *)
theory Corpus
  imports Qa
begin

section \<open>The evaluation corpora (pkg/qa/corpus.go)\<close>

text \<open>
  The fixed pairs of reference and hypothesis that exercise the word error rate, as the code lists
  them, in parts of about 150 source lines. Strings are UTF-8 bytes. The rates that the corpus's
  documentation computes by hand are proved of the model of \<open>WordErrorRate\<close> for every entry.
\<close>

subsection \<open>Deciding a distance\<close>

text \<open>Whether the distance is at most \<open>k\<close>: common ends cost nothing, and each edit uses up one.\<close>

fun near :: "nat \<Rightarrow> 'w list \<Rightarrow> 'w list \<Rightarrow> bool" where
  "near k [] ys = (length ys \<le> k)"
| "near k (x # xs) [] = (length xs < k)"
| "near k (x # xs) (y # ys) =
     (if x = y then near k xs ys
      else case k of 0 \<Rightarrow> False
           | Suc j \<Rightarrow> near j xs ys \<or> near j xs (y # ys) \<or> near j (x # xs) ys)"

lemma near_levr: "near k xs ys \<longleftrightarrow> levr xs ys \<le> k"
  by (induction k xs ys rule: near.induct) (auto split: nat.split)

definition exactly :: "nat \<Rightarrow> 'w list \<Rightarrow> 'w list \<Rightarrow> bool" where
  "exactly d xs ys \<longleftrightarrow> near d xs ys \<and> (case d of 0 \<Rightarrow> True | Suc k \<Rightarrow> \<not> near k xs ys)"

lemma exactly_levr: "exactly d xs ys \<longleftrightarrow> levr xs ys = d"
  by (cases d) (auto simp: exactly_def near_levr)

subsection \<open>Reading off the words\<close>

text \<open>White space by its bits, and the words with the current one reversed, for evaluation.\<close>

fun blank :: "char \<Rightarrow> bool" where
  "blank (Char b0 b1 b2 b3 b4 b5 b6 b7) =
     (if b6 then False else if b7 then False else if b4 then False
      else if b5 then \<not> b0 \<and> \<not> b1 \<and> \<not> b2 \<and> \<not> b3
      else b3 \<and> (if b2 then \<not> b1 else b0 \<or> b1))"

lemma blank_spaces: "blank c \<longleftrightarrow> c \<in> {CHR '' '', CHR 0x09, CHR 0x0A, CHR 0x0B, CHR 0x0C, CHR 0x0D}"
  by (cases c) auto

fun words_of :: "string \<Rightarrow> string \<Rightarrow> string list" where
  "words_of cur [] = (if cur = [] then [] else [rev cur])"
| "words_of cur (c # cs) =
     (if blank c then (if cur = [] then words_of [] cs else rev cur # words_of [] cs) else words_of (c # cur) cs)"

lemma fields_from_words: "fields_from (rev cur) s = words_of cur s"
proof (induction s arbitrary: cur)
  case (Cons c s)
  show ?case using Cons [of "c # cur"] Cons [of "[]"] by (simp only: fields_from.simps words_of.simps blank_spaces [symmetric]) simp
qed simp

lemma fields_words: "Qa.fields s = words_of [] s"
  using fields_from_words [of "[]" s] by (simp add: Qa.fields_def)

subsection \<open>The entries\<close>

record CorpusEntry =
  ce_Name :: string
  ce_Language :: language
  ce_Reference :: string
  ce_Hypothesis :: string
  ce_PCM :: bytes
  ce_SampleRate :: int

definition placeholderPCM :: bytes where "placeholderPCM = replicate 320 0"

text \<open>Every entry has the placeholder frame and its rate.\<close>

definition entry :: "string \<Rightarrow> language \<Rightarrow> string \<Rightarrow> string \<Rightarrow> CorpusEntry" where
  "entry name lang ref hyp =
     \<lparr>ce_Name = name, ce_Language = lang, ce_Reference = ref, ce_Hypothesis = hyp, ce_PCM = placeholderPCM,
      ce_SampleRate = 8000\<rparr>"

text \<open>An entry whose rate is \<open>d\<close> edits in \<open>n\<close> words; without a reference, the rate of a text is one.\<close>

definition rated :: "CorpusEntry \<Rightarrow> nat \<times> nat \<Rightarrow> bool" where
  "rated e x \<longleftrightarrow>
     (case Qa.fields (ce_Reference e) of
        [] \<Rightarrow> Qa.fields (ce_Hypothesis e) \<noteq> [] \<and> x = (1, 1)
      | w # ws \<Rightarrow> snd x = Suc (length ws) \<and> exactly (fst x) (rev (w # ws)) (rev (Qa.fields (ce_Hypothesis e))))"

lemma rated_rate: "rated e x \<Longrightarrow> WordErrorRate (ce_Reference e) (ce_Hypothesis e) = real (fst x) / real (snd x)"
  by (auto simp: rated_def WordErrorRate_def wordErrorRate_def wer_fill_distance exactly_levr Let_def simp del: rev.simps
      split: list.splits)

definition FixedCorpus_1 :: "CorpusEntry list" where
  "FixedCorpus_1 =
     [entry ''identical_greeting'' ''en''
        ''hello this is a test call''
        ''hello this is a test call'',
      entry ''one_word_substitution'' ''en''
        ''please confirm your account number''
        ''please confirm your account limit'',
      entry ''one_word_deletion'' ''en''
        ''i would like to cancel my subscription''
        ''i would like cancel my subscription'',
      entry ''hinglish_identical_order_status'' ''hi''
        ([CHR 0xE0, CHR 0xA4, CHR 0xAE, CHR 0xE0, CHR 0xA5, CHR 0x81, CHR 0xE0, CHR 0xA4, CHR 0x9D, CHR 0xE0,
          CHR 0xA5, CHR 0x87] @ '' '' @ [CHR 0xE0, CHR 0xA4, CHR 0x85, CHR 0xE0, CHR 0xA4, CHR 0xAA, CHR 0xE0,
          CHR 0xA4, CHR 0xA8, CHR 0xE0, CHR 0xA4, CHR 0xBE] @ '' order track '' @ [CHR 0xE0, CHR 0xA4, CHR 0x95,
          CHR 0xE0, CHR 0xA4, CHR 0xB0, CHR 0xE0, CHR 0xA4, CHR 0xA8, CHR 0xE0, CHR 0xA4,
          CHR 0xBE] @ '' '' @ [CHR 0xE0, CHR 0xA4, CHR 0xB9, CHR 0xE0, CHR 0xA5, CHR 0x88])
        ([CHR 0xE0, CHR 0xA4, CHR 0xAE, CHR 0xE0, CHR 0xA5, CHR 0x81, CHR 0xE0, CHR 0xA4, CHR 0x9D, CHR 0xE0,
          CHR 0xA5, CHR 0x87] @ '' '' @ [CHR 0xE0, CHR 0xA4, CHR 0x85, CHR 0xE0, CHR 0xA4, CHR 0xAA, CHR 0xE0,
          CHR 0xA4, CHR 0xA8, CHR 0xE0, CHR 0xA4, CHR 0xBE] @ '' order track '' @ [CHR 0xE0, CHR 0xA4, CHR 0x95,
          CHR 0xE0, CHR 0xA4, CHR 0xB0, CHR 0xE0, CHR 0xA4, CHR 0xA8, CHR 0xE0, CHR 0xA4,
          CHR 0xBE] @ '' '' @ [CHR 0xE0, CHR 0xA4, CHR 0xB9, CHR 0xE0, CHR 0xA5, CHR 0x88]),
      entry ''hinglish_one_word_substitution'' ''hi''
        ([CHR 0xE0, CHR 0xA4, CHR 0xAE, CHR 0xE0, CHR 0xA5, CHR 0x81, CHR 0xE0, CHR 0xA4, CHR 0x9D, CHR 0xE0,
          CHR 0xA5, CHR 0x87] @ '' '' @ [CHR 0xE0, CHR 0xA4, CHR 0x85, CHR 0xE0, CHR 0xA4, CHR 0xAA, CHR 0xE0,
          CHR 0xA4, CHR 0xA8, CHR 0xE0, CHR 0xA4, CHR 0xBE] @ '' order track '' @ [CHR 0xE0, CHR 0xA4, CHR 0x95,
          CHR 0xE0, CHR 0xA4, CHR 0xB0, CHR 0xE0, CHR 0xA4, CHR 0xA8, CHR 0xE0, CHR 0xA4,
          CHR 0xBE] @ '' '' @ [CHR 0xE0, CHR 0xA4, CHR 0xB9, CHR 0xE0, CHR 0xA5, CHR 0x88])
        ([CHR 0xE0, CHR 0xA4, CHR 0xAE, CHR 0xE0, CHR 0xA5, CHR 0x81, CHR 0xE0, CHR 0xA4, CHR 0x9D, CHR 0xE0,
          CHR 0xA5, CHR 0x87] @ '' '' @ [CHR 0xE0, CHR 0xA4, CHR 0x85, CHR 0xE0, CHR 0xA4, CHR 0xAA, CHR 0xE0,
          CHR 0xA4, CHR 0xA8, CHR 0xE0, CHR 0xA4, CHR 0xBE] @ '' order cancel '' @ [CHR 0xE0, CHR 0xA4, CHR 0x95,
          CHR 0xE0, CHR 0xA4, CHR 0xB0, CHR 0xE0, CHR 0xA4, CHR 0xA8, CHR 0xE0, CHR 0xA4,
          CHR 0xBE] @ '' '' @ [CHR 0xE0, CHR 0xA4, CHR 0xB9, CHR 0xE0, CHR 0xA5, CHR 0x88]),
      entry ''hinglish_one_word_deletion'' ''hi''
        (''please '' @ [CHR 0xE0, CHR 0xA4, CHR 0xAE, CHR 0xE0, CHR 0xA5, CHR 0x87, CHR 0xE0, CHR 0xA4, CHR 0xB0,
          CHR 0xE0, CHR 0xA4, CHR 0xBE] @ '' account balance check '' @ [CHR 0xE0, CHR 0xA4, CHR 0x95, CHR 0xE0,
          CHR 0xA4, CHR 0xB0] @ '' '' @ [CHR 0xE0, CHR 0xA4, CHR 0xA6, CHR 0xE0, CHR 0xA5, CHR 0x80, CHR 0xE0,
          CHR 0xA4, CHR 0x9C, CHR 0xE0, CHR 0xA4, CHR 0xBF, CHR 0xE0, CHR 0xA4, CHR 0x8F])
        (''please '' @ [CHR 0xE0, CHR 0xA4, CHR 0xAE, CHR 0xE0, CHR 0xA5, CHR 0x87, CHR 0xE0, CHR 0xA4, CHR 0xB0,
          CHR 0xE0, CHR 0xA4, CHR 0xBE] @ '' account balance '' @ [CHR 0xE0, CHR 0xA4, CHR 0x95, CHR 0xE0, CHR 0xA4,
          CHR 0xB0] @ '' '' @ [CHR 0xE0, CHR 0xA4, CHR 0xA6, CHR 0xE0, CHR 0xA5, CHR 0x80, CHR 0xE0, CHR 0xA4,
          CHR 0x9C, CHR 0xE0, CHR 0xA4, CHR 0xBF, CHR 0xE0, CHR 0xA4, CHR 0x8F]),
      entry ''hinglish_midsentence_switch_payment_status'' ''hi''
        ''sir aapka payment successful ho gaya hai lekin refund abhi pending hai''
        ''sir aapka payment successful ho gaya hai lekin refund abhi processing hai'',
      entry ''hinglish_loanword_recharge_request'' ''hi''
        ''mujhe apna internet connection recharge karwana hai''
        ''mujhe apna internet recharge karwana hai'',
      entry ''hinglish_numbers_bill_amount_and_date'' ''hi''
        ''aapka bill five hundred rupees hai jo pandrah tareekh ko due hai''
        ''aapka bill five hundred rupees hai jo solah tareekh ko due hai'',
      entry ''hinglish_order_number_spoken_in_english_digits'' ''hi''
        ''mera order number one two three four five hai''
        ''mera order number one two three for five hai'']"

definition FixedCorpus_2 :: "CorpusEntry list" where
  "FixedCorpus_2 =
     [entry ''hinglish_filler_words_address_update'' ''hi''
        ''matlab actually mujhe apna address update karna hai na''
        ''actually mujhe apna address update karna hai na'',
      entry ''hinglish_otp_request_insertion'' ''hi''
        ''sir please OTP bhej dijiye''
        ''sir please OTP OTP bhej dijiye'',
      entry ''hinglish_call_disconnect_network_issue'' ''hi''
        ''network issue ki wajah se call cut ho gaya tha''
        ''network issue ki wajah se call cut ho gaya tha'',
      entry ''hinglish_account_block_query_two_substitutions'' ''hi''
        ''sir mera account block ho gaya hai kya aap unblock kar sakte hain''
        ''sir mera account lock ho gaya hai kya aap unlock kar sakte hain'',
      entry ''hinglish_callback_request_deletion_and_filler'' ''hi''
        ''aap mujhe thodi der mein call back kar dijiyega please''
        ''aap mujhe thodi der mein call back kar dijiyega'',
      entry ''hinglish_two_word_deletion_travel_booking_confirmation'' ''hi''
        ''sir aapki flight booking confirm ho gayi hai ticket email par bhej diya''
        ''sir aapki flight booking confirm ho gayi hai ticket bhej diya'',
      entry ''hinglish_proper_noun_brand_substitution_recharge'' ''hi''
        ''sir mera Jio number recharge nahi ho raha''
        ''sir mera Airtel number recharge nahi ho raha'',
      entry ''hinglish_proper_noun_person_name_substitution_order'' ''hi''
        ''sir mera naam Rakesh Kumar hai order abhi tak nahi aaya''
        ''sir mera naam Rajesh Kumar hai order abhi tak nahi aaya'',
      entry ''hinglish_number_word_vs_digit_substitution'' ''hi''
        ''mera order teen din mein deliver ho jayega sir''
        ''mera order 3 din mein deliver ho jayega sir'']"

definition FixedCorpus_3 :: "CorpusEntry list" where
  "FixedCorpus_3 =
     [entry ''hinglish_long_utterance_single_deletion_callback'' ''hi''
        ''sir aap ki problem hum samajh gaye hain aur hum apni team ko inform kar denge taki wo aapko jaldi se jaldi callback kar sake''
        ''sir aap ki problem hum samajh gaye hain aur hum apni team ko inform kar denge taki wo aapko se jaldi callback kar sake'',
      entry ''hinglish_content_word_deletion_parcel_delivery_date'' ''hi''
        ''sir aapka parcel kal shaam tak aapke delivery address par pahunch jayega''
        ''sir aapka parcel kal tak aapke delivery address par pahunch jayega'',
      entry ''hinglish_insertion_hallucinated_filler_word'' ''hi''
        ''sir mera balance check kar dijiye please''
        ''sir mera balance check kar ke dijiye please'',
      entry ''english_dominant_embedded_hindi_courtesy_agent_transfer'' ''hi''
        ''let me transfer your call to another agent one moment please shukriya''
        ''let me transfer your call to agent one moment please shukriya'',
      entry ''hinglish_digit_sequence_deletion_account_number'' ''hi''
        ''sir mera account number one two three four five hai''
        ''sir mera account number one two four five hai'',
      entry ''hinglish_long_utterance_two_substitutions_refund_status'' ''hi''
        ''sir aapka refund process ho chuka hai lekin bank ki taraf se paise abhi tak transfer nahi hue''
        ''sir aapka refund complete ho chuka hai lekin bank ki taraf se paise abhi tak credit nahi hue'',
      entry ''hinglish_negation_deletion_service_unavailable'' ''hi''
        ''sir yeh service abhi available nahi hai''
        ''sir yeh service abhi available hai'',
      entry ''hinglish_acronym_kyc_homophone_substitution'' ''hi''
        ''sir aapka KYC update ho gaya hai''
        ''sir aapka casey update ho gaya hai'',
      entry ''hinglish_two_insertions_confirmation_repeat'' ''hi''
        ''sir aapka refund ho jayega''
        ''sir sir aapka refund ho ho jayega'']"

definition FixedCorpus_4 :: "CorpusEntry list" where
  "FixedCorpus_4 =
     [entry ''hinglish_acronym_ivr_homophone_substitution'' ''hi''
        ''call IVR ke through connect hua tha''
        ''call aivar ke through connect hua tha'',
      entry ''hinglish_long_utterance_two_deletions_kyc_document_submission'' ''hi''
        ''sir aapko apna KYC document branch mein ja kar submit karna hoga varna aapka account temporarily block ho sakta hai''
        ''sir aapko apna KYC document branch mein submit karna hoga varna aapka account temporarily block ho sakta hai'',
      entry ''hinglish_acronym_emi_homophone_substitution'' ''hi''
        ''sir aapka EMI is month process ho jayega''
        ''sir aapka emmy is month process ho jayega'',
      entry ''hinglish_digit_duplication_insertion_registered_mobile_number'' ''hi''
        ''sir aapka registered mobile number one two three four hai''
        ''sir aapka registered mobile number one two two three four hai'',
      entry ''hinglish_insertion_trailing_word_repeat_call_end'' ''hi''
        ''sir call ke liye dhanyavaad''
        ''sir call ke liye dhanyavaad dhanyavaad'',
      entry ''hinglish_long_utterance_substitution_and_deletion_mixed_complaint_escalation'' ''hi''
        ''sir maine already do baar complaint register karwaya hai lekin abhi tak koi resolution nahi mila hai isliye main ise escalate karna chahta hoon''
        ''sir maine already do baar complaint register karwaya hai lekin tak koi solution nahi mila hai isliye main ise escalate karna chahta hoon'',
      entry ''hinglish_long_utterance_two_insertions_delivery_confirmation'' ''hi''
        ''sir aapka order successfully deliver ho gaya hai aur payment bhi successfully complete ho chuka hai dhanyavaad aapka time ke liye''
        ''sir aapka order successfully deliver ho ho gaya hai aur payment bhi successfully complete ho chuka hai hai dhanyavaad aapka time ke liye'',
      entry ''hinglish_insertion_leading_word_repeat_call_open'' ''hi''
        ''sir aapka call connect ho gaya''
        ''sir sir aapka call connect ho gaya'']"

definition FixedCorpus_5 :: "CorpusEntry list" where
  "FixedCorpus_5 =
     [entry ''hinglish_word_splitting_helpline_compound'' ''hi''
        ''customer care helpline number yeh hai''
        ''customer care help line number yeh hai'',
      entry ''hinglish_word_merging_update_profile_request'' ''hi''
        ''sir apna profile up date kar lijiye''
        ''sir apna profile update kar lijiye'',
      entry ''hinglish_adjacent_word_transposition_balance_check'' ''hi''
        ''sir pehle mera balance check kijiye''
        ''sir pehle mera check balance kijiye'',
      entry ''hinglish_case_sensitivity_capitalized_sir_mismatch'' ''hi''
        ''Sir aapka order confirm ho gaya''
        ''sir aapka order confirm ho gaya'',
      entry ''hinglish_severe_hallucination_wer_exceeds_one_listen_request'' ''hi''
        ''sir suniye please''
        ''haan sir thoda suniye na please theek hai'']"

definition FixedCorpus_6 :: "CorpusEntry list" where
  "FixedCorpus_6 =
     [entry ''hinglish_punctuation_only_mismatch_confirm_query'' ''hi''
        ''sir kya yeh sahi hai''
        ''sir kya yeh sahi hai?'',
      entry ''hinglish_three_error_types_mixed_appointment_reschedule'' ''hi''
        ''sir aapka appointment kal subah nau baje reschedule ho gaya hai''
        ''sir aapka appointment subah das baje reschedule ho ho gaya hai'',
      entry ''hinglish_currency_symbol_vs_words_bill_amount'' ''hi''
        (''sir aapka bill '' @ [CHR 0xE2, CHR 0x82, CHR 0xB9] @ ''500 hai'')
        ''sir aapka bill 500 rupees hai'',
      entry ''hinglish_total_substitution_failure_balance_request'' ''hi''
        ''sir mera balance batao please''
        ''yeh voh network dikhao dhanyavaad'',
      entry ''hinglish_homophone_to_too_confirmation_query'' ''hi''
        ''sir yeh sahi hai to bataiye''
        ''sir yeh sahi hai too bataiye'',
      entry ''hinglish_three_nonadjacent_deletions_complaint_resolution'' ''hi''
        ''sir aapka complaint register ho gaya hai aur hum jald hi ise resolve kar denge dhanyavaad''
        ''sir complaint register ho gaya hai hum jald ise resolve kar denge dhanyavaad'']"

definition FixedCorpus_7 :: "CorpusEntry list" where
  "FixedCorpus_7 =
     [entry ''hinglish_total_deletion_empty_hypothesis_silence_timeout'' ''hi''
        ''sir aapka refund process ho gaya hai''
        [],
      entry ''hinglish_deletion_and_insertion_no_substitution_order_confirmation'' ''hi''
        ''sir aapka order confirm ho gaya hai dhanyavaad''
        ''sir order confirm turant ho gaya hai dhanyavaad'',
      entry ''hinglish_three_word_phrase_repeat_insertion_order_confirmation'' ''hi''
        ''sir aapka order confirm ho gaya hai''
        ''sir aapka order sir aapka order confirm ho gaya hai'',
      entry ''hinglish_systematic_repeated_word_substitution_hai_hain_verb_agreement'' ''hi''
        ''sir aapka order ready hai aur payment bhi ho gaya hai''
        ''sir aapka order ready hain aur payment bhi ho gaya hain'',
      entry ''hinglish_trailing_three_word_deletion_call_cutoff_complaint_update'' ''hi''
        ''sir aapki complaint register ho gayi hai aur hum jald hi update denge dhanyavaad''
        ''sir aapki complaint register ho gayi hai aur hum jald hi'',
      entry ''hinglish_leading_two_word_deletion_call_greeting'' ''hi''
        ''namaste sir aapka order confirm ho gaya hai''
        ''aapka order confirm ho gaya hai'',
      entry ''hinglish_reference_repeated_word_collapsed_dhanyavaad'' ''hi''
        ''sir dhanyavaad dhanyavaad aapka kaam ho gaya hai''
        ''sir dhanyavaad aapka kaam ho gaya hai'',
      entry ''hinglish_three_nonadjacent_substitutions_payment_confirmation'' ''hi''
        ''sir aapka payment successfully complete ho gaya hai aur receipt aapke email par bhej diya gaya hai dhanyavaad''
        ''sir aapka payment successful complete ho gaya hai aur recipe aapke email par bhej kiya gaya hai dhanyavaad'']"

definition FixedCorpus_8 :: "CorpusEntry list" where
  "FixedCorpus_8 =
     [entry ''hinglish_contiguous_three_word_substitution_block_refund_status'' ''hi''
        ''sir aapka refund process complete ho gaya hai''
        ''sir aapka payment abhi pending ho gaya hai'',
      entry ''hinglish_hallucination_from_true_silence_empty_reference'' ''hi''
        []
        ''haan haan sir bilkul theek hai'',
      entry ''hinglish_three_nonadjacent_insertions_appointment_confirmation'' ''hi''
        ''sir aapka appointment confirm ho gaya hai kal subah''
        ''sir haan aapka appointment confirm ho theek gaya hai bilkul kal subah'']"

definition FixedCorpus_9 :: "CorpusEntry list" where
  "FixedCorpus_9 =
     [entry ''hinglish_digit_value_misrecognition_account_number'' ''hi''
        ''sir aapka account number 456789 hai''
        ''sir aapka account number 456780 hai'',
      entry ''hinglish_trailing_hallucinated_clause_insertion_call_closing'' ''hi''
        ''sir aapka call complete ho gaya hai''
        ''sir aapka call complete ho gaya hai theek hai bye bye'',
      entry ''hinglish_bookend_leading_deletion_trailing_insertion_greeting_closing'' ''hi''
        ''namaste sir aapka order confirm ho gaya hai''
        ''sir aapka order confirm ho gaya hai dhanyavaad'',
      entry ''hinglish_insertion_only_wer_equals_one_order_confirmation'' ''hi''
        ''sir order confirm hai''
        ''haan sir order theek confirm na hai bilkul'',
      entry ''hinglish_two_deletions_two_insertions_no_substitution_address_update'' ''hi''
        ''sir mera naya address ghar par update karna hai''
        ''haan sir mera address ghar update karna hai bilkul'',
      entry ''hinglish_long_utterance_single_substitution_call_timing_confirmation'' ''hi''
        ''sir maine aapko subah dus baje call kiya tha lekin aapne phone nahi uthaya isliye main dobara try kar raha hoon''
        ''sir maine aapko subah dus baje call kiya tha lekin aapne mobile nahi uthaya isliye main dobara try kar raha hoon'',
      entry ''hinglish_wer_exceeds_one_mixed_substitution_and_insertions_balance_query'' ''hi''
        ''sir account balance hai''
        ''haan sir account shesh hai theek na bilkul'']"

definition FixedCorpus_10 :: "CorpusEntry list" where
  "FixedCorpus_10 =
     [entry ''hinglish_reference_repeated_word_substituted_haan_haan'' ''hi''
        ''haan haan sir aapka order confirm ho gaya hai''
        ''haan theek sir aapka order confirm ho gaya hai'',
      entry ''hinglish_long_distance_word_swap_account_status_request'' ''hi''
        ''pehle mera account status batao sir''
        ''sir mera account status batao pehle'',
      entry ''hinglish_long_utterance_single_insertion_isolated_delivery_status'' ''hi''
        ''sir aapka order kal shaam tak deliver ho jayega aur agar koi problem ho to aap humein call kar sakte hain''
        ''sir aapka order kal shaam tak deliver ho jayega bilkul aur agar koi problem ho to aap humein call kar sakte hain'',
      entry ''hinglish_contiguous_two_word_insertion_block_hold_music_apology'' ''hi''
        ''sir hold kijiye main check kar raha hoon''
        ''sir hold kijiye ek minute main check kar raha hoon'',
      entry ''hinglish_reference_repeated_word_fully_deleted_bilkul_bilkul'' ''hi''
        ''bilkul bilkul sir aapka order confirm ho gaya hai''
        ''sir aapka order confirm ho gaya hai'',
      entry ''hinglish_three_word_phrase_collapsed_to_one_word_customer_care_executive'' ''hi''
        ''sir aapko customer care executive se baat karni hai kya''
        ''sir aapko agent se baat karni hai kya'',
      entry ''hinglish_cross_language_homophone_call_kal_confusion'' ''hi''
        ''sir mujhe kal call karna hai''
        ''sir mujhe call call karna hai'',
      entry ''hinglish_two_word_contiguous_substitution_block_status_query'' ''hi''
        ''sir mera order status pata karna hai abhi''
        ''sir mera order status check kar hai abhi'']"

definition FixedCorpus_11 :: "CorpusEntry list" where
  "FixedCorpus_11 =
     [entry ''hinglish_magnitude_word_substitution_lakh_hazar_confusion'' ''hi''
        ''sir aapka loan amount paanch lakh rupaye approved ho gaya''
        ''sir aapka loan amount paanch hazar rupaye approved ho gaya'',
      entry ''hinglish_transliteration_spelling_variant_dhanyavad_mismatch'' ''hi''
        ''dhanyavad sir aapka order confirm ho gaya''
        ''dhanyawad sir aapka order confirm ho gaya'',
      entry ''hinglish_mid_sentence_hallucinated_insertion_crosstalk'' ''hi''
        ''sir aapka order confirm ho gaya hai''
        ''sir aapka order excuse confirm ho gaya hai'',
      entry ''hinglish_date_format_digit_vs_spoken_words_mismatch'' ''hi''
        ''aapka appointment pandrah august ko hai''
        ''aapka appointment 15/08 ko hai'',
      entry ''hinglish_full_word_order_reversal_no_substitution_parcel_delivery'' ''hi''
        ''sir aapka parcel kal tak pahuch jayega''
        ''jayega pahuch tak kal parcel aapka sir'',
      entry ''hinglish_gender_agreement_homophone_unka_unke_substitution'' ''hi''
        ''sir unka account block hai''
        ''sir unke account block hai'',
      entry ''hinglish_negation_flip_substitution_nahi_ho_refund_status'' ''hi''
        ''sir aapka refund process nahi hoga''
        ''sir aapka refund process ho hoga'',
      entry ''hinglish_acronym_expansion_substitution_emi_installment'' ''hi''
        ''sir aapki emi due date kal hai''
        ''sir aapki installment due date kal hai'',
      entry ''hinglish_honorific_marker_ji_deletion'' ''hi''
        ''sir aapka refund ho gaya hai ji''
        ''sir aapka refund ho gaya hai'',
      entry ''hinglish_unit_of_measurement_kilometer_miles_substitution'' ''hi''
        ''sir aapka parcel dus kilometer door hai''
        ''sir aapka parcel dus miles door hai'',
      entry ''hinglish_numeral_comma_grouping_formatting_substitution'' ''hi''
        ''sir aapka bill 10,000 rupaye hai''
        ''sir aapka bill 10000 rupaye hai'']"

definition FixedCorpus_12 :: "CorpusEntry list" where
  "FixedCorpus_12 =
     [entry ''hinglish_alphanumeric_bank_code_ifsc_substitution'' ''hi''
        ''sir aapka ifsc code hdfc0001234 hai''
        ''sir aapka ifsc code hdfc0004321 hai'',
      entry ''hinglish_politeness_register_aap_tum_downgrade_substitution'' ''hi''
        ''sir aap apna account block karwa dijiye''
        ''sir tum apna account block karwa dijiye'',
      entry ''hinglish_currency_subunit_paise_rupee_substitution'' ''hi''
        ''sir aapka balance pachaas rupaye das paise hai''
        ''sir aapka balance pachaas rupaye das rupaye hai'',
      entry ''hinglish_devanagari_numeral_script_substitution'' ''hi''
        (''sir aapka bill '' @ [CHR 0xE0, CHR 0xA5, CHR 0xAB, CHR 0xE0, CHR 0xA5, CHR 0xA6, CHR 0xE0, CHR 0xA5,
          CHR 0xA6, CHR 0xE0, CHR 0xA5, CHR 0xA6] @ '' rupaye hai'')
        ''sir aapka bill 5000 rupaye hai'',
      entry ''hinglish_contraction_expansion_wont_will_not_substitution'' ''hi''
        ''sir aapka refund will not be processed aaj''
        ''sir aapka refund wont be processed aaj'',
      entry ''hinglish_ordinal_number_word_vs_digit_substitution_teesri_complaint'' ''hi''
        ''sir yeh aapki teesri complaint hai is mahine''
        ''sir yeh aapki 3rd complaint hai is mahine'',
      entry ''hinglish_phone_number_spaced_digit_grouping_collapse'' ''hi''
        ''sir aapka number nine eight seven six five hai''
        ''sir aapka number 98765 hai'',
      entry ''hinglish_truncated_word_cutoff_mid_utterance_call_drop'' ''hi''
        ''sir aapka call abhi disconnect ho gaya''
        ''sir aapka call abhi disconn ho gaya'',
      entry ''hinglish_full_utterance_echo_duplication_order_confirmed'' ''hi''
        ''sir aapka order confirm ho gaya hai''
        ''sir aapka order confirm ho gaya hai sir aapka order confirm ho gaya hai'']"

definition FixedCorpus_13 :: "CorpusEntry list" where
  "FixedCorpus_13 =
     [entry ''hinglish_sentence_final_particle_na_deletion_confirmation_query'' ''hi''
        ''sir yeh sahi hai na''
        ''sir yeh sahi hai'',
      entry ''hinglish_place_name_substitution_city_mumbai_pune_query'' ''hi''
        ''sir aapka parcel mumbai se dispatch hua hai''
        ''sir aapka parcel pune se dispatch hua hai'',
      entry ''hinglish_addressee_honorific_gender_substitution_sir_madam'' ''hi''
        ''sir aapka balance check ho gaya''
        ''madam aapka balance check ho gaya'',
      entry ''hinglish_nonlexical_filler_hallucination_umm_insertion'' ''hi''
        ''sir aapka refund process ho raha hai''
        ''sir umm aapka refund process ho raha hai'',
      entry ''hinglish_hedge_word_deletion_lagbhag_approximate_bill_amount'' ''hi''
        ''sir aapka bill lagbhag paanch sau rupaye hai''
        ''sir aapka bill paanch sau rupaye hai'',
      entry ''hinglish_spelled_out_letter_substitution_pin_code_confirmation'' ''hi''
        ''sir aapka code hai a b c one two three''
        ''sir aapka code hai a d c one two three'',
      entry ''hinglish_tense_marker_substitution_future_past_delivery_status'' ''hi''
        ''sir aapka parcel kal deliver hoga''
        ''sir aapka parcel kal deliver hua'',
      entry ''hinglish_two_word_phrase_repeat_insertion_hold_please'' ''hi''
        ''sir please hold main check karta hoon''
        ''sir please hold please hold main check karta hoon'',
      entry ''hinglish_decimal_point_marker_deletion_parcel_weight'' ''hi''
        ''sir aapka parcel ka weight char point paanch kilo hai''
        ''sir aapka parcel ka weight char paanch kilo hai'']"

definition FixedCorpus_14 :: "CorpusEntry list" where
  "FixedCorpus_14 =
     [entry ''hinglish_postposition_case_marker_substitution_ko_ki'' ''hi''
        ''sir mera number ko update kar dijiye''
        ''sir mera number ki update kar dijiye'',
      entry ''hinglish_day_of_week_substitution_monday_tuesday_appointment'' ''hi''
        ''sir aapka appointment monday ko fix hua hai''
        ''sir aapka appointment tuesday ko fix hua hai'',
      entry ''hinglish_conjunction_word_deletion_aur_bill_and_receipt'' ''hi''
        ''sir aapko bill aur receipt dono milega''
        ''sir aapko bill receipt dono milega'',
      entry ''hinglish_false_start_self_repair_disfluency_deletion'' ''hi''
        ''sir mujhe matlab humein order cancel karna hai''
        ''sir humein order cancel karna hai'',
      entry ''hinglish_time_of_day_period_marker_substitution_subah_shaam'' ''hi''
        ''sir aapka delivery subah ho jayegi''
        ''sir aapka delivery shaam ho jayegi'',
      entry ''hinglish_spoken_digit_reading_convention_substitution_double_digit'' ''hi''
        ''sir aapka otp double five one two hai''
        ''sir aapka otp five five one two hai'',
      entry ''hinglish_vocative_customer_name_deletion_dropped_at_start'' ''hi''
        ''priya sir aapka order confirm ho gaya hai''
        ''sir aapka order confirm ho gaya hai'',
      entry ''hinglish_light_verb_compound_deletion_kar_do'' ''hi''
        ''sir mera address update kar do''
        ''sir mera address update kar'',
      entry ''hinglish_english_discourse_filler_like_insertion'' ''hi''
        ''sir mera order abhi tak nahi aaya''
        ''sir mera order like abhi tak nahi aaya'']"

definition FixedCorpus_15 :: "CorpusEntry list" where
  "FixedCorpus_15 =
     [entry ''hinglish_yesno_polarity_answer_word_substitution_haan_nahi'' ''hi''
        ''haan sir mera address sahi hai''
        ''nahi sir mera address sahi hai'',
      entry ''hinglish_time_unit_substitution_minute_second_hold_duration'' ''hi''
        ''sir aapko sirf ek minute hold karna hoga''
        ''sir aapko sirf ek second hold karna hoga'',
      entry ''hinglish_interrogative_whword_substitution_kab_kya_delivery_query'' ''hi''
        ''sir aapka parcel kab tak deliver hoga''
        ''sir aapka parcel kya tak deliver hoga'',
      entry ''hinglish_symmetric_bookend_double_insertion_same_word_repeat_haan'' ''hi''
        ''sir aapka order confirm ho gaya hai''
        ''haan sir aapka order confirm ho gaya hai haan'',
      entry ''hinglish_relative_day_reference_substitution_kal_parso_complaint'' ''hi''
        ''sir maine kal complaint register karwaya tha''
        ''sir maine parso complaint register karwaya tha'',
      entry ''hinglish_english_plural_singular_inflection_substitution_packet_packets'' ''hi''
        ''sir mera ek packet abhi tak nahi mila''
        ''sir mera ek packets abhi tak nahi mila'',
      entry ''english_homophone_confusion_their_there_substitution'' ''en''
        ''sir please share their updated address for delivery''
        ''sir please share there updated address for delivery'',
      entry ''kinship_term_gender_substitution_beta_beti'' ''hi''
        ''sir aapke beta ka naam kya hai''
        ''sir aapke beti ka naam kya hai'',
      entry ''spatial_direction_word_substitution_baayi_daayi_left_right'' ''hi''
        ''sir aapko baayi taraf mudna hoga''
        ''sir aapko daayi taraf mudna hoga'']"

definition FixedCorpus_16 :: "CorpusEntry list" where
  "FixedCorpus_16 =
     [entry ''acknowledgment_backchannel_phrase_deletion_theek_hai'' ''hi''
        ''sir theek hai aapka order confirm ho gaya''
        ''sir aapka order confirm ho gaya'',
      entry ''modal_necessity_substitution_chahiye_padega_obligation_future'' ''hi''
        ''sir aapko form abhi submit karna chahiye''
        ''sir aapko form abhi submit karna padega'',
      entry ''possessive_pronoun_deletion_mera_dropped_order_status'' ''hi''
        ''sir mera order abhi tak deliver nahi hua''
        ''sir order abhi tak deliver nahi hua'',
      entry ''comparative_quantity_substitution_zyada_kam_more_less'' ''hi''
        ''sir aapko zyada wait nahi karna padega''
        ''sir aapko kam wait nahi karna padega'',
      entry ''color_word_substitution_laal_neela_red_blue'' ''hi''
        ''sir aapki laal wali shirt ready hai''
        ''sir aapki neela wali shirt ready hai'',
      entry ''landmark_location_descriptive_phrase_deletion_signal_ke_paas'' ''hi''
        ''sir aapka office signal ke paas hai''
        ''sir aapka office hai'',
      entry ''word_splitting_compound_word_helpline_split_insertion'' ''hi''
        ''sir humari helpline abhi available hai''
        ''sir humari help line abhi available hai'',
      entry ''word_merging_call_back_merged_into_callback_deletion'' ''hi''
        ''sir hum aapko call back karenge''
        ''sir hum aapko callback karenge'',
      entry ''festival_name_substitution_diwali_holi'' ''hi''
        ''sir humara office diwali par band rahega''
        ''sir humara office holi par band rahega'']"

definition FixedCorpus_17 :: "CorpusEntry list" where
  "FixedCorpus_17 =
     [entry ''weight_unit_substitution_kilo_gram_parcel'' ''hi''
        ''sir aapka parcel do kilo weight ka hai''
        ''sir aapka parcel do gram weight ka hai'',
      entry ''calendar_duration_unit_substitution_hafte_mahine_refund'' ''hi''
        ''aapka refund ek hafte mein aa jayega''
        ''aapka refund ek mahine mein aa jayega'',
      entry ''month_name_substitution_january_march_renewal'' ''hi''
        ''sir aapka plan january mein renew hoga''
        ''sir aapka plan march mein renew hoga'',
      entry ''fraction_word_substitution_aadha_poora_refund_status'' ''hi''
        ''sir aapka refund aadha process ho gaya hai''
        ''sir aapka refund poora process ho gaya hai'',
      entry ''currency_type_substitution_rupees_dollars_balance_query'' ''hi''
        ''sir aapka balance five hundred rupees hai''
        ''sir aapka balance five hundred dollars hai'',
      entry ''percentage_marker_word_deletion_percent_dropped_interest_query'' ''hi''
        ''sir aapka interest rate teen percent hai''
        ''sir aapka interest rate teen hai'',
      entry ''payment_mode_substitution_cash_card_refund_query'' ''hi''
        ''sir aapka refund cash mode mein process hoga''
        ''sir aapka refund card mode mein process hoga'',
      entry ''volume_unit_substitution_liter_mililiter_water_purifier_query'' ''hi''
        ''sir yeh purifier ek liter paani filter karta hai''
        ''sir yeh purifier ek mililiter paani filter karta hai'',
      entry ''vehicle_type_substitution_car_bike_delivery_query'' ''hi''
        ''sir aapka delivery boy car se aa raha hai''
        ''sir aapka delivery boy bike se aa raha hai'']"

definition FixedCorpus_18 :: "CorpusEntry list" where
  "FixedCorpus_18 =
     [entry ''marital_status_substitution_shaadishuda_kunwara_form_update'' ''hi''
        ''sir aapka form mein shaadishuda status update ho gaya''
        ''sir aapka form mein kunwara status update ho gaya'',
      entry ''urgency_adverb_substitution_turant_baadmein_action_request'' ''hi''
        ''sir hum aapka issue turant resolve kar denge''
        ''sir hum aapka issue baadmein resolve kar denge'',
      entry ''document_type_substitution_aadhar_pan_verification_request'' ''hi''
        ''sir verification ke liye aapka aadhar card chahiye''
        ''sir verification ke liye aapka pan card chahiye'',
      entry ''sibling_kinship_term_substitution_bhai_behen_family_details'' ''hi''
        ''sir aapka bhai naam registration form mein diya hai''
        ''sir aapka behen naam registration form mein diya hai'',
      entry ''season_name_substitution_garmi_sardi_delivery_delay'' ''hi''
        ''sir garmi ke season mein delivery mein delay hota hai''
        ''sir sardi ke season mein delivery mein delay hota hai'',
      entry ''compass_direction_substitution_uttar_dakshin_branch_location'' ''hi''
        ''sir hamari branch uttar zone mein located hai''
        ''sir hamari branch dakshin zone mein located hai'',
      entry ''size_adjective_substitution_bada_chota_parcel_box'' ''hi''
        ''sir aapka parcel bada box mein pack kiya gaya hai''
        ''sir aapka parcel chota box mein pack kiya gaya hai'',
      entry ''temperature_adjective_substitution_garam_thanda_water_purifier_query'' ''hi''
        ''sir yeh purifier garam paani bhi supply karta hai''
        ''sir yeh purifier thanda paani bhi supply karta hai'',
      entry ''floor_level_number_word_substitution_pehla_doosra_office_visit'' ''hi''
        ''sir hamara office pehla floor par located hai''
        ''sir hamara office doosra floor par located hai'']"


definition FixedCorpus :: "CorpusEntry list" where
  "FixedCorpus =
     concat [FixedCorpus_1, FixedCorpus_2, FixedCorpus_3, FixedCorpus_4, FixedCorpus_5, FixedCorpus_6,
       FixedCorpus_7, FixedCorpus_8, FixedCorpus_9, FixedCorpus_10, FixedCorpus_11, FixedCorpus_12,
       FixedCorpus_13, FixedCorpus_14, FixedCorpus_15, FixedCorpus_16, FixedCorpus_17, FixedCorpus_18]"

subsection \<open>The rates\<close>

text \<open>
  Edits and reference words of every entry, as the documentation and the tests give them (the rate
  of the entry with the empty reference is 1), in the order of the parts.
\<close>

definition documented_rates :: "(nat \<times> nat) list" where
  "documented_rates = concat
     [
      [(0, 6), (1, 5), (1, 7), (0, 6), (1, 6), (1, 7), (1, 12), (1, 7), (1, 12), (1, 9)],
      [(1, 9), (1, 5), (0, 10), (2, 13), (1, 10), (2, 13), (1, 8), (1, 11), (1, 9)],
      [(1, 25), (1, 12), (1, 7), (1, 12), (1, 10), (2, 18), (1, 7), (1, 7), (2, 5)],
      [(1, 7), (2, 20), (1, 8), (1, 10), (1, 5), (2, 24), (2, 21), (1, 6)],
      [(2, 6), (2, 7), (2, 6), (1, 6), (5, 3)],
      [(1, 5), (3, 11), (2, 5), (5, 5), (1, 6), (3, 16)],
      [(7, 7), (2, 8), (3, 7), (2, 11), (3, 14), (2, 8), (1, 8), (3, 18)],
      [(3, 8), (1, 1), (3, 9)],
      [(1, 6), (4, 7), (2, 8), (4, 4), (4, 9), (1, 21), (5, 4)],
      [(1, 9), (2, 6), (1, 21), (2, 8), (2, 9), (3, 10), (1, 6), (2, 8)],
      [(1, 10), (1, 7), (1, 7), (2, 6), (6, 7), (1, 5), (1, 6), (1, 7), (1, 7), (1, 7), (1, 6)],
      [(1, 6), (1, 7), (1, 8), (1, 6), (2, 8), (1, 8), (5, 9), (1, 7), (7, 7)],
      [(1, 5), (1, 8), (1, 6), (1, 7), (1, 8), (1, 10), (1, 6), (2, 7), (1, 10)],
      [(1, 7), (1, 8), (1, 7), (2, 8), (1, 6), (1, 8), (1, 8), (1, 6), (1, 7)],
      [(1, 6), (1, 8), (1, 7), (2, 7), (1, 7), (1, 8), (1, 8), (1, 7), (1, 6)],
      [(2, 8), (1, 7), (1, 8), (1, 7), (1, 7), (3, 7), (2, 6), (2, 6), (1, 7)],
      [(1, 8), (1, 7), (1, 7), (1, 8), (1, 7), (1, 7), (1, 8), (1, 9), (1, 9)],
      [(1, 9), (1, 8), (1, 8), (1, 9), (1, 10), (1, 8), (1, 10), (1, 9), (1, 8)]]"

text \<open>Evaluation enters neither the text that is left nor the word lists again.\<close>

lemma eval_congs:
  "words_of cur s = words_of cur s" "k = k' \<Longrightarrow> near k xs ys = near k' xs ys"
  by simp_all

definition rated_words :: "string list \<Rightarrow> string list \<Rightarrow> nat \<Rightarrow> nat \<Rightarrow> bool" where
  "rated_words r h d n \<longleftrightarrow> (if r = [] then h \<noteq> [] \<and> d = 1 \<and> n = 1 else n = length r \<and> exactly d r h)"

lemma rated_entry:
  "rated (entry name lang ref hyp) (d, n) = rated_words (rev (words_of [] ref)) (rev (words_of [] hyp)) d n"
  by (simp add: rated_def rated_words_def entry_def fields_words split: list.split)

lemmas all_rated_intros = list_all2_Cons [THEN iffD2, OF conjI] list_all2_Nil [THEN iffD2, OF refl]

lemma rates_1: "list_all2 rated FixedCorpus_1
    [(0, 6), (1, 5), (1, 7), (0, 6), (1, 6), (1, 7), (1, 12), (1, 7), (1, 12), (1, 9)]"
  unfolding FixedCorpus_1_def
  by (intro all_rated_intros; simp add: rated_entry rated_words_def exactly_def cong: eval_congs)

lemma rates_2: "list_all2 rated FixedCorpus_2
    [(1, 9), (1, 5), (0, 10), (2, 13), (1, 10), (2, 13), (1, 8), (1, 11), (1, 9)]"
  unfolding FixedCorpus_2_def
  by (intro all_rated_intros; simp add: rated_entry rated_words_def exactly_def cong: eval_congs)

lemma rates_3: "list_all2 rated FixedCorpus_3
    [(1, 25), (1, 12), (1, 7), (1, 12), (1, 10), (2, 18), (1, 7), (1, 7), (2, 5)]"
  unfolding FixedCorpus_3_def
  by (intro all_rated_intros; simp add: rated_entry rated_words_def exactly_def cong: eval_congs)

lemma rates_4: "list_all2 rated FixedCorpus_4
    [(1, 7), (2, 20), (1, 8), (1, 10), (1, 5), (2, 24), (2, 21), (1, 6)]"
  unfolding FixedCorpus_4_def
  by (intro all_rated_intros; simp add: rated_entry rated_words_def exactly_def cong: eval_congs)

lemma rates_5: "list_all2 rated FixedCorpus_5
    [(2, 6), (2, 7), (2, 6), (1, 6), (5, 3)]"
  unfolding FixedCorpus_5_def
  by (intro all_rated_intros; simp add: rated_entry rated_words_def exactly_def cong: eval_congs)

lemma rates_6: "list_all2 rated FixedCorpus_6
    [(1, 5), (3, 11), (2, 5), (5, 5), (1, 6), (3, 16)]"
  unfolding FixedCorpus_6_def
  by (intro all_rated_intros; simp add: rated_entry rated_words_def exactly_def cong: eval_congs)

lemma rates_7: "list_all2 rated FixedCorpus_7
    [(7, 7), (2, 8), (3, 7), (2, 11), (3, 14), (2, 8), (1, 8), (3, 18)]"
  unfolding FixedCorpus_7_def
  by (intro all_rated_intros; simp add: rated_entry rated_words_def exactly_def cong: eval_congs)

lemma rates_8: "list_all2 rated FixedCorpus_8
    [(3, 8), (1, 1), (3, 9)]"
  unfolding FixedCorpus_8_def
  by (intro all_rated_intros; simp add: rated_entry rated_words_def exactly_def cong: eval_congs)

lemma rates_9: "list_all2 rated FixedCorpus_9
    [(1, 6), (4, 7), (2, 8), (4, 4), (4, 9), (1, 21), (5, 4)]"
  unfolding FixedCorpus_9_def
  by (intro all_rated_intros; simp add: rated_entry rated_words_def exactly_def cong: eval_congs)

lemma rates_10: "list_all2 rated FixedCorpus_10
    [(1, 9), (2, 6), (1, 21), (2, 8), (2, 9), (3, 10), (1, 6), (2, 8)]"
  unfolding FixedCorpus_10_def
  by (intro all_rated_intros; simp add: rated_entry rated_words_def exactly_def cong: eval_congs)

lemma rates_11: "list_all2 rated FixedCorpus_11
    [(1, 10), (1, 7), (1, 7), (2, 6), (6, 7), (1, 5), (1, 6), (1, 7), (1, 7), (1, 7), (1, 6)]"
  unfolding FixedCorpus_11_def
  by (intro all_rated_intros; simp add: rated_entry rated_words_def exactly_def cong: eval_congs)

lemma rates_12: "list_all2 rated FixedCorpus_12
    [(1, 6), (1, 7), (1, 8), (1, 6), (2, 8), (1, 8), (5, 9), (1, 7), (7, 7)]"
  unfolding FixedCorpus_12_def
  by (intro all_rated_intros; simp add: rated_entry rated_words_def exactly_def cong: eval_congs)

lemma rates_13: "list_all2 rated FixedCorpus_13
    [(1, 5), (1, 8), (1, 6), (1, 7), (1, 8), (1, 10), (1, 6), (2, 7), (1, 10)]"
  unfolding FixedCorpus_13_def
  by (intro all_rated_intros; simp add: rated_entry rated_words_def exactly_def cong: eval_congs)

lemma rates_14: "list_all2 rated FixedCorpus_14
    [(1, 7), (1, 8), (1, 7), (2, 8), (1, 6), (1, 8), (1, 8), (1, 6), (1, 7)]"
  unfolding FixedCorpus_14_def
  by (intro all_rated_intros; simp add: rated_entry rated_words_def exactly_def cong: eval_congs)

lemma rates_15: "list_all2 rated FixedCorpus_15
    [(1, 6), (1, 8), (1, 7), (2, 7), (1, 7), (1, 8), (1, 8), (1, 7), (1, 6)]"
  unfolding FixedCorpus_15_def
  by (intro all_rated_intros; simp add: rated_entry rated_words_def exactly_def cong: eval_congs)

lemma rates_16: "list_all2 rated FixedCorpus_16
    [(2, 8), (1, 7), (1, 8), (1, 7), (1, 7), (3, 7), (2, 6), (2, 6), (1, 7)]"
  unfolding FixedCorpus_16_def
  by (intro all_rated_intros; simp add: rated_entry rated_words_def exactly_def cong: eval_congs)

lemma rates_17: "list_all2 rated FixedCorpus_17
    [(1, 8), (1, 7), (1, 7), (1, 8), (1, 7), (1, 7), (1, 8), (1, 9), (1, 9)]"
  unfolding FixedCorpus_17_def
  by (intro all_rated_intros; simp add: rated_entry rated_words_def exactly_def cong: eval_congs)

lemma rates_18: "list_all2 rated FixedCorpus_18
    [(1, 9), (1, 8), (1, 8), (1, 9), (1, 10), (1, 8), (1, 10), (1, 9), (1, 8)]"
  unfolding FixedCorpus_18_def
  by (intro all_rated_intros; simp add: rated_entry rated_words_def exactly_def cong: eval_congs)

lemma all_rated: "list_all2 rated FixedCorpus documented_rates"
  unfolding FixedCorpus_def documented_rates_def concat.simps
  by (intro list_all2_appendI list_all2_Nil [THEN iffD2] refl
      rates_1 rates_2 rates_3 rates_4 rates_5 rates_6 rates_7 rates_8 rates_9 rates_10 rates_11 rates_12
      rates_13 rates_14 rates_15 rates_16 rates_17 rates_18)

lemma corpus_rates:
  "map (\<lambda>e. WordErrorRate (ce_Reference e) (ce_Hypothesis e)) FixedCorpus = map (\<lambda>x. real (fst x) / real (snd x)) documented_rates"
  using all_rated by (induction rule: list_all2_induct) (simp_all add: rated_rate)

end
