(* ===== verification/TranslationCorpus.thy ===== *)
theory TranslationCorpus
  imports Corpus
begin

section \<open>The translation corpus (pkg/qa/translation_corpus.go)\<close>

text \<open>
  The fixed pairs of reference and candidate translations, as the code lists them. For every entry
  the BLEU score is proved to be the brevity penalty times the geometric mean of the n-gram
  precisions that the tests count by hand.
\<close>

subsection \<open>Counting matches\<close>

text \<open>The windows of a word list, and the size of the intersection of two lists as multisets.\<close>

fun windows :: "nat \<Rightarrow> 'a list \<Rightarrow> 'a list list" where
  "windows n [] = []"
| "windows n (x # xs) = (if length xs < n - 1 then [] else take n (x # xs) # windows n xs)"

fun in_common :: "'a list \<Rightarrow> 'a list \<Rightarrow> nat" where
  "in_common [] ys = 0"
| "in_common (x # xs) ys = (if x \<in> set ys then Suc (in_common xs (remove1 x ys)) else in_common xs ys)"

lemma in_common_inter: "in_common xs ys = size (mset xs \<inter># mset ys)"
  by (induction xs ys rule: in_common.induct) (simp_all add: inter_add_left1 inter_add_left2)

lemma map_remove1_inj: "inj_on g (insert x (set ys)) \<Longrightarrow> map g (remove1 x ys) = remove1 (g x) (map g ys)"
  by (induction ys) (auto simp: inj_on_def)

lemma in_common_map: "inj_on g (set xs \<union> set ys) \<Longrightarrow> in_common (map g xs) (map g ys) = in_common xs ys"
proof (induction xs ys rule: in_common.induct)
  case (2 x xs ys)
  have "g x \<in> g ` set ys \<longleftrightarrow> x \<in> set ys" using 2(3) by (auto simp: inj_on_def)
  moreover have "map g (remove1 x ys) = remove1 (g x) (map g ys)"
    using 2(3) by (intro map_remove1_inj) (auto elim: inj_on_subset)
  moreover have "inj_on g (set xs \<union> set (remove1 x ys))" "inj_on g (set xs \<union> set ys)"
    using 2(3) set_remove1_subset [of x ys] by (auto elim!: inj_on_subset)
  ultimately show ?case using 2(1,2) by auto
qed simp

lemma windows_positions: "0 < n \<Longrightarrow> windows n t = map (\<lambda>i. take n (drop i t)) [0..<Suc (length t) - n]"
proof (induction t)
  case (Cons x t)
  show ?case
  proof (cases "length t < n - 1")
    case False
    then have "Suc (length (x # t)) - n = Suc (Suc (length t) - n)" using Cons.prems by simp
    then show ?thesis using Cons False by (simp add: upt_conv_Cons map_Suc_upt [symmetric] del: upt_Suc)
  qed (use Cons.prems in simp)
qed simp

lemma windows_sets: "w \<in> set (windows n t) \<Longrightarrow> 0 < n \<Longrightarrow> length w = n \<and> set w \<subseteq> set t"
  by (induction t) (auto split: if_splits dest: in_set_takeD)

lemma windows_map: "windows n (map f t) = map (map f) (windows n t)"
proof (induction t)
  case (Cons x t)
  have "take n (map f (x # t)) = map f (take n (x # t))" by (simp only: take_map)
  then show ?case using Cons by simp
qed simp

text \<open>Words without spaces can be read back from a gram.\<close>

lemma join_words_inj:
  "length xs = length ys \<Longrightarrow> \<forall>w \<in> set xs \<union> set ys. CHR '' '' \<notin> set w \<Longrightarrow> join_words xs = join_words ys \<Longrightarrow> xs = ys"
proof (induction xs ys rule: list_induct2)
  case (Cons x xs y ys)
  show ?case
  proof (cases "xs = []")
    case False
    then have "ys \<noteq> []" using Cons.hyps by auto
    with False obtain u us v vs where uv: "xs = u # us" "ys = v # vs" by (meson list.exhaust)
    then have e: "x @ CHR '' '' # join_words xs = y @ CHR '' '' # join_words ys" using Cons.prems(2) by simp
    have "takeWhile (\<lambda>c. c \<noteq> CHR '' '') (w @ CHR '' '' # z) = w" if "CHR '' '' \<notin> set w" for w z
      using that by (subst takeWhile_append2) auto
    then have "x = y" using e Cons.prems(1) by (metis UnCI list.set_intros(1))
    with e Cons show ?thesis by simp
  qed (use Cons in simp)
qed simp

lemma clipped_in_common:
  assumes "0 < n" "\<forall>w \<in> set ref \<union> set cand. CHR '' '' \<notin> set w"
  shows "clippedNGramMatches ref cand n = in_common (windows n ref) (windows n cand)"
proof -
  have "ngrams t n = mset (map join_words (windows n t))" for t by (simp add: ngrams_def windows_positions [OF assms(1)] o_def)
  then have "clippedNGramMatches ref cand n = in_common (map join_words (windows n ref)) (map join_words (windows n cand))"
    by (simp add: clipped_is_intersection in_common_inter del: mset_map)
  also have "\<dots> = in_common (windows n ref) (windows n cand)"
  proof (rule in_common_map, rule inj_onI)
    fix u v assume uv: "u \<in> set (windows n ref) \<union> set (windows n cand)" "v \<in> set (windows n ref) \<union> set (windows n cand)"
      "join_words u = join_words v"
    then have "length u = n \<and> set u \<subseteq> set ref \<union> set cand" "length v = n \<and> set v \<subseteq> set ref \<union> set cand"
      using windows_sets assms(1) by blast+
    with uv(3) assms(2) show "u = v" by (intro join_words_inj) auto
  qed
  finally show ?thesis .
qed

text \<open>Words as their positions in a vocabulary.\<close>

fun position :: "string list \<Rightarrow> string \<Rightarrow> nat" where
  "position [] w = 0"
| "position (v # vs) w = (if w = v then 0 else Suc (position vs w))"

lemma inj_position: "inj_on (position vs) (set vs)"
  by (induction vs) (auto simp: inj_on_def split: if_splits)

lemma clipped_positions:
  assumes "0 < n" "\<forall>w \<in> set ref \<union> set cand. CHR '' '' \<notin> set w"
  shows "clippedNGramMatches ref cand n =
    in_common (windows n (map (position (ref @ cand)) ref)) (windows n (map (position (ref @ cand)) cand))"
proof -
  have "inj_on (map (position (ref @ cand))) (set (windows n ref) \<union> set (windows n cand))"
  proof (rule inj_onI)
    fix u v assume uv: "u \<in> set (windows n ref) \<union> set (windows n cand)" "v \<in> set (windows n ref) \<union> set (windows n cand)"
      "map (position (ref @ cand)) u = map (position (ref @ cand)) v"
    then have "set u \<subseteq> set (ref @ cand)" "set v \<subseteq> set (ref @ cand)" using windows_sets [OF _ assms(1)] by fastforce+
    with uv(3) show "u = v" by (metis Un_subset_iff inj_on_map_eq_map inj_on_subset inj_position)
  qed
  then show ?thesis by (simp add: clipped_in_common [OF assms] windows_map in_common_map)
qed

subsection \<open>The score in closed form\<close>

definition smoothed :: "nat \<Rightarrow> nat \<Rightarrow> float64" where
  "smoothed grams m = (if m = 0 then 1 / 10 else real m) / real grams"

text \<open>\<open>ms\<close> has the matches of the orders from one on; a candidate of \<open>c\<close> words has \<open>c - i\<close> grams of order \<open>i + 1\<close>.\<close>

definition geometric_score :: "nat \<times> nat \<times> nat list \<Rightarrow> float64" where
  "geometric_score x =
     (case x of (r, c, ms) \<Rightarrow>
        (if r < c then 1 else exp (1 - real r / real c))
        * root (length ms) (prod_list (map (\<lambda>i. smoothed (c - i) (ms ! i)) [0..<length ms])))"

definition order_matches :: "string list \<Rightarrow> string list \<Rightarrow> nat list" where
  "order_matches ref cand = map (\<lambda>n. clippedNGramMatches ref cand (Suc n)) [0..<min (length cand) 4]"

lemma exp_mean_ln:
  assumes "0 < n" "list_all (\<lambda>x. 0 < x) xs"
  shows "exp (sum_list (map ln xs) / real n) = root n (prod_list xs)"
proof -
  have "0 < prod_list xs \<and> sum_list (map ln xs) = ln (prod_list xs)"
    using assms(2) by (induction xs) (simp_all add: ln_mult)
  then show ?thesis using assms(1) by (simp add: root_powr_inverse powr_def field_simps)
qed

lemma bleu_geometric:
  assumes "ref \<noteq> []" "cand \<noteq> []"
  shows "bleuScore ref cand = geometric_score (length ref, length cand, order_matches ref cand)"
proof -
  let ?N = "min (length cand) 4"
  define p where "p i = ngram_precision ref cand (Suc i)" for i
  have m: "(if length cand < bleuMaxNGram then length cand else bleuMaxNGram) = ?N" by (simp add: bleuMaxNGram_def min_def)
  have "[1..<Suc ?N] = map Suc [0..<?N]" by (simp add: map_Suc_upt)
  then have s: "foldl (\<lambda>s n. s + ln (ngram_precision ref cand n)) 0 [1..<Suc ?N] = sum_list (map ln (map p [0..<?N]))"
    by (simp add: foldl_ln p_def o_def del: upt_Suc)
  have "list_all (\<lambda>x. 0 < x) (map p [0..<?N])" using precision_range(1) by (auto simp: list_all_iff p_def)
  moreover have "map p [0..<?N] = map (\<lambda>i. smoothed (length cand - i) (order_matches ref cand ! i)) [0..<?N]"
    by (auto simp: p_def ngram_precision_def smoothed_def order_matches_def bleuSmoothingEpsilon_def Let_def Suc_diff_Suc)
  moreover have "0 < ?N" using assms(2) by simp
  ultimately have "exp (sum_list (map ln (map p [0..<?N])) / real ?N)
      = root ?N (prod_list (map (\<lambda>i. smoothed (length cand - i) (order_matches ref cand ! i)) [0..<?N]))"
    using exp_mean_ln by metis
  then show ?thesis using assms unfolding bleuScore_def Let_def m s
    by (simp add: geometric_score_def brevityPenalty_def order_matches_def)
qed

subsection \<open>The entries\<close>

record TranslationCorpusEntry =
  te_Name :: string
  te_SourceLanguage :: language
  te_TargetLanguage :: language
  te_Source :: string
  te_Reference :: string
  te_Candidate :: string

definition translation ::
  "string \<Rightarrow> language \<Rightarrow> language \<Rightarrow> string \<Rightarrow> string \<Rightarrow> string \<Rightarrow> TranslationCorpusEntry" where
  "translation name src dst source ref cand =
     \<lparr>te_Name = name, te_SourceLanguage = src, te_TargetLanguage = dst, te_Source = source, te_Reference = ref, te_Candidate = cand\<rparr>"

text \<open>An entry with \<open>r\<close> and \<open>c\<close> words and the matches \<open>ms\<close>, and its evaluation on positions.\<close>

definition scored :: "TranslationCorpusEntry \<Rightarrow> nat \<times> nat \<times> nat list \<Rightarrow> bool" where
  "scored e x \<longleftrightarrow>
     (let r = Qa.fields (te_Reference e); c = Qa.fields (te_Candidate e)
      in r \<noteq> [] \<and> c \<noteq> [] \<and> x = (length r, length c, order_matches r c))"

lemma scored_score: "scored e x \<Longrightarrow> BLEUScore (te_Reference e) (te_Candidate e) = geometric_score x"
  by (simp add: scored_def BLEUScore_def Let_def bleu_geometric)

fun position_matches :: "nat list \<Rightarrow> nat list \<Rightarrow> nat list \<Rightarrow> nat list" where
  "position_matches r c [] = []"
| "position_matches r c (n # ns) = in_common (windows n r) (windows n c) # position_matches r c ns"

lemma position_matches_map: "position_matches r c ns = map (\<lambda>n. in_common (windows n r) (windows n c)) ns"
  by (induction ns) simp_all

definition scored_words :: "string list \<Rightarrow> string list \<Rightarrow> nat \<Rightarrow> nat \<Rightarrow> nat list \<Rightarrow> bool" where
  "scored_words r c k l ms \<longleftrightarrow>
     r \<noteq> [] \<and> c \<noteq> [] \<and> k = length r \<and> l = length c
     \<and> position_matches (map (position (r @ c)) r) (map (position (r @ c)) c) (take (length c) [1, 2, 3, 4]) = ms"

lemma words_of_no_space: "CHR '' '' \<notin> set cur \<Longrightarrow> w \<in> set (words_of cur s) \<Longrightarrow> CHR '' '' \<notin> set w"
proof (induction s arbitrary: cur)
  case (Cons c s)
  have "blank (CHR '' '')" by simp
  then show ?case using Cons.prems Cons.IH [of "[]"] Cons.IH [of "c # cur"] by (cases "c = CHR '' ''"; cases "blank c") (auto split: if_splits)
qed (auto split: if_splits)

lemma scored_translation:
  "scored (translation name src dst source ref cand) (k, l, ms) \<longleftrightarrow> scored_words (words_of [] ref) (words_of [] cand) k l ms"
proof -
  have "\<forall>w \<in> set (words_of [] ref) \<union> set (words_of [] cand). CHR '' '' \<notin> set w" using words_of_no_space [of "[]"] by auto
  from clipped_positions [OF _ this]
  have "order_matches (words_of [] ref) (words_of [] cand)
      = map (\<lambda>n. in_common (windows n (map (position (words_of [] ref @ words_of [] cand)) (words_of [] ref)))
                           (windows n (map (position (words_of [] ref @ words_of [] cand)) (words_of [] cand))))
          (map Suc [0..<min (length (words_of [] cand)) 4])"
    by (simp add: order_matches_def)
  also have "map Suc [0..<min (length (words_of [] cand)) 4] = take (length (words_of [] cand)) [1, 2, 3, 4]"
    by (cases "length (words_of [] cand)"; cases "length (words_of [] cand) - 1"; cases "length (words_of [] cand) - 2";
        cases "length (words_of [] cand) - 3") (auto simp: min_def upt_rec numeral_eq_Suc)
  finally show ?thesis by (auto simp: scored_def scored_words_def translation_def fields_words position_matches_map Let_def)
qed

lemma score_congs: "words_of cur s = words_of cur s" "position vs w = position vs w"
  by simp_all

definition FixedTranslationCorpus_1 :: "TranslationCorpusEntry list" where
  "FixedTranslationCorpus_1 =
     [translation ''perfect_identical_translation'' ''hi'' ''en''
        ''sir aapka order confirm ho gaya hai''
        ''sir your order has been confirmed''
        ''sir your order has been confirmed'',
      translation ''one_word_substitution_currency_mismatch'' ''hi'' ''en''
        ''sir aapka balance paanch sau rupaye hai''
        ''sir your account balance is five hundred rupees''
        ''sir your account balance is five hundred dollars'',
      translation ''missing_clause_deletion_within_48_hours'' ''hi'' ''en''
        ''sir aapki complaint register ho gayi hai aur yeh 48 ghante ke andar resolve ho jayegi''
        ''sir your complaint has been registered and will be resolved within 48 hours''
        ''sir your complaint has been registered and will be resolved'',
      translation ''completely_unrelated_candidate'' ''hi'' ''en''
        ''sir aapka refund safaltapoorvak process ho gaya hai''
        ''your refund has been processed successfully''
        ''the weather today is quite pleasant'',
      translation ''paraphrase_semantically_fine_lexically_different'' ''hi'' ''en''
        ''sir line par rukiye main aapko transfer kar raha hoon''
        ''please hold the line while I transfer your call''
        ''kindly wait a moment as I connect you to another agent'',
      translation ''very_short_pair_yes_sir'' ''hi'' ''en''
        ''haan sir''
        ''yes sir''
        ''yes'',
      translation ''word_reordering_full_reversal_delivery_schedule'' ''hi'' ''en''
        ''sir aapki delivery kal ke liye schedule ho chuki hai''
        ''your delivery has been scheduled for tomorrow''
        ''tomorrow for scheduled been has delivery your'',
      translation ''partial_overlap_first_half_matches_delivery_estimate'' ''hi'' ''en''
        ''sir aapka order kal shaam tak deliver ho jayega''
        ''your order will be delivered by tomorrow evening''
        ''your order will be delivered next week sometime'',
      translation ''hallucinated_added_clause_complaint_registered'' ''hi'' ''en''
        ''sir aapki complaint register ho gayi hai''
        ''your complaint has been registered''
        ''your complaint has been registered and will be resolved soon'',
      translation ''named_entity_mismatch_relationship_manager_name'' ''hi'' ''en''
        ''sir aapke relationship manager rahul aapko shaam 6 baje call karenge''
        ''your relationship manager rahul will call you at 6 pm today''
        ''your relationship manager suresh will call you at 6 pm today'',
      translation ''case_only_difference_payment_capitalization'' ''hi'' ''en''
        ''sir aapka paanch sau rupaye ka payment confirm ho gaya hai''
        ''your payment of five hundred rupees is confirmed''
        ''your Payment of five hundred rupees is confirmed'',
      translation ''over_repeated_word_clipping_billing_transfer'' ''hi'' ''en''
        ''please mujhe billing department mein transfer kar dijiye''
        ''please transfer the call to the billing department''
        ''the the the the the the the the'',
      translation ''word_order_adjacent_swap_end_delivery_schedule'' ''hi'' ''en''
        ''sir aapka order kal shaam tak deliver ho jayega''
        ''your order will be delivered tomorrow''
        ''your order will be tomorrow delivered'',
      translation ''two_scattered_substitutions_currency_and_status_refund'' ''hi'' ''en''
        ''sir aapka refund paanch sau rupaye process ho gaya hai''
        ''your refund of five hundred rupees has been processed''
        ''your refund of five hundred dollars has been completed'',
      translation ''short_pair_leading_word_insertion_call_disconnected'' ''hi'' ''en''
        ''call cut gaya hai''
        ''call is disconnected''
        ''the call is disconnected'',
      translation ''stutter_duplicated_trailing_word_confirmed_confirmed'' ''hi'' ''en''
        ''sir aapka order confirm ho gaya hai''
        ''your order has been confirmed''
        ''your order has been confirmed confirmed'',
      translation ''very_short_pair_substitution_yes_maam'' ''hi'' ''en''
        ''haan madam''
        ''yes sir''
        (''yes ma'' @ [CHR 0x27] @ ''am'')]"

definition FixedTranslationCorpus_2 :: "TranslationCorpusEntry list" where
  "FixedTranslationCorpus_2 =
     [translation ''combined_substitution_and_trailing_hallucination_complaint_resolved_closed'' ''hi'' ''en''
        ''sir aapki complaint resolve ho gayi hai''
        ''your complaint has been resolved''
        ''your complaint has been closed now'',
      translation ''word_splitting_helpline_compound_translation'' ''hi'' ''en''
        ''kripya sahayata ke liye hamare helpline number par call karein''
        ''please call our helpline number for support''
        ''please call our help line number for support'',
      translation ''word_merging_signup_process_confirmation'' ''hi'' ''en''
        ''kripya naye process ke liye sign up karein''
        ''please sign up for the new process''
        ''please signup for the new process'',
      translation ''transposition_mid_sentence_will_be_delivered'' ''hi'' ''en''
        ''aapka parcel shaam tak deliver ho jayega''
        ''your parcel will be delivered by evening today''
        ''your parcel be will delivered by evening today'',
      translation ''code_switching_untranslated_source_word_khata'' ''hi'' ''en''
        ''kripya apna bank khata number ab share karein''
        ''please share your bank account number now''
        ''please share your bank khata number now'',
      translation ''homophone_confusion_target_language_their_there'' ''hi'' ''en''
        ''kripya parcel darwaze par wahan rakh dein''
        ''please leave the package there at the door''
        ''please leave the package their at the door'',
      translation ''number_date_formatting_difference_24hr_vs_12hr'' ''hi'' ''en''
        ''aapka appointment kal shaam paanch baje hai''
        ''your appointment is at 5 pm tomorrow''
        ''your appointment is at 17:00 tomorrow'',
      translation ''honorific_marker_deletion_sir_dropped'' ''hi'' ''en''
        ''sir aapka order confirm ho gaya hai''
        ''sir your order has been confirmed''
        ''your order has been confirmed'',
      translation ''unit_of_measurement_km_miles_substitution_trailing'' ''hi'' ''en''
        ''sir aapke ghar ki doori dus kilometer hai''
        ''sir the distance to your house is ten kilometers''
        ''sir the distance to your house is ten miles'',
      translation ''numeral_formatting_inconsistency_word_to_digit_collapse'' ''hi'' ''en''
        ''sir aapke bill ki rakam das hazar rupaye hai''
        ''sir your bill amount is ten thousand rupees''
        ''sir your bill amount is 10000 rupees'',
      translation ''alphanumeric_bank_code_substitution_ifsc'' ''hi'' ''en''
        ''sir aapka ifsc code hdfc0001234 hai''
        ''sir your ifsc code is hdfc0001234''
        ''sir your ifsc code is hdfc0004321'',
      translation ''currency_subunit_paise_rupees_substitution_trailing'' ''hi'' ''en''
        ''sir aapka balance pachaas rupaye das paise hai''
        ''sir your balance is fifty rupees and ten paise''
        ''sir your balance is fifty rupees and ten rupees'',
      translation ''acronym_expansion_mismatch_kyc_full_form'' ''hi'' ''en''
        ''kripya apna kyc verification aaj hi complete karein''
        ''please complete your kyc verification today''
        ''please complete your know your customer verification today'',
      translation ''filler_word_insertion_midsentence_actually'' ''hi'' ''en''
        ''sir aapka refund process ho gaya hai''
        ''sir your refund has been processed''
        ''sir your refund has actually been processed'',
      translation ''negation_deletion_mistranslation_refund_not_processed'' ''hi'' ''en''
        ''sir aapka refund process nahi hoga''
        ''your refund will not be processed''
        ''your refund will be processed'',
      translation ''ordinal_number_word_vs_digit_translation_third_complaint'' ''hi'' ''en''
        ''yeh aapki teesri complaint hai''
        ''this is your third complaint''
        ''this is your 3rd complaint'',
      translation ''full_utterance_echo_duplication_order_confirmed'' ''hi'' ''en''
        ''sir aapka order confirm ho gaya hai''
        ''your order is confirmed''
        ''your order is confirmed your order is confirmed'']"

definition FixedTranslationCorpus_3 :: "TranslationCorpusEntry list" where
  "FixedTranslationCorpus_3 =
     [translation ''phone_number_spaced_digit_grouping_collapse_translation'' ''hi'' ''en''
        ''kripya apna number nau aath saat chhe paanch confirm karein''
        ''please confirm your number nine eight seven six five''
        ''please confirm your number 98765'',
      translation ''magnitude_confusion_lakh_thousand_substitution_bill_amount'' ''hi'' ''en''
        ''sir aapka bill ek lakh rupaye hai''
        ''your bill is one lakh rupees''
        ''your bill is one thousand rupees'',
      translation ''contraction_expansion_wont_will_not_translation_refund'' ''hi'' ''en''
        ''sir aapka payment aaj process nahi hoga''
        ''the payment will not be processed today''
        ''the payment wont be processed today'',
      translation ''tense_mismatch_future_vs_past_delivery_status_translation'' ''hi'' ''en''
        ''sir aapka parcel kal deliver hoga''
        ''your parcel will be delivered tomorrow''
        ''your parcel was delivered tomorrow'',
      translation ''pluralization_mismatch_singular_plural_document_upload'' ''hi'' ''en''
        ''kripya apna document upload karein''
        ''please upload your document''
        ''please upload your documents'',
      translation ''digit_value_rounding_error_bill_amount_499_vs_500'' ''hi'' ''en''
        ''sir aapka bill 499 rupaye hai''
        ''sir your bill is 499 rupees''
        ''sir your bill is 500 rupees'',
      translation ''place_name_substitution_city_mumbai_pune_translation'' ''hi'' ''en''
        ''aapka parcel mumbai se dispatch hua hai''
        ''your parcel was dispatched from mumbai''
        ''your parcel was dispatched from pune'',
      translation ''reference_repeated_word_collapsed_bilkul_bilkul_translation'' ''hi'' ''en''
        ''bilkul bilkul sir main abhi check karta hoon''
        ''sure sure sir i will check right now''
        ''sure sir i will check right now'',
      translation ''long_utterance_single_substitution_technical_support_ticket'' ''hi'' ''en''
        ''sir aapka technical support ticket humari senior engineering team ko aaj hi turant resolution ke liye bhej diya gaya hai''
        ''sir your technical support ticket has been escalated to our senior engineering team for immediate resolution today''
        ''sir your technical support ticket has been forwarded to our senior engineering team for immediate resolution today'',
      translation ''voice_conversion_passive_to_active_mismatch_order_shipped'' ''hi'' ''en''
        ''aapka order ship kar diya gaya hai''
        ''your order has been shipped''
        ''we have shipped your order'',
      translation ''trailing_punctuation_mark_exclamation_difference_confirmation'' ''hi'' ''en''
        ''sir aapka payment confirm ho gaya hai''
        ''your payment is confirmed''
        ''your payment is confirmed!'',
      translation ''word_order_long_distance_swap_business_hours_translation'' ''hi'' ''en''
        ''aapka order kal shaam tak aapke ghar pahuch jayega''
        ''your order will be delivered to your home tomorrow evening''
        ''your evening will be delivered to your home tomorrow order'',
      translation ''repeated_bigram_phrase_insertion_please_hold_while_i_check'' ''hi'' ''en''
        ''please hold main aapka account status check karta hoon''
        ''please hold while i check your account status''
        ''please hold please hold while i check your account status'',
      translation ''clause_level_reordering_swap_two_clauses_translation'' ''hi'' ''en''
        ''please hold aur main aapka balance check karunga''
        ''please hold and i will check your balance''
        ''i will check your balance and please hold'',
      translation ''preposition_substitution_on_in_delivery_day_mismatch'' ''hi'' ''en''
        ''aapka parcel monday ko pahuchega''
        ''your parcel will arrive on monday''
        ''your parcel will arrive in monday'',
      translation ''gender_pronoun_mistranslation_he_she_confusion'' ''hi'' ''en''
        ''unhone kal aapko refund ke baare mein call kiya tha''
        ''he called you yesterday about the refund''
        ''she called you yesterday about the refund'',
      translation ''idiomatic_phrase_literal_translation_mismatch'' ''hi'' ''en''
        ''kripya thoda sabar rakhiye hum abhi dekhte hain''
        ''please bear with us for a moment''
        ''please carry with us for a moment'',
      translation ''formality_register_downgrade_please_dropped'' ''hi'' ''en''
        ''kripya apna registered mobile number bataiye''
        ''please share your registered mobile number''
        ''share your registered mobile number'']"

definition FixedTranslationCorpus_4 :: "TranslationCorpusEntry list" where
  "FixedTranslationCorpus_4 =
     [translation ''double_negative_mistranslation_meaning_reversal'' ''hi'' ''en''
        ''aapka refund process nahi hua hai''
        ''your refund has not been processed''
        ''your refund has not not been processed'',
      translation ''measurement_unit_conversion_numeric_error_km_to_miles'' ''hi'' ''en''
        ''warehouse yahan se das kilometer door hai''
        ''the warehouse is ten kilometers from here''
        ''the warehouse is six miles from here'',
      translation ''aspect_mismatch_continuous_vs_simple_tense_translation'' ''hi'' ''en''
        ''hamari team aapki complaint review kar rahi hai''
        ''our team is reviewing your complaint''
        ''our team reviews your complaint'',
      translation ''determiner_deletion_the_dropped_refund_timeline'' ''hi'' ''en''
        ''refund din ke andar process ho jayega''
        ''the refund will be processed within the day''
        ''refund will be processed within day'',
      translation ''modal_verb_mistranslation_must_should_obligation_strength'' ''hi'' ''en''
        ''aapko apne documents shukrawar tak submit karne honge''
        ''you must submit your documents by friday''
        ''you should submit your documents by friday'',
      translation ''conjunction_mistranslation_and_or_logical_connective'' ''hi'' ''en''
        ''kripya apna naam aur apna registered number bataiye''
        ''please share your name and your registered number''
        ''please share your name or your registered number'',
      translation ''pronoun_number_mismatch_singular_plural_it_they'' ''hi'' ''en''
        ''aapka package deliver ho gaya hai ise abhi check kariye''
        ''your package has been delivered check it now''
        ''your package has been delivered check they now'',
      translation ''compound_noun_word_order_scramble_customer_care_number'' ''hi'' ''en''
        ''kripya hamara customer care number abhi call kariye''
        ''please call our customer care number now''
        ''please call our care customer number now'',
      translation ''antonym_substitution_open_closed_business_hours'' ''hi'' ''en''
        ''hamara office sabhi weekdays mein khula rehta hai''
        ''our office is open on all weekdays''
        ''our office is closed on all weekdays'',
      translation ''kinship_term_mistranslation_son_daughter_substitution'' ''hi'' ''en''
        ''aapke beta ka naam registration mein update ho gaya''
        (''your son'' @ [CHR 0x27] @ ''s name has been updated in registration'')
        (''your daughter'' @ [CHR 0x27] @ ''s name has been updated in registration''),
      translation ''spatial_direction_mistranslation_left_right_substitution'' ''hi'' ''en''
        ''kripya apni gaadi baayi taraf mode''
        ''please turn your vehicle to the left''
        ''please turn your vehicle to the right'',
      translation ''possessive_pronoun_deletion_my_dropped_order_translation'' ''hi'' ''en''
        ''mera order abhi tak deliver nahi hua hai''
        ''my order has not been delivered yet''
        ''order has not been delivered yet'',
      translation ''question_tag_deletion_confirmation_right_translation'' ''hi'' ''en''
        ''aapka address yahi hai na''
        ''your address is this one right''
        ''your address is this one'',
      translation ''superlative_degree_mistranslation_better_best_substitution'' ''hi'' ''en''
        ''yeh plan aapke liye sabse behtar hoga''
        ''this plan will be better for you''
        ''this plan will be best for you'',
      translation ''quantifier_mistranslation_some_all_substitution'' ''hi'' ''en''
        ''kripya kuch documents email par bhejiye''
        ''please send some documents by email''
        ''please send all documents by email'',
      translation ''comparative_quantity_mistranslation_more_less_substitution'' ''hi'' ''en''
        ''aapko zyada wait nahi karna padega''
        ''you will not have to wait more''
        ''you will not have to wait less'']"

definition FixedTranslationCorpus_5 :: "TranslationCorpusEntry list" where
  "FixedTranslationCorpus_5 =
     [translation ''color_word_mistranslation_red_blue_substitution'' ''hi'' ''en''
        ''aapki laal wali shirt ready hai''
        ''your red colored shirt is ready''
        ''your blue colored shirt is ready'',
      translation ''landmark_phrase_deletion_near_signal_dropped'' ''hi'' ''en''
        ''aapka office traffic signal ke paas hai''
        ''your office is near the traffic signal''
        ''your office is'',
      translation ''time_of_day_mistranslation_morning_evening_substitution'' ''hi'' ''en''
        ''aapki delivery kal subah aapke address ke paas hogi''
        ''your delivery will happen tomorrow morning near your address''
        ''your delivery will happen tomorrow evening near your address'',
      translation ''intensifier_degree_mistranslation_very_quite_substitution'' ''hi'' ''en''
        ''sir yeh offer aapke liye bahut accha hai''
        ''sir this offer is very good for you''
        ''sir this offer is quite good for you'',
      translation ''topic_particle_bhi_deletion_also_dropped'' ''hi'' ''en''
        ''aapka order ready hai aur payment bhi ho gaya hai''
        ''your order is ready and payment is also done''
        ''your order is ready and payment is done'',
      translation ''weight_unit_mistranslation_kilo_gram_parcel_translation'' ''hi'' ''en''
        ''aapka parcel do kilo weight ka hai''
        ''your parcel is two kilo in weight''
        ''your parcel is two gram in weight'',
      translation ''calendar_duration_unit_mistranslation_week_month_translation'' ''hi'' ''en''
        ''aapka refund ek hafte mein aa jayega''
        ''your refund will arrive in one week''
        ''your refund will arrive in one month'',
      translation ''month_name_mistranslation_january_march_translation'' ''hi'' ''en''
        ''sir aapka plan january mein renew hoga''
        ''sir your plan will renew in january''
        ''sir your plan will renew in march'',
      translation ''fraction_word_mistranslation_half_whole_refund_translation'' ''hi'' ''en''
        ''sir aapka refund aadha process ho gaya hai''
        ''sir your refund has been half processed''
        ''sir your refund has been whole processed'',
      translation ''percentage_marker_deletion_percent_dropped_translation'' ''hi'' ''en''
        ''sir aapka interest rate teen percent hai''
        ''sir your interest rate is three percent''
        ''sir your interest rate is three'',
      translation ''emphatic_particle_hi_deletion_only_exactly_dropped_translation'' ''hi'' ''en''
        ''aapka order aaj hi deliver ho jayega''
        ''your order will be delivered today itself''
        ''your order will be delivered today'',
      translation ''payment_mode_mistranslation_cash_card_refund_translation'' ''hi'' ''en''
        ''sir aapka refund cash mode mein process hoga''
        ''sir your refund will be processed in cash mode''
        ''sir your refund will be processed in card mode'',
      translation ''volume_unit_mistranslation_liter_mililiter_translation'' ''hi'' ''en''
        ''sir yeh purifier ek liter paani filter karta hai''
        ''sir this purifier filters one liter of water''
        ''sir this purifier filters one mililiter of water'',
      translation ''vehicle_type_mistranslation_car_bike_delivery_translation'' ''hi'' ''en''
        ''sir aapka delivery boy car se aa raha hai''
        ''sir your delivery boy is coming by car''
        ''sir your delivery boy is coming by bike'',
      translation ''marital_status_mistranslation_married_unmarried_translation'' ''hi'' ''en''
        ''sir aapka form mein shaadishuda status update ho gaya''
        ''sir your marital status has been updated to married''
        ''sir your marital status has been updated to unmarried'',
      translation ''urgency_adverb_mistranslation_immediately_later_translation'' ''hi'' ''en''
        ''sir hum aapka issue turant resolve kar denge''
        ''sir we will resolve your issue immediately''
        ''sir we will resolve your issue later'']"

definition FixedTranslationCorpus_6 :: "TranslationCorpusEntry list" where
  "FixedTranslationCorpus_6 =
     [translation ''document_type_mistranslation_aadhar_pan_translation'' ''hi'' ''en''
        ''sir verification ke liye aapka aadhar card chahiye''
        ''sir we need your aadhar card for verification''
        ''sir we need your pan card for verification'',
      translation ''sibling_kinship_term_mistranslation_brother_sister_family_details_translation'' ''hi'' ''en''
        ''sir aapka bhai naam registration form mein diya hai''
        (''sir your brother'' @ [CHR 0x27] @ ''s name is given in the registration form'')
        (''sir your sister'' @ [CHR 0x27] @ ''s name is given in the registration form''),
      translation ''season_name_mistranslation_summer_winter_delivery_delay_translation'' ''hi'' ''en''
        ''sir garmi ke season mein delivery mein delay hota hai''
        ''sir during the summer season there is a delay in delivery''
        ''sir during the winter season there is a delay in delivery'',
      translation ''compass_direction_mistranslation_north_south_branch_location_translation'' ''hi'' ''en''
        ''sir hamari branch uttar zone mein located hai''
        ''sir our branch is located in the north zone''
        ''sir our branch is located in the south zone'',
      translation ''size_adjective_mistranslation_big_small_parcel_box_translation'' ''hi'' ''en''
        ''sir aapka parcel bada box mein pack kiya gaya hai''
        ''sir your parcel has been packed in a big box''
        ''sir your parcel has been packed in a small box'',
      translation ''temperature_adjective_mistranslation_hot_cold_water_purifier_query_translation'' ''hi'' ''en''
        ''sir yeh purifier garam paani bhi supply karta hai''
        ''sir this purifier also supplies hot water''
        ''sir this purifier also supplies cold water'',
      translation ''floor_level_number_word_mistranslation_first_second_office_visit_translation'' ''hi'' ''en''
        ''sir hamara office pehla floor par located hai''
        ''sir our office is located on the first floor''
        ''sir our office is located on the second floor'']"


definition FixedTranslationCorpus :: "TranslationCorpusEntry list" where
  "FixedTranslationCorpus =
     concat [FixedTranslationCorpus_1,
       FixedTranslationCorpus_2,
       FixedTranslationCorpus_3,
       FixedTranslationCorpus_4,
       FixedTranslationCorpus_5,
       FixedTranslationCorpus_6]"

subsection \<open>The scores\<close>

text \<open>
  Words of the reference and of the candidate, and the matches of every order, of every entry, as
  the tests count them by hand.
\<close>

definition documented_scores :: "(nat \<times> nat \<times> nat list) list" where
  "documented_scores = concat
     [[(6, 6, [6, 5, 4, 3]), (8, 8, [7, 6, 5, 4]), (13, 10, [10, 9, 8, 7]), (6, 6, [0, 0, 0, 0]),
       (9, 11, [1, 0, 0, 0]), (2, 1, [1]), (7, 7, [7, 0, 0, 0]), (8, 8, [5, 4, 3, 2]), (5, 10, [5, 4, 3, 2]),
       (11, 11, [10, 8, 6, 4]), (8, 8, [7, 5, 4, 3]), (8, 8, [2, 0, 0, 0]), (6, 6, [6, 3, 2, 1]),
       (9, 9, [7, 5, 3, 2]), (3, 4, [3, 2, 1, 0]), (5, 6, [5, 4, 3, 2]), (2, 2, [1, 0])],
      [(5, 6, [4, 3, 2, 1]), (7, 8, [6, 4, 2, 0]), (7, 6, [5, 3, 2, 1]), (8, 8, [8, 4, 2, 1]), (7, 7, [6, 4, 2, 1]),
       (8, 8, [7, 5, 3, 1]), (7, 6, [5, 3, 2, 1]), (6, 5, [5, 4, 3, 2]), (9, 9, [8, 7, 6, 5]), (8, 7, [6, 4, 3, 2]),
       (6, 6, [5, 4, 3, 2]), (9, 9, [8, 7, 6, 5]), (6, 8, [5, 3, 1, 0]), (6, 7, [6, 4, 2, 1]), (6, 5, [5, 3, 1, 0]),
       (5, 5, [4, 2, 1, 0]), (4, 8, [4, 3, 2, 1])],
      [(9, 5, [4, 3, 2, 1]), (6, 6, [5, 3, 2, 1]), (7, 6, [5, 3, 1, 0]), (6, 5, [4, 2, 0, 0]), (4, 4, [3, 2, 1, 0]),
       (6, 6, [5, 3, 2, 1]), (6, 6, [5, 4, 3, 2]), (8, 7, [7, 6, 5, 4]), (17, 17, [16, 14, 12, 10]),
       (5, 5, [3, 1, 0, 0]), (4, 4, [3, 2, 1, 0]), (10, 10, [10, 6, 5, 4]), (8, 10, [8, 7, 6, 5]),
       (8, 8, [8, 5, 3, 2]), (6, 6, [5, 3, 2, 1]), (7, 7, [6, 5, 4, 3]), (7, 7, [6, 4, 3, 2]), (6, 5, [5, 4, 3, 2])],
      [(6, 7, [6, 5, 3, 1]), (7, 7, [5, 3, 1, 0]), (6, 5, [4, 2, 0, 0]), (8, 6, [6, 4, 3, 2]), (7, 7, [6, 4, 3, 2]),
       (8, 8, [7, 5, 3, 1]), (8, 8, [7, 5, 4, 3]), (7, 7, [7, 3, 1, 0]), (7, 7, [6, 4, 2, 0]), (8, 8, [7, 5, 4, 3]),
       (7, 7, [6, 5, 4, 3]), (7, 6, [6, 5, 4, 3]), (6, 5, [5, 4, 3, 2]), (7, 7, [6, 4, 2, 1]), (6, 6, [5, 3, 1, 0]),
       (7, 7, [6, 5, 4, 3])],
      [(6, 6, [5, 3, 2, 1]), (7, 3, [3, 2, 1]), (9, 9, [8, 6, 4, 2]), (8, 8, [7, 5, 3, 1]), (9, 8, [8, 6, 5, 4]),
       (7, 7, [6, 4, 2, 1]), (7, 7, [6, 5, 4, 3]), (7, 7, [6, 5, 4, 3]), (7, 7, [6, 4, 3, 2]), (7, 6, [6, 5, 4, 3]),
       (7, 6, [6, 5, 4, 3]), (9, 9, [8, 6, 5, 4]), (8, 8, [7, 5, 3, 2]), (8, 8, [7, 6, 5, 4]), (9, 9, [8, 7, 6, 5]),
       (7, 7, [6, 5, 4, 3])],
      [(8, 8, [7, 5, 3, 1]), (10, 10, [9, 7, 5, 4]), (11, 11, [10, 8, 6, 4]), (9, 9, [8, 6, 5, 4]),
       (10, 10, [9, 7, 6, 5]), (7, 7, [6, 4, 3, 2]), (9, 9, [8, 6, 5, 4])]]"

lemma scores_1: "list_all2 scored FixedTranslationCorpus_1
    [(6, 6, [6, 5, 4, 3]), (8, 8, [7, 6, 5, 4]), (13, 10, [10, 9, 8, 7]), (6, 6, [0, 0, 0, 0]),
     (9, 11, [1, 0, 0, 0]), (2, 1, [1]), (7, 7, [7, 0, 0, 0]), (8, 8, [5, 4, 3, 2]), (5, 10, [5, 4, 3, 2]),
     (11, 11, [10, 8, 6, 4]), (8, 8, [7, 5, 4, 3]), (8, 8, [2, 0, 0, 0]), (6, 6, [6, 3, 2, 1]),
     (9, 9, [7, 5, 3, 2]), (3, 4, [3, 2, 1, 0]), (5, 6, [5, 4, 3, 2]), (2, 2, [1, 0])]"
  unfolding FixedTranslationCorpus_1_def
  by (intro all_rated_intros; simp add: scored_translation scored_words_def cong: score_congs)

lemma scores_2: "list_all2 scored FixedTranslationCorpus_2
    [(5, 6, [4, 3, 2, 1]), (7, 8, [6, 4, 2, 0]), (7, 6, [5, 3, 2, 1]), (8, 8, [8, 4, 2, 1]), (7, 7, [6, 4, 2, 1]),
     (8, 8, [7, 5, 3, 1]), (7, 6, [5, 3, 2, 1]), (6, 5, [5, 4, 3, 2]), (9, 9, [8, 7, 6, 5]), (8, 7, [6, 4, 3, 2]),
     (6, 6, [5, 4, 3, 2]), (9, 9, [8, 7, 6, 5]), (6, 8, [5, 3, 1, 0]), (6, 7, [6, 4, 2, 1]), (6, 5, [5, 3, 1, 0]),
     (5, 5, [4, 2, 1, 0]), (4, 8, [4, 3, 2, 1])]"
  unfolding FixedTranslationCorpus_2_def
  by (intro all_rated_intros; simp add: scored_translation scored_words_def cong: score_congs)

lemma scores_3: "list_all2 scored FixedTranslationCorpus_3
    [(9, 5, [4, 3, 2, 1]), (6, 6, [5, 3, 2, 1]), (7, 6, [5, 3, 1, 0]), (6, 5, [4, 2, 0, 0]), (4, 4, [3, 2, 1, 0]),
     (6, 6, [5, 3, 2, 1]), (6, 6, [5, 4, 3, 2]), (8, 7, [7, 6, 5, 4]), (17, 17, [16, 14, 12, 10]),
     (5, 5, [3, 1, 0, 0]), (4, 4, [3, 2, 1, 0]), (10, 10, [10, 6, 5, 4]), (8, 10, [8, 7, 6, 5]),
     (8, 8, [8, 5, 3, 2]), (6, 6, [5, 3, 2, 1]), (7, 7, [6, 5, 4, 3]), (7, 7, [6, 4, 3, 2]), (6, 5, [5, 4, 3, 2])]"
  unfolding FixedTranslationCorpus_3_def
  by (intro all_rated_intros; simp add: scored_translation scored_words_def cong: score_congs)

lemma scores_4: "list_all2 scored FixedTranslationCorpus_4
    [(6, 7, [6, 5, 3, 1]), (7, 7, [5, 3, 1, 0]), (6, 5, [4, 2, 0, 0]), (8, 6, [6, 4, 3, 2]), (7, 7, [6, 4, 3, 2]),
     (8, 8, [7, 5, 3, 1]), (8, 8, [7, 5, 4, 3]), (7, 7, [7, 3, 1, 0]), (7, 7, [6, 4, 2, 0]), (8, 8, [7, 5, 4, 3]),
     (7, 7, [6, 5, 4, 3]), (7, 6, [6, 5, 4, 3]), (6, 5, [5, 4, 3, 2]), (7, 7, [6, 4, 2, 1]), (6, 6, [5, 3, 1, 0]),
     (7, 7, [6, 5, 4, 3])]"
  unfolding FixedTranslationCorpus_4_def
  by (intro all_rated_intros; simp add: scored_translation scored_words_def cong: score_congs)

lemma scores_5: "list_all2 scored FixedTranslationCorpus_5
    [(6, 6, [5, 3, 2, 1]), (7, 3, [3, 2, 1]), (9, 9, [8, 6, 4, 2]), (8, 8, [7, 5, 3, 1]), (9, 8, [8, 6, 5, 4]),
     (7, 7, [6, 4, 2, 1]), (7, 7, [6, 5, 4, 3]), (7, 7, [6, 5, 4, 3]), (7, 7, [6, 4, 3, 2]), (7, 6, [6, 5, 4, 3]),
     (7, 6, [6, 5, 4, 3]), (9, 9, [8, 6, 5, 4]), (8, 8, [7, 5, 3, 2]), (8, 8, [7, 6, 5, 4]), (9, 9, [8, 7, 6, 5]),
     (7, 7, [6, 5, 4, 3])]"
  unfolding FixedTranslationCorpus_5_def
  by (intro all_rated_intros; simp add: scored_translation scored_words_def cong: score_congs)

lemma scores_6: "list_all2 scored FixedTranslationCorpus_6
    [(8, 8, [7, 5, 3, 1]), (10, 10, [9, 7, 5, 4]), (11, 11, [10, 8, 6, 4]), (9, 9, [8, 6, 5, 4]),
     (10, 10, [9, 7, 6, 5]), (7, 7, [6, 4, 3, 2]), (9, 9, [8, 6, 5, 4])]"
  unfolding FixedTranslationCorpus_6_def
  by (intro all_rated_intros; simp add: scored_translation scored_words_def cong: score_congs)

lemma all_scored: "list_all2 scored FixedTranslationCorpus documented_scores"
  unfolding FixedTranslationCorpus_def documented_scores_def concat.simps
  by (intro list_all2_appendI list_all2_Nil [THEN iffD2] refl scores_1 scores_2 scores_3 scores_4 scores_5 scores_6)

lemma translation_scores:
  "map (\<lambda>e. BLEUScore (te_Reference e) (te_Candidate e)) FixedTranslationCorpus = map geometric_score documented_scores"
  using all_scored by (induction rule: list_all2_induct) (simp_all add: scored_score)

text \<open>
  C35: Both corpora score as documented. The word error rate of each of the 147 recognition entries is
  the number of edits over the number of reference words that the documentation computes by hand,
  and the BLEU score of each of the 91 translation entries is the brevity penalty times the geometric
  mean of the n-gram precisions that the tests count by hand, smoothed where an order has no match.
\<close>
theorem corpora_score_as_documented:
  "map (\<lambda>e. WordErrorRate (ce_Reference e) (ce_Hypothesis e)) FixedCorpus
     = map (\<lambda>x. real (fst x) / real (snd x)) documented_rates
   \<and> map (\<lambda>e. BLEUScore (te_Reference e) (te_Candidate e)) FixedTranslationCorpus
       = map geometric_score documented_scores
   \<and> length FixedCorpus = 147 \<and> length FixedTranslationCorpus = 91"
proof -
  have "length documented_rates = 147" "length documented_scores = 91"
    by (simp_all add: documented_rates_def documented_scores_def)
  then show ?thesis
    using corpus_rates translation_scores list_all2_lengthD [OF all_rated] list_all2_lengthD [OF all_scored] by simp
qed

end
