(* ===== verification/HostedLeg.thy ===== *)
theory HostedLeg
  imports SessionLegProps Translators
begin

section \<open>Both legs of a session on one hosted translator\<close>

text \<open>
  A session gives its one translator to both legs (\<open>NewSession\<close>), so their final transcripts share
  the translator's breaker. A step is one final transcript of one leg, handled with the GPT-4o
  client as the translator: the leg's step decides whether the translator is asked, and the breaker
  is threaded through the calls. The legs are independent apart from it, so the order of the list is
  the order in which the calls return.
\<close>

text \<open>\<open>hc_caller\<close>: the transcript is the caller's. \<open>hc_net\<close>: the network of the translation.\<close>

record hosted_call =
  hc_caller :: bool
  hc_tr :: Transcript
  hc_net :: "chatCompletionRequest translate_env"
  hc_env :: utt_env

record hosted_session =
  hs_g :: hosted_translator
  hs_leg :: "bool \<Rightarrow> leg_sys"
  hs_asked :: "bool \<Rightarrow> nat"

definition hosted_start :: "hosted_translator \<Rightarrow> hosted_session" where
  "hosted_start g = \<lparr>hs_g = g, hs_leg = (\<lambda>b. new_leg (if b then ''caller'' else ''agent'')), hs_asked = (\<lambda>b. 0)\<rparr>"

definition with_translator ::
  "(string \<Rightarrow> chatCompletionChunk option) \<Rightarrow> (string \<Rightarrow> bool) \<Rightarrow> hosted_translator \<Rightarrow> hosted_call \<Rightarrow> utt_env" where
  "with_translator parse errorShape g x =
     (hc_env x)\<lparr>ue_translate := (\<lambda>txt src dst isFinal.
        map_sum id fst (ct_result (gpt4o_Translate parse errorShape g (hc_net x) txt src dst isFinal)))\<rparr>"

definition hosted_step ::
  "(string \<Rightarrow> chatCompletionChunk option) \<Rightarrow> (string \<Rightarrow> bool) \<Rightarrow> (bool \<Rightarrow> leg_cfg) \<Rightarrow> hosted_session \<Rightarrow> hosted_call \<Rightarrow> hosted_session" where
  "hosted_step parse errorShape cfg s x =
     (let b = hc_caller x; c = cfg b; tr = hc_tr x; leg = hs_leg s b;
          leg' = leg_step c leg (FinalOrPartial tr (with_translator parse errorShape (hs_g s) x))
      in if ls_phase leg = LegRunning \<and> tr_IsFinal tr \<and> mt_asked c tr (ls_leg leg)
         then \<lparr>hs_g = gpt4o_step parse errorShape (hs_g s) (hc_net x, tr_Text tr, lg_srcLang c, lg_dstLang c, tr_IsFinal tr),
               hs_leg = (hs_leg s)(b := leg'), hs_asked = (hs_asked s)(b := Suc (hs_asked s b))\<rparr>
         else s\<lparr>hs_leg := (hs_leg s)(b := leg')\<rparr>)"

subsection \<open>In an outage\<close>

text \<open>A confident final transcript whose translation meets an outage, while the session is not shutting down.\<close>

definition in_outage :: "(bool \<Rightarrow> leg_cfg) \<Rightarrow> (language \<times> language) list \<Rightarrow> hosted_call \<Rightarrow> bool" where
  "in_outage cfg pairs x \<longleftrightarrow>
     vendor_down (hc_net x) \<and> ue_budget (hc_env x) = None \<and> tr_IsFinal (hc_tr x)
     \<and> \<not> low_confidence (cfg (hc_caller x)) (hc_tr x)
     \<and> mt_supports pairs (lg_srcLang (cfg (hc_caller x))) (lg_dstLang (cfg (hc_caller x)))"

lemma outage_answer:
  assumes "vendor_down e" "mt_supports (ht_pairs g) source target"
  shows "\<exists>er. ct_result (gpt4o_Translate parse errorShape g e txt source target isFinal) = Err er"
proof -
  let ?c = "translate_client ''gpt-4o'' ''translate/gpt4o'' gpt4oInputCostPerTokenUSD gpt4oOutputCostPerTokenUSD g txt"
  let ?l = "translate_loop (gpt4o_translateOnce parse errorShape g txt source target) source target isFinal e"
  have e: "gpt4o_Translate parse errorShape g e txt source target isFinal
      = guarded_call ?c (te_allowAt e) (te_settleAt e) ?l (ht_breaker g)"
    using assms by (simp add: gpt4o_Translate_def vendor_down_def)
  show ?thesis
  proof (cases "fst (cb_allow (ht_breaker g) (te_allowAt e))")
    case True
    obtain v ds k where r: "retry_loop (gc_policy ?c) ?l 0 = (v, ds, k)" by (cases "retry_loop (gc_policy ?c) ?l 0")
    have p: "gc_policy ?c = vendor_policy" "0 < rp_attempts vendor_policy" by (simp_all add: translate_client_def vendor_policy_def)
    have "outage vendor_policy ?l" by (rule down_outage [OF assms(1)])
    from outage_exhausts [OF this p(2)] r [unfolded p(1)] obtain er where "v = VExhausted er" by auto
    then show ?thesis unfolding e guarded_call_admitted [OF True r] by (simp add: verdict_result_def)
  qed (simp add: e guarded_call_refused)
qed

text \<open>A leg after \<open>n\<close> such transcripts: degraded, or with all of them asked and counted as failures.\<close>

definition leg_counts :: "int \<Rightarrow> leg_sys \<Rightarrow> nat \<Rightarrow> nat \<Rightarrow> bool" where
  "leg_counts m leg asked n \<longleftrightarrow>
     ls_phase leg = LegRunning \<and> int asked \<le> m
     \<and> (degraded (ls_leg leg) \<or> consecutiveFailures (ls_leg leg) = int n \<and> asked = n \<and> int n < m)"

lemma outage_leg_step:
  assumes "ue_translate e (tr_Text tr) (lg_srcLang c) (lg_dstLang c) (tr_IsFinal tr) = Err er" "ue_budget e = None"
    "tr_IsFinal tr" "\<not> low_confidence c tr"
    and "leg_counts (MaxConsecutiveFailures (lg_fallback c)) leg asked n"
  shows "leg_counts (MaxConsecutiveFailures (lg_fallback c)) (leg_step c leg (FinalOrPartial tr e))
    (if mt_asked c tr (ls_leg leg) then Suc asked else asked) (Suc n)"
proof -
  let ?leg = "fst (handle_final c e tr leg)"
  note out = handle_final_None [OF assms(2), of c tr leg]
  have step: "leg_step c leg (FinalOrPartial tr e) = ?leg" using assms(3,5) out by (simp add: leg_counts_def split_beta)
  have l: "ls_leg ?leg = (if degraded (ls_leg leg) then leg_drained (ls_leg leg)
      else snd (recordFailure (leg_drained (ls_leg leg)) (isFatal er) (MaxConsecutiveFailures (lg_fallback c))))"
    using assms(4) by (simp add: handle_final_leg assms(1))
  show ?thesis unfolding step using assms(4,5) out
    by (auto simp: leg_counts_def l mt_asked_def leg_drained_def recordFailure_def Let_def)
qed

text \<open>The breaker has seen every asked call, as long as there are fewer than its threshold.\<close>

definition breaker_counts :: "hosted_translator \<Rightarrow> hosted_translator \<Rightarrow> nat \<Rightarrow> bool" where
  "breaker_counts g0 g asked \<longleftrightarrow>
     ht_pairs g = ht_pairs g0
     \<and> (int asked < threshold (ht_breaker g0) \<longrightarrow>
          \<not> cb_open (ht_breaker g) \<and> consecutiveFails (ht_breaker g) = int asked
          \<and> threshold (ht_breaker g) = threshold (ht_breaker g0) \<and> cb_inv (ht_breaker g))"

lemma outage_breaker_step:
  assumes "vendor_down e" "mt_supports (ht_pairs g) source target" "breaker_counts g0 g asked"
  shows "breaker_counts g0 (gpt4o_step parse errorShape g (e, txt, source, target, isFinal)) (Suc asked)"
proof (cases "int (Suc asked) < threshold (ht_breaker g0)")
  case True
  then have c: "\<not> cb_open (ht_breaker g)" "consecutiveFails (ht_breaker g) = int asked"
    "threshold (ht_breaker g) = threshold (ht_breaker g0)" "cb_inv (ht_breaker g)" "ht_pairs g = ht_pairs g0"
    using assms(3) by (simp_all add: breaker_counts_def)
  have "consecutiveFails (ht_breaker g) + int (length [te_settleAt e]) < threshold (ht_breaker g)" using True c by simp
  note f = failures_below_threshold [OF c(4,1) this]
  show ?thesis using True c f cb_step_refines [OF c(4), of "CbFailure (te_settleAt e)"]
    by (simp add: breaker_counts_def down_step [OF assms(1,2) c(1)])
qed (use assms(3) in \<open>simp add: breaker_counts_def gpt4o_step_def\<close>)

definition of_leg :: "bool \<Rightarrow> hosted_call list \<Rightarrow> nat" where
  "of_leg b xs = length (filter (\<lambda>x. hc_caller x = b) xs)"

definition hosted_inv :: "(bool \<Rightarrow> leg_cfg) \<Rightarrow> hosted_translator \<Rightarrow> hosted_session \<Rightarrow> hosted_call list \<Rightarrow> bool" where
  "hosted_inv cfg g0 s xs \<longleftrightarrow>
     (\<forall>b. leg_counts (MaxConsecutiveFailures (lg_fallback (cfg b))) (hs_leg s b) (hs_asked s b) (of_leg b xs))
     \<and> breaker_counts g0 (hs_g s) (hs_asked s True + hs_asked s False)"

lemma hosted_inv_step:
  assumes "hosted_inv cfg g0 s xs" "in_outage cfg (ht_pairs g0) x"
  shows "hosted_inv cfg g0 (hosted_step parse errorShape cfg s x) (xs @ [x])"
proof -
  let ?b = "hc_caller x" and ?e = "with_translator parse errorShape (hs_g s) x"
  let ?c = "cfg ?b" and ?leg = "hs_leg s ?b" and ?tr = "hc_tr x"
  have x: "vendor_down (hc_net x)" "ue_budget ?e = None" "tr_IsFinal ?tr" "\<not> low_confidence ?c ?tr"
    "mt_supports (ht_pairs (hs_g s)) (lg_srcLang ?c) (lg_dstLang ?c)"
    using assms by (auto simp: in_outage_def with_translator_def hosted_inv_def breaker_counts_def)
  have inv: "leg_counts (MaxConsecutiveFailures (lg_fallback ?c)) ?leg (hs_asked s ?b) (of_leg ?b xs)"
    "breaker_counts g0 (hs_g s) (hs_asked s True + hs_asked s False)"
    using assms(1) by (simp_all add: hosted_inv_def)
  obtain er where "ue_translate ?e (tr_Text ?tr) (lg_srcLang ?c) (lg_dstLang ?c) (tr_IsFinal ?tr) = Err er"
    using outage_answer [OF x(1,5), of parse errorShape "tr_Text ?tr" "tr_IsFinal ?tr"] by (auto simp: with_translator_def)
  note leg = outage_leg_step [OF this x(2-4) inv(1)]
  note breaker = outage_breaker_step [OF x(1,5) inv(2)]
  have phase: "ls_phase ?leg = LegRunning" using inv(1) by (simp add: leg_counts_def)
  have n: "of_leg b (xs @ [x]) = (if b = ?b then Suc (of_leg b xs) else of_leg b xs)" for b by (simp add: of_leg_def)
  show ?thesis
  proof (cases "mt_asked ?c ?tr (ls_leg ?leg)")
    case True
    have "Suc (hs_asked s True + hs_asked s False)
        = ((hs_asked s)(?b := Suc (hs_asked s ?b))) True + ((hs_asked s)(?b := Suc (hs_asked s ?b))) False"
      by (cases ?b) simp_all
    with True leg breaker phase x(3) assms(1) show ?thesis
      by (simp add: hosted_inv_def hosted_step_def Let_def n del: leg_step.simps fun_upd_apply) (simp del: leg_step.simps)
  next
    case False
    with leg phase x(3) assms(1) show ?thesis
      by (simp add: hosted_inv_def hosted_step_def Let_def n del: leg_step.simps)
  qed
qed

lemma hosted_inv_run:
  assumes "list_all (in_outage cfg (ht_pairs g0)) ys" "hosted_inv cfg g0 s xs"
  shows "hosted_inv cfg g0 (foldl (hosted_step parse errorShape cfg) s ys) (xs @ ys)"
  using assms
proof (induction ys arbitrary: s xs)
  case (Cons y ys)
  show ?case
    using Cons.IH [of "hosted_step parse errorShape cfg s y" "xs @ [y]"] Cons.prems hosted_inv_step [of cfg g0 s xs y] by simp
qed simp

lemma hosted_inv_start:
  assumes "NewGPT4oTranslator key opts = Ok g" "\<forall>b. 0 < MaxConsecutiveFailures (lg_fallback (cfg b))"
  shows "hosted_inv cfg g (hosted_start g) []"
  using assms(2) NewGPT4o_fresh [OF assms(1)] New_breaker_ok assms(1)
  by (auto simp: hosted_inv_def hosted_start_def leg_counts_def breaker_counts_def of_leg_def new_leg_def newLegState_def
      less_imp_le)

subsection \<open>Afterwards\<close>

lemma degraded_step:
  assumes "\<forall>b. degraded (ls_leg (hs_leg s b))"
  shows "hs_asked (hosted_step parse errorShape cfg s x) = hs_asked s \<and> hs_g (hosted_step parse errorShape cfg s x) = hs_g s
    \<and> (\<forall>b. degraded (ls_leg (hs_leg (hosted_step parse errorShape cfg s x) b)))"
  using assms leg_step_degraded by (simp add: hosted_step_def mt_asked_def Let_def del: leg_step.simps)

lemma degraded_run:
  "\<forall>b. degraded (ls_leg (hs_leg s b)) \<Longrightarrow>
     hs_asked (foldl (hosted_step parse errorShape cfg) s ys) = hs_asked s \<and> hs_g (foldl (hosted_step parse errorShape cfg) s ys) = hs_g s"
proof (induction ys arbitrary: s)
  case (Cons y ys)
  show ?case using Cons.IH [of "hosted_step parse errorShape cfg s y"] degraded_step [OF Cons.prems] by simp
qed simp

text \<open>
  C7: What an outage of the translator does to a session. Whatever the order of the two legs'
  transcripts, each leg asks the translator at most as often as its limit of consecutive failures
  and is degraded once it has had that many transcripts; as long as the two together have asked less
  often than the breaker's threshold the breaker refuses nothing; and when both legs have reached
  their limit, the translator is never asked again, however long the vendor has been back. With the
  defaults (three failures, threshold five) one leg alone is lost before the breaker can ever open.
\<close>
theorem translator_outage_ends_legs:
  assumes "NewGPT4oTranslator key opts = Ok g" "\<forall>b. 0 < MaxConsecutiveFailures (lg_fallback (cfg b))"
    and "list_all (in_outage cfg (ht_pairs g)) xs"
  shows "let s = foldl (hosted_step parse errorShape cfg) (hosted_start g) xs;
             m = (\<lambda>b. MaxConsecutiveFailures (lg_fallback (cfg b)))
    in (\<forall>b. int (hs_asked s b) \<le> m b \<and> (m b \<le> int (of_leg b xs) \<longrightarrow> degraded (ls_leg (hs_leg s b))))
       \<and> (int (hs_asked s True + hs_asked s False) < threshold (ht_breaker g) \<longrightarrow> (\<forall>t. fst (cb_allow (ht_breaker (hs_g s)) t)))
       \<and> ((\<forall>b. m b \<le> int (of_leg b xs)) \<longrightarrow>
            (\<forall>ys. let s' = foldl (hosted_step parse errorShape cfg) s ys in hs_asked s' = hs_asked s \<and> hs_g s' = hs_g s))"
proof -
  define s where "s = foldl (hosted_step parse errorShape cfg) (hosted_start g) xs"
  have inv: "hosted_inv cfg g s xs"
    using hosted_inv_run [OF assms(3) hosted_inv_start [OF assms(1,2)]] by (simp add: s_def)
  then have leg: "int (hs_asked s b) \<le> MaxConsecutiveFailures (lg_fallback (cfg b))"
    "MaxConsecutiveFailures (lg_fallback (cfg b)) \<le> int (of_leg b xs) \<Longrightarrow> degraded (ls_leg (hs_leg s b))" for b
    by (auto simp: hosted_inv_def leg_counts_def)
  have "fst (cb_allow (ht_breaker (hs_g s)) t)" if "int (hs_asked s True + hs_asked s False) < threshold (ht_breaker g)" for t
    using inv that by (simp add: hosted_inv_def breaker_counts_def cb_allow_def)
  with leg degraded_run [of s] show ?thesis unfolding s_def [symmetric] Let_def by blast
qed

definition outage_call_of :: "bool \<Rightarrow> hosted_call" where
  "outage_call_of b = \<lparr>hc_caller = b, hc_tr = demo_tr, hc_net = down_env 0, hc_env = demo_env demo_mt demo_tts\<rparr>"

definition both_legs :: "bool \<Rightarrow> leg_cfg" where
  "both_legs b = demo_cfg\<lparr>lg_srcLang := (if b then ''hi'' else ''en''), lg_dstLang := (if b then ''en'' else ''hi'')\<rparr>"

text \<open>A default translator: three failures degrade the caller's leg, and the breaker still admits calls.\<close>

theorem translator_outage_ends_legs_witness:
  "\<exists>g. NewGPT4oTranslator ''k'' [] = Ok g
     \<and> (let s = foldl (hosted_step (\<lambda>d. None) (\<lambda>b. False) both_legs) (hosted_start g) (replicate 3 (outage_call_of True))
        in degraded (ls_leg (hs_leg s True)))"
proof -
  obtain g where g: "NewGPT4oTranslator ''k'' [] = Ok g" "ht_pairs g = default_pairs"
    by (simp add: NewGPT4oTranslator_def)
  have m: "\<forall>b. 0 < MaxConsecutiveFailures (lg_fallback (both_legs b))"
    by (simp add: both_legs_def demo_cfg_def DefaultFallbackConfig_def)
  have "in_outage both_legs (ht_pairs g) (outage_call_of True)"
    by (simp add: in_outage_def outage_call_of_def both_legs_def demo_env_def demo_tr_def down_env_def vendor_down_def
        low_confidence_def demo_cfg_def DefaultFallbackConfig_def g(2) default_pairs_def mt_supports_def)
  then have "list_all (in_outage both_legs (ht_pairs g)) (replicate 3 (outage_call_of True))" by (simp add: list_all_iff)
  note run = translator_outage_ends_legs [OF g(1) m this, of "\<lambda>d. None" "\<lambda>b. False"]
  have "MaxConsecutiveFailures (lg_fallback (both_legs True)) \<le> int (of_leg True (replicate 3 (outage_call_of True)))"
    by (simp add: both_legs_def demo_cfg_def DefaultFallbackConfig_def of_leg_def outage_call_of_def)
  with run g(1) show ?thesis by (auto simp: Let_def)
qed

end
