(* ===== verification/Json.thy ===== *)
theory Json
  imports Prelude
begin

section \<open>JSON and base64 (encoding/json, encoding/base64)\<close>

text \<open>
  What the vendors' clients use of two packages of the standard library. A value is a tree, a number
  its literal; strings are UTF-8 bytes, as everywhere (a string that is not valid UTF-8, which Go
  repairs, is passed through). \<open>json_print\<close> is \<open>Marshal\<close> of a value, \<open>json_parse\<close> the syntax
  that \<open>Unmarshal\<close> accepts; the decoders fill a record as \<open>Unmarshal\<close> fills a struct: fields that
  are not named are skipped, \<open>null\<close> leaves a field alone, a value of the wrong type is an error that
  is reported at the end, a repeated key is decoded into what is there. Go's limit of 10000 nested
  values is left out.
\<close>

subsection \<open>UTF-8\<close>

text \<open>The texts that Go does not repair: the sequences that \<open>utf8.DecodeRune\<close> accepts.\<close>

definition byte_in :: "nat \<Rightarrow> nat \<Rightarrow> char \<Rightarrow> bool" where "byte_in lo hi c \<longleftrightarrow> lo \<le> of_char c \<and> of_char c \<le> hi"

fun valid_utf8 :: "string \<Rightarrow> bool" where
  "valid_utf8 [] = True"
| "valid_utf8 (a # s) =
     (if byte_in 0 127 a then valid_utf8 s
      else case s of
          [] \<Rightarrow> False
        | b # s \<Rightarrow>
            if byte_in 0xC2 0xDF a then byte_in 0x80 0xBF b \<and> valid_utf8 s
            else case s of
                [] \<Rightarrow> False
              | c # s \<Rightarrow>
                  if byte_in 0xE0 0xEF a
                  then byte_in (if byte_in 0xE0 0xE0 a then 0xA0 else 0x80) (if byte_in 0xED 0xED a then 0x9F else 0xBF) b
                       \<and> byte_in 0x80 0xBF c \<and> valid_utf8 s
                  else case s of
                      [] \<Rightarrow> False
                    | d # s \<Rightarrow> byte_in 0xF0 0xF4 a
                        \<and> byte_in (if byte_in 0xF0 0xF0 a then 0x90 else 0x80) (if byte_in 0xF4 0xF4 a then 0x8F else 0xBF) b
                        \<and> byte_in 0x80 0xBF c \<and> byte_in 0x80 0xBF d \<and> valid_utf8 s)"

declare valid_utf8.simps(2) [simp del]

lemma valid_ascii: "list_all (byte_in 0 127) s \<Longrightarrow> valid_utf8 s"
  by (induction s) (simp_all add: valid_utf8.simps(2))

subsection \<open>Values and their text\<close>

datatype json = JNull | JBool bool | JNum string | JStr string | JArr "json list" | JObj "(string \<times> json) list"

definition quote :: char where "quote = CHR 0x22"
definition backslash :: char where "backslash = CHR 0x5C"

definition hex_char :: "nat \<Rightarrow> char" where "hex_char n = char_of (if n < 10 then 48 + n else 87 + n)"

text \<open>The escapes of \<open>Marshal\<close>: quote, backslash, control characters, HTML characters, U+2028 and U+2029.\<close>

definition short_escapes :: "(char \<times> char) list" where
  "short_escapes = [(quote, quote), (backslash, backslash), (CHR 0x08, CHR ''b''), (CHR 0x0C, CHR ''f''), (CHR 0x0A, CHR ''n''),
     (CHR 0x0D, CHR ''r''), (CHR 0x09, CHR ''t'')]"

definition json_char :: "char \<Rightarrow> string" where
  "json_char c =
     (case map_of short_escapes c of
        Some e \<Rightarrow> [backslash, e]
      | None \<Rightarrow>
          (let n = of_char c :: nat
           in if n < 32 \<or> c = CHR ''<'' \<or> c = CHR ''>'' \<or> c = CHR ''&''
              then [backslash, CHR ''u'', CHR ''0'', CHR ''0'', hex_char (n div 16), hex_char (n mod 16)] else [c]))"

fun json_escape :: "string \<Rightarrow> string" where
  "json_escape [] = []"
| "json_escape (c # s) =
     (if c = CHR 0xE2 \<and> (take 2 s = [CHR 0x80, CHR 0xA8] \<or> take 2 s = [CHR 0x80, CHR 0xA9])
      then backslash # ''u202'' @ [if s ! 1 = CHR 0xA8 then CHR ''8'' else CHR ''9''] @ json_escape (drop 2 s)
      else json_char c @ json_escape s)"

definition json_string :: "string \<Rightarrow> string" where "json_string s = quote # json_escape s @ [quote]"

fun commas :: "string list \<Rightarrow> string" where
  "commas [] = []"
| "commas [x] = x"
| "commas (x # y # xs) = x @ '','' @ commas (y # xs)"

fun json_print :: "json \<Rightarrow> string" where
  "json_print JNull = ''null''"
| "json_print (JBool b) = (if b then ''true'' else ''false'')"
| "json_print (JNum l) = l"
| "json_print (JStr s) = json_string s"
| "json_print (JArr vs) = ''['' @ commas (map json_print vs) @ '']''"
| "json_print (JObj kvs) = ''{'' @ commas (map (\<lambda>(k, v). json_string k @ '':'' @ json_print v) kvs) @ ''}''"

subsection \<open>Reading strings\<close>

definition hex_value :: "char \<Rightarrow> nat option" where
  "hex_value c = (let n = of_char c :: nat
     in if 48 \<le> n \<and> n \<le> 57 then Some (n - 48)
        else if 97 \<le> n \<and> n \<le> 102 then Some (n - 87)
        else if 65 \<le> n \<and> n \<le> 70 then Some (n - 55) else None)"

definition hex4 :: "string \<Rightarrow> nat option" where
  "hex4 s =
     (case s of
        a # b # c # d # r \<Rightarrow>
          (case (hex_value a, hex_value b, hex_value c, hex_value d) of
             (Some w, Some x, Some y, Some z) \<Rightarrow> Some (((w * 16 + x) * 16 + y) * 16 + z)
           | _ \<Rightarrow> None)
      | _ \<Rightarrow> None)"

definition utf8 :: "nat \<Rightarrow> string" where
  "utf8 n =
     map char_of
      (if n < 128 then [n]
       else if n < 2048 then [192 + n div 64, 128 + n mod 64]
       else if n < 65536 then [224 + n div 4096, 128 + n div 64 mod 64, 128 + n mod 64]
       else [240 + n div 262144, 128 + n div 4096 mod 64, 128 + n div 64 mod 64, 128 + n mod 64])"

text \<open>What follows a backslash: the bytes it stands for and how many characters it takes.\<close>

definition unescape :: "string \<Rightarrow> (string \<times> nat) option" where
  "unescape s =
     (case s of
        [] \<Rightarrow> None
      | e # r \<Rightarrow>
          if e = CHR ''u'' then
            (case hex4 r of
               None \<Rightarrow> None
             | Some n \<Rightarrow>
                 if n < 0xD800 \<or> 0xDFFF < n then Some (utf8 n, 5)
                 else if n \<le> 0xDBFF \<and> take 2 (drop 4 r) = [backslash, CHR ''u''] then
                   (case hex4 (drop 6 r) of
                      Some m \<Rightarrow> if 0xDC00 \<le> m \<and> m \<le> 0xDFFF then Some (utf8 (65536 + (n - 0xD800) * 1024 + (m - 0xDC00)), 11)
                                else Some (utf8 0xFFFD, 5)
                    | None \<Rightarrow> Some (utf8 0xFFFD, 5))
                 else Some (utf8 0xFFFD, 5))
          else if e = CHR ''/'' then Some ([e], 1)
          else map_option (\<lambda>c. ([c], 1)) (map_of (map prod.swap short_escapes) e))"

text \<open>The rest of a string literal after its opening quote.\<close>

function read_string :: "string \<Rightarrow> (string \<times> string) option" where
  "read_string [] = None"
| "read_string (c # s) =
     (if c = quote then Some ([], s)
      else if c = backslash then
        (case unescape s of None \<Rightarrow> None | Some (bs, k) \<Rightarrow> map_option (\<lambda>(t, r). (bs @ t, r)) (read_string (drop k s)))
      else if of_char c < (32 :: nat) then None
      else map_option (\<lambda>(t, r). (c # t, r)) (read_string s))"
  by pat_completeness auto
termination by (relation "measure length") auto

lemma hex_char_value: "n < 16 \<Longrightarrow> hex_value (hex_char n) = Some n"
proof -
  assume n: "n < 16"
  have c: "of_char (hex_char n) = (if n < 10 then 48 + n else 87 + n)"
    using n by (simp add: hex_char_def of_char_of)
  show ?thesis using n unfolding hex_value_def c Let_def by auto
qed

lemma of_char_mod16: "(of_char c :: nat) div 16 < 16" "(of_char c :: nat) mod 16 < 16"
proof -
  have "(of_char c :: nat) < 256" using range_nat_of_char by (metis atLeastLessThan_iff rangeI)
  then show "(of_char c :: nat) div 16 < 16" by (simp add: less_mult_imp_div_less)
  show "(of_char c :: nat) mod 16 < 16" by simp
qed

lemma hex_zero: "hex_value CHR ''0'' = Some 0" "hex_value CHR ''2'' = Some 2" "hex_value CHR ''8'' = Some 8" "hex_value CHR ''9'' = Some 9"
  by (simp_all add: hex_value_def)

lemma read_escape_char:
  "read_string (json_char c @ s) = map_option (\<lambda>(t, r). (c # t, r)) (read_string s)"
proof (cases "map_of short_escapes c")
  case (Some e)
  then have "(c, e) \<in> set short_escapes" by (rule map_of_SomeD)
  then have "unescape (e # s) = Some ([c], 1)"
    by (auto simp: short_escapes_def unescape_def quote_def backslash_def)
  then show ?thesis using Some by (simp add: json_char_def quote_def backslash_def)
next
  case None
  then have c: "c \<noteq> quote" "c \<noteq> backslash" by (auto simp: short_escapes_def split: if_splits)
  let ?n = "of_char c :: nat"
  show ?thesis
  proof (cases "?n < 32 \<or> c = CHR ''<'' \<or> c = CHR ''>'' \<or> c = CHR ''&''")
    case True
    then have n: "?n < 128" by auto
    have "hex4 (CHR ''0'' # CHR ''0'' # hex_char (?n div 16) # hex_char (?n mod 16) # s) = Some ?n"
      by (simp add: hex4_def hex_zero hex_char_value of_char_mod16)
    then have "unescape (CHR ''u'' # CHR ''0'' # CHR ''0'' # hex_char (?n div 16) # hex_char (?n mod 16) # s) = Some ([c], 5)"
      using n by (simp add: unescape_def utf8_def)
    then show ?thesis using True None by (simp add: json_char_def Let_def quote_def backslash_def)
  next
    case False
    then show ?thesis using None c by (simp add: json_char_def Let_def)
  qed
qed

lemma read_json_escape: "read_string (json_escape t @ quote # rest) = Some (t, rest)"
proof (induction t rule: json_escape.induct)
  case 1
  then show ?case by simp
next
  case (2 c s)
  show ?case
  proof (cases "c = CHR 0xE2 \<and> (take 2 s = [CHR 0x80, CHR 0xA8] \<or> take 2 s = [CHR 0x80, CHR 0xA9])")
    case True
    then obtain d s' where s: "s = CHR 0x80 # d # s'" "d = CHR 0xA8 \<or> d = CHR 0xA9" "c = CHR 0xE2"
      by (cases s; cases "tl s") auto
    let ?e = "if d = CHR 0xA8 then CHR ''8'' else CHR ''9''"
    have u: "unescape (CHR ''u'' # CHR ''2'' # CHR ''0'' # CHR ''2'' # ?e # r) = Some (CHR 0xE2 # CHR 0x80 # [d], 5)" for r
      using s(2) by (auto simp: unescape_def hex4_def hex_zero utf8_def char_of_def bit_0)
    show ?thesis using 2(1) [OF True] s u [of "json_escape s' @ quote # rest"] True
      by (simp add: quote_def backslash_def)
  next
    case False
    then have "json_escape (c # s) = json_char c @ json_escape s" by (simp only: json_escape.simps(2) if_False)
    then show ?thesis using 2(2) [OF False] by (simp add: read_escape_char del: read_string.simps json_escape.simps)
  qed
qed


subsection \<open>Reading numbers\<close>

definition is_digit :: "char \<Rightarrow> bool" where
  "is_digit c \<longleftrightarrow> 48 \<le> (of_char c :: nat) \<and> (of_char c :: nat) \<le> 57"

text \<open>Each stage gives what it read and the rest: sign, integer part, fraction, exponent.\<close>

type_synonym stage = "string \<Rightarrow> (string \<times> string) option"

definition num_sign :: stage where
  "num_sign s = (case s of c # r \<Rightarrow> if c = CHR ''-'' then Some ([c], r) else Some ([], s) | [] \<Rightarrow> Some ([], []))"

definition some_digits :: stage where
  "some_digits s = (if takeWhile is_digit s = [] then None else Some (takeWhile is_digit s, dropWhile is_digit s))"

definition num_int :: stage where
  "num_int s = (case s of c # r \<Rightarrow> if c = CHR ''0'' then Some ([c], r) else some_digits s | [] \<Rightarrow> None)"

definition num_frac :: stage where
  "num_frac s = (case s of c # r \<Rightarrow> if c = CHR ''.'' then map_option (\<lambda>(d, r'). (c # d, r')) (some_digits r) else Some ([], s)
     | [] \<Rightarrow> Some ([], []))"

definition num_exp :: stage where
  "num_exp s =
     (case s of
        c # r \<Rightarrow>
          if c = CHR ''e'' \<or> c = CHR ''E'' then
            (case r of
               g # r' \<Rightarrow> if g = CHR ''+'' \<or> g = CHR ''-'' then map_option (\<lambda>(d, q). (c # g # d, q)) (some_digits r')
                         else map_option (\<lambda>(d, q). (c # d, q)) (some_digits r)
             | [] \<Rightarrow> None)
          else Some ([], s)
      | [] \<Rightarrow> Some ([], []))"

fun stages :: "stage list \<Rightarrow> stage" where
  "stages [] s = Some ([], s)"
| "stages (f # fs) s = (case f s of None \<Rightarrow> None | Some (a, r) \<Rightarrow> map_option (\<lambda>(b, q). (a @ b, q)) (stages fs r))"

definition read_number :: stage where
  "read_number = stages [num_sign, num_int, num_frac, num_exp]"

definition number_literal :: "string \<Rightarrow> bool" where
  "number_literal l \<longleftrightarrow> read_number l = Some (l, [])"

text \<open>What can follow a value.\<close>

definition is_space :: "char \<Rightarrow> bool" where "is_space c \<longleftrightarrow> c \<in> {CHR '' '', CHR 0x09, CHR 0x0A, CHR 0x0D}"

definition ends_value :: "string \<Rightarrow> bool" where
  "ends_value s \<longleftrightarrow> (case s of [] \<Rightarrow> True | c # r \<Rightarrow> is_space c \<or> c \<in> {CHR '','', CHR '']'', CHR ''}''})"

definition local_stage :: "stage \<Rightarrow> bool" where
  "local_stage f \<longleftrightarrow> (\<forall>a rest. ends_value rest \<longrightarrow> f (a @ rest) = map_option (\<lambda>(l, r). (l, r @ rest)) (f a))"

lemma ends_value_head:
  "ends_value (c # r) \<Longrightarrow> \<not> is_digit c \<and> c \<notin> {CHR ''-'', CHR ''+'', CHR ''.'', CHR ''e'', CHR ''E'', CHR ''0''}"
  by (auto simp: ends_value_def is_space_def is_digit_def)

lemma ends_value_while [simp]: "ends_value s \<Longrightarrow> takeWhile is_digit s = []" "ends_value s \<Longrightarrow> dropWhile is_digit s = s"
  by (cases s; simp add: ends_value_head)+

lemma while_append:
  "ends_value rest \<Longrightarrow> takeWhile is_digit (a @ rest) = takeWhile is_digit a"
  "ends_value rest \<Longrightarrow> dropWhile is_digit (a @ rest) = dropWhile is_digit a @ rest"
  by (induction a) simp_all

lemma local_some_digits: "local_stage some_digits"
  by (simp add: local_stage_def some_digits_def while_append)

lemma some_digits_ends: "ends_value s \<Longrightarrow> some_digits s = None"
  by (simp add: some_digits_def)

lemma some_digits_append:
  "ends_value rest \<Longrightarrow> some_digits (a @ rest) = map_option (\<lambda>(l, r). (l, r @ rest)) (some_digits a)"
  "ends_value rest \<Longrightarrow> some_digits (c # a @ rest) = map_option (\<lambda>(l, r). (l, r @ rest)) (some_digits (c # a))"
  using local_some_digits by (simp add: local_stage_def) (metis append_Cons local_some_digits local_stage_def)

lemma local_stages: "list_all local_stage fs \<Longrightarrow> local_stage (stages fs)"
proof (induction fs)
  case (Cons f fs)
  have "stages (f # fs) (a @ rest) = map_option (\<lambda>(l, r). (l, r @ rest)) (stages (f # fs) a)" if r: "ends_value rest" for a rest
  proof -
    have f: "f (a @ rest) = map_option (\<lambda>(l, r). (l, r @ rest)) (f a)" using Cons.prems r by (simp add: local_stage_def)
    have fs: "stages fs (b @ rest) = map_option (\<lambda>(l, r). (l, r @ rest)) (stages fs b)" for b
      using Cons r by (simp add: local_stage_def)
    show ?thesis by (simp add: f fs option.map_comp o_def split_beta split: option.split)
  qed
  then show ?case by (simp add: local_stage_def)
qed (simp add: local_stage_def)

lemma local_read_number: "local_stage read_number"
proof -
  have "local_stage num_sign" "local_stage num_int" "local_stage num_frac" "local_stage num_exp"
    by (auto simp: local_stage_def num_sign_def num_int_def num_frac_def num_exp_def option.map_comp o_def split_beta
        some_digits_ends some_digits_append split: list.split dest: ends_value_head)
  then show ?thesis unfolding read_number_def by (intro local_stages) simp
qed

lemma read_number_literal: "number_literal l \<Longrightarrow> ends_value rest \<Longrightarrow> read_number (l @ rest) = Some (l, rest)"
  using local_read_number by (simp add: local_stage_def number_literal_def)


subsection \<open>Reading values\<close>

definition skip_space :: "string \<Rightarrow> string" where "skip_space = dropWhile is_space"

definition read_word :: "string \<Rightarrow> 'a \<Rightarrow> string \<Rightarrow> ('a \<times> string) option" where
  "read_word w v s = (if take (length w) s = w then Some (v, drop (length w) s) else None)"

text \<open>The key of a member and its colon.\<close>

definition read_key :: "string \<Rightarrow> (string \<times> string) option" where
  "read_key s =
     (case skip_space s of
        [] \<Rightarrow> None
      | c # r \<Rightarrow>
          if c \<noteq> quote then None
          else (case read_string r of
                  None \<Rightarrow> None
                | Some (k, q) \<Rightarrow> (case skip_space q of [] \<Rightarrow> None | e # q' \<Rightarrow> if e = CHR '':'' then Some (k, q') else None)))"

text \<open>
  Values, the elements of an array after its bracket and the members of an object after its brace.
  The first argument bounds the calls; \<open>json_parse\<close> gives enough for any text of that length.
\<close>

fun read_value :: "nat \<Rightarrow> string \<Rightarrow> (json \<times> string) option"
  and read_elems :: "nat \<Rightarrow> string \<Rightarrow> (json list \<times> string) option"
  and read_members :: "nat \<Rightarrow> string \<Rightarrow> ((string \<times> json) list \<times> string) option" where
  "read_value 0 s = None"
| "read_value (Suc n) s =
     (case skip_space s of
        [] \<Rightarrow> None
      | c # r \<Rightarrow>
          if c = quote then map_option (\<lambda>(t, q). (JStr t, q)) (read_string r)
          else if c = CHR ''['' then
            (case skip_space r of
               [] \<Rightarrow> None
             | d # q \<Rightarrow> if d = CHR '']'' then Some (JArr [], q) else map_option (\<lambda>(vs, q). (JArr vs, q)) (read_elems n r))
          else if c = CHR ''{'' then
            (case skip_space r of
               [] \<Rightarrow> None
             | d # q \<Rightarrow> if d = CHR ''}'' then Some (JObj [], q) else map_option (\<lambda>(kvs, q). (JObj kvs, q)) (read_members n r))
          else if c = CHR ''n'' then read_word ''null'' JNull (c # r)
          else if c = CHR ''t'' then read_word ''true'' (JBool True) (c # r)
          else if c = CHR ''f'' then read_word ''false'' (JBool False) (c # r)
          else map_option (\<lambda>(l, q). (JNum l, q)) (read_number (c # r)))"
| "read_elems 0 s = None"
| "read_elems (Suc n) s =
     (case read_value n s of
        None \<Rightarrow> None
      | Some (v, r) \<Rightarrow>
          (case skip_space r of
             [] \<Rightarrow> None
           | d # q \<Rightarrow> if d = CHR '']'' then Some ([v], q)
                      else if d = CHR '','' then map_option (\<lambda>(vs, q). (v # vs, q)) (read_elems n q) else None))"
| "read_members 0 s = None"
| "read_members (Suc n) s =
     (case read_key s of
        None \<Rightarrow> None
      | Some (k, r0) \<Rightarrow>
          (case read_value n r0 of
             None \<Rightarrow> None
           | Some (v, r) \<Rightarrow>
               (case skip_space r of
                  [] \<Rightarrow> None
                | d # q \<Rightarrow> if d = CHR ''}'' then Some ([(k, v)], q)
                           else if d = CHR '','' then map_option (\<lambda>(kvs, q). ((k, v) # kvs, q)) (read_members n q) else None)))"

definition json_parse :: "string \<Rightarrow> json option" where
  "json_parse s =
     (case read_value (2 * length s + 2) s of
        None \<Rightarrow> None
      | Some (v, r) \<Rightarrow> if skip_space r = [] then Some v else None)"

subsection \<open>What is printed reads back\<close>

fun json_ok :: "json \<Rightarrow> bool" where
  "json_ok (JNum l) = number_literal l"
| "json_ok (JArr vs) = list_all json_ok vs"
| "json_ok (JObj kvs) = list_all (\<lambda>(k, v). json_ok v) kvs"
| "json_ok v = True"

text \<open>Calls that reading a printed value takes.\<close>

fun json_fuel :: "json \<Rightarrow> nat" where
  "json_fuel (JArr vs) = Suc (sum_list (map (\<lambda>v. Suc (json_fuel v)) vs))"
| "json_fuel (JObj kvs) = Suc (sum_list (map (\<lambda>(k, v). Suc (json_fuel v)) kvs))"
| "json_fuel v = 1"


lemma number_head:
  assumes "number_literal l"
  shows "\<exists>c r. l = c # r \<and> (c = CHR ''-'' \<or> is_digit c)"
proof (cases l)
  case Nil
  then show ?thesis using assms by (simp add: number_literal_def read_number_def num_sign_def num_int_def)
next
  case (Cons c r)
  have "c = CHR ''-'' \<or> is_digit c"
  proof (rule ccontr)
    assume "\<not> ?thesis"
    then have "num_sign l = Some ([], l)" "num_int l = None"
      using Cons by (auto simp: num_sign_def num_int_def some_digits_def is_digit_def)
    then show False using assms by (simp add: number_literal_def read_number_def)
  qed
  then show ?thesis using Cons by simp
qed

lemma number_head_plain:
  "c = CHR ''-'' \<or> is_digit c \<Longrightarrow>
     \<not> is_space c \<and> c \<notin> {quote, CHR ''['', CHR ''{'', CHR ''n'', CHR ''t'', CHR ''f'', CHR '']'', CHR ''}''}"
  by (auto simp: is_space_def is_digit_def quote_def)

lemma print_head:
  assumes "json_ok v"
  shows "\<exists>c r. json_print v = c # r \<and> \<not> is_space c \<and> c \<noteq> CHR '']'' \<and> c \<noteq> CHR ''}''"
proof (cases v)
  case (JNum l)
  then show ?thesis using assms number_head [of l] number_head_plain by fastforce
qed (auto simp: json_string_def quote_def is_space_def)

lemma skip_space_simps [simp]:
  "\<not> is_space c \<Longrightarrow> skip_space (c # s) = c # s" "skip_space [] = []"
  by (simp_all add: skip_space_def)

lemma skip_print [simp]: "json_ok v \<Longrightarrow> skip_space (json_print v @ s) = json_print v @ s"
  using print_head [of v] by auto

lemma spaces [simp]:
  "\<not> is_space quote" "\<not> is_space CHR ''[''" "\<not> is_space CHR ''{''" "\<not> is_space CHR '':''" "\<not> is_space CHR '',''"
  "\<not> is_space CHR '']''" "\<not> is_space CHR ''}''" "\<not> is_space CHR ''n''" "\<not> is_space CHR ''t''" "\<not> is_space CHR ''f''"
  by (simp_all add: is_space_def quote_def)

lemma ends_value_simps [simp]: "ends_value []" "ends_value (CHR '','' # s)" "ends_value (CHR '']'' # s)" "ends_value (CHR ''}'' # s)"
  by (simp_all add: ends_value_def)

lemma read_printed_string: "read_string (json_escape t @ quote # rest) = Some (t, rest)"
  by (rule read_json_escape)

lemma read_key_print: "read_key (json_string k @ CHR '':'' # r) = Some (k, r)"
  by (simp add: read_key_def json_string_def read_printed_string del: read_string.simps)

lemma read_elems_print:
  assumes "\<And>v n rest. v \<in> set vs \<Longrightarrow> ends_value rest \<Longrightarrow> json_fuel v \<le> n \<Longrightarrow> read_value n (json_print v @ rest) = Some (v, rest)"
    and "vs \<noteq> []" "sum_list (map (\<lambda>v. Suc (json_fuel v)) vs) \<le> n"
  shows "read_elems n (commas (map json_print vs) @ CHR '']'' # rest) = Some (vs, rest)"
  using assms
proof (induction vs arbitrary: n)
  case (Cons v vs)
  then obtain m where m: "n = Suc m" by (cases n) auto
  show ?case
  proof (cases vs)
    case Nil
    then show ?thesis using Cons.prems m by simp
  next
    case (Cons w ws)
    have "read_elems m (commas (map json_print vs) @ CHR '']'' # rest) = Some (vs, rest)"
      using Cons.prems m local.Cons by (intro Cons.IH) auto
    then show ?thesis using Cons.prems m local.Cons by simp
  qed
qed simp

lemma read_members_print:
  assumes "\<And>k v n rest. (k, v) \<in> set kvs \<Longrightarrow> ends_value rest \<Longrightarrow> json_fuel v \<le> n \<Longrightarrow> read_value n (json_print v @ rest) = Some (v, rest)"
    and "kvs \<noteq> []" "sum_list (map (\<lambda>(k, v). Suc (json_fuel v)) kvs) \<le> n"
  shows "read_members n (commas (map (\<lambda>(k, v). json_string k @ '':'' @ json_print v) kvs) @ CHR ''}'' # rest) = Some (kvs, rest)"
  using assms
proof (induction kvs arbitrary: n)
  case (Cons kv kvs)
  obtain k v where kv: "kv = (k, v)" by (cases kv)
  obtain m where m: "n = Suc m" using Cons.prems kv by (cases n) auto
  have v: "read_value m (json_print v @ s) = Some (v, s)" if "ends_value s" for s
    using Cons.prems kv m that by (intro Cons.prems(1) [of k]) auto
  show ?case
  proof (cases kvs)
    case Nil
    then show ?thesis using v m kv by (simp add: read_key_print)
  next
    case (Cons w ws)
    have "read_members m (commas (map (\<lambda>(k, v). json_string k @ '':'' @ json_print v) kvs) @ CHR ''}'' # rest) = Some (kvs, rest)"
      using Cons.prems m kv local.Cons by (intro Cons.IH) auto
    then show ?thesis using v m kv local.Cons by (simp add: read_key_print)
  qed
qed simp

lemma read_print:
  "json_ok v \<Longrightarrow> ends_value rest \<Longrightarrow> json_fuel v \<le> n \<Longrightarrow> read_value n (json_print v @ rest) = Some (v, rest)"
proof (induction v arbitrary: n rest)
  case (JNum l)
  obtain m where m: "n = Suc m" using JNum by (cases n) auto
  obtain c r where l: "l = c # r" "c = CHR ''-'' \<or> is_digit c" using JNum(1) number_head [of l] by auto
  have "read_number (c # r @ rest) = Some (l, rest)" using read_number_literal [of l rest] JNum l by simp
  then show ?case using m l number_head_plain [OF l(2)] by simp
next
  case (JArr vs)
  obtain m where m: "n = Suc m" using JArr by (cases n) auto
  show ?case
  proof (cases vs)
    case Nil
    then show ?thesis using m by (simp add: quote_def is_space_def)
  next
    case (Cons v ws)
    have "read_elems m (commas (map json_print vs) @ CHR '']'' # rest) = Some (vs, rest)"
      using JArr m Cons by (intro read_elems_print) (auto simp: list_all_iff)
    moreover obtain c r where "json_print v = c # r" "\<not> is_space c" "c \<noteq> CHR '']''"
      using JArr.prems(1) Cons print_head [of v] by auto
    ultimately show ?thesis using m Cons by (cases ws) (auto simp: quote_def)
  qed
next
  case (JObj kvs)
  obtain m where m: "n = Suc m" using JObj by (cases n) auto
  show ?case
  proof (cases kvs)
    case Nil
    then show ?thesis using m by (simp add: quote_def is_space_def)
  next
    case (Cons kv ws)
    have "read_members m (commas (map (\<lambda>(k, v). json_string k @ '':'' @ json_print v) kvs) @ CHR ''}'' # rest) = Some (kvs, rest)"
    proof (rule read_members_print)
      fix k v n' rest'
      assume v: "(k, v) \<in> set kvs" "ends_value rest'" "json_fuel v \<le> n'"
      have "v \<in> Basic_BNFs.snds (k, v)" "json_ok v" using v(1) JObj.prems(1) by (auto simp: list_all_iff)
      then show "read_value n' (json_print v @ rest') = Some (v, rest')" using JObj.IH [OF v(1)] v(2,3) by blast
    qed (use JObj.prems(3) m Cons in auto)
    moreover obtain q where "commas (map (\<lambda>(k, v). json_string k @ '':'' @ json_print v) kvs) @ CHR ''}'' # rest = quote # q"
      using Cons by (cases ws; cases kv) (auto simp: json_string_def)
    ultimately show ?thesis using m by (simp add: quote_def is_space_def)
  qed
next
  case JNull
  then show ?case by (cases n) (simp_all add: read_word_def quote_def del: read_string.simps)
next
  case (JBool b)
  then show ?case by (cases n; cases b) (simp_all add: read_word_def quote_def del: read_string.simps)
next
  case (JStr t)
  then show ?case by (cases n) (simp_all add: json_string_def read_printed_string del: read_string.simps)
qed

lemma commas_length: "length (commas xs) + 1 \<ge> sum_list (map (\<lambda>x. length x + 1) xs)"
  by (induction xs rule: commas.induct) simp_all

lemma fuel_length: "json_ok v \<Longrightarrow> json_fuel v \<le> 2 * length (json_print v)"
proof (induction v)
  case (JNum l)
  then show ?case using number_head [of l] by auto
next
  case (JArr vs)
  have "sum_list (map (\<lambda>v. Suc (json_fuel v)) vs) \<le> sum_list (map (\<lambda>v. 2 * (length (json_print v) + 1)) vs)"
    using JArr by (intro sum_list_mono) (fastforce simp: list_all_iff)
  also have "\<dots> = 2 * sum_list (map (\<lambda>x. length x + 1) (map json_print vs))" by (simp only: sum_list_const_mult map_map o_def)
  finally show ?case using commas_length [of "map json_print vs"] by simp
next
  case (JObj kvs)
  let ?p = "\<lambda>(k, v). json_string k @ '':'' @ json_print v"
  have "sum_list (map (\<lambda>(k, v). Suc (json_fuel v)) kvs) \<le> sum_list (map (\<lambda>kv. 2 * (length (?p kv) + 1)) kvs)"
    using JObj by (intro sum_list_mono) (fastforce simp: list_all_iff snds.simps)
  also have "\<dots> = 2 * sum_list (map (\<lambda>x. length x + 1) (map ?p kvs))" by (simp only: sum_list_const_mult map_map o_def)
  finally show ?case using commas_length [of "map ?p kvs"] by simp
qed (auto simp: json_string_def)

theorem json_roundtrip: "json_ok v \<Longrightarrow> json_parse (json_print v) = Some v"
  using read_print [of v "[]" "2 * length (json_print v) + 2"] fuel_length [of v] by (simp add: json_parse_def)


subsection \<open>The bound never decides\<close>

lemma read_string_shorter: "read_string s = Some (t, r) \<Longrightarrow> length r < length s"
proof (induction s arbitrary: t rule: read_string.induct)
  case (2 c s)
  then show ?case by (fastforce split: if_splits option.splits)
qed simp

lemma some_digits_shorter: "some_digits s = Some (a, r) \<Longrightarrow> length r < length s"
  using length_dropWhile_le [of is_digit "tl s"] by (cases s) (auto simp: some_digits_def split: if_splits)

lemma read_number_shorter: "read_number s = Some (a, r) \<Longrightarrow> length r < length s"
proof -
  have "num_sign s = Some (a, r) \<Longrightarrow> length r \<le> length s" for s a r by (auto simp: num_sign_def split: list.splits if_splits)
  moreover have "num_int s = Some (a, r) \<Longrightarrow> length r < length s" for s a r
    by (auto simp: num_int_def split: list.splits if_splits dest!: some_digits_shorter)
  moreover have "num_frac s = Some (a, r) \<Longrightarrow> length r \<le> length s" for s a r
    by (auto simp: num_frac_def split: list.splits if_splits dest!: some_digits_shorter)
  moreover have "num_exp s = Some (a, r) \<Longrightarrow> length r \<le> length s" for s a r
    by (auto simp: num_exp_def split: list.splits if_splits dest!: some_digits_shorter)
  ultimately show "read_number s = Some (a, r) \<Longrightarrow> length r < length s"
    by (auto simp: read_number_def split: option.splits) (meson le_less_trans less_le_trans order_trans)
qed

lemma read_word_shorter: "read_word w v s = Some (x, r) \<Longrightarrow> w \<noteq> [] \<Longrightarrow> s \<noteq> [] \<Longrightarrow> length r < length s"
  by (auto simp: read_word_def split: if_splits)

lemma skip_space_length: "length (skip_space s) \<le> length s"
  by (simp add: skip_space_def length_dropWhile_le)

lemma skip_space_Cons: "skip_space s = c # r \<Longrightarrow> length r < length s"
  using skip_space_length [of s] by simp

lemma read_key_shorter: "read_key s = Some (k, r) \<Longrightarrow> length r < length s"
  by (auto simp: read_key_def split: list.splits if_splits option.splits dest!: skip_space_Cons read_string_shorter
      simp del: read_string.simps)

lemmas shorter = read_key_shorter read_string_shorter read_number_shorter read_word_shorter skip_space_Cons

lemma read_shorter:
  "(\<forall>s v r. read_value n s = Some (v, r) \<longrightarrow> length r < length s)
   \<and> (\<forall>s vs r. read_elems n s = Some (vs, r) \<longrightarrow> length r < length s)
   \<and> (\<forall>s kvs r. read_members n s = Some (kvs, r) \<longrightarrow> length r < length s)"
proof (induction n)
  case (Suc n)
  then have ih: "\<And>s v r. read_value n s = Some (v, r) \<Longrightarrow> length r < length s"
    "\<And>s vs r. read_elems n s = Some (vs, r) \<Longrightarrow> length r < length s"
    "\<And>s kvs r. read_members n s = Some (kvs, r) \<Longrightarrow> length r < length s" by blast+
  have "length r < length s" if "read_value (Suc n) s = Some (v, r)" for s v r
    using that by (auto split: list.splits if_splits dest!: shorter ih simp del: read_string.simps)
  moreover have "length r < length s" if "read_elems (Suc n) s = Some (vs, r)" for s vs r
    using that by (auto split: list.splits if_splits option.splits dest!: shorter ih)
  moreover have "length r < length s" if "read_members (Suc n) s = Some (kvs, r)" for s kvs r
    using that by (auto split: list.splits if_splits option.splits dest!: shorter ih simp del: read_string.simps)
  ultimately show ?case by blast
qed simp

lemma fuel_irrelevant:
  "(\<forall>s m. 2 * length s + 2 \<le> n \<and> 2 * length s + 2 \<le> m \<longrightarrow> read_value n s = read_value m s)
   \<and> (\<forall>s m. 2 * length s + 3 \<le> n \<and> 2 * length s + 3 \<le> m \<longrightarrow> read_elems n s = read_elems m s)
   \<and> (\<forall>s m. 2 * length s + 3 \<le> n \<and> 2 * length s + 3 \<le> m \<longrightarrow> read_members n s = read_members m s)"
proof (induction n)
  case (Suc n)
  then have ih: "\<And>s m. 2 * length s + 2 \<le> n \<Longrightarrow> 2 * length s + 2 \<le> m \<Longrightarrow> read_value n s = read_value m s"
    "\<And>s m. 2 * length s + 3 \<le> n \<Longrightarrow> 2 * length s + 3 \<le> m \<Longrightarrow> read_elems n s = read_elems m s"
    "\<And>s m. 2 * length s + 3 \<le> n \<Longrightarrow> 2 * length s + 3 \<le> m \<Longrightarrow> read_members n s = read_members m s" by blast+
  have "read_value (Suc n) s = read_value m s" if b: "2 * length s + 2 \<le> Suc n" "2 * length s + 2 \<le> m" for s m
  proof -
    obtain k where m: "m = Suc k" using b(2) by (cases m) auto
    have "read_elems n r = read_elems k r" "read_members n r = read_members k r" if "length r < length s" for r
      using that b m by (auto intro!: ih)
    then show ?thesis unfolding m read_value.simps
      by (auto split: list.splits dest!: skip_space_Cons simp del: read_string.simps)
  qed
  moreover have "read_elems (Suc n) s = read_elems m s" if b: "2 * length s + 3 \<le> Suc n" "2 * length s + 3 \<le> m" for s m
  proof -
    obtain k where m: "m = Suc k" using b(2) by (cases m) auto
    have v: "read_value n s = read_value k s" using b m by (intro ih) auto
    have e: "read_elems n r = read_elems k r" if "length r < length s" for r using that b m by (intro ih) auto
    show ?thesis
    proof (cases "read_value k s")
      case (Some y)
      obtain x q where y: "y = (x, q)" by (cases y)
      show ?thesis
      proof (cases "skip_space q")
        case (Cons d q')
        then have "length q' < length s" using Some y read_shorter [of k] skip_space_Cons by (meson less_trans)
        then show ?thesis using Some y Cons e m v by simp
      qed (use Some y m v in simp)
    qed (use m v in simp)
  qed
  moreover have "read_members (Suc n) s = read_members m s" if b: "2 * length s + 3 \<le> Suc n" "2 * length s + 3 \<le> m" for s m
  proof -
    obtain k where m: "m = Suc k" using b(2) by (cases m) auto
    have v: "read_value n r = read_value k r" "read_members n r = read_members k r" if "length r < length s" for r
      using that b m by (auto intro!: ih)
    show ?thesis
    proof (cases "read_key s")
      case (Some p)
      obtain t r0 where p: "p = (t, r0)" by (cases p)
      have r0: "length r0 < length s" using read_key_shorter Some p by blast
      show ?thesis
      proof (cases "read_value k r0")
        case (Some y)
        obtain x q where y: "y = (x, q)" by (cases y)
        show ?thesis
        proof (cases "skip_space q")
          case (Cons d q')
          then have "length q' < length s" using r0 Some y read_shorter [of k] skip_space_Cons by (meson less_trans)
          then show ?thesis using \<open>read_key s = Some p\<close> p Some y Cons v r0 m by simp
        qed (use \<open>read_key s = Some p\<close> p Some y m v r0 in simp)
      qed (use \<open>read_key s = Some p\<close> p m v r0 in simp)
    qed (use m in simp)
  qed
  ultimately show ?case by blast
qed simp

lemma json_parse_bound: "2 * length s + 2 \<le> n \<Longrightarrow> read_value n s = read_value (2 * length s + 2) s"
  using fuel_irrelevant [of n] by blast


subsection \<open>Unmarshal\<close>

text \<open>A decoder gives what a Go value becomes and whether the JSON value had its type.\<close>

type_synonym 'a dec = "json \<Rightarrow> 'a \<Rightarrow> 'a \<times> bool"

definition dec_string :: "string dec" where
  "dec_string v old = (case v of JStr s \<Rightarrow> (s, True) | JNull \<Rightarrow> (old, True) | _ \<Rightarrow> (old, False))"

definition dec_bool :: "bool dec" where
  "dec_bool v old = (case v of JBool b \<Rightarrow> (b, True) | JNull \<Rightarrow> (old, True) | _ \<Rightarrow> (old, False))"

text \<open>The value of digits, of an integer literal, and of any literal (a literal too large for a float64 is not refused).\<close>

definition digits_value :: "string \<Rightarrow> nat" where
  "digits_value = foldl (\<lambda>n c. n * 10 + (of_char c - 48)) 0"

definition int_value :: "string \<Rightarrow> int option" where
  "int_value l =
     (case stages [num_sign, num_int] l of
        Some (a, []) \<Rightarrow> (let n = (if hd l = CHR ''-'' then - int (digits_value (tl l)) else int (digits_value l))
                        in if - (2 ^ 63) \<le> n \<and> n < 2 ^ 63 then Some n else None)
      | _ \<Rightarrow> None)"

definition float_value :: "string \<Rightarrow> float64" where
  "float_value l =
     (case num_sign l of
        None \<Rightarrow> 0
      | Some (sg, r) \<Rightarrow>
          let whole = takeWhile is_digit r; r1 = dropWhile is_digit r;
              frac = (case r1 of c # q \<Rightarrow> if c = CHR ''.'' then takeWhile is_digit q else [] | [] \<Rightarrow> []);
              r2 = (case r1 of c # q \<Rightarrow> if c = CHR ''.'' then dropWhile is_digit q else r1 | [] \<Rightarrow> []);
              expo = (case r2 of
                        c # g # q \<Rightarrow> if g = CHR ''-'' then - int (digits_value q)
                                    else if g = CHR ''+'' then int (digits_value q) else int (digits_value (g # q))
                      | _ \<Rightarrow> 0);
              mant = real (digits_value (whole @ frac)) / 10 ^ length frac
          in (if sg = [] then 1 else - 1) * mant * (if 0 \<le> expo then 10 ^ nat expo else 1 / 10 ^ nat (- expo)))"

definition dec_int :: "int dec" where
  "dec_int v old =
     (case v of JNum l \<Rightarrow> (case int_value l of Some n \<Rightarrow> (n, True) | None \<Rightarrow> (old, False))
      | JNull \<Rightarrow> (old, True) | _ \<Rightarrow> (old, False))"

definition dec_float :: "float64 dec" where
  "dec_float v old = (case v of JNum l \<Rightarrow> (float_value l, True) | JNull \<Rightarrow> (old, True) | _ \<Rightarrow> (old, False))"

text \<open>A field that is declared and never read: only its type matters.\<close>

definition unread :: "'b dec \<Rightarrow> 'b \<Rightarrow> 'a dec" where "unread d y v x = (x, snd (d v y))"

definition field_at :: "('a \<Rightarrow> 'b) \<Rightarrow> (('b \<Rightarrow> 'b) \<Rightarrow> 'a \<Rightarrow> 'a) \<Rightarrow> 'b dec \<Rightarrow> 'a dec" where
  "field_at get upd d v x = (let (y, ok) = d v (get x) in (upd (\<lambda>_. y) x, ok))"

definition dec_pointer :: "'a \<Rightarrow> 'a dec \<Rightarrow> 'a option dec" where
  "dec_pointer zero d v old =
     (if v = JNull then (None, True)
      else let (y, ok) = d v (case old of None \<Rightarrow> zero | Some y \<Rightarrow> y) in (Some y, ok))"

text \<open>A slice; the elements of a repeated key start from zero.\<close>

definition dec_slice :: "'a \<Rightarrow> 'a dec \<Rightarrow> 'a list dec" where
  "dec_slice zero d v old =
     (case v of
        JNull \<Rightarrow> ([], True)
      | JArr vs \<Rightarrow> (let ys = map (\<lambda>v. d v zero) vs in (map fst ys, list_all snd ys))
      | _ \<Rightarrow> (old, False))"

text \<open>
  Keys match exactly or up to case; beside the ASCII letters, the Kelvin sign folds to \<open>k\<close> and the
  long s to \<open>s\<close>.
\<close>

fun fold_key :: "string \<Rightarrow> string" where
  "fold_key [] = []"
| "fold_key (c # s) =
     (if c = CHR 0xE2 \<and> take 2 s = [CHR 0x84, CHR 0xAA] then CHR ''k'' # fold_key (drop 2 s)
      else if c = CHR 0xC5 \<and> take 1 s = [CHR 0xBF] then CHR ''s'' # fold_key (drop 1 s)
      else (let n = of_char c :: nat in if 65 \<le> n \<and> n \<le> 90 then char_of (n + 32) else c) # fold_key s)"

definition struct_field :: "(string \<times> 'a dec) list \<Rightarrow> string \<Rightarrow> 'a dec option" where
  "struct_field fs k =
     (case map_of fs k of Some d \<Rightarrow> Some d | None \<Rightarrow> map_of (map (\<lambda>(n, d). (fold_key n, d)) fs) (fold_key k))"

definition dec_member :: "(string \<times> 'a dec) list \<Rightarrow> 'a \<times> bool \<Rightarrow> string \<times> json \<Rightarrow> 'a \<times> bool" where
  "dec_member fs x kv =
     (case struct_field fs (fst kv) of None \<Rightarrow> x | Some d \<Rightarrow> (let (y, ok) = d (snd kv) (fst x) in (y, snd x \<and> ok)))"

definition dec_struct :: "(string \<times> 'a dec) list \<Rightarrow> 'a dec" where
  "dec_struct fs v x =
     (case v of JNull \<Rightarrow> (x, True) | JObj kvs \<Rightarrow> foldl (dec_member fs) (x, True) kvs | _ \<Rightarrow> (x, False))"

text \<open>\<open>Unmarshal\<close>: what the target has become, and whether there was no error; a syntax error touches nothing.\<close>

definition unmarshal :: "'a dec \<Rightarrow> 'a \<Rightarrow> string \<Rightarrow> 'a \<times> bool" where
  "unmarshal d zero s = (case json_parse s of None \<Rightarrow> (zero, False) | Some v \<Rightarrow> d v zero)"

definition unmarshal_ok :: "'a dec \<Rightarrow> 'a \<Rightarrow> string \<Rightarrow> 'a option" where
  "unmarshal_ok d zero s = (case unmarshal d zero s of (x, ok) \<Rightarrow> if ok then Some x else None)"

lemma unmarshal_print: "json_ok v \<Longrightarrow> unmarshal d zero (json_print v) = d v zero"
  by (simp add: unmarshal_def json_roundtrip)

lemma unmarshal_ok_print: "json_ok v \<Longrightarrow> unmarshal_ok d zero (json_print v) = (case d v zero of (x, ok) \<Rightarrow> if ok then Some x else None)"
  by (simp add: unmarshal_ok_def unmarshal_print)

lemma fold_key_id: "list_all (\<lambda>c. 97 \<le> (of_char c :: nat) \<and> (of_char c :: nat) \<le> 122 \<or> c = CHR ''_'') s \<Longrightarrow> fold_key s = s"
  by (induction s rule: fold_key.induct) (auto simp: Let_def)

lemmas dec_defs = dec_string_def dec_bool_def dec_int_def dec_float_def unread_def field_at_def dec_pointer_def dec_slice_def
  struct_field_def dec_member_def dec_struct_def

lemma decode_examples:
  "int_value ''-120'' = Some (- 120)" "int_value ''1.5'' = None" "int_value ''9223372036854775808'' = None"
  "float_value ''0.5'' = 1 / 2" "float_value ''-12.5e-1'' = - (5 / 4)" "float_value ''3E2'' = 300"
  by (simp_all add: int_value_def float_value_def digits_value_def num_sign_def num_int_def some_digits_def is_digit_def Let_def)

subsection \<open>Base64\<close>

text \<open>\<open>StdEncoding\<close>: three bytes are four characters; the decoder skips line ends and ignores spare bits.\<close>

definition b64_char :: "nat \<Rightarrow> char" where
  "b64_char n = char_of (if n < 26 then 65 + n else if n < 52 then 71 + n else if n < 62 then n - 4 else if n = 62 then 43 else 47)"

definition b64_value :: "char \<Rightarrow> nat option" where
  "b64_value c =
     (let n = of_char c :: nat
      in if 65 \<le> n \<and> n \<le> 90 then Some (n - 65) else if 97 \<le> n \<and> n \<le> 122 then Some (n - 71)
         else if 48 \<le> n \<and> n \<le> 57 then Some (n + 4) else if n = 43 then Some 62 else if n = 47 then Some 63 else None)"

fun b64_groups :: "nat list \<Rightarrow> string" where
  "b64_groups [] = []"
| "b64_groups [a] = [b64_char (a div 4), b64_char (a mod 4 * 16), CHR ''='', CHR ''='']"
| "b64_groups [a, b] = [b64_char (a div 4), b64_char (a mod 4 * 16 + b div 16), b64_char (b mod 16 * 4), CHR ''='']"
| "b64_groups (a # b # c # r) =
     b64_char (a div 4) # b64_char (a mod 4 * 16 + b div 16) # b64_char (b mod 16 * 4 + c div 64) # b64_char (c mod 64) # b64_groups r"

definition base64_encode :: "bytes \<Rightarrow> string" where
  "base64_encode bs = b64_groups (map unat bs)"

fun b64_ungroup :: "string \<Rightarrow> nat list option" where
  "b64_ungroup [] = Some []"
| "b64_ungroup (a # b # c # d # r) =
     (case (b64_value a, b64_value b) of
        (Some w, Some x) \<Rightarrow>
          if c = CHR ''='' then (if d = CHR ''='' \<and> r = [] then Some [w * 4 + x div 16] else None)
          else (case b64_value c of
                  None \<Rightarrow> None
                | Some y \<Rightarrow>
                    if d = CHR ''='' then (if r = [] then Some [w * 4 + x div 16, x mod 16 * 16 + y div 4] else None)
                    else (case b64_value d of
                            None \<Rightarrow> None
                          | Some z \<Rightarrow> map_option (\<lambda>ns. (w * 4 + x div 16) # (x mod 16 * 16 + y div 4) # (y mod 4 * 64 + z) # ns) (b64_ungroup r)))
      | _ \<Rightarrow> None)"
| "b64_ungroup s = None"

definition base64_decode :: "string \<Rightarrow> bytes option" where
  "base64_decode s = map_option (map of_nat) (b64_ungroup (filter (\<lambda>c. c \<noteq> CHR 0x0A \<and> c \<noteq> CHR 0x0D) s))"

lemma b64_char_value: "n < 64 \<Longrightarrow> b64_value (b64_char n) = Some n"
  and b64_char_plain: "n < 64 \<Longrightarrow> b64_char n \<noteq> CHR ''='' \<and> b64_char n \<noteq> CHR 0x0A \<and> b64_char n \<noteq> CHR 0x0D"
proof -
  assume n: "n < 64"
  have c: "of_char (b64_char n) =
      (if n < 26 then 65 + n else if n < 52 then 71 + n else if n < 62 then n - 4 else if n = 62 then 43 else 47)"
    using n by (simp add: b64_char_def of_char_of)
  show v: "b64_value (b64_char n) = Some n" using n unfolding b64_value_def c Let_def by auto
  have "b64_value CHR ''='' = None" "b64_value CHR 0x0A = None" "b64_value CHR 0x0D = None" by (simp_all add: b64_value_def)
  with v show "b64_char n \<noteq> CHR ''='' \<and> b64_char n \<noteq> CHR 0x0A \<and> b64_char n \<noteq> CHR 0x0D" by auto
qed

lemma b64_group_parts:
  assumes "a < 256" "b < 256" "c < (256 :: nat)"
  shows "a div 4 < 64" "a mod 4 * 16 < 64" "a mod 4 * 16 + b div 16 < 64" "b mod 16 * 4 < 64" "b mod 16 * 4 + c div 64 < 64" "c mod 64 < 64"
    "b div 16 < 16" "c div 64 < 4"
proof -
  show "a div 4 < 64" and b: "b div 16 < 16" and c: "c div 64 < 4" using assms by (simp_all add: less_mult_imp_div_less)
  have "a mod 4 < 4" "b mod 16 < 16" by simp_all
  with b c show "a mod 4 * 16 < 64" "a mod 4 * 16 + b div 16 < 64" "b mod 16 * 4 < 64" "b mod 16 * 4 + c div 64 < 64"
    by linarith+
  show "c mod 64 < 64" by simp
qed

lemma b64_roundtrip: "list_all (\<lambda>n. n < 256) ns \<Longrightarrow> b64_ungroup (b64_groups ns) = Some ns"
proof (induction ns rule: b64_groups.induct)
  case (2 a)
  then show ?case using b64_group_parts [of a 0 0] by (simp add: b64_char_value b64_char_plain)
next
  case (3 a b)
  then show ?case using b64_group_parts [of a b 0] by (simp add: b64_char_value b64_char_plain)
next
  case (4 a b c r)
  then show ?case using b64_group_parts [of a b c] by (simp add: b64_char_value b64_char_plain)
qed simp

lemma b64_no_line_ends: "list_all (\<lambda>n. n < 256) ns \<Longrightarrow> filter (\<lambda>c. c \<noteq> CHR 0x0A \<and> c \<noteq> CHR 0x0D) (b64_groups ns) = b64_groups ns"
proof (induction ns rule: b64_groups.induct)
  case (2 a)
  then show ?case using b64_group_parts [of a 0 0] by (simp add: b64_char_plain)
next
  case (3 a b)
  then show ?case using b64_group_parts [of a b 0] by (simp add: b64_char_plain)
next
  case (4 a b c r)
  then show ?case using b64_group_parts [of a b c] by (simp add: b64_char_plain)
qed simp

theorem base64_roundtrip: "base64_decode (base64_encode bs) = Some bs"
proof -
  have "list_all (\<lambda>n. n < 256) (map unat bs)" using unsigned_less [where 'b = 8 and 'a = nat] by (auto simp: list_all_iff)
  then show ?thesis by (simp add: base64_decode_def base64_encode_def b64_no_line_ends b64_roundtrip o_def)
qed

text \<open>Bytes as the string they are, and back.\<close>

definition bytes_string :: "bytes \<Rightarrow> string" where "bytes_string bs = map (\<lambda>b. char_of (unat b)) bs"
definition string_bytes :: "string \<Rightarrow> bytes" where "string_bytes s = map (\<lambda>c. of_nat (of_char c)) s"

lemma bytes_string_inverse [simp]: "bytes_string (string_bytes s) = s"
proof -
  have "unat (of_nat (of_char c) :: byte) = of_char c" for c
  proof -
    have "(of_char c :: nat) < 256" using range_nat_of_char by (metis atLeastLessThan_iff rangeI)
    then show ?thesis by (simp add: unat_of_nat take_bit_eq_mod)
  qed
  then show ?thesis by (simp add: bytes_string_def string_bytes_def o_def)
qed

end
