(* ===== verification/Wire.thy ===== *)
theory Wire
  imports AsrVendors Translators Synthesizers Json Flags
begin

section \<open>The vendors' messages as JSON\<close>

text \<open>
  What the five clients write and read, as the struct tags say: the values that \<open>json.Marshal\<close> and
  \<open>WriteJSON\<close> are given, and the decoders that \<open>json.Unmarshal\<close> is. They stand for the decoding
  arguments of the theories on the vendors. Messages are byte strings.
\<close>

subsection \<open>Sarvam\<close>

definition sarvam_audio_json :: "sarvamAudioMessage \<Rightarrow> json" where
  "sarvam_audio_json m =
     JObj [(''audio'', JObj [(''data'', JStr (sam_Data m)), (''sample_rate'', JStr (sam_SampleRate m)), (''encoding'', JStr (sam_Encoding m))])]"

definition sarvam_flush_json :: json where "sarvam_flush_json = JObj [(''type'', JStr ''flush'')]"

text \<open>\<open>WriteJSON\<close> ends the text with a newline.\<close>

definition write_json :: "json \<Rightarrow> string" where "write_json v = json_print v @ [newline]"

definition sarvam_response_dec :: "sarvamResponseMessage dec" where
  "sarvam_response_dec = dec_struct
     [(''type'', field_at srm_Type srm_Type_update dec_string),
      (''data'', dec_struct
         [(''request_id'', unread dec_string []),
          (''transcript'', field_at srm_Transcript srm_Transcript_update dec_string),
          (''signal_type'', unread dec_string []),
          (''metrics'', dec_struct [(''audio_duration'', field_at srm_AudioDurationSec srm_AudioDurationSec_update dec_float)])]),
      (''error'', field_at srm_Error srm_Error_update dec_string),
      (''message'', field_at srm_Message srm_Message_update dec_string)]"

definition zero_srm :: sarvamResponseMessage where
  "zero_srm = \<lparr>srm_Type = [], srm_Transcript = [], srm_AudioDurationSec = 0, srm_Error = [], srm_Message = []\<rparr>"

definition sarvam_parse :: "bytes \<Rightarrow> sarvamResponseMessage option" where
  "sarvam_parse data = unmarshal_ok sarvam_response_dec zero_srm (bytes_string data)"

subsection \<open>Deepgram\<close>

text \<open>The control messages: \<open>KeepAlive\<close> on every tick of an idle connection, \<open>CloseStream\<close> at the end.\<close>

definition deepgram_control_json :: "string \<Rightarrow> json" where
  "deepgram_control_json msg = JObj [(''type'', JStr msg)]"

definition dg_error_dec :: "(string \<times> string) dec" where
  "dg_error_dec = dec_struct
     [(''err_code'', field_at fst (\<lambda>f (c, m). (f c, m)) dec_string), (''err_msg'', field_at snd (\<lambda>f (c, m). (c, f m)) dec_string)]"

definition dg_alternative_dec :: "dgAlternative dec" where
  "dg_alternative_dec = dec_struct
     [(''transcript'', field_at dga_Transcript dga_Transcript_update dec_string),
      (''confidence'', field_at dga_Confidence dga_Confidence_update dec_float)]"

definition dg_results_dec :: "dgResultsMessage dec" where
  "dg_results_dec = dec_struct
     [(''type'', field_at dgm_Type dgm_Type_update dec_string),
      (''is_final'', field_at dgm_IsFinal dgm_IsFinal_update dec_bool),
      (''start'', field_at dgm_Start dgm_Start_update dec_float),
      (''duration'', field_at dgm_Duration dgm_Duration_update dec_float),
      (''from_finalize'', unread dec_bool False),
      (''channel'', dec_struct
         [(''alternatives'', field_at dgm_Alternatives dgm_Alternatives_update
              (dec_slice \<lparr>dga_Transcript = [], dga_Confidence = 0\<rparr> dg_alternative_dec))])]"

definition deepgram_parseErr :: "bytes \<Rightarrow> (string \<times> string) option" where
  "deepgram_parseErr data = unmarshal_ok dg_error_dec ([], []) (bytes_string data)"

definition deepgram_parseResults :: "bytes \<Rightarrow> dgResultsMessage option" where
  "deepgram_parseResults data =
     unmarshal_ok dg_results_dec \<lparr>dgm_Type = [], dgm_IsFinal = False, dgm_Start = 0, dgm_Duration = 0, dgm_Alternatives = []\<rparr>
       (bytes_string data)"

subsection \<open>GPT-4o\<close>

definition usage_dec :: "string \<Rightarrow> string \<Rightarrow> string \<Rightarrow> chatCompletionUsage dec" where
  "usage_dec prompt completion whole = dec_struct
     [(prompt, field_at PromptTokens PromptTokens_update dec_int),
      (completion, field_at CompletionTokens CompletionTokens_update dec_int),
      (whole, field_at TotalTokens TotalTokens_update dec_int)]"

definition zero_usage :: chatCompletionUsage where
  "zero_usage = \<lparr>PromptTokens = 0, CompletionTokens = 0, TotalTokens = 0\<rparr>"

definition chunk_choice_dec :: "chunkChoice dec" where
  "chunk_choice_dec = dec_struct
     [(''delta'', dec_struct [(''content'', field_at DeltaContent DeltaContent_update dec_string)]),
      (''finish_reason'', field_at FinishReason FinishReason_update (dec_pointer [] dec_string))]"

definition chat_chunk_dec :: "chatCompletionChunk dec" where
  "chat_chunk_dec = dec_struct
     [(''choices'', field_at Choices Choices_update (dec_slice \<lparr>DeltaContent = [], FinishReason = None\<rparr> chunk_choice_dec)),
      (''usage'', field_at Usage Usage_update
          (dec_pointer zero_usage (usage_dec ''prompt_tokens'' ''completion_tokens'' ''total_tokens'')))]"

definition gpt4o_parse :: "string \<Rightarrow> chatCompletionChunk option" where
  "gpt4o_parse = unmarshal_ok chat_chunk_dec \<lparr>Choices = [], Usage = None\<rparr>"

text \<open>The message of an error body; \<open>codeDec\<close> is the type of its \<open>code\<close>.\<close>

definition error_body :: "(string \<times> string dec) list \<Rightarrow> string \<Rightarrow> bool" where
  "error_body others body =
     (case unmarshal_ok (dec_struct [(''error'', dec_struct ((''message'', dec_string) # others))]) [] body of
        None \<Rightarrow> False | Some m \<Rightarrow> m \<noteq> [])"

text \<open>The request; \<open>temp\<close> is the literal of its temperature.\<close>

definition chat_request_json :: "string \<Rightarrow> chatCompletionRequest \<Rightarrow> json" where
  "chat_request_json temp r =
     JObj [(''model'', JStr (Model r)),
           (''messages'', JArr (map (\<lambda>c. JObj [(''role'', JStr (Role c)), (''content'', JStr (Content c))]) (Messages r))),
           (''stream'', JBool (Stream r)), (''temperature'', JNum temp),
           (''stream_options'', JObj [(''include_usage'', JBool (IncludeUsage r))])]"

definition gpt4o_errorShape :: "string \<Rightarrow> bool" where
  "gpt4o_errorShape = error_body [(''type'', unread dec_string []), (''code'', unread dec_string [])]"

subsection \<open>Gemini\<close>

definition gemini_parts_json :: "string \<Rightarrow> json" where
  "gemini_parts_json txt = JObj [(''parts'', JArr [JObj [(''text'', JStr txt)]])]"

definition gemini_request_json :: "geminiRequest \<Rightarrow> json" where
  "gemini_request_json r =
     JObj [(''contents'', JArr [gemini_parts_json (Contents r)]), (''systemInstruction'', gemini_parts_json (SystemInstruction r))]"

definition gemini_content_dec :: "string list dec" where
  "gemini_content_dec = dec_struct [(''parts'', dec_slice [] (dec_struct [(''text'', dec_string)]))]"

definition gemini_candidate_dec :: "geminiCandidate dec" where
  "gemini_candidate_dec = dec_struct
     [(''content'', field_at Parts Parts_update gemini_content_dec),
      (''finishReason'', field_at gc_FinishReason gc_FinishReason_update dec_string)]"

definition gemini_response_dec :: "geminiResponse dec" where
  "gemini_response_dec = dec_struct
     [(''candidates'', field_at Candidates Candidates_update (dec_slice \<lparr>Parts = [], gc_FinishReason = []\<rparr> gemini_candidate_dec)),
      (''promptFeedback'', field_at BlockReason BlockReason_update (dec_pointer [] (dec_struct [(''blockReason'', dec_string)]))),
      (''usageMetadata'', field_at UsageMetadata UsageMetadata_update
          (dec_pointer zero_usage (usage_dec ''promptTokenCount'' ''candidatesTokenCount'' ''totalTokenCount'')))]"

definition gemini_parse :: "string \<Rightarrow> geminiResponse option" where
  "gemini_parse = unmarshal_ok gemini_response_dec \<lparr>Candidates = [], BlockReason = None, UsageMetadata = None\<rparr>"

definition gemini_errorShape :: "string \<Rightarrow> bool" where
  "gemini_errorShape = error_body [(''code'', unread dec_int 0), (''status'', unread dec_string [])]"

subsection \<open>Cartesia and ElevenLabs\<close>

definition cartesia_request_json :: "cartesiaGenerationRequest \<Rightarrow> json" where
  "cartesia_request_json r =
     JObj ([(''model_id'', JStr (cr_ModelID r)), (''transcript'', JStr (cr_Transcript r)),
            (''voice'', JObj [(''mode'', JStr ''id''), (''id'', JStr (cr_VoiceID r))])]
           @ (if cr_Language r = [] then [] else [(''language'', JStr (cr_Language r))])
           @ [(''context_id'', JStr (cr_ContextID r)),
              (''output_format'', JObj [(''container'', JStr ''raw''), (''encoding'', JStr ''pcm_s16le''),
                                        (''sample_rate'', JNum (show_int (cr_SampleRate r)))]),
              (''continue'', JBool (cr_Continue r))])"

definition cartesia_message_dec :: "cartesiaMessage dec" where
  "cartesia_message_dec = dec_struct
     [(''type'', field_at cm_Type cm_Type_update dec_string),
      (''data'', field_at cm_Data cm_Data_update dec_string),
      (''done'', field_at cm_Done cm_Done_update dec_bool),
      (''status_code'', unread dec_int 0),
      (''context_id'', field_at cm_ContextID cm_ContextID_update dec_string),
      (''title'', unread dec_string []), (''message'', unread dec_string []), (''error_code'', unread dec_string [])]"

definition cartesia_parse :: "bytes \<Rightarrow> cartesiaMessage option" where
  "cartesia_parse data =
     unmarshal_ok cartesia_message_dec \<lparr>cm_Type = [], cm_Data = [], cm_Done = False, cm_ContextID = []\<rparr> (bytes_string data)"

definition elevenlabs_request_json :: "elevenlabsRequest \<Rightarrow> json" where
  "elevenlabs_request_json r =
     JObj ([(''text'', JStr (er_Text r)), (''model_id'', JStr (er_ModelID r))]
           @ (if er_LanguageCode r = [] then [] else [(''language_code'', JStr (er_LanguageCode r))]))"

subsection \<open>What a vendor writes is understood\<close>

lemma newline_space: "is_space newline" by (simp add: is_space_def newline_def)

lemma parse_written: "json_ok v \<Longrightarrow> json_parse (write_json v) = Some v"
proof -
  assume ok: "json_ok v"
  have "ends_value [newline]" by (simp add: ends_value_def newline_space)
  then have "read_value (2 * length (write_json v) + 2) (json_print v @ [newline]) = Some (v, [newline])"
    using fuel_length [OF ok] by (intro read_print [OF ok]) (simp_all add: write_json_def)
  then show ?thesis by (simp add: json_parse_def write_json_def skip_space_def newline_space)
qed


text \<open>One member of an object, by its key.\<close>

lemma dec_struct_obj: "dec_struct fs (JObj kvs) x = foldl (dec_member fs) (x, True) kvs"
  by (simp add: dec_struct_def)

lemma dec_member_known:
  "map_of fs k = Some d \<Longrightarrow> dec_member fs (x, ok) (k, v) = (let (y, ok') = d v x in (y, ok \<and> ok'))"
  by (simp add: dec_member_def struct_field_def)

lemma dec_member_unknown:
  "map_of fs k = None \<Longrightarrow> fold_key k = k \<Longrightarrow> map_of (map (\<lambda>(n, d). (fold_key n, d)) fs) k = None \<Longrightarrow> dec_member fs x (k, v) = x"
  by (simp add: dec_member_def struct_field_def)

lemma dec_basic [simp]:
  "dec_string (JStr s) y = (s, True)" "dec_bool (JBool b) yb = (b, True)" "dec_float (JNum l) yf = (float_value l, True)"
  "unread du z v xu = (xu, snd (du v z))" "field_at get upd d v x = (let (y, ok) = d v (get x) in (upd (\<lambda>_. y) x, ok))"
  by (simp_all add: dec_string_def dec_bool_def dec_float_def unread_def field_at_def)

lemmas decode = dec_struct_obj dec_member_known dec_slice_def dec_pointer_def

text \<open>Sarvam's data message with any text and duration, read by the client.\<close>

definition sarvam_data_json :: "string \<Rightarrow> string \<Rightarrow> string \<Rightarrow> json" where
  "sarvam_data_json rid txt dur =
     JObj [(''type'', JStr ''data''),
           (''data'', JObj [(''request_id'', JStr rid), (''transcript'', JStr txt),
                            (''metrics'', JObj [(''audio_duration'', JNum dur)])])]"

lemma sarvam_data_decodes:
  "sarvam_response_dec (sarvam_data_json rid txt dur) zero_srm =
     (\<lparr>srm_Type = ''data'', srm_Transcript = txt, srm_AudioDurationSec = float_value dur, srm_Error = [], srm_Message = []\<rparr>, True)"
  by (simp add: sarvam_response_dec_def sarvam_data_json_def zero_srm_def decode)

definition dg_results_json :: "string \<Rightarrow> string \<Rightarrow> bool \<Rightarrow> string \<Rightarrow> string \<Rightarrow> json" where
  "dg_results_json txt conf final start dur =
     JObj [(''type'', JStr ''Results''), (''is_final'', JBool final), (''start'', JNum start), (''duration'', JNum dur),
           (''channel'', JObj [(''alternatives'', JArr [JObj [(''transcript'', JStr txt), (''confidence'', JNum conf)]])])]"

lemma dg_results_decodes:
  "dg_results_dec (dg_results_json txt conf final start dur)
       \<lparr>dgm_Type = [], dgm_IsFinal = False, dgm_Start = 0, dgm_Duration = 0, dgm_Alternatives = []\<rparr> =
     (\<lparr>dgm_Type = ''Results'', dgm_IsFinal = final, dgm_Start = float_value start, dgm_Duration = float_value dur,
       dgm_Alternatives = [\<lparr>dga_Transcript = txt, dga_Confidence = float_value conf\<rparr>]\<rparr>, True)"
  by (simp add: dg_results_dec_def dg_results_json_def dg_alternative_dec_def decode)

lemma dg_results_no_error:
  "dg_error_dec (dg_results_json txt conf final start dur) ([], []) = (([], []), True)"
  by (simp add: dg_error_dec_def dg_results_json_def dec_struct_obj dec_member_unknown)

definition chat_chunk_json :: "string \<Rightarrow> json" where
  "chat_chunk_json txt = JObj [(''choices'', JArr [JObj [(''delta'', JObj [(''content'', JStr txt)])]])]"

lemma chat_chunk_decodes:
  "chat_chunk_dec (chat_chunk_json txt) \<lparr>Choices = [], Usage = None\<rparr> =
     (\<lparr>Choices = [\<lparr>DeltaContent = txt, FinishReason = None\<rparr>], Usage = None\<rparr>, True)"
  by (simp add: chat_chunk_dec_def chat_chunk_json_def chunk_choice_dec_def decode)

definition cartesia_chunk_json :: "string \<Rightarrow> bytes \<Rightarrow> bool \<Rightarrow> json" where
  "cartesia_chunk_json cid pcm done =
     JObj [(''context_id'', JStr cid), (''data'', JStr (base64_encode pcm)), (''done'', JBool done), (''type'', JStr ''chunk'')]"

lemma cartesia_chunk_decodes:
  "cartesia_message_dec (cartesia_chunk_json cid pcm done) \<lparr>cm_Type = [], cm_Data = [], cm_Done = False, cm_ContextID = []\<rparr> =
     (\<lparr>cm_Type = ''chunk'', cm_Data = base64_encode pcm, cm_Done = done, cm_ContextID = cid\<rparr>, True)"
  by (simp add: cartesia_message_dec_def cartesia_chunk_json_def decode)


lemma unmarshal_written:
  "json_ok v \<Longrightarrow> unmarshal_ok d zero (write_json v) = (case d v zero of (x, ok) \<Rightarrow> if ok then Some x else None)"
  by (simp add: unmarshal_ok_def unmarshal_def parse_written)

lemma messages_ok [simp]:
  "json_ok (cartesia_chunk_json cid pcm last_one)" "json_ok (chat_chunk_json txt)"
  "number_literal dur \<Longrightarrow> json_ok (sarvam_data_json rid txt dur)"
  "number_literal conf \<Longrightarrow> number_literal start \<Longrightarrow> number_literal dur \<Longrightarrow> json_ok (dg_results_json txt conf final start dur)"
  by (simp_all add: cartesia_chunk_json_def chat_chunk_json_def sarvam_data_json_def dg_results_json_def)

lemma cartesia_parse_chunk:
  "cartesia_parse (string_bytes (json_print (cartesia_chunk_json cid pcm done))) =
     Some \<lparr>cm_Type = ''chunk'', cm_Data = base64_encode pcm, cm_Done = done, cm_ContextID = cid\<rparr>"
  by (simp add: cartesia_parse_def unmarshal_ok_print cartesia_chunk_decodes)

lemma gpt4o_parse_chunk:
  "gpt4o_parse (json_print (chat_chunk_json txt)) = Some \<lparr>Choices = [\<lparr>DeltaContent = txt, FinishReason = None\<rparr>], Usage = None\<rparr>"
  by (simp add: gpt4o_parse_def unmarshal_ok_print chat_chunk_decodes)

lemma sarvam_message_data:
  assumes "number_literal dur" "txt \<noteq> []"
  shows "sarvam_message sarvam_parse lang (string_bytes (write_json (sarvam_data_json rid txt dur))) =
     MsgTranscript (\<lambda>ms. \<lparr>tr_Text = txt, tr_Language = lang, tr_IsFinal = True, tr_Confidence = 1, tr_StartMS = ms,
       tr_EndMS = (if float_value dur > 0 then ms + go_int64 (float_value dur * 1000) else ms)\<rparr>)"
  using assms by (simp add: sarvam_message_def sarvam_parse_def unmarshal_written sarvam_data_decodes cong: if_cong)

lemma deepgram_message_results:
  assumes "number_literal conf" "number_literal start" "number_literal dur" "txt \<noteq> []"
  shows "deepgram_message deepgram_parseErr deepgram_parseResults lang (string_bytes (write_json (dg_results_json txt conf final start dur))) =
     MsgTranscript (\<lambda>ms. \<lparr>tr_Text = txt, tr_Language = lang, tr_IsFinal = final, tr_Confidence = float_value conf,
       tr_StartMS = go_int64 (float_value start * 1000), tr_EndMS = go_int64 ((float_value start + float_value dur) * 1000)\<rparr>)"
  using assms
  by (simp add: deepgram_message_def deepgram_results_def deepgram_parseErr_def deepgram_parseResults_def unmarshal_written
      dg_results_decodes dg_results_no_error)

text \<open>
  C19: What the vendors write is understood. Whatever the text (quotes, control characters, any
  script; Go would repair what is not UTF-8), a Sarvam data message and a Deepgram result become exactly the transcript with that text
  and those times, the error check that Deepgram's reader makes first does not take a result for an
  error, a GPT-4o chunk is read as its text, and a Cartesia chunk as the audio that was encoded.
\<close>
theorem vendor_results_understood:
  assumes "number_literal conf" "number_literal start" "number_literal dur" "txt \<noteq> []" "valid_utf8 txt" "valid_utf8 rid" "valid_utf8 cid"
  shows "sarvam_message sarvam_parse lang (string_bytes (write_json (sarvam_data_json rid txt dur))) =
       MsgTranscript (\<lambda>ms. \<lparr>tr_Text = txt, tr_Language = lang, tr_IsFinal = True, tr_Confidence = 1, tr_StartMS = ms,
         tr_EndMS = (if float_value dur > 0 then ms + go_int64 (float_value dur * 1000) else ms)\<rparr>)
    \<and> deepgram_message deepgram_parseErr deepgram_parseResults lang (string_bytes (write_json (dg_results_json txt conf final start dur))) =
       MsgTranscript (\<lambda>ms. \<lparr>tr_Text = txt, tr_Language = lang, tr_IsFinal = final, tr_Confidence = float_value conf,
         tr_StartMS = go_int64 (float_value start * 1000), tr_EndMS = go_int64 ((float_value start + float_value dur) * 1000)\<rparr>)
    \<and> map_option chunk_text (gpt4o_parse (json_print (chat_chunk_json txt))) = Some txt
    \<and> (\<exists>m. cartesia_parse (string_bytes (json_print (cartesia_chunk_json cid pcm last_one))) = Some m
           \<and> cm_Type m = ''chunk'' \<and> cm_Done m = last_one \<and> cm_ContextID m = cid \<and> base64_decode (cm_Data m) = Some pcm)"
  using assms sarvam_message_data [OF assms(3,4)] deepgram_message_results [OF assms(1-4)]
  by (simp add: gpt4o_parse_chunk cartesia_parse_chunk base64_roundtrip chunk_text_def)

lemma literal_eval: "number_literal ''0.5''" "number_literal ''1''" "number_literal ''0.01''"
  by (simp_all add: number_literal_def read_number_def num_sign_def num_int_def num_frac_def num_exp_def some_digits_def is_digit_def)

theorem vendor_results_understood_witness:
  "map_option chunk_text (gpt4o_parse (json_print (chat_chunk_json ''say \"hi\" <b>''))) = Some ''say \"hi\" <b>''"
proof -
  have "valid_utf8 ''say \"hi\" <b>''" "valid_utf8 []" by (simp_all add: valid_ascii byte_in_def)
  then show ?thesis using vendor_results_understood [OF literal_eval(1,1,1), of "''say \"hi\" <b>''" "[]" "[]"] by simp
qed

text \<open>The messages of a translation request as its receiver reads them.\<close>

definition chat_messages_dec :: "chatMessage list dec" where
  "chat_messages_dec = dec_struct
     [(''messages'', dec_slice \<lparr>Role = [], Content = []\<rparr>
         (dec_struct [(''role'', field_at Role Role_update dec_string), (''content'', field_at Content Content_update dec_string)]))]"

definition gemini_texts_dec :: "(string list list \<times> string list) dec" where
  "gemini_texts_dec = dec_struct
     [(''contents'', field_at fst (\<lambda>f (c, i). (f c, i)) (dec_slice [] gemini_content_dec)),
      (''systemInstruction'', field_at snd (\<lambda>f (c, i). (c, f i)) gemini_content_dec)]"

lemma request_messages_read_back:
  assumes "number_literal temp"
  shows "unmarshal_ok chat_messages_dec [] (json_print (chat_request_json temp (rq_Body (gpt4o_request g txt source target)))) =
      Some [\<lparr>Role = ''system'', Content = gpt4oSystemPrompt (languageName source) (languageName target)\<rparr>, \<lparr>Role = ''user'', Content = txt\<rparr>]"
    and "unmarshal_ok gemini_texts_dec ([], []) (json_print (gemini_request_json (rq_Body (gemini_request g txt source target)))) =
      Some ([[txt]], [gpt4oSystemPrompt (languageName source) (languageName target)])"
proof -
  have "json_ok (chat_request_json temp (rq_Body (gpt4o_request g txt source target)))"
    using assms by (simp add: chat_request_json_def gpt4o_request_def)
  from unmarshal_ok_print [OF this, of chat_messages_dec "[]"]
  show "unmarshal_ok chat_messages_dec [] (json_print (chat_request_json temp (rq_Body (gpt4o_request g txt source target)))) =
      Some [\<lparr>Role = ''system'', Content = gpt4oSystemPrompt (languageName source) (languageName target)\<rparr>, \<lparr>Role = ''user'', Content = txt\<rparr>]"
    by (simp add: chat_messages_dec_def chat_request_json_def gpt4o_request_def decode dec_member_unknown)
  have "json_ok (gemini_request_json (rq_Body (gemini_request g txt source target)))"
    by (simp add: gemini_request_json_def gemini_parts_json_def)
  from unmarshal_ok_print [OF this, of gemini_texts_dec "([], [])"]
  show "unmarshal_ok gemini_texts_dec ([], []) (json_print (gemini_request_json (rq_Body (gemini_request g txt source target)))) =
      Some ([[txt]], [gpt4oSystemPrompt (languageName source) (languageName target)])"
    by (simp add: gemini_texts_dec_def gemini_request_json_def gemini_parts_json_def gemini_request_def gemini_content_dec_def decode)
qed

text \<open>The audio message as its receiver reads it: the data field, the rate and the encoding.\<close>

definition sarvam_received_dec :: "(string \<times> string \<times> string) dec" where
  "sarvam_received_dec = dec_struct
     [(''audio'', dec_struct [(''data'', field_at fst (\<lambda>f (d, r, e). (f d, r, e)) dec_string),
                             (''sample_rate'', field_at (\<lambda>(d, r, e). r) (\<lambda>f (d, r, e). (d, f r, e)) dec_string),
                             (''encoding'', field_at (\<lambda>(d, r, e). e) (\<lambda>f (d, r, e). (d, r, f e)) dec_string)])]"

lemma sarvam_audio_received:
  "unmarshal_ok sarvam_received_dec ([], [], []) (write_json (sarvam_audio_json m)) =
     Some (sam_Data m, sam_SampleRate m, sam_Encoding m)"
proof -
  have "json_ok (sarvam_audio_json m)" by (simp add: sarvam_audio_json_def)
  then show ?thesis
    by (simp add: unmarshal_ok_def unmarshal_def parse_written sarvam_received_dec_def sarvam_audio_json_def dec_struct_obj
        dec_member_known dec_member_unknown)
qed

text \<open>
  C24: What Sarvam is sent can be played. For any frame whose sizes fit 32 bits, the JSON that
  \<open>PushAudio\<close> writes announces \<open>audio/wav\<close>, gives the frame's sampling rate as a decimal number, and
  carries a base64 text whose bytes are a WAV file: the RIFF, WAVE, fmt and data tags in their places,
  a 16-byte description of 16-bit mono PCM at the frame's rate with the byte rate, block size and the two
  sizes that belong to it, and then exactly the frame's audio.
\<close>
theorem sarvam_audio_reads_back:
  assumes "36 + length (af_PCM frame) < 2 ^ 32" "0 \<le> af_SampleRate frame" "af_SampleRate frame * 2 < 2 ^ 32"
  shows "\<exists>d r wav. unmarshal_ok sarvam_received_dec ([], [], [])
        (write_json (sarvam_audio_json (sarvam_audio base64_encode frame))) = Some (d, r, ''audio/wav'')
    \<and> ParseInt r = Inr (af_SampleRate frame)
    \<and> base64_decode d = Some wav \<and> length wav = 44 + length (af_PCM frame) \<and> drop 44 wav = af_PCM frame
    \<and> take 4 wav = ascii ''RIFF'' \<and> le_value (take 4 (drop 4 wav)) = length wav - 8
    \<and> take 4 (drop 8 wav) = ascii ''WAVE'' \<and> take 4 (drop 12 wav) = ascii ''fmt ''
    \<and> le_value (take 4 (drop 16 wav)) = 16 \<and> le_value (take 2 (drop 20 wav)) = 1 \<and> le_value (take 2 (drop 22 wav)) = 1
    \<and> le_value (take 4 (drop 24 wav)) = nat (af_SampleRate frame)
    \<and> le_value (take 4 (drop 28 wav)) = 2 * nat (af_SampleRate frame)
    \<and> le_value (take 2 (drop 32 wav)) = 2 \<and> le_value (take 2 (drop 34 wav)) = 16
    \<and> take 4 (drop 36 wav) = ascii ''data'' \<and> le_value (take 4 (drop 40 wav)) = length (af_PCM frame)"
proof -
  have "af_SampleRate frame < 2 ^ 63" using assms(3) by simp
  then have "ParseInt (show_int (af_SampleRate frame)) = Inr (af_SampleRate frame)" using assms(2) by (intro ParseInt_show_int) simp_all
  then show ?thesis using sarvam_wav_header [OF assms]
    by (simp add: sarvam_audio_received sarvam_audio_def base64_roundtrip Let_def del: le_value.simps)
qed

theorem sarvam_audio_reads_back_witness:
  "\<exists>d r wav. unmarshal_ok sarvam_received_dec ([], [], [])
       (write_json (sarvam_audio_json (sarvam_audio base64_encode \<lparr>af_PCM = [1, 2, 255], af_SampleRate = 8000, af_TimestampMS = 0\<rparr>)))
         = Some (d, r, ''audio/wav'')
     \<and> base64_decode d = Some wav \<and> drop 44 wav = [1, 2, 255] \<and> le_value (take 4 (drop 28 wav)) = 16000"
proof -
  let ?f = "\<lparr>af_PCM = [1, 2, 255], af_SampleRate = 8000, af_TimestampMS = 0\<rparr> :: AudioFrame"
  have "36 + length (af_PCM ?f) < 2 ^ 32" "0 \<le> af_SampleRate ?f" "af_SampleRate ?f * 2 < 2 ^ 32" by simp_all
  from sarvam_audio_reads_back [OF this] obtain d r wav where
    "unmarshal_ok sarvam_received_dec ([], [], []) (write_json (sarvam_audio_json (sarvam_audio base64_encode ?f))) = Some (d, r, ''audio/wav'')"
    "base64_decode d = Some wav" "drop 44 wav = af_PCM ?f" "le_value (take 4 (drop 28 wav)) = 2 * nat (af_SampleRate ?f)" by blast
  then show ?thesis by (intro exI conjI) simp_all
qed

end
