(* ===== verification/VendorFake.thy ===== *)
theory VendorFake
  imports Wire EndToEnd AsrBreaker
begin

section \<open>The latency benchmark on fake vendor servers (tools/latency_benchmark)\<close>

text \<open>
  The mode \<open>-vendor-fake\<close>: the clients of Sarvam, GPT-4o and Cartesia as they are, wired to three
  servers of the same process. The servers answer what the requests ask; everything in between is
  the clients' code of the theories on them: JSON, base64, event stream, WebSocket frames, breakers.
  The network delivers, and \<open>main\<close>'s flags have been parsed.
\<close>

subsection \<open>The servers\<close>

definition hindiUtterance :: string where
  "hindiUtterance = concat (map utf8 [0x92E, 0x941, 0x91D, 0x947, 0x20, 0x92E, 0x926, 0x926, 0x20, 0x91A, 0x93E, 0x939, 0x93F, 0x90F])"

definition englishTranslation :: string where "englishTranslation = ''I need help''"

text \<open>Sarvam's server answers every message the same.\<close>

definition fake_sarvam_json :: json where
  "fake_sarvam_json =
     JObj [(''data'', JObj [(''metrics'', JObj [(''audio_duration'', JNum ''0.5''), (''processing_latency'', JNum ''0.01'')]),
                            (''request_id'', JStr ''latency-benchmark''), (''transcript'', JStr hindiUtterance)]),
           (''type'', JStr ''data'')]"

definition fake_sarvam :: "string list \<Rightarrow> string list" where
  "fake_sarvam messages = map (\<lambda>m. json_print fake_sarvam_json) messages"

definition fake_gpt4o :: "string \<Rightarrow> Translators.http_response" where
  "fake_gpt4o path =
     (if path \<noteq> ''/chat/completions''
      then \<lparr>hr_Status = 404, hr_Body = ''404 page not found'' @ [newline], hr_ReadErr = None\<rparr>
      else \<lparr>hr_Status = 200,
            hr_Body = ''data: '' @ json_print (chat_chunk_json englishTranslation) @ [newline, newline] @ ''data: [DONE]'' @ [newline, newline],
            hr_ReadErr = None\<rparr>)"

definition cartesiaPCM :: "bytes list" where "cartesiaPCM = [[1, 2, 3, 4], [5, 6, 7, 8, 9, 10]]"

text \<open>The context of the request goes into every chunk; the last one is marked.\<close>

definition fake_cartesia :: "string \<Rightarrow> string list" where
  "fake_cartesia payload =
     (let cid = fst (unmarshal (dec_struct [(''context_id'', dec_string)]) [] payload)
      in map (\<lambda>i. json_print (cartesia_chunk_json cid (cartesiaPCM ! i) (i = length cartesiaPCM - 1))) [0..<length cartesiaPCM])"

text \<open>
  A world: the hosts the three servers listen on, Cartesia's random bytes, the handshake's key and
  hash, and the time of everything.
\<close>

record fake_world =
  fw_sarvam :: string
  fw_gpt4o :: string
  fw_cartesia :: string
  fw_rand :: bytes
  fw_key :: string
  fw_accept :: "string \<Rightarrow> string"
  fw_at :: instant

definition server_url :: "string \<Rightarrow> string" where "server_url host = ''http://'' @ host"

definition TrimPrefix :: "string \<Rightarrow> string \<Rightarrow> string" where
  "TrimPrefix s p = (case CutPrefix s p of Some r \<Rightarrow> r | None \<Rightarrow> s)"

record fakeVendorServers =
  SarvamWSURL :: string
  GPT4oHTTPURL :: string
  CartesiaWSURL :: string

definition startFakeVendorServers :: "fake_world \<Rightarrow> fakeVendorServers" where
  "startFakeVendorServers w =
     \<lparr>SarvamWSURL = ''ws'' @ TrimPrefix (server_url (fw_sarvam w)) ''http'' @ ''/speech-to-text/ws'',
      GPT4oHTTPURL = server_url (fw_gpt4o w),
      CartesiaWSURL = ''ws'' @ TrimPrefix (server_url (fw_cartesia w)) ''http''\<rparr>"

subsection \<open>The clients wired to them\<close>

record vendor_clients =
  vc_asr :: SarvamRecognizer
  vc_mt :: hosted_translator
  vc_tts :: CartesiaSynthesizer

text \<open>\<open>setFakeVendorAPIKeys\<close>, and what \<open>main\<close> constructs; \<open>openaiKey\<close> is the environment's.\<close>

definition fake_api_key :: string where "fake_api_key = ''fake-benchmark-key''"

definition setFakeVendorAPIKeys :: "(string \<Rightarrow> string) \<Rightarrow> string \<Rightarrow> string" where
  "setFakeVendorAPIKeys env = env(''SARVAM_API_KEY'' := fake_api_key, ''CARTESIA_API_KEY'' := fake_api_key)"

definition fake_clients :: "(string \<Rightarrow> string) \<Rightarrow> fakeVendorServers \<Rightarrow> vendor_clients result" where
  "fake_clients env srv =
     (case NewSarvamRecognizer (env ''SARVAM_API_KEY'') [SvBaseURL (SarvamWSURL srv)] of
        Inl e \<Rightarrow> Err (ErrWrap ''vendor-fake: building Sarvam recognizer:'' e)
      | Inr a \<Rightarrow>
        (case NewGPT4oTranslator (env ''OPENAI_API_KEY'') [WithBaseURL (GPT4oHTTPURL srv), WithAPIKey fake_api_key] of
           Inl e \<Rightarrow> Err (ErrWrap ''vendor-fake: building GPT-4o translator:'' e)
         | Inr m \<Rightarrow>
           (case NewCartesiaSynthesizer (env ''CARTESIA_API_KEY'') [CaBaseURL (CartesiaWSURL srv)] of
              Inl e \<Rightarrow> Err (ErrWrap ''vendor-fake: building Cartesia synthesizer:'' e)
            | Inr s \<Rightarrow> Ok \<lparr>vc_asr = a, vc_mt = m, vc_tts = s\<rparr>)))"

subsection \<open>The network between them\<close>

definition gpt4o_network :: "fake_world \<Rightarrow> chatCompletionRequest translate_env" where
  "gpt4o_network w =
     \<lparr>te_ctxDone = False, te_allowAt = fw_at w, te_settleAt = fw_at w, te_rnd = (\<lambda>i n. 0), te_cancelled = (\<lambda>i. False), te_done = (\<lambda>i. False),
      te_http = (\<lambda>i. \<lparr>he_buildErr = None,
        he_do = (\<lambda>rq. case CutPrefix (rq_URL rq) (server_url (fw_gpt4o w)) of
                   Some path \<Rightarrow> Ok (fake_gpt4o path) | None \<Rightarrow> Err (ErrNew ''connection refused'')),
        he_doneAtDo = False, he_doneAtLine = (\<lambda>k. False)\<rparr>)\<rparr>"

text \<open>The parts of a URL without user, escapes or fragment.\<close>

definition parse_url :: "string \<Rightarrow> ws_url" where
  "parse_url s =
     (let scheme = takeWhile (\<lambda>c. c \<noteq> CHR '':'') s; rest = drop (length scheme + 3) s; host = takeWhile (\<lambda>c. c \<noteq> CHR ''/'') rest
      in \<lparr>wu_scheme = scheme, wu_host = host, wu_hasPort = CHR '':'' \<in> set host, wu_requestURI = drop (length host) rest\<rparr>)"

text \<open>
  Dialling Sarvam's server, which upgrades on every path; the query does not touch scheme and host.
\<close>

definition sarvam_dial :: "fake_world \<Rightarrow> SarvamRecognizer \<Rightarrow> go_error option" where
  "sarvam_dial w r =
     (let u = parse_url (sv_baseURL r); scheme = map lower_char (wu_scheme u)
      in if scheme \<noteq> ''ws'' \<and> scheme \<noteq> ''wss'' then Some (ErrNew ''malformed ws or wss URL'')
         else if wu_host u \<noteq> fw_sarvam w then Some (ErrNew ''connection refused'')
         else if scheme = ''wss'' then Some (ErrNew ''tls: first record does not look like a TLS handshake'')
         else None)"

definition cartesia_network :: "fake_world \<Rightarrow> CartesiaSynthesizer \<Rightarrow> cartesia_env" where
  "cartesia_network w c =
     \<lparr>cv_rand = Ok (fw_rand w),
      cv_dial = \<lparr>de_parse = (\<lambda>u. Ok (parse_url u)),
        de_dial = (\<lambda>host. if host = fw_cartesia w then Ok () else Err (ErrNew ''connection refused'')),
        de_tls = Ok (), de_key = Ok (fw_key w), de_write = (\<lambda>req. Ok ()),
        de_response = Ok (if takeWhile (\<lambda>c. c \<noteq> CHR ''?'') (wu_requestURI (parse_url (cartesia_wsURL c))) = ''/tts/websocket''
                          then \<lparr>wr_Status = 101, wr_Upgrade = ''websocket'', wr_Accept = fw_accept w (fw_key w)\<rparr>
                          else \<lparr>wr_Status = 404, wr_Upgrade = [], wr_Accept = []\<rparr>),
        de_acceptKey = fw_accept w\<rparr>,
      cv_encode = (\<lambda>r. Ok (string_bytes (json_print (cartesia_request_json r)))), cv_write = (\<lambda>p. Ok ())\<rparr>"

definition cartesia_calls :: "fake_world \<Rightarrow> CartesiaSynthesizer \<Rightarrow> cartesia_env synth_env" where
  "cartesia_calls w c =
     \<lparr>se_allowAt = fw_at w, se_settleAt = fw_at w, se_rnd = (\<lambda>i n. 0), se_cancelled = (\<lambda>i. False), se_done = (\<lambda>i. False),
      se_vendor = (\<lambda>i. cartesia_network w c)\<rparr>"

definition vendor_translate ::
  "fake_world \<Rightarrow> vendor_clients \<Rightarrow> string \<Rightarrow> language \<Rightarrow> language \<Rightarrow> bool \<Rightarrow> translation call_trace" where
  "vendor_translate w cl txt src dst isFinal =
     gpt4o_Translate gpt4o_parse gpt4o_errorShape (vc_mt cl) (gpt4o_network w) txt src dst isFinal"

definition vendor_synthesize :: "fake_world \<Rightarrow> vendor_clients \<Rightarrow> string \<Rightarrow> Persona \<Rightarrow> string call_trace" where
  "vendor_synthesize w cl txt p = cartesia_SynthesizeStream (vc_tts cl) (cartesia_calls w (vc_tts cl)) txt p"

text \<open>The frames the server writes on the request with this context, and the chunks the client reads.\<close>

definition vendor_audio :: "vendor_clients \<Rightarrow> string \<Rightarrow> Persona \<Rightarrow> string \<Rightarrow> AudioChunk list" where
  "vendor_audio cl txt p cid =
     cartesia_readLoop cartesia_parse base64_decode (\<lambda>f. True) (\<lambda>i. False) (\<lambda>i. True) (ca_sampleRate (vc_tts cl)) cid 0
       (text_frames (map string_bytes (fake_cartesia (json_print (cartesia_request_json (cartesia_request (vc_tts cl) txt p cid))))))"

subsection \<open>What each vendor's call does\<close>

definition idle :: "circuitBreaker \<Rightarrow> bool" where
  "idle b \<longleftrightarrow> \<not> cb_open b \<and> consecutiveFails b = 0 \<and> \<not> probeInFlight b"

lemma idle_new [simp]: "idle (newCircuitBreaker th cd)" by (simp add: idle_def newCircuitBreaker_def)

lemma idle_stays [simp]: "idle b \<Longrightarrow> cb_allow b t = (True, b)" "idle b \<Longrightarrow> cb_recordSuccess b = b" "idle b \<Longrightarrow> cb_abort b = b"
  by (simp_all add: idle_def cb_allow_def cb_recordSuccess_def cb_abort_def)

text \<open>A call whose first attempt succeeds, on an idle breaker.\<close>

lemma first_attempt:
  assumes "idle b" "le_once e 0 = OnceOk x" "0 < rp_attempts (gc_policy c)"
  shows "ct_result (guarded_call c t t' e b) = Ok x" "ct_breaker (guarded_call c t t' e b) = b"
proof -
  have "retry_loop (gc_policy c) e 0 = (VOk x, [], 1)" using assms(2,3) by (subst retry_loop.simps) simp
  from guarded_call_admitted [OF _ this, of b t t'] assms(1)
  show "ct_result (guarded_call c t t' e b) = Ok x" "ct_breaker (guarded_call c t t' e b) = b"
    by (simp_all add: verdict_result_def settle_breaker_def)
qed

lemma sarvam_hears:
  "sarvam_message sarvam_parse lang (string_bytes (json_print fake_sarvam_json)) =
     MsgTranscript (\<lambda>ms. \<lparr>tr_Text = hindiUtterance, tr_Language = lang, tr_IsFinal = True, tr_Confidence = 1, tr_StartMS = ms, tr_EndMS = ms + 500\<rparr>)"
proof -
  have ok: "json_ok fake_sarvam_json" using literal_eval by (simp add: fake_sarvam_json_def)
  have half: "float_value ''0.5'' = 1 / 2" by (rule decode_examples)
  have ne: "hindiUtterance \<noteq> []" by (simp add: hindiUtterance_def utf8_def)
  have "sarvam_parse (string_bytes (json_print fake_sarvam_json)) =
      Some \<lparr>srm_Type = ''data'', srm_Transcript = hindiUtterance, srm_AudioDurationSec = 1 / 2, srm_Error = [], srm_Message = []\<rparr>"
    by (simp add: sarvam_parse_def unmarshal_ok_print [OF ok])
      (simp add: fake_sarvam_json_def sarvam_response_dec_def zero_srm_def decode dec_member_unknown half)
  then show ?thesis using ne by (simp add: sarvam_message_def go_int64_def)
qed


lemma payload_eval:
  "json_print (chat_chunk_json englishTranslation) =
     ''{'' @ [quote] @ ''choices'' @ [quote] @ '':[{'' @ [quote] @ ''delta'' @ [quote] @ '':{'' @ [quote] @ ''content'' @ [quote] @ '':''
       @ [quote] @ ''I need help'' @ [quote] @ ''}}]}''"
  by (simp add: chat_chunk_json_def englishTranslation_def json_string_def json_char_def short_escapes_def quote_def backslash_def)

lemma payload_fits: "sse_data_ok (json_print (chat_chunk_json englishTranslation))"
  unfolding payload_eval by (simp add: sse_data_ok_def trim_char_def newline_def maxSSELineSize_def quote_def)

lemma gpt4o_streams:
  "gpt4o_readStream gpt4o_parse (\<lambda>k. False) (hr_Body (fake_gpt4o ''/chat/completions'')) None = OnceOk (englishTranslation, None)"
proof -
  let ?c = "\<lparr>Choices = [\<lparr>DeltaContent = englishTranslation, FinishReason = None\<rparr>], Usage = None\<rparr>"
  let ?r = "\<lambda>c :: chatCompletionChunk. json_print (chat_chunk_json englishTranslation)"
  have ok: "list_all (sse_ok ?r gpt4o_parse) [SseData ?c, SseBlank]" by (simp add: gpt4o_parse_chunk payload_fits)
  have body: "hr_Body (fake_gpt4o ''/chat/completions'') = sse_body ?r [SseData ?c, SseBlank] @ ''data: [DONE]'' @ newline # [newline]"
    by (simp add: fake_gpt4o_def sse_body_def)
  show ?thesis unfolding body readStream_sse [OF ok] done_line
    by (simp only: Let_def prod.case done_answer) (simp add: chunk_text_def last_usage_def)
qed

definition hosts_ok :: "fake_world \<Rightarrow> bool" where
  "hosts_ok w \<longleftrightarrow> (\<forall>h \<in> {fw_sarvam w, fw_gpt4o w, fw_cartesia w}. CHR ''/'' \<notin> set h \<and> CHR '':'' \<in> set h)"

lemma trim_right_id: "s \<noteq> [] \<Longrightarrow> last s \<noteq> c \<Longrightarrow> trim_right c s = s"
  by (cases s rule: rev_cases) (simp_all add: trim_right_def)

text \<open>The clients that \<open>main\<close> builds on the servers' addresses.\<close>

definition wired :: "fake_world \<Rightarrow> vendor_clients \<Rightarrow> bool" where
  "wired w cl \<longleftrightarrow>
     idle (sv_breaker (vc_asr cl)) \<and> 0 < sv_maxReconnectAttempts (vc_asr cl)
     \<and> sv_baseURL (vc_asr cl) = ''ws://'' @ fw_sarvam w @ ''/speech-to-text/ws''
     \<and> idle (ht_breaker (vc_mt cl)) \<and> ht_baseURL (vc_mt cl) = server_url (fw_gpt4o w) \<and> ht_pairs (vc_mt cl) = default_pairs
     \<and> idle (ca_breaker (vc_tts cl)) \<and> ca_baseURL (vc_tts cl) = ''ws://'' @ fw_cartesia w"

lemma clients_wired:
  assumes "hosts_ok w"
  shows "\<exists>cl. fake_clients (setFakeVendorAPIKeys env) (startFakeVendorServers w) = Ok cl \<and> wired w cl"
proof -
  have "trim_right (CHR ''/'') (server_url (fw_gpt4o w)) = server_url (fw_gpt4o w)"
    using assms by (intro trim_right_id) (auto simp: hosts_ok_def server_url_def dest: last_in_set)
  moreover have "CutPrefix (server_url h) ''http'' = Some (''://'' @ h)" for h
    by (simp add: server_url_def CutPrefix_def has_prefix_def)
  ultimately show ?thesis
    by (simp add: fake_clients_def setFakeVendorAPIKeys_def startFakeVendorServers_def fake_api_key_def NewSarvamRecognizer_def
        NewGPT4oTranslator_def NewCartesiaSynthesizer_def wired_def TrimPrefix_def)
qed

lemma gpt4o_answers:
  assumes "wired w cl" "(src, dst) \<in> set default_pairs"
  shows "ct_result (vendor_translate w cl txt src dst isFinal) =
      Ok (\<lparr>mt_Text = englishTranslation, mt_SourceLang = src, mt_TargetLang = dst, mt_IsFinal = isFinal\<rparr>, None)"
    and "ct_breaker (vendor_translate w cl txt src dst isFinal) = ht_breaker (vc_mt cl)"
proof -
  let ?g = "vc_mt cl"
  have url: "rq_URL (gpt4o_request ?g txt src dst) = server_url (fw_gpt4o w) @ ''/chat/completions''"
    using assms(1) by (simp add: gpt4o_request_def wired_def)
  have once: "gpt4o_translateOnce gpt4o_parse gpt4o_errorShape ?g txt src dst (te_http (gpt4o_network w) i) = OnceOk (englishTranslation, None)" for i
    using gpt4o_streams by (simp add: gpt4o_translateOnce_def http_once_def gpt4o_network_def url fake_gpt4o_def)
  let ?c = "translate_client ''gpt-4o'' ''translate/gpt4o'' gpt4oInputCostPerTokenUSD gpt4oOutputCostPerTokenUSD ?g txt"
  let ?e = "translate_loop (gpt4o_translateOnce gpt4o_parse gpt4o_errorShape ?g txt src dst) src dst isFinal (gpt4o_network w)"
  have loop: "le_once ?e 0 = OnceOk (\<lparr>mt_Text = englishTranslation, mt_SourceLang = src, mt_TargetLang = dst, mt_IsFinal = isFinal\<rparr>, None)"
    by (simp add: translate_loop_def once)
  have idle: "idle (ht_breaker ?g)" and att: "0 < rp_attempts (gc_policy ?c)"
    using assms(1) by (simp_all add: wired_def translate_client_def vendor_policy_def)
  have sup: "mt_supports (ht_pairs ?g) src dst"
    using assms by (auto simp: wired_def default_pairs_def mt_supports_def)
  have t: "vendor_translate w cl txt src dst isFinal = guarded_call ?c (fw_at w) (fw_at w) ?e (ht_breaker ?g)"
    using sup by (simp add: vendor_translate_def gpt4o_Translate_def) (simp add: gpt4o_network_def)
  show "ct_result (vendor_translate w cl txt src dst isFinal) =
      Ok (\<lparr>mt_Text = englishTranslation, mt_SourceLang = src, mt_TargetLang = dst, mt_IsFinal = isFinal\<rparr>, None)"
    "ct_breaker (vendor_translate w cl txt src dst isFinal) = ht_breaker ?g"
    unfolding t using first_attempt [OF idle loop att] by simp_all
qed

lemma context_id_short: "newCartesiaContextID rnd = Ok cid \<Longrightarrow> length cid \<le> 1000"
proof -
  have hex: "length (hex_bytes bs) = 2 * length bs" for bs by (induction bs) (simp_all add: hex_bytes_def)
  show "newCartesiaContextID rnd = Ok cid \<Longrightarrow> length cid \<le> 1000"
    by (cases rnd) (auto simp: newCartesiaContextID_def hex Let_def)
qed

lemma parse_ws_url:
  assumes "CHR ''/'' \<notin> set h"
  shows "parse_url (''ws://'' @ h @ CHR ''/'' # r) =
    \<lparr>wu_scheme = ''ws'', wu_host = h, wu_hasPort = CHR '':'' \<in> set h, wu_requestURI = CHR ''/'' # r\<rparr>"
proof -
  have "takeWhile (\<lambda>c. c \<noteq> CHR ''/'') (h @ CHR ''/'' # r) = h" using assms by (subst takeWhile_append2) auto
  then show ?thesis by (simp add: parse_url_def Let_def del: drop_drop)
qed

lemma sarvam_reached:
  assumes "wired w cl" "hosts_ok w"
  shows "sarvam_dial w (vc_asr cl) = None"
  using assms parse_ws_url [of "fw_sarvam w" "''speech-to-text/ws''"]
  by (simp add: sarvam_dial_def wired_def hosts_ok_def lower_char_def)

lemma cartesia_connects:
  assumes "wired w cl" "hosts_ok w" "txt \<noteq> []" "tts_supports (persona_lang p)"
  shows "\<exists>cid. ct_result (vendor_synthesize w cl txt p) = Ok cid \<and> length cid \<le> 1000"
    and "ct_breaker (vendor_synthesize w cl txt p) = ca_breaker (vc_tts cl)"
proof -
  let ?c = "vc_tts cl" and ?h = "fw_cartesia w"
  obtain cid where cid: "newCartesiaContextID (cv_rand (cartesia_network w ?c)) = Ok cid"
    by (simp add: cartesia_network_def newCartesiaContextID_def Let_def)
  have h: "CHR ''/'' \<notin> set ?h" "CHR '':'' \<in> set ?h" using assms(2) by (simp_all add: hosts_ok_def)
  have base: "trim_right (CHR ''/'') (''ws://'' @ ?h) = ''ws://'' @ ?h"
    using h by (intro trim_right_id) (auto dest: last_in_set)
  let ?r = "''tts/websocket?cartesia_version='' @ ca_apiVersion ?c"
  have url: "cartesia_wsURL ?c = ''ws://'' @ ?h @ CHR ''/'' # ?r"
    using assms(1) base by (simp add: cartesia_wsURL_def wired_def)
  have "parse_url (''ws://'' @ ?h @ CHR ''/'' # r) = \<lparr>wu_scheme = ''ws'', wu_host = ?h, wu_hasPort = True, wu_requestURI = CHR ''/'' # r\<rparr>" for r
    using h(2) parse_ws_url [OF h(1), of r] by simp
  then have parts: "parse_url (cartesia_wsURL ?c) = \<lparr>wu_scheme = ''ws'', wu_host = ?h, wu_hasPort = True, wu_requestURI = CHR ''/'' # ?r\<rparr>"
    unfolding url by blast
  have conn: "fst (connectAndSend (cartesia_network w ?c) (cartesia_wsURL ?c) (cartesia_header ?c) req) = Inr ()" for req
    using parts by (simp add: connectAndSend_def dialWS_def cartesia_network_def Let_def lower_char_def)
  let ?e = "\<lparr>le_rnd = se_rnd (cartesia_calls w ?c), le_cancelled = se_cancelled (cartesia_calls w ?c),
     le_once = (\<lambda>i. cartesia_once ?c txt p (se_vendor (cartesia_calls w ?c) i)), le_done = se_done (cartesia_calls w ?c)\<rparr>"
  let ?g = "synth_client ''cartesia'' (ca_metrics ?c) cartesiaCostPerCharUSD txt []"
  have once: "le_once ?e 0 = OnceOk cid" by (simp add: cartesia_calls_def cartesia_once_def cid conn)
  have idle: "idle (ca_breaker ?c)" and att: "0 < rp_attempts (gc_policy ?g)"
    using assms(1) by (simp_all add: wired_def synth_client_def vendor_policy_def)
  have t: "vendor_synthesize w cl txt p = guarded_call ?g (fw_at w) (fw_at w) ?e (ca_breaker ?c)"
    using assms(3,4) by (simp add: vendor_synthesize_def cartesia_SynthesizeStream_def) (simp add: cartesia_calls_def)
  show "\<exists>cid. ct_result (vendor_synthesize w cl txt p) = Ok cid \<and> length cid \<le> 1000"
    "ct_breaker (vendor_synthesize w cl txt p) = ca_breaker ?c"
    unfolding t using first_attempt [OF idle once att] context_id_short [OF cid] by simp_all
qed


lemma number_literal_nat: "number_literal (show_nat n)" "\<exists>c r. show_nat n = c # r \<and> c \<noteq> CHR ''-''"
proof -
  have d: "c \<in> digits \<Longrightarrow> is_digit c" for c by (auto simp: digits_def is_digit_def of_char_of)
  note s = show_nat_digits [of n]
  obtain c r where c: "show_nat n = c # r" using s by (cases "show_nat n") auto
  have all: "takeWhile is_digit (show_nat n) = show_nat n" "dropWhile is_digit (show_nat n) = []"
    using s d by (auto simp: takeWhile_eq_all_conv dropWhile_eq_Nil_conv)
  have m: "c \<noteq> CHR ''-''" using s c digits_not [of c] by auto
  show "number_literal (show_nat n)"
  proof (cases "n = 0")
    case True
    then have "show_nat n = ''0''" using digit_char(6) [of 0] by (subst show_nat.simps) simp
    then show ?thesis by (simp add: number_literal_def read_number_def num_sign_def num_int_def num_frac_def num_exp_def)
  next
    case False
    then have "c \<noteq> CHR ''0''" using s c by simp
    then show ?thesis using all m c
      by (simp add: number_literal_def read_number_def num_sign_def num_int_def num_frac_def num_exp_def some_digits_def)
  qed
  show "\<exists>c r. show_nat n = c # r \<and> c \<noteq> CHR ''-''" using c m by blast
qed

lemma number_literal_int: "number_literal (show_int i)"
proof -
  have "number_literal (CHR ''-'' # show_nat n)" for n
  proof -
    obtain c r where c: "show_nat n = c # r" "c \<noteq> CHR ''-''" using number_literal_nat(2) by blast
    have "stages [num_int, num_frac, num_exp] (show_nat n) = Some (show_nat n, [])"
      using number_literal_nat(1) [of n] c by (auto simp: number_literal_def read_number_def num_sign_def)
    then show ?thesis by (simp add: number_literal_def read_number_def num_sign_def)
  qed
  then show ?thesis using number_literal_nat(1) by (simp add: show_int_def)
qed

lemma request_ok: "json_ok (cartesia_request_json r)"
  by (simp add: cartesia_request_json_def number_literal_int)

lemma context_read: "fst (unmarshal (dec_struct [(''context_id'', dec_string)]) [] (json_print (cartesia_request_json r))) = cr_ContextID r"
  by (simp add: unmarshal_print [OF request_ok]) (simp add: cartesia_request_json_def decode dec_member_unknown)

lemma json_char_length: "length (json_char c) \<le> 6"
  by (simp add: json_char_def Let_def split: option.split)

lemma json_escape_length: "length (json_escape s) \<le> 6 * length s"
proof (induction s rule: json_escape.induct)
  case (2 c s)
  show ?case
  proof (cases "c = CHR 0xE2 \<and> (take 2 s = [CHR 0x80, CHR 0xA8] \<or> take 2 s = [CHR 0x80, CHR 0xA9])")
    case True
    then have "2 \<le> length s" by (cases s; cases "tl s") auto
    then show ?thesis using 2(1) [OF True] True by simp
  next
    case False
    then have "json_escape (c # s) = json_char c @ json_escape s" by (simp only: json_escape.simps(2) if_False)
    then show ?thesis using 2(2) [OF False] json_char_length [of c] by simp
  qed
qed simp

lemma b64_length: "length (b64_groups ns) \<le> 4 * length ns"
  by (induction ns rule: b64_groups.induct) simp_all

lemma chunk_small:
  assumes "length cid \<le> 1000" "length pcm \<le> 1000"
  shows "small (string_bytes (json_print (cartesia_chunk_json cid pcm d)))"
proof -
  have lit: "length (json_string s) \<le> 6 * length s + 2" for s using json_escape_length [of s] by (simp add: json_string_def)
  have "length (base64_encode pcm) \<le> 4000" using b64_length [of "map unat pcm"] assms(2) by (simp add: base64_encode_def)
  then have "length (json_print (cartesia_chunk_json cid pcm d)) \<le> 100000"
    using lit [of cid] lit [of "base64_encode pcm"] lit [of "''context_id''"] lit [of "''data''"] lit [of "''done''"] lit [of "''type''"]
      lit [of "''chunk''"] assms(1) by (simp add: cartesia_chunk_json_def)
  then show ?thesis by (simp add: small_def maxWSFramePayload_def string_bytes_def)
qed

text \<open>The client plays exactly what the server's two chunks carry, and sees the end.\<close>

lemma cartesia_plays:
  assumes "length cid \<le> 1000"
  shows "vendor_audio cl txt p cid =
     [\<lparr>ac_PCM = [1, 2, 3, 4], ac_SampleRate = ca_sampleRate (vc_tts cl), ac_IsFinal = False\<rparr>,
      \<lparr>ac_PCM = [5, 6, 7, 8, 9, 10], ac_SampleRate = ca_sampleRate (vc_tts cl), ac_IsFinal = True\<rparr>]"
proof -
  let ?d0 = "string_bytes (json_print (cartesia_chunk_json cid [1, 2, 3, 4] False))"
  let ?d1 = "string_bytes (json_print (cartesia_chunk_json cid [5, 6, 7, 8, 9, 10] True))"
  have c: "cr_ContextID (cartesia_request (vc_tts cl) txt p cid) = cid" by (simp add: cartesia_request_def)
  have frames: "text_frames (map string_bytes (fake_cartesia (json_print (cartesia_request_json (cartesia_request (vc_tts cl) txt p cid)))))
      = text_frames [?d0] @ frame_bytes True wsOpText None ?d1 @ []"
    by (simp add: fake_cartesia_def context_read c cartesiaPCM_def text_frames_def Let_def upt_rec)
  have go: "list_all (continues cartesia_parse base64_decode cid) [?d0]" "plays cartesia_parse base64_decode cid ?d0 = [[1, 2, 3, 4]]"
    using assms by (simp_all add: continues_def plays_def chunk_small cartesia_parse_chunk base64_roundtrip)
  have last: "small ?d1" using assms by (simp add: chunk_small)
  have "cartesia_readLoop cartesia_parse base64_decode (\<lambda>f. True) (\<lambda>i. False) (\<lambda>i. True) rate cid 1 (frame_bytes True wsOpText None ?d1 @ [])
      = [\<lparr>ac_PCM = [5, 6, 7, 8, 9, 10], ac_SampleRate = rate, ac_IsFinal = True\<rparr>]" for rate
    by (rule cartesia_last(2) [where parse = cartesia_parse, OF last cartesia_parse_chunk [of cid "[5, 6, 7, 8, 9, 10]" True]]) (simp_all add: base64_roundtrip)
  then show ?thesis unfolding vendor_audio_def frames cartesia_continues [OF go(1)] using go(2) by simp
qed


subsection \<open>A session on the three clients\<close>

record vendor_session =
  vs_clients :: vendor_clients
  vs_callerCfg :: leg_cfg
  vs_agentCfg :: leg_cfg
  vs_callerLeg :: leg_sys
  vs_agentLeg :: leg_sys
  vs_callerASR :: asr_session
  vs_agentASR :: asr_session
  vs_closed :: bool

definition vendor_leg_cfg :: "'st session_parts \<Rightarrow> language \<Rightarrow> language \<Rightarrow> leg_cfg" where
  "vendor_leg_cfg parts src dst =
     (session_leg_cfg parts src dst)\<lparr>lg_ASRName := ''sarvam'', lg_MTName := ''gpt-4o'', lg_TTSName := ''cartesia''\<rparr>"

definition with_asr_breaker :: "circuitBreaker \<Rightarrow> vendor_clients \<Rightarrow> vendor_clients" where
  "with_asr_breaker b cl = cl\<lparr>vc_asr := (vc_asr cl)\<lparr>sv_breaker := b\<rparr>\<rparr>"

definition new_vendor_session ::
  "fake_world \<Rightarrow> vendor_clients \<Rightarrow> language \<Rightarrow> language \<Rightarrow> vendor_session result \<times> vendor_clients" where
  "new_vendor_session w cl callerLang agentLang =
     (let (res, b) = open_session (sarvam_gate (vc_asr cl)) (sv_breaker (vc_asr cl)) (session_config () callerLang agentLang, fw_at w, fw_at w);
          cl1 = with_asr_breaker b cl
      in (map_sum id (\<lambda>parts. \<lparr>vs_clients = cl1, vs_callerCfg = vendor_leg_cfg parts callerLang agentLang,
              vs_agentCfg = vendor_leg_cfg parts agentLang callerLang, vs_callerLeg = new_leg ''caller'', vs_agentLeg = new_leg ''agent'',
              vs_callerASR = new_session, vs_agentASR = new_session, vs_closed = False\<rparr>) res, cl1))"

text \<open>What a leg sees of the clients, and the clients after one transcript of a leg.\<close>

definition vendor_env :: "fake_world \<Rightarrow> vendor_clients \<Rightarrow> utt_env" where
  "vendor_env w cl =
     \<lparr>ue_translate = (\<lambda>txt src dst isFinal. map_sum id fst (ct_result (vendor_translate w cl txt src dst isFinal))),
      ue_synth = (\<lambda>txt p. map_sum id (\<lambda>cid. Delivers (vendor_audio cl txt p cid)) (ct_result (vendor_synthesize w cl txt p))),
      ue_budget = None, ue_at = fw_at w, ue_mt_start = fw_at w, ue_mt_end = fw_at w, ue_tts_start = fw_at w,
      ue_first_chunk = fw_at w, ue_done = fw_at w\<rparr>"

definition clients_after :: "fake_world \<Rightarrow> leg_cfg \<Rightarrow> leg_sys \<Rightarrow> Transcript \<Rightarrow> vendor_clients \<Rightarrow> vendor_clients" where
  "clients_after w c s tr cl =
     (if ls_phase s = LegRunning \<and> tr_IsFinal tr \<and> mt_asked c tr (ls_leg s) then
        let r = vendor_translate w cl (tr_Text tr) (lg_srcLang c) (lg_dstLang c) True;
            cl1 = cl\<lparr>vc_mt := (vc_mt cl)\<lparr>ht_breaker := ct_breaker r\<rparr>\<rparr>
        in case ct_result r of
             Inl e \<Rightarrow> cl1
           | Inr (chunk, u) \<Rightarrow>
               if mt_Text chunk = [] then cl1
               else cl1\<lparr>vc_tts := (vc_tts cl1)\<lparr>ca_breaker :=
                  ct_breaker (vendor_synthesize w cl1 (mt_Text chunk) (persona_Get (lg_personas c) (lg_dstLang c)))\<rparr>\<rparr>
      else cl)"

definition vendor_hear :: "fake_world \<Rightarrow> leg_cfg \<Rightarrow> vendor_clients \<times> leg_sys \<Rightarrow> Transcript list \<Rightarrow> vendor_clients \<times> leg_sys" where
  "vendor_hear w c x trs =
     foldl (\<lambda>(cl, s) tr. (clients_after w c s tr cl, leg_step c s (FinalOrPartial tr (vendor_env w cl)))) x trs"

text \<open>
  A push with what follows it. If the session has no connection it dials the recognizer's address;
  if that fails the session is torn down and the push returns the error. Otherwise it writes the audio
  message, and the reader of that connection hands on what the server answers.
\<close>

definition served_events :: "fake_world \<Rightarrow> SarvamRecognizer \<Rightarrow> asr_session \<Rightarrow> language \<Rightarrow> AudioFrame \<Rightarrow> asr_event list" where
  "served_events w r s lang frame =
     (let k = (if as_conn s = None then length (as_workers s) else length (as_workers s) - 1);
          message = write_json (sarvam_audio_json (sarvam_audio base64_encode frame));
          answered = EvWrite None # concat (map (\<lambda>reply. [EvRead k (sarvam_message sarvam_parse lang (string_bytes reply)), EvHandle k, EvSend k])
                (fake_sarvam [message]))
      in [EvPush (sarvam_frameMS frame) False, EvCheck]
         @ (if as_closed s then []
            else if as_conn s \<noteq> None then answered
            else case sarvam_dial w r of
                   None \<Rightarrow> [EvEnsure, EvDial None, EvAttach, EvSpawn] @ answered
                 | Some e \<Rightarrow> [EvEnsure, EvDial (Some e), EvFail] @ replicate 3 EvTeardown @ [EvFailReturn] @ replicate 3 EvTeardown))"

definition closing_events :: "asr_session \<Rightarrow> asr_event list" where
  "closing_events s =
     (if as_closed s then []
      else EvClose # replicate 3 EvTeardown @ map (\<lambda>r. EvReadError 0) (as_workers s) @ replicate 3 EvTeardown)"

text \<open>A run of a stream of the recognizer: the session and the verdicts and transcripts it adds.\<close>

definition run_asr :: "vendor_clients \<Rightarrow> asr_session \<Rightarrow> asr_event list \<Rightarrow> asr_session" where
  "run_asr cl s evs = (case asr_run (sv_maxReconnectAttempts (vc_asr cl)) False s evs of Some s' \<Rightarrow> s' | None \<Rightarrow> s)"

definition settle_asr :: "fake_world \<Rightarrow> asr_session \<Rightarrow> asr_session \<Rightarrow> vendor_clients \<Rightarrow> vendor_clients" where
  "settle_asr w s s' cl =
     with_asr_breaker (foldl (apply_mark (fw_at w)) (sv_breaker (vc_asr cl)) (drop (length (as_marks s)) (as_marks s'))) cl"

definition vendor_push ::
  "fake_world \<Rightarrow> leg_cfg \<Rightarrow> AudioFrame \<Rightarrow> vendor_clients \<times> leg_sys \<times> asr_session
     \<Rightarrow> unit result \<times> vendor_clients \<times> leg_sys \<times> asr_session" where
  "vendor_push w c frame x =
     (let (cl, s, asr) = x;
          leg = leg_step c s (PushAudio (af_PCM frame) (af_SampleRate frame) (fw_at w));
          asr' = run_asr cl asr (served_events w (vc_asr cl) asr (lg_srcLang c) frame);
          (cl', leg') = vendor_hear w c (settle_asr w asr asr' cl, leg) (drop (length (as_out asr)) (as_out asr'))
      in (case last (as_results asr') of None \<Rightarrow> Ok () | Some e \<Rightarrow> Err e, cl', leg', asr'))"

definition vendor_pushCaller :: "fake_world \<Rightarrow> vendor_session \<Rightarrow> AudioFrame \<Rightarrow> unit result \<times> vendor_session" where
  "vendor_pushCaller w v frame =
     (let (r, cl, leg, asr) = vendor_push w (vs_callerCfg v) frame (vs_clients v, vs_callerLeg v, vs_callerASR v)
      in (r, v\<lparr>vs_clients := cl, vs_callerLeg := leg, vs_callerASR := asr\<rparr>))"

definition vendor_close_leg ::
  "fake_world \<Rightarrow> leg_cfg \<Rightarrow> vendor_clients \<times> leg_sys \<times> asr_session \<Rightarrow> vendor_clients \<times> leg_sys \<times> asr_session" where
  "vendor_close_leg w c x =
     (let (cl, s, asr) = x; asr' = run_asr cl asr (closing_events asr)
      in (settle_asr w asr asr' cl, leg_step c s (TranscriptsClosed True None (fw_at w)), asr'))"

definition vendor_Close :: "fake_world \<Rightarrow> vendor_session \<Rightarrow> vendor_session" where
  "vendor_Close w v =
     (if vs_closed v then v
      else let (cl, cleg, casr) = vendor_close_leg w (vs_callerCfg v) (vs_clients v, vs_callerLeg v, vs_callerASR v);
               (cl', aleg, aasr) = vendor_close_leg w (vs_agentCfg v) (cl, vs_agentLeg v, vs_agentASR v)
           in v\<lparr>vs_clients := cl', vs_callerLeg := cleg, vs_callerASR := casr, vs_agentLeg := aleg, vs_agentASR := aasr, vs_closed := True\<rparr>)"

definition vendor_AgentHears :: "vendor_session \<Rightarrow> AudioChunk list \<times> bool" where
  "vendor_AgentHears v = (ls_out (vs_callerLeg v), vs_closed v)"

subsection \<open>What the agent hears\<close>

definition fake_speech :: "vendor_clients \<Rightarrow> AudioChunk list" where
  "fake_speech cl =
     [\<lparr>ac_PCM = [1, 2, 3, 4], ac_SampleRate = ca_sampleRate (vc_tts cl), ac_IsFinal = False\<rparr>,
      \<lparr>ac_PCM = [5, 6, 7, 8, 9, 10], ac_SampleRate = ca_sampleRate (vc_tts cl), ac_IsFinal = True\<rparr>]"

lemma vendor_speaks:
  assumes "wired w cl" "hosts_ok w" "txt \<noteq> []" "tts_supports (persona_lang p)"
  shows "ue_synth (vendor_env w cl) txt p = Ok (Delivers (fake_speech cl))"
proof -
  obtain cid where r: "ct_result (vendor_synthesize w cl txt p) = Ok cid" "length cid \<le> 1000"
    using cartesia_connects(1) [OF assms] by blast
  then show ?thesis by (simp add: vendor_env_def cartesia_plays fake_speech_def)
qed

text \<open>A leg that can still speak in a language pair the fake servers know.\<close>

definition speaking_leg :: "leg_cfg \<Rightarrow> leg_sys \<Rightarrow> bool" where
  "speaking_leg c s \<longleftrightarrow> ls_phase s = LegRunning \<and> \<not> degraded (ls_leg s) \<and> (lg_srcLang c, lg_dstLang c) \<in> set default_pairs
     \<and> tts_supports (persona_lang (persona_Get (lg_personas c) (lg_dstLang c))) \<and> ConfidenceThreshold (lg_fallback c) \<le> 1"

definition sure_final :: "Transcript \<Rightarrow> bool" where
  "sure_final tr \<longleftrightarrow> tr_IsFinal tr \<and> tr_Confidence tr = 1"

lemma english_ne: "englishTranslation \<noteq> []" by (simp add: englishTranslation_def)

lemma vendor_heard:
  assumes "wired w cl" "hosts_ok w" "speaking_leg c s" "sure_final tr"
  shows "heard c (vendor_env w cl) tr (ls_leg s) = fake_speech cl"
proof -
  have "ue_translate (vendor_env w cl) (tr_Text tr) (lg_srcLang c) (lg_dstLang c) True =
      Ok \<lparr>mt_Text = englishTranslation, mt_SourceLang = lg_srcLang c, mt_TargetLang = lg_dstLang c, mt_IsFinal = True\<rparr>"
    using assms(3) gpt4o_answers(1) [OF assms(1)] by (simp add: vendor_env_def speaking_leg_def)
  then show ?thesis using assms(3,4) vendor_speaks [OF assms(1,2) english_ne]
    by (simp add: heard_def speaking_leg_def sure_final_def low_confidence_def Let_def up_to_first_final_def english_ne)
      (simp add: fake_speech_def)
qed

lemma leg_hears:
  "ue_budget e = None \<Longrightarrow> tr_IsFinal tr \<Longrightarrow> ls_phase s = LegRunning \<Longrightarrow>
     ls_out (leg_step c s (FinalOrPartial tr e)) = ls_out s @ heard c e tr (ls_leg s)"
  using handle_final_None [of e c tr s] by (simp add: split_beta)

lemma clients_after_same:
  assumes "wired w cl" "hosts_ok w" "speaking_leg c s"
  shows "clients_after w c s tr cl = cl"
proof -
  have p: "(lg_srcLang c, lg_dstLang c) \<in> set default_pairs" "tts_supports (persona_lang (persona_Get (lg_personas c) (lg_dstLang c)))"
    using assms(3) by (simp_all add: speaking_leg_def)
  note mt = gpt4o_answers [OF assms(1) p(1)] and tts = cartesia_connects(2) [OF assms(1,2) english_ne p(2)]
  show ?thesis by (simp add: clients_after_def mt tts Let_def)
qed

subsection \<open>One session\<close>

definition fake_transcript :: "language \<Rightarrow> AudioFrame \<Rightarrow> Transcript" where
  "fake_transcript lang frame =
     \<lparr>tr_Text = hindiUtterance, tr_Language = lang, tr_IsFinal = True, tr_Confidence = 1, tr_StartMS = sarvam_frameMS frame,
      tr_EndMS = sarvam_frameMS frame + 500\<rparr>"

text \<open>The stream after the first push, and after it is closed.\<close>

definition served_stream :: "language \<Rightarrow> AudioFrame \<Rightarrow> asr_session" where
  "served_stream lang frame =
     new_session\<lparr>as_conn := Some 1, as_gen := 1, as_totalMS := sarvam_frameMS frame, as_connectedOnce := True, as_settled := True,
       as_marks := [MarkSuccess], as_open := [1], as_dials := 1, as_workers := [Reader 1 1 ReaderRead],
       as_out := [fake_transcript lang frame], as_frameMS := sarvam_frameMS frame, as_results := [None]\<rparr>"

lemma serve_first:
  assumes "0 < m" "sarvam_dial w r = None"
  shows "asr_run m False new_session (served_events w r new_session lang frame) = Some (served_stream lang frame)"
  using assms
  by (simp add: served_events_def fake_sarvam_def sarvam_hears served_stream_def fake_transcript_def asr_eval)

text \<open>An address that does not lead to the server fails the push and closes the stream.\<close>

lemma serve_unreachable:
  assumes "0 < m" "sarvam_dial w r = Some e"
  shows "\<exists>s. asr_run m False new_session (served_events w r new_session lang frame) = Some s
    \<and> as_results s = [Some (ErrWrap ''asr: connect: '' e)] \<and> as_closed s \<and> as_out s = [] \<and> as_teardown s = TdFinished"
  using assms by (auto simp: served_events_def asr_eval numeral_3_eq_3)

text \<open>A stream that has connected once and has nothing outstanding, and what closing it marks.\<close>

definition linked_stream :: "asr_session \<Rightarrow> bool" where
  "linked_stream s \<longleftrightarrow>
     as_conn s = Some 1 \<and> as_gen s = 1 \<and> \<not> as_closed s \<and> as_connectedOnce s \<and> as_settled s \<and> as_marks s = [MarkSuccess]
     \<and> as_open s = [1] \<and> as_workers s = [Reader 1 1 ReaderRead] \<and> as_outClosed s = 0 \<and> as_push s = PushIdle"

lemma linked_served: "linked_stream (served_stream lang frame)"
  by (simp add: linked_stream_def served_stream_def new_session_def)

lemma serve_again:
  assumes "linked_stream s"
  shows "\<exists>s' tr. asr_run m False s (served_events w r s lang frame) = Some s' \<and> linked_stream s' \<and> as_out s' = as_out s @ [tr]
    \<and> sure_final tr \<and> last (as_results s') = None"
  using assms
  by (auto simp: linked_stream_def served_events_def fake_sarvam_def sarvam_hears asr_eval sure_final_def)

lemma close_marks:
  "linked_stream s \<Longrightarrow> \<exists>s'. asr_run m False s (closing_events s) = Some s' \<and> as_marks s' = [MarkSuccess]"
  "\<exists>s. asr_run m False new_session (closing_events new_session) = Some s \<and> as_marks s = [MarkAbort]"
  by (auto simp: closing_events_def linked_stream_def asr_eval numeral_3_eq_3)

lemma same_breaker: "with_asr_breaker (sv_breaker (vc_asr cl)) cl = cl" by (simp add: with_asr_breaker_def)

lemma settle_idle:
  assumes "wired w cl" "drop (length (as_marks s)) (as_marks s') \<in> {[], [MarkSuccess], [MarkAbort]}"
  shows "settle_asr w s s' cl = cl"
  using assms same_breaker by (auto simp: settle_asr_def wired_def)

text \<open>A session that has been opened on the clients and has heard nothing yet.\<close>

definition ready_session :: "fake_world \<Rightarrow> vendor_clients \<Rightarrow> vendor_session \<Rightarrow> bool" where
  "ready_session w cl v \<longleftrightarrow>
     wired w cl \<and> hosts_ok w \<and> vs_clients v = cl \<and> speaking_leg (vs_callerCfg v) (vs_callerLeg v) \<and> ls_out (vs_callerLeg v) = []
     \<and> vs_callerASR v = new_session \<and> vs_agentASR v = new_session \<and> \<not> vs_closed v"

text \<open>A session that has answered \<open>n\<close> frames.\<close>

definition talking :: "fake_world \<Rightarrow> vendor_clients \<Rightarrow> nat \<Rightarrow> vendor_session \<Rightarrow> bool" where
  "talking w cl n v \<longleftrightarrow>
     wired w cl \<and> hosts_ok w \<and> vs_clients v = cl \<and> speaking_leg (vs_callerCfg v) (vs_callerLeg v) \<and> \<not> vs_closed v
     \<and> (if n = 0 then vs_callerASR v = new_session else linked_stream (vs_callerASR v)) \<and> vs_agentASR v = new_session
     \<and> ls_out (vs_callerLeg v) = concat (replicate n (fake_speech cl))"

lemma ready_talking: "ready_session w cl v \<Longrightarrow> talking w cl 0 v"
  by (simp add: ready_session_def talking_def)

lemma serve:
  assumes "talking w cl n v" "0 < m"
  shows "\<exists>s' tr. asr_run m False (vs_callerASR v) (served_events w (vc_asr cl) (vs_callerASR v) lang frame) = Some s' \<and> linked_stream s'
    \<and> as_out s' = as_out (vs_callerASR v) @ [tr] \<and> sure_final tr \<and> last (as_results s') = None"
proof (cases "n = 0")
  case True
  then have "vs_callerASR v = new_session" using assms(1) by (simp add: talking_def)
  moreover have "sure_final (fake_transcript lang frame)" "as_out (served_stream lang frame) = as_out new_session @ [fake_transcript lang frame]"
    "last (as_results (served_stream lang frame)) = None"
    by (simp_all add: sure_final_def fake_transcript_def served_stream_def new_session_def)
  moreover have "sarvam_dial w (vc_asr cl) = None" using assms(1) by (intro sarvam_reached) (simp_all add: talking_def)
  ultimately show ?thesis using serve_first [OF assms(2), of w "vc_asr cl" lang frame] linked_served by auto
next
  case False
  then show ?thesis using assms(1) serve_again by (auto simp: talking_def)
qed

lemma serve_marks: "linked_stream s' \<Longrightarrow> n = 0 \<and> as_marks s = [] \<or> linked_stream s \<Longrightarrow> drop (length (as_marks s)) (as_marks s') \<in> {[], [MarkSuccess], [MarkAbort]}"
  by (auto simp: linked_stream_def)

lemma speech_completes: "guard_of (vendor_env w cl) (Delivers (fake_speech cl)) = Completed"
  by (simp add: guard_of_def forwardTTSWithStallGuard_def fake_speech_def vendor_env_def Let_def)

lemma still_speaking:
  assumes "wired w cl" "hosts_ok w" "speaking_leg c s" "sure_final tr"
  shows "speaking_leg c (leg_step c s (FinalOrPartial tr (vendor_env w cl)))"
proof -
  let ?e = "vendor_env w cl"
  have t: "ue_translate ?e (tr_Text tr) (lg_srcLang c) (lg_dstLang c) (tr_IsFinal tr) =
      Ok \<lparr>mt_Text = englishTranslation, mt_SourceLang = lg_srcLang c, mt_TargetLang = lg_dstLang c, mt_IsFinal = tr_IsFinal tr\<rparr>"
    using assms(3) gpt4o_answers(1) [OF assms(1)] by (simp add: vendor_env_def speaking_leg_def)
  have sp: "ue_synth ?e englishTranslation (persona_Get (lg_personas c) (lg_dstLang c)) = Ok (Delivers (fake_speech cl))"
    using assms(3) by (intro vendor_speaks [OF assms(1,2) english_ne]) (simp add: speaking_leg_def)
  have low: "\<not> low_confidence c tr" using assms(3,4) by (simp add: speaking_leg_def sure_final_def low_confidence_def)
  have fin: "tr_IsFinal tr" "ls_phase s = LegRunning" "\<not> degraded (ls_leg s)" using assms(3,4) by (simp_all add: sure_final_def speaking_leg_def)
  have b: "ue_budget ?e = None" by (simp add: vendor_env_def)
  have "\<not> degraded (ls_leg (fst (handle_final c ?e tr s)))"
    using fin(3) low by (simp add: handle_final_leg t sp speech_completes english_ne recordSuccess_def leg_drained_def Let_def)
  then show ?thesis using assms(3) handle_final_None [OF b, of c tr s] fin by (simp add: speaking_leg_def split_beta)
qed

lemma talking_push:
  assumes "talking w cl n v"
  shows "\<exists>v'. vendor_pushCaller w v frame = (Ok (), v') \<and> talking w cl (Suc n) v'"
proof -
  let ?c = "vs_callerCfg v" and ?s = "vs_callerASR v"
  let ?leg = "leg_step ?c (vs_callerLeg v) (PushAudio (af_PCM frame) (af_SampleRate frame) (fw_at w))"
  have v: "wired w cl" "hosts_ok w" "vs_clients v = cl" "0 < sv_maxReconnectAttempts (vc_asr cl)" "speaking_leg ?c (vs_callerLeg v)"
    using assms by (simp_all add: talking_def wired_def)
  obtain s' tr where s': "asr_run (sv_maxReconnectAttempts (vc_asr cl)) False ?s (served_events w (vc_asr cl) ?s (lg_srcLang ?c) frame) = Some s'"
    "linked_stream s'" "as_out s' = as_out ?s @ [tr]" "sure_final tr" "last (as_results s') = None"
    using serve [OF assms v(4)] by blast
  have leg: "speaking_leg ?c ?leg" "ls_out ?leg = concat (replicate n (fake_speech cl))"
    using assms by (simp_all add: speaking_leg_def talking_def)
  have run: "run_asr cl ?s (served_events w (vc_asr cl) ?s (lg_srcLang ?c) frame) = s'" using s'(1) by (simp add: run_asr_def)
  have marks: "settle_asr w ?s s' cl = cl"
    using assms by (intro settle_idle [OF v(1)] serve_marks [OF s'(2), of n]) (auto simp: talking_def new_session_def split: if_splits)
  have fin: "tr_IsFinal tr" "ls_phase ?leg = LegRunning" using s'(4) leg(1) by (simp_all add: sure_final_def speaking_leg_def)
  from leg_hears [where c = ?c, OF _ fin] have out: "ls_out (leg_step ?c ?leg (FinalOrPartial tr (vendor_env w cl)))
      = concat (replicate n (fake_speech cl)) @ fake_speech cl"
    using leg(2) vendor_heard [OF v(1,2) leg(1) s'(4)] by (simp add: vendor_env_def)
  have same: "clients_after w ?c ?leg tr cl = cl" by (rule clients_after_same [OF v(1,2) leg(1)])
  note speaking = still_speaking [OF v(1,2) leg(1) s'(4)]
  have rep: "concat (replicate n xs) @ xs = concat (replicate (Suc n) xs)" for xs :: "AudioChunk list"
    by (induction n) simp_all
  show ?thesis using v(1-3) assms s'(2,3,5) out same speaking
    by (simp add: vendor_pushCaller_def vendor_push_def vendor_hear_def run marks Let_def talking_def rep
        del: leg_step.simps replicate_Suc)
qed

definition push_frames :: "fake_world \<Rightarrow> vendor_session \<Rightarrow> AudioFrame list \<Rightarrow> unit result list \<times> vendor_session" where
  "push_frames w v frames = foldl (\<lambda>(rs, v) f. let (r, v') = vendor_pushCaller w v f in (rs @ [r], v')) ([], v) frames"

lemma push_frames_talk:
  assumes "talking w cl n v"
  shows "\<exists>v'. foldl (\<lambda>(rs, v) f. let (r, v') = vendor_pushCaller w v f in (rs @ [r], v')) (rs, v) frames = (rs @ replicate (length frames) (Ok ()), v')
    \<and> talking w cl (n + length frames) v'"
  using assms
proof (induction frames arbitrary: n v rs)
  case (Cons f frames)
  obtain v' where v': "vendor_pushCaller w v f = (Ok (), v')" "talking w cl (Suc n) v'" using talking_push [OF Cons.prems] by blast
  show ?case using Cons.IH [OF v'(2), of "rs @ [Ok ()]"] v'(1) by simp
qed simp

lemma sarvam_opens:
  assumes "wired w cl" "(lang, code) \<in> set sarvamLanguageCodes"
  shows "\<exists>p. sarvam_gate (vc_asr cl) (sv_breaker (vc_asr cl)) t lang = (Ok p, sv_breaker (vc_asr cl))"
  using assms by (auto simp: sarvam_gate_def sarvam_StartStream_def start_gate_cases wired_def sarvamLanguageCodes_def)

lemma session_opens:
  assumes "wired w cl" "hosts_ok w"
  shows "\<exists>v. new_vendor_session w cl ''hi'' ''en'' = (Ok v, cl) \<and> ready_session w cl v"
proof -
  obtain p p' where g: "sarvam_gate (vc_asr cl) (sv_breaker (vc_asr cl)) (fw_at w) ''hi'' = (Ok p, sv_breaker (vc_asr cl))"
    "sarvam_gate (vc_asr cl) (sv_breaker (vc_asr cl)) (fw_at w) ''en'' = (Ok p', sv_breaker (vc_asr cl))"
  proof -
    have "\<exists>p. sarvam_gate (vc_asr cl) (sv_breaker (vc_asr cl)) (fw_at w) ''hi'' = (Ok p, sv_breaker (vc_asr cl))"
      by (rule sarvam_opens [OF assms(1), of _ "''hi-IN''"]) (simp add: sarvamLanguageCodes_def)
    moreover have "\<exists>p. sarvam_gate (vc_asr cl) (sv_breaker (vc_asr cl)) (fw_at w) ''en'' = (Ok p, sv_breaker (vc_asr cl))"
      by (rule sarvam_opens [OF assms(1), of _ "''en-IN''"]) (simp add: sarvamLanguageCodes_def)
    ultimately show ?thesis using that by blast
  qed
  have pers: "tts_supports (persona_lang (persona_Get NewPersonaManager ''en''))"
    by (simp add: tts_supports_def tts_languages_def persona_lang_def persona_Get_def NewPersonaManager_def LanguageEnglish_def)
  show ?thesis
    using assms g pers same_breaker [of cl]
    by (simp add: new_vendor_session_def open_session_def NewSession_def session_config_def Let_def vendor_leg_cfg_def
        session_leg_cfg_def ready_session_def speaking_leg_def session_validate_def default_pairs_def
        new_leg_def newLegState_def session_fallback_def)
      (simp add: DefaultFallbackConfig_def)
qed

lemma closing_keeps:
  assumes "wired w cl" "linked_stream s \<or> s = new_session"
  shows "fst (vendor_close_leg w c (cl, leg, s)) = cl"
proof -
  let ?m = "sv_maxReconnectAttempts (vc_asr cl)"
  have "drop (length (as_marks s)) (as_marks (run_asr cl s (closing_events s))) \<in> {[], [MarkSuccess], [MarkAbort]}"
    using assms(2) close_marks(1) [of s ?m] close_marks(2) [of ?m]
    by (auto simp: run_asr_def) (auto simp: linked_stream_def new_session_def)
  then show ?thesis using settle_idle [OF assms(1)] by (simp add: vendor_close_leg_def Let_def)
qed

lemma talking_close:
  assumes "talking w cl n v"
  shows "vs_clients (vendor_Close w v) = cl"
proof -
  have v: "wired w cl" "vs_clients v = cl" "vs_agentASR v = new_session" "linked_stream (vs_callerASR v) \<or> vs_callerASR v = new_session"
    using assms by (auto simp: talking_def split: if_splits)
  obtain a b where r: "vendor_close_leg w (vs_callerCfg v) (cl, vs_callerLeg v, vs_callerASR v) = (cl, a, b)"
    using closing_keeps [OF v(1,4)] by (metis prod.collapse)
  have "fst (vendor_close_leg w (vs_agentCfg v) (cl, vs_agentLeg v, new_session)) = cl"
    by (rule closing_keeps [OF v(1)]) simp
  then show ?thesis using v r by (auto simp: vendor_Close_def Let_def split_beta)
qed

lemma every_frame_answered:
  assumes "ready_session w cl v"
  shows "\<exists>v'. push_frames w v frames = (replicate (length frames) (Ok ()), v')
    \<and> vendor_AgentHears v' = (concat (replicate (length frames) (fake_speech cl)), False)
    \<and> vs_clients (vendor_Close w v') = cl"
proof -
  obtain v' where v': "push_frames w v frames = (replicate (length frames) (Ok ()), v')" "talking w cl (length frames) v'"
    using push_frames_talk [OF ready_talking [OF assms], of "[]" frames] by (auto simp: push_frames_def)
  show ?thesis using v' talking_close [OF v'(2)] by (auto simp: vendor_AgentHears_def talking_def)
qed

lemma ready_push:
  assumes "ready_session w cl v"
  shows "\<exists>v'. vendor_pushCaller w v frame = (Ok (), v') \<and> vendor_AgentHears v' = (fake_speech cl, False)
    \<and> vs_clients (vendor_Close w v') = cl"
proof -
  obtain v' where v': "vendor_pushCaller w v frame = (Ok (), v')" "talking w cl 1 v'"
    using talking_push [OF ready_talking [OF assms], of frame] by auto
  show ?thesis using v' talking_close [OF v'(2)] by (auto simp: vendor_AgentHears_def talking_def)
qed

subsection \<open>The benchmark's iterations\<close>

text \<open>
  \<open>None\<close>: it panics (\<open>make\<close> with a negative size, once there is a session). Every iteration closes
  its session; the clients go on to the next.
\<close>

definition vendor_iteration ::
  "fake_world \<Rightarrow> language \<Rightarrow> language \<Rightarrow> int \<Rightarrow> vendor_clients \<Rightarrow> iteration_times
     \<Rightarrow> (((bool \<times> go_error option) \<times> rec_call list) \<times> vendor_clients) option" where
  "vendor_iteration w callerLang agentLang pcmBytes cl ts =
     (let (res, cl1) = new_vendor_session w cl callerLang agentLang
      in if is_ok res \<and> pcmBytes < 0 then None
         else Some (runIterationWithBackends res (vendor_pushCaller w) vendor_AgentHears (nat pcmBytes) ts,
                case res of Inl e \<Rightarrow> cl1
                | Inr v \<Rightarrow> vs_clients (vendor_Close w (snd (vendor_pushCaller w v (benchmark_frame 16000 (nat pcmBytes)))))))"

definition mock_iteration ::
  "instant \<Rightarrow> language \<Rightarrow> language \<Rightarrow> int \<Rightarrow> unit \<Rightarrow> iteration_times \<Rightarrow> (((bool \<times> go_error option) \<times> rec_call list) \<times> unit) option" where
  "mock_iteration t callerLang agentLang pcmBytes u ts =
     (let res = new_mock_session (benchmark_mocks callerLang agentLang) callerLang agentLang
      in if is_ok res \<and> pcmBytes < 0 then None
         else Some (runIteration res (mock_pushCaller t) mock_AgentHears (nat pcmBytes) ts, ()))"

fun iterations ::
  "('b \<Rightarrow> iteration_times \<Rightarrow> (((bool \<times> go_error option) \<times> rec_call list) \<times> 'b) option) \<Rightarrow> 'b \<Rightarrow> iteration_times list
     \<Rightarrow> ((bool \<times> go_error option) \<times> rec_call list) list option" where
  "iterations step b [] = Some []"
| "iterations step b (ts # tss) =
     (case step b ts of None \<Rightarrow> None | Some (x, b') \<Rightarrow> map_option (Cons x) (iterations step b' tss))"

subsection \<open>The benchmark's main\<close>

record bench_flags =
  bf_iterations :: int
  bf_pcmBytes :: int
  bf_callerLang :: language
  bf_agentLang :: language
  bf_verbose :: bool
  bf_vendorFake :: bool

datatype bench_line = LineError nat go_error | LineHit nat | LineMiss nat

datatype bench_outcome = BenchExit string | BenchFailed go_error | BenchPanic | BenchReport "bench_line list" benchmark

definition iteration_lines :: "bool \<Rightarrow> ((bool \<times> go_error option) \<times> rec_call list) list \<Rightarrow> bench_line list" where
  "iteration_lines verbose xs =
     (if verbose
      then map (\<lambda>(i, x). case fst x of (hit, Some e) \<Rightarrow> LineError i e | (hit, None) \<Rightarrow> if hit then LineHit i else LineMiss i) (enumerate 0 xs)
      else [])"

definition bench_report :: "instant \<Rightarrow> bool \<Rightarrow> ((bool \<times> go_error option) \<times> rec_call list) list option \<Rightarrow> bench_outcome" where
  "bench_report t0 verbose xs =
     (case xs of None \<Rightarrow> BenchPanic | Some xs \<Rightarrow> BenchReport (iteration_lines verbose xs) (run_benchmark t0 xs))"

definition benchmark_main ::
  "(string \<Rightarrow> string) \<Rightarrow> fake_world \<Rightarrow> instant \<Rightarrow> (nat \<Rightarrow> iteration_times) \<Rightarrow> bench_flags \<Rightarrow> bench_outcome" where
  "benchmark_main env w t0 ts fl =
     (let c = bf_callerLang fl; a = bf_agentLang fl; tss = map ts [0..<nat (bf_iterations fl)]
      in if bf_vendorFake fl
         then if c \<noteq> ''hi'' \<or> a \<noteq> ''en'' then BenchExit ''-vendor-fake requires --caller-lang=hi --agent-lang=en''
              else (case fake_clients (setFakeVendorAPIKeys env) (startFakeVendorServers w) of
                      Inl e \<Rightarrow> BenchFailed e
                    | Inr cl \<Rightarrow> bench_report t0 (bf_verbose fl) (iterations (vendor_iteration w c a (bf_pcmBytes fl)) cl tss))
         else bench_report t0 (bf_verbose fl) (iterations (mock_iteration (fw_at w) c a (bf_pcmBytes fl)) () tss))"

subsection \<open>A session that answers a push at once\<close>

locale speaking_session =
  fixes push :: "'s \<Rightarrow> AudioFrame \<Rightarrow> unit result \<times> 's"
    and hears :: "'s \<Rightarrow> AudioChunk list \<times> bool"
    and ready :: "'s \<Rightarrow> bool"
  assumes speaks: "ready s \<Longrightarrow> fst (push s f) = Ok () \<and> fst (hears (snd (push s f))) \<noteq> []"
begin

lemma iteration_hits:
  assumes "ready s"
  shows "run_iteration rate (Ok s) push hears n ts =
     ((it_inTime ts, None), CallRecord ''session_setup_ms'' (it_setup ts)
        # (if it_inTime ts then [CallRecord ''glass_to_glass_ms'' (it_glass ts)] else []) @ [CallRecord ''session_close_ms'' (it_close ts)])"
proof -
  obtain s1 where "push s (benchmark_frame rate n) = (Ok (), s1)" "fst (hears s1) \<noteq> []"
    using speaks [OF assms, of "benchmark_frame rate n"] by (cases "push s (benchmark_frame rate n)") auto
  then show ?thesis by (simp add: run_iteration_def Let_def)
qed

end

lemma ready_speaks:
  assumes "ready_session w cl v"
  shows "fst (vendor_pushCaller w v f) = Ok () \<and> fst (vendor_AgentHears (snd (vendor_pushCaller w v f))) \<noteq> []"
proof -
  obtain v' where "vendor_pushCaller w v f = (Ok (), v')" "vendor_AgentHears v' = (fake_speech cl, False)"
    using ready_push [OF assms] by blast
  then show ?thesis by (simp add: fake_speech_def)
qed

interpretation vfs: speaking_session "vendor_pushCaller w" vendor_AgentHears "ready_session w cl"
  by unfold_locales (rule ready_speaks)

definition sampled_iteration :: "iteration_times \<Rightarrow> (bool \<times> go_error option) \<times> rec_call list" where
  "sampled_iteration ts =
     ((it_inTime ts, None), CallRecord ''session_setup_ms'' (it_setup ts)
        # (if it_inTime ts then [CallRecord ''glass_to_glass_ms'' (it_glass ts)] else []) @ [CallRecord ''session_close_ms'' (it_close ts)])"

lemma vendor_iteration_hits:
  assumes "wired w cl" "hosts_ok w"
  shows "vendor_iteration w ''hi'' ''en'' n cl ts = (if n < 0 then None else Some (sampled_iteration ts, cl))"
proof -
  obtain v where v: "new_vendor_session w cl ''hi'' ''en'' = (Ok v, cl)" "ready_session w cl v" using session_opens [OF assms] by blast
  obtain v' where v': "vendor_pushCaller w v (benchmark_frame 16000 (nat n)) = (Ok (), v')" "vs_clients (vendor_Close w v') = cl"
    using ready_push [OF v(2)] by blast
  show ?thesis using v(1) v' vfs.iteration_hits [OF v(2)]
    by (simp add: vendor_iteration_def runIterationWithBackends_def sampled_iteration_def)
qed

lemma vendor_iterations_hit:
  assumes "wired w cl" "hosts_ok w"
  shows "iterations (vendor_iteration w ''hi'' ''en'' n) cl tss = (if n < 0 \<and> tss \<noteq> [] then None else Some (map sampled_iteration tss))"
  using vendor_iteration_hits [OF assms] by (induction tss) auto

definition in_time :: "iteration_times list \<Rightarrow> int" where
  "in_time tss = int (length (filter it_inTime tss))"

lemma count_sampled:
  "let b' = foldl count_iteration b (map sampled_iteration tss)
   in bm_hits b' = bm_hits b + in_time tss \<and> bm_misses b' = bm_misses b + (int (length tss) - in_time tss) \<and> bm_errs b' = bm_errs b
      \<and> SampleCount (bm_rec b') ''glass_to_glass_ms'' = SampleCount (bm_rec b) ''glass_to_glass_ms'' + in_time tss
      \<and> SampleCount (bm_rec b') ''session_setup_ms'' = SampleCount (bm_rec b) ''session_setup_ms'' + int (length tss)
      \<and> SampleCount (bm_rec b') ''session_close_ms'' = SampleCount (bm_rec b) ''session_close_ms'' + int (length tss)"
proof (induction tss arbitrary: b)
  case (Cons ts tss)
  let ?b = "count_iteration b (sampled_iteration ts)"
  have "bm_hits ?b = bm_hits b + (if it_inTime ts then 1 else 0)" "bm_misses ?b = bm_misses b + (if it_inTime ts then 0 else 1)"
    "bm_errs ?b = bm_errs b"
    "SampleCount (bm_rec ?b) ''glass_to_glass_ms'' = SampleCount (bm_rec b) ''glass_to_glass_ms'' + (if it_inTime ts then 1 else 0)"
    "SampleCount (bm_rec ?b) ''session_setup_ms'' = SampleCount (bm_rec b) ''session_setup_ms'' + 1"
    "SampleCount (bm_rec ?b) ''session_close_ms'' = SampleCount (bm_rec b) ''session_close_ms'' + 1"
    by (simp_all add: count_iteration_def sampled_iteration_def SampleCount_run [of _ "_ # _"] Let_def del: foldl_Cons)
  with Cons.IH [of ?b] show ?case by (simp add: Let_def in_time_def)
qed (simp add: Let_def in_time_def)

subsection \<open>What the mode measures\<close>

text \<open>
  C10: A whole call over the three vendor clients. On any three addresses \<open>main\<close> builds its clients,
  a Hindi-English session opens on them, and whatever frames the caller pushes, one after the other:
  each is accepted, and the agent has heard once per frame exactly the bytes that the fake synthesis
  server sends, in its two chunks, the second one final: through the dial of the recognizer's address,
  its audio message and the server's JSON answer, the translator's HTTP request and event stream, the
  synthesizer's handshake, JSON request, WebSocket frames and base64. After \<open>Close\<close> the clients,
  breakers included, are as before, so the next session finds the same.
\<close>
theorem vendor_fake_speaks:
  assumes "hosts_ok w"
  shows "\<exists>cl v. fake_clients (setFakeVendorAPIKeys env) (startFakeVendorServers w) = Ok cl \<and> new_vendor_session w cl ''hi'' ''en'' = (Ok v, cl)
    \<and> (\<forall>frames. let (rs, v') = push_frames w v frames; (chunks, closed) = vendor_AgentHears v'
         in rs = replicate (length frames) (Ok ()) \<and> \<not> closed
            \<and> map ac_PCM chunks = concat (replicate (length frames) [[1, 2, 3, 4], [5, 6, 7, 8, 9, 10]])
            \<and> map ac_IsFinal chunks = concat (replicate (length frames) [False, True])
            \<and> vs_clients (vendor_Close w v') = cl)"
proof -
  obtain cl where cl: "fake_clients (setFakeVendorAPIKeys env) (startFakeVendorServers w) = Ok cl" "wired w cl"
    using clients_wired [OF assms] by blast
  obtain v where v: "new_vendor_session w cl ''hi'' ''en'' = (Ok v, cl)" "ready_session w cl v"
    using session_opens [OF cl(2) assms] by blast
  have "let (rs, v') = push_frames w v frames; (chunks, closed) = vendor_AgentHears v'
         in rs = replicate (length frames) (Ok ()) \<and> \<not> closed
            \<and> map ac_PCM chunks = concat (replicate (length frames) [[1, 2, 3, 4], [5, 6, 7, 8, 9, 10]])
            \<and> map ac_IsFinal chunks = concat (replicate (length frames) [False, True])
            \<and> vs_clients (vendor_Close w v') = cl" for frames
  proof -
    obtain v' where v': "push_frames w v frames = (replicate (length frames) (Ok ()), v')"
      "vendor_AgentHears v' = (concat (replicate (length frames) (fake_speech cl)), False)" "vs_clients (vendor_Close w v') = cl"
      using every_frame_answered [OF v(2)] by blast
    then show ?thesis by (simp add: map_concat fake_speech_def)
  qed
  with cl(1) v(1) show ?thesis by blast
qed

definition local_world :: fake_world where
  "local_world = \<lparr>fw_sarvam = ''127.0.0.1:4001'', fw_gpt4o = ''127.0.0.1:4002'', fw_cartesia = ''127.0.0.1:4003'',
     fw_rand = [1, 2, 3], fw_key = ''key'', fw_accept = (\<lambda>k. ''hash''), fw_at = 0\<rparr>"

lemma local_hosts: "hosts_ok local_world" by (simp add: hosts_ok_def local_world_def)

theorem vendor_fake_speaks_witness:
  "\<exists>cl v. new_vendor_session local_world cl ''hi'' ''en'' = (Ok v, cl)
     \<and> map ac_PCM (fst (vendor_AgentHears (snd (push_frames local_world v (replicate 2 (benchmark_frame 16000 3000))))))
         = [[1, 2, 3, 4], [5, 6, 7, 8, 9, 10], [1, 2, 3, 4], [5, 6, 7, 8, 9, 10]]"
proof -
  let ?fs = "replicate 2 (benchmark_frame 16000 3000)"
  obtain cl v where v: "new_vendor_session local_world cl ''hi'' ''en'' = (Ok v, cl)"
    and h: "let (rs, v') = push_frames local_world v ?fs; (chunks, closed) = vendor_AgentHears v'
     in rs = replicate (length ?fs) (Ok ()) \<and> \<not> closed
        \<and> map ac_PCM chunks = concat (replicate (length ?fs) [[1, 2, 3, 4], [5, 6, 7, 8, 9, 10]])
        \<and> map ac_IsFinal chunks = concat (replicate (length ?fs) [False, True])
        \<and> vs_clients (vendor_Close local_world v') = cl"
    using vendor_fake_speaks [OF local_hosts, of "\<lambda>v. []"] by blast
  have "map ac_PCM (fst (vendor_AgentHears (snd (push_frames local_world v ?fs))))
      = [[1, 2, 3, 4], [5, 6, 7, 8, 9, 10], [1, 2, 3, 4], [5, 6, 7, 8, 9, 10]]"
    using h by (simp add: split_beta Let_def numeral_2_eq_2)
  then show ?thesis by (intro exI conjI) (rule v)
qed

text \<open>
  C37: The vendor mode of the benchmark measures what the default mode cannot. For Hindi and English
  every iteration whose audio arrives within the timeout is a hit, every other one a miss, none is
  an error, and the report has one end-to-end sample per hit and one setup and one close sample per
  iteration, so the note on the missing samples is printed only when nothing was in time. Other
  languages make it exit before anything starts, and a negative frame size makes it panic in its
  first iteration.
\<close>
theorem vendor_benchmark_hits:
  assumes "hosts_ok w" "bf_vendorFake fl"
  shows "let out = benchmark_main env w t0 ts fl; tss = map ts [0..<nat (bf_iterations fl)] in
    (if (bf_callerLang fl, bf_agentLang fl) \<noteq> (''hi'', ''en'') then out = BenchExit ''-vendor-fake requires --caller-lang=hi --agent-lang=en''
     else if bf_pcmBytes fl < 0 \<and> tss \<noteq> [] then out = BenchPanic
     else \<exists>ls b. out = BenchReport ls b \<and> bm_hits b = in_time tss \<and> bm_misses b = int (length tss) - in_time tss \<and> bm_errs b = 0
       \<and> SampleCount (bm_rec b) ''glass_to_glass_ms'' = in_time tss
       \<and> SampleCount (bm_rec b) ''session_setup_ms'' = int (length tss) \<and> SampleCount (bm_rec b) ''session_close_ms'' = int (length tss)
       \<and> (snd (printReport (bm_rec b)) \<longleftrightarrow> in_time tss = 0)
       \<and> (bf_verbose fl \<longrightarrow> ls = map (\<lambda>i. if it_inTime (ts i) then LineHit i else LineMiss i) [0..<nat (bf_iterations fl)]))"
proof -
  define tss where "tss = map ts [0..<nat (bf_iterations fl)]"
  obtain cl where cl: "fake_clients (setFakeVendorAPIKeys env) (startFakeVendorServers w) = Ok cl" "wired w cl"
    using clients_wired [OF assms(1)] by blast
  have zero: "SampleCount (NewLatencyRecorder t0) s = 0" for s by (simp add: SampleCount_def NewLatencyRecorder_def al_get_def)
  note counts = count_sampled [of "\<lparr>bm_hits = 0, bm_misses = 0, bm_errs = 0, bm_rec = NewLatencyRecorder t0\<rparr>" tss]
  have lines: "iteration_lines True (map sampled_iteration tss) = map (\<lambda>i. if it_inTime (ts i) then LineHit i else LineMiss i) [0..<nat (bf_iterations fl)]"
    by (rule nth_equalityI) (simp_all add: iteration_lines_def nth_enumerate_eq sampled_iteration_def tss_def)
  show ?thesis
    using vendor_iterations_hit [OF cl(2) assms(1), of "bf_pcmBytes fl" tss] counts lines cl(1) assms(2)
    by (auto simp: benchmark_main_def bench_report_def run_benchmark_def Let_def zero printReport_def tss_def [symmetric])
qed

theorem vendor_benchmark_hits_witness:
  "\<exists>ls b. benchmark_main (\<lambda>v. []) local_world 0 (\<lambda>i. \<lparr>it_setup = 1, it_glass = 2, it_close = 1, it_inTime = (i \<noteq> 1)\<rparr>)
      \<lparr>bf_iterations = 3, bf_pcmBytes = 3000, bf_callerLang = ''hi'', bf_agentLang = ''en'', bf_verbose = True, bf_vendorFake = True\<rparr> = BenchReport ls b
    \<and> bm_hits b = 2 \<and> bm_misses b = 1 \<and> ls = [LineHit 0, LineMiss 1, LineHit 2]"
proof -
  let ?fl = "\<lparr>bf_iterations = 3, bf_pcmBytes = 3000, bf_callerLang = ''hi'', bf_agentLang = ''en'', bf_verbose = True, bf_vendorFake = True\<rparr>"
  have fl: "bf_vendorFake ?fl" by simp
  have n: "[0..<nat 3] = [0, 1, 2]" "[0..<3] = [0, 1, 2]" by (simp_all add: upt_rec)
  show ?thesis
    using vendor_benchmark_hits [OF local_hosts fl, of "\<lambda>v. []" 0 "\<lambda>i. \<lparr>it_setup = 1, it_glass = 2, it_close = 1, it_inTime = (i \<noteq> 1)\<rparr>"]
    by (auto simp: Let_def n in_time_def)
qed

end
