(* ===== verification/CallPaths.thy ===== *)
theory CallPaths
  imports VendorFake Peer Duplex TTSPacer
begin

section \<open>A call from one network to the other\<close>

text \<open>
  The two ways into and out of a session, around the session on the vendors' clients: the gateway's
  bridges (A-law packets of a browser, A-law frames to the other browser) and the RTP bridges (clean
  samples of one leg, paced frames to the other). Frames are pushed one after the other and each is
  answered before the next.
\<close>

subsection \<open>What the recognizer's vendor receives\<close>

definition received_audio :: "AudioFrame \<Rightarrow> bytes option" where
  "received_audio frame =
     (case unmarshal_ok sarvam_received_dec ([], [], []) (write_json (sarvam_audio_json (sarvam_audio base64_encode frame))) of
        None \<Rightarrow> None | Some (d, r) \<Rightarrow> map_option (drop 44) (base64_decode d))"

lemma received_audio:
  assumes "36 + length (af_PCM frame) < 2 ^ 32" "0 \<le> af_SampleRate frame" "af_SampleRate frame * 2 < 2 ^ 32"
  shows "received_audio frame = Some (af_PCM frame)"
  using sarvam_wav_header [OF assms] by (simp add: received_audio_def sarvam_audio_received sarvam_audio_def base64_roundtrip Let_def)

lemma frames_received:
  assumes "list_all (\<lambda>f. 36 + length (af_PCM f) < 2 ^ 32 \<and> 0 \<le> af_SampleRate f \<and> af_SampleRate f * 2 < 2 ^ 32) frames"
  shows "map received_audio frames = map (\<lambda>f. Some (af_PCM f)) frames"
  using assms received_audio by (simp add: list_all_iff)

subsection \<open>From browser to browser\<close>

text \<open>The frames written to the other browser's track for the chunks of a session.\<close>

definition gateway_frames :: "AudioChunk list \<Rightarrow> bytes list" where
  "gateway_frames chunks = concat (map outbound_samples chunks)"

lemma outbound_short: "length pcm \<le> 320 \<Longrightarrow> pcm \<noteq> [] \<Longrightarrow> ac_PCM c = pcm \<Longrightarrow> outbound_samples c = [pcm16ToALaw pcm]"
  by (simp add: outbound_samples_def outbound_from.simps [of pcm 0] outbound_from.simps [of pcm 320])

definition coded_speech :: "bytes list" where
  "coded_speech = [pcm16ToALaw [1, 2, 3, 4], pcm16ToALaw [5, 6, 7, 8, 9, 10]]"

lemma gateway_speech: "gateway_frames (concat (replicate n (fake_speech cl))) = concat (replicate n coded_speech)"
proof (induction n)
  case (Suc n)
  have "gateway_frames (fake_speech cl) = coded_speech"
    using outbound_short [of "[1, 2, 3, 4]"] outbound_short [of "[5, 6, 7, 8, 9, 10]"]
    by (simp add: gateway_frames_def fake_speech_def coded_speech_def del: pcm16ToALaw.simps)
  with Suc show ?case by (simp add: gateway_frames_def)
qed (simp add: gateway_frames_def)

lemma track_frames_fit:
  assumes "36 + 2 * length (concat payloads) < 2 ^ 32"
  shows "list_all (\<lambda>f. 36 + length (af_PCM f) < 2 ^ 32 \<and> 0 \<le> af_SampleRate f \<and> af_SampleRate f * 2 < 2 ^ 32)
    (pushed_frames (map RTPPacket payloads @ [RTPReadError]))"
proof -
  let ?fs = "pushed_frames (map RTPPacket payloads @ [RTPReadError])"
  have "length (alawToPCM16 (concat payloads)) = 2 * length (concat payloads)" by (simp add: alaw_lengths)
  then have total: "length (concat (map af_PCM ?fs)) = 2 * length (concat payloads)" by (simp add: pushed_frames_joined)
  have "length (af_PCM f) \<le> length (concat (map af_PCM fs))" if "f \<in> set fs" for f fs
    using that by (induction fs) auto
  with total assms have "f \<in> set ?fs \<Longrightarrow> 36 + length (af_PCM f) < 2 ^ 32" for f by fastforce
  moreover have "f \<in> set ?fs \<Longrightarrow> af_SampleRate f = 8000" for f by (auto simp: pushed_frames_def gw_sampleRate_def)
  ultimately show ?thesis by (simp add: list_all_iff)
qed

text \<open>
  C12: A call through the gateway, from one browser's packets to the other's. Whatever A-law payloads
  the caller's track carries until it ends, on a Hindi-English session over the vendors' clients:
  every frame the inbound bridge pushes is accepted; the recognizer's vendor, reading the JSON, base64
  and WAV it is sent, gets in order exactly the decoding of all payloads; and the agent's browser is
  written, once per frame, the coding of what the synthesis server sent, and nothing else.
\<close>
theorem gateway_call_answers:
  assumes "hosts_ok w" "36 + 2 * length (concat payloads) < 2 ^ 32"
  shows "\<exists>cl v. fake_clients (setFakeVendorAPIKeys env) (startFakeVendorServers w) = Ok cl \<and> new_vendor_session w cl ''hi'' ''en'' = (Ok v, cl)
    \<and> (let frames = pushed_frames (map RTPPacket payloads @ [RTPReadError]); (rs, v') = push_frames w v frames
       in rs = replicate (length frames) (Ok ())
          \<and> map received_audio frames = map (\<lambda>f. Some (af_PCM f)) frames \<and> concat (map af_PCM frames) = alawToPCM16 (concat payloads)
          \<and> gateway_frames (fst (vendor_AgentHears v')) = concat (replicate (length frames) coded_speech))"
proof -
  let ?fs = "pushed_frames (map RTPPacket payloads @ [RTPReadError])"
  obtain cl where cl: "fake_clients (setFakeVendorAPIKeys env) (startFakeVendorServers w) = Ok cl" "wired w cl"
    using clients_wired [OF assms(1)] by blast
  obtain v where v: "new_vendor_session w cl ''hi'' ''en'' = (Ok v, cl)" "ready_session w cl v"
    using session_opens [OF cl(2) assms(1)] by blast
  obtain v' where "push_frames w v ?fs = (replicate (length ?fs) (Ok ()), v')"
    "vendor_AgentHears v' = (concat (replicate (length ?fs) (fake_speech cl)), False)" using every_frame_answered [OF v(2)] by blast
  then show ?thesis using cl(1) v(1) frames_received [OF track_frames_fit [OF assms(2)]]
    by (intro exI [of _ cl] exI [of _ v]) (simp add: Let_def pushed_frames_joined gateway_speech)
qed

theorem gateway_call_answers_witness:
  "\<exists>cl v. new_vendor_session local_world cl ''hi'' ''en'' = (Ok v, cl)
     \<and> gateway_frames (fst (vendor_AgentHears (snd (push_frames local_world v (pushed_frames [RTPPacket [0xD5, 0x55], RTPReadError]))))) = coded_speech"
proof -
  have fs: "pushed_frames [RTPPacket [0xD5, 0x55], RTPReadError] = [\<lparr>af_PCM = alawToPCM16 [0xD5, 0x55], af_SampleRate = gw_sampleRate, af_TimestampMS = 0\<rparr>]"
    by (simp add: pushed_frames_def newInboundBuffer_def ib_add_def ib_flush_def inboundBufferDuration_def gw_sampleRate_def alaw_lengths go_div_nonneg
        Let_def) (simp add: alawToPCM16_def Let_def)
  have "36 + 2 * length (concat [[0xD5, 0x55 :: byte]]) < 2 ^ 32" by simp
  from gateway_call_answers [OF local_hosts this, of "\<lambda>v. []"] obtain cl v where v: "new_vendor_session local_world cl ''hi'' ''en'' = (Ok v, cl)"
    and h: "let frames = pushed_frames (map RTPPacket [[0xD5, 0x55]] @ [RTPReadError]); (rs, v') = push_frames local_world v frames
       in rs = replicate (length frames) (Ok ())
          \<and> map received_audio frames = map (\<lambda>f. Some (af_PCM f)) frames \<and> concat (map af_PCM frames) = alawToPCM16 (concat [[0xD5, 0x55]])
          \<and> gateway_frames (fst (vendor_AgentHears v')) = concat (replicate (length frames) coded_speech)" by blast
  have "gateway_frames (fst (vendor_AgentHears (snd (push_frames local_world v (pushed_frames [RTPPacket [0xD5, 0x55], RTPReadError]))))) = coded_speech"
    using h by (simp add: split_beta Let_def fs)
  then show ?thesis by (intro exI conjI) (rule v)
qed

subsection \<open>From RTP leg to RTP leg\<close>








end
