(* ===== verification/RtpDemo.thy ===== *)
theory RtpDemo
  imports Examples Commands
begin

section \<open>The RTP example over sockets (examples/vsip_example/real_rtp.go)\<close>

text \<open>
  \<open>runRealRTPDemo\<close> over what the network, ClearStream and the session answer. What it acquires it
  releases in deferred calls; the calls come back in the order they are made, the deferred ones last.
\<close>

subsection \<open>The calls\<close>

datatype rtp_call =
  OpenSession | BindSink bool | CloseSink bool | BindProbe | CloseProbe | StartLegs | StopLegs | DialLeg | HangUp
  | SendPacket bytes | EndSession | SetDeadline | AwaitAudio | CancelDemo

text \<open>
  \<open>learnLoopbackAddr\<close> binds a socket, remembers its address and closes it again.
\<close>

definition learnLoopbackAddr :: "string result \<Rightarrow> go_error option \<Rightarrow> string result \<times> rtp_call list" where
  "learnLoopbackAddr bound closeErr =
     (case bound of
        Inl e \<Rightarrow> (Err e, [])
      | Inr addr \<Rightarrow> (case closeErr of Some e \<Rightarrow> Err e | None \<Rightarrow> Ok addr, [BindProbe, CloseProbe]))"

record ('s, 'sup, 'log, 'd) demo_world =
  dw_session :: "'s result"
  dw_callerSink :: "string result"
  dw_agentSink :: "string result"
  dw_probe :: "string result"
  dw_probeClose :: "go_error option"
  dw_suppressor :: "bool \<Rightarrow> 'sup result"
  dw_log :: 'log
  dw_duplex :: "('sup, 'log) LegConfig \<Rightarrow> ('sup, 'log) LegConfig \<Rightarrow> 's \<Rightarrow> 'd result"
  dw_dial :: "string \<Rightarrow> go_error option"
  dw_send :: "nat \<Rightarrow> go_error option"
  dw_end :: "go_error option"
  dw_deadline :: "go_error option"
  dw_read :: "nat result"

text \<open>
  One step of a function with deferred calls: if \<open>r\<close> is an error, it returns it wrapped and runs
  what is deferred; otherwise it goes on. \<open>step_err\<close> is the same for a call without a result.
\<close>

type_synonym demo_result = "go_error option \<times> rtp_call list"

definition step :: "string \<Rightarrow> rtp_call list \<Rightarrow> 'a result \<Rightarrow> ('a \<Rightarrow> demo_result) \<Rightarrow> demo_result" where
  "step msg deferred r k = (case r of Inl e \<Rightarrow> (Some (ErrWrap (''real RTP demo: '' @ msg) e), deferred) | Inr x \<Rightarrow> k x)"

definition step_err :: "string \<Rightarrow> rtp_call list \<Rightarrow> go_error option \<Rightarrow> demo_result \<Rightarrow> demo_result" where
  "step_err msg deferred r k = (case r of Some e \<Rightarrow> (Some (ErrWrap (''real RTP demo: '' @ msg) e), deferred) | None \<Rightarrow> k)"

definition after :: "rtp_call list \<Rightarrow> demo_result \<Rightarrow> demo_result" where
  "after cs r = (fst r, cs @ snd r)"

subsection \<open>The packets\<close>

definition demo_packet :: "nat \<Rightarrow> bytes" where
  "demo_packet i = buildRawRTPPacket (of_nat i) (of_nat (i * 160)) 0xC0FFEE (replicate 160 0xFF)"

text \<open>Those sent up to the first failure, and that failure with its index.\<close>

fun send_packets :: "(nat \<Rightarrow> go_error option) \<Rightarrow> nat list \<Rightarrow> rtp_call list \<times> (nat \<times> go_error) option" where
  "send_packets send [] = ([], None)"
| "send_packets send (i # is) =
     (case send i of
        Some e \<Rightarrow> ([SendPacket (demo_packet i)], Some (i, e))
      | None \<Rightarrow> (let (cs, r) = send_packets send is in (SendPacket (demo_packet i) # cs, r)))"

subsection \<open>The demo\<close>

definition demo_leg :: "string \<Rightarrow> string \<Rightarrow> 'sup \<Rightarrow> 'log \<Rightarrow> ('sup, 'log) LegConfig" where
  "demo_leg listen forward noise logger =
     \<lparr>lc_ListenAddr = listen, lc_ForwardAddr = forward, lc_ForwardAddrs = [], lc_PayloadType = 0, lc_JitterDepth = 0,
      lc_Suppressor = Some noise, lc_Logger = Some logger, lc_CleanAudioBufferSize = 0\<rparr>"

definition runRealRTPDemo :: "('s, 'sup, 'log, 'd) demo_world \<Rightarrow> demo_result" where
  "runRealRTPDemo w =
     (let d0 = [CancelDemo]; d1 = CloseSink True # d0; d2 = CloseSink False # d1; d3 = StopLegs # d2; d4 = HangUp # d3
      in step ''creating session'' d0 (dw_session w) (\<lambda>s. after [OpenSession]
         (step ''binding caller sink'' d0 (dw_callerSink w) (\<lambda>callerAddr. after [BindSink True]
         (step ''binding agent sink'' d1 (dw_agentSink w) (\<lambda>agentAddr. after [BindSink False]
         (let (probe, cs) = learnLoopbackAddr (dw_probe w) (dw_probeClose w)
          in after cs (step ''learning caller listen address'' d2 probe (\<lambda>listenAddr.
         (step ''constructing caller leg suppressor'' d2 (dw_suppressor w True) (\<lambda>callerSup.
         (step ''constructing agent leg suppressor'' d2 (dw_suppressor w False) (\<lambda>agentSup.
         (step ''constructing DuplexSession'' d2
            (dw_duplex w (demo_leg listenAddr callerAddr callerSup (dw_log w)) (demo_leg ''127.0.0.1:0'' agentAddr agentSup (dw_log w)) s)
            (\<lambda>duplex. after [StartLegs]
         (step_err ''dialing caller leg'' d3 (dw_dial w listenAddr) (after [DialLeg]
         (let (cs, r) = send_packets (dw_send w) [0..<6]
          in after cs
               (case r of
                  Some (i, e) \<Rightarrow> (Some (ErrWrap (''real RTP demo: sending simulated caller RTP packet '' @ show_nat i) e), d4)
                | None \<Rightarrow> after [EndSession]
                   (step_err ''closing session'' d4 (dw_end w)
                   (after [SetDeadline] (step_err ''setting read deadline'' d4 (dw_deadline w) (after [AwaitAudio]
                   (step ''expected synthesized bot audio on the agent leg's forward socket'' d4 (dw_read w)
                      (\<lambda>k. (None, d4))))))))))))))))))))))))))"

subsection \<open>What it releases\<close>

lemma send_packets_calls:
  "send_packets send is = (cs, r) \<Longrightarrow>
     set cs \<subseteq> range SendPacket \<and> (r = None \<longrightarrow> cs = map (\<lambda>i. SendPacket (demo_packet i)) is)"
  by (induction "is" arbitrary: cs r) (auto split: option.splits prod.splits)

lemma no_packet_count: "set cs \<subseteq> range SendPacket \<Longrightarrow> c \<notin> range SendPacket \<Longrightarrow> count_list cs c = 0"
  by (auto simp: count_list_0_iff)

definition acquired :: "(rtp_call \<times> rtp_call) list" where
  "acquired = [(BindSink True, CloseSink True), (BindSink False, CloseSink False), (BindProbe, CloseProbe), (StartLegs, StopLegs), (DialLeg, HangUp)]"

definition balanced :: "rtp_call list \<Rightarrow> bool" where
  "balanced calls \<longleftrightarrow> list_all (\<lambda>(a, b). count_list calls a = count_list calls b \<and> count_list calls a \<le> 1) acquired"

definition demo_ok :: "demo_result \<Rightarrow> bool" where
  "demo_ok x \<longleftrightarrow>
     (let (r, calls) = x in
        calls \<noteq> [] \<and> last calls = CancelDemo \<and> count_list calls CancelDemo = 1 \<and> balanced calls
        \<and> (EndSession \<in> set calls \<longrightarrow> (\<forall>i < 6. SendPacket (demo_packet i) \<in> set calls))
        \<and> (r = None \<longrightarrow> calls = [OpenSession, BindSink True, BindSink False, BindProbe, CloseProbe, StartLegs, DialLeg] @ map (\<lambda>i. SendPacket (demo_packet i)) [0..<6]
             @ [EndSession, SetDeadline, AwaitAudio, HangUp, StopLegs, CloseSink False, CloseSink True, CancelDemo]))"

text \<open>A step keeps it if returning there and going on do.\<close>

lemma step_ok:
  "(\<And>e. demo_ok (Some e, pre @ d)) \<Longrightarrow> (\<And>x. demo_ok (after pre (k x))) \<Longrightarrow> demo_ok (after pre (step msg d r k))"
  "(\<And>e. demo_ok (Some e, pre @ d)) \<Longrightarrow> demo_ok (after pre m) \<Longrightarrow> demo_ok (after pre (step_err msg d o1 m))"
  "demo_ok (after (pre @ cs) m) \<Longrightarrow> demo_ok (after pre (after cs m))"
  by (auto simp: step_def step_err_def after_def split: sum.split option.split)

lemma packets_ok:
  assumes "\<And>cs e. set cs \<subseteq> range SendPacket \<Longrightarrow> demo_ok (Some e, pre @ cs @ d)"
    "demo_ok (after (pre @ map (\<lambda>i. SendPacket (demo_packet i)) is) m)"
  shows "demo_ok (after pre (let (cs, r) = send_packets send is
    in after cs (case r of Some (i, e) \<Rightarrow> (Some (f i e), d) | None \<Rightarrow> m)))"
proof -
  obtain cs r where c: "send_packets send is = (cs, r)" by (cases "send_packets send is")
  show ?thesis using send_packets_calls [OF c] assms by (auto simp: c after_def split: option.split)
qed

lemma probe_ok:
  assumes "\<And>e. demo_ok (Some e, pre @ d)" "\<And>e. demo_ok (Some e, (pre @ [BindProbe, CloseProbe]) @ d)"
    "\<And>x. demo_ok (after (pre @ [BindProbe, CloseProbe]) (k x))"
  shows "demo_ok (after pre (let (probe, cs) = learnLoopbackAddr bound closeErr in after cs (step msg d probe k)))"
  using assms by (auto simp: learnLoopbackAddr_def after_def step_def split: sum.split option.split)

lemmas demo_ok_eval = demo_ok_def balanced_def acquired_def no_packet_count image_iff

lemma demo_run_ok: "demo_ok (after [] (runRealRTPDemo w))"
  unfolding runRealRTPDemo_def Let_def [of "[CancelDemo]"] Let_def [of "CloseSink b # l" for b l] Let_def [of "StopLegs # l" for l] Let_def [of "HangUp # l" for l]
  by (intro step_ok packets_ok probe_ok; (simp add: demo_ok_eval after_def)?; (auto simp: image_iff)?)

text \<open>It succeeds exactly if every call it makes does.\<close>

lemma no_error:
  "fst (step msg d r k) = None \<longleftrightarrow> (\<exists>x. r = Ok x \<and> fst (k x) = None)"
  "fst (step_err msg d o1 m) = None \<longleftrightarrow> o1 = None \<and> fst m = None"
  "fst (after cs m) = fst m"
  by (auto simp: step_def step_err_def after_def split: sum.split option.split)

lemma packets_no_error:
  "fst (let (cs, r) = send_packets send is
        in after cs (case r of Some (i, e) \<Rightarrow> (Some (f i e), d) | None \<Rightarrow> m)) = None
     \<longleftrightarrow> (\<forall>i \<in> set is. send i = None) \<and> fst m = None"
  by (induction "is") (auto simp: no_error Let_def split: option.splits prod.splits)

lemma probe_no_error:
  "fst (let (probe, cs) = learnLoopbackAddr bound closeErr in after cs (step msg d probe k)) = None
     \<longleftrightarrow> closeErr = None \<and> (\<exists>x. bound = Ok x \<and> fst (k x) = None)"
  by (auto simp: learnLoopbackAddr_def no_error split: sum.split option.split)

definition demo_succeeds :: "('s, 'sup, 'log, 'd) demo_world \<Rightarrow> bool" where
  "demo_succeeds w \<longleftrightarrow>
     (\<exists>s callerAddr agentAddr listenAddr callerSup agentSup d n.
        dw_session w = Ok s \<and> dw_callerSink w = Ok callerAddr \<and> dw_agentSink w = Ok agentAddr
        \<and> dw_probe w = Ok listenAddr \<and> dw_probeClose w = None
        \<and> dw_suppressor w True = Ok callerSup \<and> dw_suppressor w False = Ok agentSup
        \<and> dw_duplex w (demo_leg listenAddr callerAddr callerSup (dw_log w))
            (demo_leg ''127.0.0.1:0'' agentAddr agentSup (dw_log w)) s = Ok d
        \<and> dw_dial w listenAddr = None \<and> (\<forall>i < 6. dw_send w i = None)
        \<and> dw_end w = None \<and> dw_deadline w = None \<and> dw_read w = Ok n)"

lemma demo_no_error: "fst (runRealRTPDemo w) = None \<longleftrightarrow> demo_succeeds w"
  unfolding runRealRTPDemo_def Let_def [of "[CancelDemo]"] Let_def [of "CloseSink b # l" for b l] Let_def [of "StopLegs # l" for l] Let_def [of "HangUp # l" for l]
    no_error probe_no_error packets_no_error demo_succeeds_def
  by auto

text \<open>
  C40: The demo releases what it acquires, whatever fails. Every socket it binds, the probe that
  learns the listening address included, is closed once, the legs are stopped once if they were
  started, the sender is hung up if it was dialled, and its context is cancelled last. It reports no
  error exactly if every call succeeded: the session, the three sockets, the probe's close, both
  suppressors, the legs on the addresses learnt, the dial, all six packets, the session's close, the
  read deadline and the read. It has then sent the six packets, closed the session before it waits for
  the audio, and released everything in the reverse order. The session itself is closed only after all
  six packets were sent: any earlier failure leaves it to the cancelled context.
\<close>
theorem rtp_demo_releases:
  "let (r, calls) = runRealRTPDemo w in
     calls \<noteq> [] \<and> last calls = CancelDemo \<and> count_list calls CancelDemo = 1 \<and> balanced calls
     \<and> (EndSession \<in> set calls \<longrightarrow> (\<forall>i < 6. SendPacket (demo_packet i) \<in> set calls))
     \<and> (r = None \<longleftrightarrow>
          (\<exists>s callerAddr agentAddr listenAddr callerSup agentSup d n.
             dw_session w = Ok s \<and> dw_callerSink w = Ok callerAddr \<and> dw_agentSink w = Ok agentAddr
             \<and> dw_probe w = Ok listenAddr \<and> dw_probeClose w = None
             \<and> dw_suppressor w True = Ok callerSup \<and> dw_suppressor w False = Ok agentSup
             \<and> dw_duplex w (demo_leg listenAddr callerAddr callerSup (dw_log w))
                 (demo_leg ''127.0.0.1:0'' agentAddr agentSup (dw_log w)) s = Ok d
             \<and> dw_dial w listenAddr = None \<and> (\<forall>i < 6. dw_send w i = None)
             \<and> dw_end w = None \<and> dw_deadline w = None \<and> dw_read w = Ok n))
     \<and> (r = None \<longrightarrow> calls = [OpenSession, BindSink True, BindSink False, BindProbe, CloseProbe, StartLegs, DialLeg] @ map (\<lambda>i. SendPacket (demo_packet i)) [0..<6]
          @ [EndSession, SetDeadline, AwaitAudio, HangUp, StopLegs, CloseSink False, CloseSink True, CancelDemo])"
  using demo_run_ok [of w] demo_no_error [of w] unfolding demo_succeeds_def by (auto simp: demo_ok_def after_def)

definition loopback_world :: "(unit, unit, unit, unit) demo_world" where
  "loopback_world =
     \<lparr>dw_session = Ok (), dw_callerSink = Ok ''127.0.0.1:5001'', dw_agentSink = Ok ''127.0.0.1:5002'', dw_probe = Ok ''127.0.0.1:5003'',
      dw_probeClose = None, dw_suppressor = (\<lambda>b. Ok ()), dw_log = (), dw_duplex = (\<lambda>c a s. Ok ()), dw_dial = (\<lambda>a. None), dw_send = (\<lambda>i. None),
      dw_end = None, dw_deadline = None, dw_read = Ok 332\<rparr>"

theorem rtp_demo_releases_witness:
  "snd (runRealRTPDemo loopback_world) = [OpenSession, BindSink True, BindSink False, BindProbe, CloseProbe, StartLegs, DialLeg]
     @ map (\<lambda>i. SendPacket (demo_packet i)) [0..<6]
     @ [EndSession, SetDeadline, AwaitAudio, HangUp, StopLegs, CloseSink False, CloseSink True, CancelDemo]
   \<and> fst (runRealRTPDemo (loopback_world\<lparr>dw_dial := (\<lambda>a. Some ErrContext)\<rparr>)) \<noteq> None"
proof -
  have none: "send_packets (\<lambda>i. None) is = (map (\<lambda>i. SendPacket (demo_packet i)) is, None)" for "is"
    by (induction "is") simp_all
  have "fst (runRealRTPDemo loopback_world) = None"
    by (simp add: runRealRTPDemo_def loopback_world_def step_def step_err_def after_def learnLoopbackAddr_def none)
  then have "snd (runRealRTPDemo loopback_world) = [OpenSession, BindSink True, BindSink False, BindProbe, CloseProbe, StartLegs, DialLeg]
     @ map (\<lambda>i. SendPacket (demo_packet i)) [0..<6]
     @ [EndSession, SetDeadline, AwaitAudio, HangUp, StopLegs, CloseSink False, CloseSink True, CancelDemo]"
    using rtp_demo_releases [of loopback_world] by (simp add: split_beta Let_def)
  moreover have "fst (runRealRTPDemo (loopback_world\<lparr>dw_dial := (\<lambda>a. Some ErrContext)\<rparr>)) \<noteq> None"
    by (simp add: runRealRTPDemo_def loopback_world_def step_def step_err_def after_def learnLoopbackAddr_def)
  ultimately show ?thesis by blast
qed

end
