(* ===== verification/Spec2Isabelle.thy ===== *)
theory Spec2Isabelle
  imports JitterRuns TTSPacer Duplex Breaker MetricsProps SessionLegProps Session Mocks Alaw RoomsProps Peer Qa Vad Cli Commands WsFrame Translators Synthesizers AsrVendors AsrBreaker Dashboard EndToEnd Examples TranslationCorpus HostedLeg VendorFake CallPaths RtpDemo
begin

text \<open>
  LangStream: a verification development.

  LangStream translates a phone call while it is spoken. A \<^emph>\<open>session\<close> has two legs (caller and
  agent); each leg pushes the audio of its side into a streaming recognizer, gives every final
  transcript to a translator, the translation to a synthesizer, and the synthesized audio to the other
  side. When a stage fails the leg forwards the original audio instead, and it degrades to that for
  good after too many failures. Audio comes and goes over RTP (package \<open>rtp\<close>) or through a WebRTC
  gateway (package \<open>webrtcgw\<close>); the vendors' clients are in \<open>asr\<close>, \<open>translate\<close> and \<open>tts\<close>, each call
  guarded by a circuit breaker; all stages report to one metrics recorder (\<open>observability\<close>).

  \<^bold>\<open>Theories and sources.\<close>

  \<^item> \<open>Prelude\<close>, \<open>Media\<close>: bytes and words, Go's division, maps as association lists, strings, errors as
    values, the media types of the three \<open>interface.go\<close>, samples to bytes.
  \<^item> \<open>Jitter\<close>, \<open>JitterRuns\<close> (pkg/rtp/jitter.go): the buffer as a record, \<open>Push\<close> and \<open>Pull\<close> as functions
    on it, runs of them; order, accounting, deadlines and their wrap-around on 32 and 16 bits.
  \<^item> \<open>TTSPacer\<close>, \<open>Duplex\<close> (pkg/rtp/duplex.go): re-chunking, the two goroutines of the pacing bridge as a
    step relation over any buffer that keeps the locale's laws, the session's life cycle.
  \<^item> \<open>Breaker\<close> (the three circuitbreaker.go and backoff.go): the breaker, its contract as a locale, the
    three-state machine it refines, and the backoff on 64-bit integers.
  \<^item> \<open>Metrics\<close>, \<open>MetricsProps\<close>, \<open>Dashboard\<close> (pkg/observability): counters, percentiles, cost, the text
    exposition; the dashboard's page with its escaping, its routes and the server's limits.
  \<^item> \<open>Fallback\<close>, \<open>SessionLeg\<close>, \<open>SessionLegProps\<close>, \<open>Session\<close> (pkg/langstream): the degradation policy,
    the leg's handling of one transcript with every branch, the dead leg, opening and closing.
  \<^item> \<open>Retry\<close>, \<open>Translators\<close>, \<open>WsFrame\<close>, \<open>Synthesizers\<close> (pkg/translate, pkg/tts): the retry loop and the
    breaker protocol that stand in four places; requests, event streams, costs of GPT-4o and Gemini;
    WebSocket frames and handshake; both synthesizers with their read loops. \<open>HostedLeg\<close>: both legs
    of a session on one such translator.
  \<^item> \<open>AsrSession\<close>, \<open>AsrVendors\<close> (pkg/asr/deepgram.go, sarvam.go): the concurrent recognizer session as a
    machine over its locked sections; what the two vendors send and read. \<open>AsrBreaker\<close>: opening
    sessions on a recognizer, with the breaker threaded through the calls of \<open>NewSession\<close>.
  \<^item> \<open>Json\<close>, \<open>Wire\<close>: encoding/json and encoding/base64 as far as the code uses them (printer, parser,
    struct decoders, with their round trips), and the vendors' messages by the struct tags; they are
    what the decoding arguments of the theories on the vendors stand for.
  \<^item> \<open>VendorFake\<close> (tools/latency_benchmark): the fake vendor servers, and a whole session on the three
    real clients wired to them, each dialled under the address it was given. \<open>CallPaths\<close>: such a session between the gateway's bridges and between
    the RTP bridges, from the packets of one side to those of the other.
  \<^item> \<open>Mocks\<close> (the mock backends), \<open>Cli\<close> (registry, voices), \<open>Flags\<close> (the flag package as the commands
    use it), \<open>Commands\<close>, \<open>EndToEnd\<close>, \<open>Examples\<close>, \<open>RtpDemo\<close> (cmd/langstream, tools/latency_benchmark, examples):
    the subcommands, and whole calls with the mock backends in one and in both directions.
  \<^item> \<open>Alaw\<close>, \<open>Peer\<close>, \<open>Rooms\<close>, \<open>RoomsProps\<close> (pkg/webrtcgw): the codec, the audio bridges and signaling of a
    peer, and the rooms under every interleaving of joins, leaves and idle timers.
  \<^item> \<open>Qa\<close> (word error rate, BLEU), \<open>Corpus\<close>, \<open>TranslationCorpus\<close> (the two evaluation corpora with the
    score of every entry), \<open>Vad\<close> (voice activity).

  \<^bold>\<open>How the code is modelled.\<close> A struct is a record, an error a value of \<open>go_error\<close> in a sum, a
  mutex-protected section one step, a goroutine a program counter in the state; time, randomness, the
  network and cryptography are arguments; JSON and base64 are arguments of the vendors' theories
  and definitions in \<open>Json\<close> and \<open>Wire\<close>. A Go map that is ranged over is an
  association list. Integers keep their width where it matters (sequence numbers, timestamps, samples,
  backoff, frame lengths); elsewhere they are unbounded, which is right as long as no counter passes its
  type (the failures of a leg are an \<open>int32\<close>, the statistics are \<open>int\<close>). A \<open>float64\<close> is a real, so rounding
  is not modelled, and its conversion to an integer truncates without the overflow that Go leaves open.
  \<open>PushAudio\<close> loads its connection and writes to it in one step.

  \<^bold>\<open>What the lemmas show.\<close> Each theory gives its operations' invariant and their behaviour branch by
  branch, and the properties rest on those lemmas. Interfaces are locales with an interpretation on
  the code's model: the breaker (\<open>cb\<close>, used by the retry loop), the buffer the pacing bridge needs
  and the fallback source need (\<open>jbp\<close> the jitter buffer, \<open>rb\<close> the audio ring), the recorder the
  stages report to (\<open>lr\<close>), the name tables of the registry, the gate of a recognizer (\<open>dgg\<close>, \<open>svg\<close>)
  and the session that the programs drive (\<open>mks\<close>, the mock session; \<open>mkd\<close>, both of its directions;
  \<open>vfs\<close>, the session on the vendors' clients). Several
  lemmas are about behaviour the comments do not promise or deny: a deadline that wraps after
  32768 packets, a probe slot released by a stale verdict, a late second \<open>leave\<close>, a join of a closed
  room, connect timeouts that the breaker never sees, broken streams counted by where they break, a
  connection attached to a closed session, reconnects that never happen, flushed results that are lost,
  a tripped recognizer on which no session can be opened again, a benchmark that cannot hit.

  \<^bold>\<open>Bounds and fuel.\<close> Every loop is structural or has a measure (the bytes still to read, the
  attempts left, the lines left), except that the JSON parser has a bound on its nesting, twice the
  length of the text and two, which \<open>json_parse_bound\<close> shows never to decide. The retry loop runs at most three times. Backoff is proved
  for bases up to \<open>2^42\<close> and caps up to \<open>2^61\<close> nanoseconds, far above the constants of the code.

  \<^bold>\<open>Not modelled.\<close> The embedded static page, the texts the commands print and logging: input and
  output around the modelled code. Third-party code (pion, gorilla/websocket, clearstream) is a
  parameter. Unicode beyond ASCII is not folded or trimmed; rune counts assume valid UTF-8.
\<close>

section \<open>Properties that span components\<close>

text \<open>
  C25: Failures reach the dashboard. Handling one final transcript, while the session is not
  shutting down, raises the recorder's event counter of the translate stage by one exactly when the
  translator is asked and its error counter exactly when the translation also fails; and the same
  for the tts stage, where a stall is a failure. No fallback is silent and nothing is counted twice.
\<close>
theorem leg_failures_reach_dashboard:
  assumes "ue_budget e = None" "tr_IsFinal tr" "ls_phase s = LegRunning"
  shows "let s' = leg_step c s (FinalOrPartial tr e);
             r' = foldl rec_apply r (drop (length (ls_calls s)) (ls_calls s'));
             mt = vendor_or_unknown (lg_MTName c); tts = vendor_or_unknown (lg_TTSName c); leg = ls_leg s
    in EventCount r' stageTranslate mt = EventCount r stageTranslate mt + (if mt_asked c tr leg then 1 else 0)
       \<and> ErrorCount r' stageTranslate mt = ErrorCount r stageTranslate mt
           + (if mt_asked c tr leg \<and> \<not> is_ok (mt_answer c e tr) then 1 else 0)
       \<and> EventCount r' stageTTS tts = EventCount r stageTTS tts + (if tts_asked c e tr leg then 1 else 0)
       \<and> ErrorCount r' stageTTS tts = ErrorCount r stageTTS tts
           + (if tts_asked c e tr leg \<and> tts_failed c e tr then 1 else 0)"
proof -
  obtain new where "ls_calls (fst (handle_final c e tr s)) = ls_calls s @ new"
    and counts: "calls_count new stageTranslate (vendor_or_unknown (lg_MTName c))
        (if mt_asked c tr (ls_leg s) \<and> \<not> is_ok (mt_answer c e tr) then 1 else 0) (if mt_asked c tr (ls_leg s) then 1 else 0)"
      "calls_count new stageTTS (vendor_or_unknown (lg_TTSName c))
        (if tts_asked c e tr (ls_leg s) \<and> tts_failed c e tr then 1 else 0) (if tts_asked c e tr (ls_leg s) then 1 else 0)"
    using handle_final_calls [OF assms(1)] by blast
  then have "drop (length (ls_calls s)) (ls_calls (leg_step c s (FinalOrPartial tr e))) = new"
    using assms(2,3) handle_final_None [OF assms(1), of c tr s] by (simp add: split_beta)
  with counts show ?thesis
    by (simp add: Let_def lr.fold_errors lr.fold_events calls_count_def del: leg_step.simps)
qed

theorem leg_failures_reach_dashboard_witness:
  "ErrorRate (foldl rec_apply (NewLatencyRecorder 0)
     (ls_calls (leg_step demo_cfg (new_leg ''caller'')
        (FinalOrPartial demo_tr (demo_env (\<lambda>t s d f. Err (ErrNew ''down'')) demo_tts))))) ''translate'' ''mock'' = 1"
proof -
  let ?e = "demo_env (\<lambda>t s d f. Err (ErrNew ''down'')) demo_tts"
  have "ue_budget ?e = None" "tr_IsFinal demo_tr" "ls_phase (new_leg ''caller'') = LegRunning"
    by (simp_all add: demo_env_def demo_tr_def new_leg_def)
  from leg_failures_reach_dashboard [OF this, of demo_cfg "NewLatencyRecorder 0"] show ?thesis
    by (simp add: Let_def ErrorRate_def mt_asked_def mt_answer_def low_confidence_def new_leg_def newLegState_def
        demo_cfg_def demo_env_def demo_tr_def DefaultFallbackConfig_def stage_defs vendor_or_unknown_def
        del: leg_step.simps)
qed

end
